(* ===== verification/Prelude.thy ===== *)
theory Prelude
  imports Main "HOL-Library.Sublist"
begin

text \<open>
  Shared vocabulary of the development: the string operations of Go's standard library that
  the backend uses (strings are byte sequences, so a \<open>string\<close> here is the UTF-8 encoding of
  the Go string), generic list lemmas, and the collections the component proofs draw from.
\<close>

named_theorems go_simps "equations that compute the string helpers"
named_theorems sql_defs "definitions of the SQL statements"

type_synonym time = int
type_synonym uuid = string

section \<open>Bytes and characters\<close>

definition byte :: "char \<Rightarrow> int" where
  "byte c = of_char c"

definition is_digit :: "char \<Rightarrow> bool" where
  "is_digit c \<longleftrightarrow> 48 \<le> byte c \<and> byte c \<le> 57"

definition is_upper :: "char \<Rightarrow> bool" where
  "is_upper c \<longleftrightarrow> 65 \<le> byte c \<and> byte c \<le> 90"

definition is_lower :: "char \<Rightarrow> bool" where
  "is_lower c \<longleftrightarrow> 97 \<le> byte c \<and> byte c \<le> 122"

definition is_alpha :: "char \<Rightarrow> bool" where
  "is_alpha c \<longleftrightarrow> is_upper c \<or> is_lower c"

definition is_hex :: "char \<Rightarrow> bool" where
  "is_hex c \<longleftrightarrow> is_digit c \<or> (97 \<le> byte c \<and> byte c \<le> 102) \<or> (65 \<le> byte c \<and> byte c \<le> 70)"

section \<open>strings.HasPrefix, TrimPrefix, Contains, Split, ReplaceAll\<close>

definition has_prefix :: "string \<Rightarrow> string \<Rightarrow> bool" where
  "has_prefix p s \<longleftrightarrow> take (length p) s = p"

definition trim_prefix :: "string \<Rightarrow> string \<Rightarrow> string" where
  "trim_prefix p s = (if has_prefix p s then drop (length p) s else s)"

definition has_suffix :: "string \<Rightarrow> string \<Rightarrow> bool" where
  "has_suffix p s \<longleftrightarrow> has_prefix (rev p) (rev s)"

fun contains_sub :: "string \<Rightarrow> string \<Rightarrow> bool" where
  "contains_sub p [] = (p = [])"
| "contains_sub p (c # cs) = (has_prefix p (c # cs) \<or> contains_sub p cs)"

fun split_on :: "char \<Rightarrow> string \<Rightarrow> string list" where
  "split_on d [] = [[]]"
| "split_on d (c # cs) =
     (if c = d then [] # split_on d cs
      else (case split_on d cs of [] \<Rightarrow> [[c]] | w # ws \<Rightarrow> (c # w) # ws))"

text \<open>\<open>strings.Join(words, sep)\<close>\<close>

fun join_with :: "string \<Rightarrow> string list \<Rightarrow> string" where
  "join_with d [] = []"
| "join_with d [v] = v"
| "join_with d (v # vs) = v @ d @ join_with d vs"

definition trim_char :: "char \<Rightarrow> string \<Rightarrow> string" where
  "trim_char d s = rev (dropWhile (\<lambda>c. c = d) (rev (dropWhile (\<lambda>c. c = d) s)))"

definition remove_char :: "char \<Rightarrow> string \<Rightarrow> string" where
  "remove_char d s = filter (\<lambda>c. c \<noteq> d) s"

lemma has_prefix_iff: "has_prefix p s \<longleftrightarrow> (\<exists>t. s = p @ t)"
  by (metis append_eq_conv_conj append_take_drop_id has_prefix_def)

lemma has_prefix_append [simp]: "has_prefix p (p @ t)"
  by (simp add: has_prefix_def)

lemma trim_prefix_append [simp]: "trim_prefix p (p @ t) = t"
  by (simp add: trim_prefix_def)

lemma remove_char_idem [simp]: "remove_char d (remove_char d s) = remove_char d s"
  by (simp add: remove_char_def)

lemma in_dropWhile: "x \<in> set (dropWhile P s) \<Longrightarrow> x \<in> set s"
  by (metis Un_iff set_append takeWhile_dropWhile_id)

lemma trim_char_subset: "c \<in> set (trim_char d s) \<Longrightarrow> c \<in> set s"
  by (auto simp: trim_char_def dest!: in_dropWhile)

section \<open>strings.TrimSpace\<close>

text \<open>
  The UTF-8 encodings of the code points for which Go's \<open>unicode.IsSpace\<close> holds. UTF-8 is
  self-synchronising, so removing a leading (or trailing) rune that is white space is removing
  one of these byte sequences from the front (or the back).
\<close>

definition spaces :: "string list" where
  "spaces =
     [[CHR 0x09], [CHR 0x0A], [CHR 0x0B], [CHR 0x0C], [CHR 0x0D], [CHR 0x20], [CHR 0xC2, CHR 0x85], [CHR 0xC2, CHR 0xA0],
      [CHR 0xE1, CHR 0x9A, CHR 0x80], [CHR 0xE2, CHR 0x80, CHR 0x80], [CHR 0xE2, CHR 0x80, CHR 0x81], [CHR 0xE2, CHR 0x80, CHR 0x82],
      [CHR 0xE2, CHR 0x80, CHR 0x83], [CHR 0xE2, CHR 0x80, CHR 0x84], [CHR 0xE2, CHR 0x80, CHR 0x85], [CHR 0xE2, CHR 0x80, CHR 0x86],
      [CHR 0xE2, CHR 0x80, CHR 0x87], [CHR 0xE2, CHR 0x80, CHR 0x88], [CHR 0xE2, CHR 0x80, CHR 0x89], [CHR 0xE2, CHR 0x80, CHR 0x8A],
      [CHR 0xE2, CHR 0x80, CHR 0xA8], [CHR 0xE2, CHR 0x80, CHR 0xA9], [CHR 0xE2, CHR 0x80, CHR 0xAF], [CHR 0xE2, CHR 0x81, CHR 0x9F],
      [CHR 0xE3, CHR 0x80, CHR 0x80]]"

text \<open>\<open>strip ws s\<close> drops sequences of \<open>ws\<close> from the front as long as one of them is there.\<close>

function strip :: "string list \<Rightarrow> string \<Rightarrow> string" where
  "strip ws s = (case find (\<lambda>p. p \<noteq> [] \<and> has_prefix p s) ws of
     None \<Rightarrow> s | Some p \<Rightarrow> strip ws (drop (length p) s))"
  by pat_completeness auto
termination
  by (relation "measure (\<lambda>(ws, s). length s)")
    (auto simp: find_Some_iff has_prefix_iff)

declare strip.simps [simp del]

definition trim_space :: "string \<Rightarrow> string" where
  "trim_space s = rev (strip (map rev spaces) (rev (strip spaces s)))"

lemma strip_suffix: "\<exists>t. s = t @ strip ws s"
proof (induction ws s rule: strip.induct)
  case (1 ws s)
  show ?case
  proof (cases "find (\<lambda>p. p \<noteq> [] \<and> has_prefix p s) ws")
    case None
    then show ?thesis by (simp add: strip.simps [of ws s])
  next
    case (Some p)
    with "1" obtain t where "drop (length p) s = t @ strip ws (drop (length p) s)" by blast
    then have "s = (take (length p) s @ t) @ strip ws (drop (length p) s)"
      by (metis append.assoc append_take_drop_id)
    then have "s = (take (length p) s @ t) @ strip ws s"
      using Some by (simp add: strip.simps [of ws s])
    then show ?thesis by blast
  qed
qed

lemma strip_no_lead: "find (\<lambda>p. p \<noteq> [] \<and> has_prefix p (strip ws s)) ws = None"
proof (induction ws s rule: strip.induct)
  case (1 ws s)
  then show ?case
    by (cases "find (\<lambda>p. p \<noteq> [] \<and> has_prefix p s) ws") (simp_all add: strip.simps [of ws s])
qed

lemma strip_fixed: "find (\<lambda>p. p \<noteq> [] \<and> has_prefix p s) ws = None \<Longrightarrow> strip ws s = s"
  by (simp add: strip.simps [of ws s])

lemma strip_prefix_fixed:
  assumes "strip ws (s @ t) = s @ t" shows "strip ws s = s"
proof (rule strip_fixed)
  have "find (\<lambda>p. p \<noteq> [] \<and> has_prefix p (s @ t)) ws = None"
    using strip_no_lead [of ws "s @ t"] assms by simp
  then show "find (\<lambda>p. p \<noteq> [] \<and> has_prefix p s) ws = None"
    by (auto simp: find_None_iff has_prefix_iff)
qed

lemma trim_space_idem [simp]: "trim_space (trim_space s) = trim_space s"
proof -
  let ?l = "strip spaces s" and ?r = "strip (map rev spaces) (rev (strip spaces s))"
  obtain t where t: "rev ?l = t @ ?r" using strip_suffix by blast
  then have "?l = rev ?r @ rev t" by (metis rev_append rev_rev_ident)
  moreover have "strip spaces ?l = ?l" by (rule strip_fixed [OF strip_no_lead])
  ultimately have "strip spaces (rev ?r) = rev ?r" by (metis strip_prefix_fixed)
  moreover have "strip (map rev spaces) ?r = ?r" by (rule strip_fixed [OF strip_no_lead])
  ultimately show ?thesis by (simp add: trim_space_def)
qed

lemma trim_space_Nil [simp]: "trim_space [] = []"
proof -
  have "strip ws [] = []" for ws using strip_suffix [of "[]" ws] by auto
  then show ?thesis by (simp add: trim_space_def)
qed

lemma trim_space_subset: "c \<in> set (trim_space s) \<Longrightarrow> c \<in> set s"
proof -
  assume "c \<in> set (trim_space s)"
  then have "c \<in> set (strip (map rev spaces) (rev (strip spaces s)))" by (simp add: trim_space_def)
  then have "c \<in> set (rev (strip spaces s))"
    using strip_suffix [of "rev (strip spaces s)" "map rev spaces"] by (metis Un_iff set_append)
  then show ?thesis using strip_suffix [of s spaces] by (metis Un_iff set_append set_rev)
qed

section \<open>strings.ToLower and strings.ToUpper\<close>

text \<open>
  Exact on ASCII and on the code points whose case mapping lands in ASCII (the Kelvin sign and
  the dotted capital I going down, the dotless i and the long s going up). Other non-ASCII
  letters are left alone: the backend compares the results with ASCII words only.
\<close>

fun to_lower :: "string \<Rightarrow> string" where
  "to_lower [] = []"
| "to_lower (c # cs) =
     (if is_upper c then char_of (byte c + 32) # to_lower cs
      else if has_prefix [CHR 0xE2, CHR 0x84, CHR 0xAA] (c # cs) then CHR ''k'' # to_lower (drop 2 cs)
      else if has_prefix [CHR 0xC4, CHR 0xB0] (c # cs) then CHR ''i'' # to_lower (drop 1 cs)
      else c # to_lower cs)"

fun to_upper :: "string \<Rightarrow> string" where
  "to_upper [] = []"
| "to_upper (c # cs) =
     (if is_lower c then char_of (byte c - 32) # to_upper cs
      else if has_prefix [CHR 0xC4, CHR 0xB1] (c # cs) then CHR ''I'' # to_upper (drop 1 cs)
      else if has_prefix [CHR 0xC5, CHR 0xBF] (c # cs) then CHR ''S'' # to_upper (drop 1 cs)
      else c # to_upper cs)"

section \<open>Decimal rendering\<close>

definition digit_char :: "nat \<Rightarrow> char" where
  "digit_char d = char_of (48 + int d)"

fun show_nat :: "nat \<Rightarrow> string" where
  "show_nat n = (if n < 10 then [digit_char n] else show_nat (n div 10) @ [digit_char (n mod 10)])"

declare show_nat.simps [simp del]

text \<open>\<open>fmt.Sprintf("%0kd", n)\<close> for a non-negative \<open>n\<close>.\<close>

definition pad_nat :: "nat \<Rightarrow> nat \<Rightarrow> string" where
  "pad_nat k n = replicate (k - length (show_nat n)) CHR ''0'' @ show_nat n"

lemma is_digit_digit_char: "d < 10 \<Longrightarrow> is_digit (digit_char d)"
  by (simp add: is_digit_def digit_char_def byte_def)

lemma show_nat_digits: "c \<in> set (show_nat n) \<Longrightarrow> is_digit c"
proof (induction n rule: show_nat.induct)
  case (1 n)
  then show ?case
    by (cases "n < 10") (auto simp: show_nat.simps [of n] intro: is_digit_digit_char)
qed

lemma show_nat_length: "n < 10 ^ k \<Longrightarrow> 0 < k \<Longrightarrow> length (show_nat n) \<le> k"
proof (induction n arbitrary: k rule: show_nat.induct)
  case (1 n)
  show ?case
  proof (cases "n < 10")
    case True
    then show ?thesis using "1.prems" by (simp add: show_nat.simps [of n])
  next
    case False
    then obtain j where k: "k = Suc j" "0 < j"
      using "1.prems" by (cases k; cases "k - 1") auto
    then have "n div 10 < 10 ^ j" using "1.prems" by (simp add: less_mult_imp_div_less)
    then show ?thesis using "1.IH" [OF False, of j] False k by (simp add: show_nat.simps [of n])
  qed
qed

lemma pad_nat_length: "n < 10 ^ k \<Longrightarrow> 0 < k \<Longrightarrow> length (pad_nat k n) = k"
  using show_nat_length [of n k] by (simp add: pad_nat_def)

lemma pad_nat_digits: "c \<in> set (pad_nat k n) \<Longrightarrow> is_digit c"
  by (auto simp: pad_nat_def is_digit_def byte_def dest!: show_nat_digits)

section \<open>Lists as tables\<close>

text \<open>\<open>upd_where p f xs\<close> is \<open>UPDATE ... SET f WHERE p\<close>, \<open>count_where\<close> is \<open>COUNT(*)\<close>.\<close>

definition upd_where :: "('a \<Rightarrow> bool) \<Rightarrow> ('a \<Rightarrow> 'a) \<Rightarrow> 'a list \<Rightarrow> 'a list" where
  "upd_where p f xs = map (\<lambda>x. if p x then f x else x) xs"

definition count_where :: "('a \<Rightarrow> bool) \<Rightarrow> 'a list \<Rightarrow> nat" where
  "count_where p xs = length (filter p xs)"

lemma length_upd_where [simp]: "length (upd_where p f xs) = length xs"
  by (simp add: upd_where_def)

lemma upd_where_Nil [simp]: "upd_where p f [] = []"
  by (simp add: upd_where_def)

lemma set_upd_where: "set (upd_where p f xs) = {if p x then f x else x |x. x \<in> set xs}"
  by (auto simp: upd_where_def)

lemma map_upd_where: "(\<And>x. g (f x) = g x) \<Longrightarrow> map g (upd_where p f xs) = map g xs"
  by (induction xs) (simp_all add: upd_where_def)

lemma count_where_Nil [simp]: "count_where p [] = 0"
  by (simp add: count_where_def)

lemma count_where_append [simp]: "count_where p (xs @ ys) = count_where p xs + count_where p ys"
  by (simp add: count_where_def)

lemma count_where_Cons [simp]:
  "count_where p (x # xs) = (if p x then Suc (count_where p xs) else count_where p xs)"
  by (simp add: count_where_def)

lemma count_where_mono: "(\<And>x. x \<in> set xs \<Longrightarrow> p x \<Longrightarrow> q x) \<Longrightarrow> count_where p xs \<le> count_where q xs"
  by (induction xs) auto

lemma count_where_filter: "count_where p (filter q xs) = count_where (\<lambda>x. q x \<and> p x) xs"
  by (simp add: count_where_def conj_commute)

lemma count_where_cong:
  "(\<And>x. x \<in> set xs \<Longrightarrow> p x = q x) \<Longrightarrow> count_where p xs = count_where q xs"
  by (induction xs) auto

lemma count_where_upd_where:
  "count_where p (upd_where q f xs) = count_where (\<lambda>x. if q x then p (f x) else p x) xs"
  by (induction xs) (auto simp: upd_where_def)

lemma count_where_upd_mono:
  "(\<And>x. x \<in> set xs \<Longrightarrow> q x \<Longrightarrow> p (f x) \<Longrightarrow> p x) \<Longrightarrow> count_where p (upd_where q f xs) \<le> count_where p xs"
  by (simp add: count_where_upd_where) (rule count_where_mono, auto split: if_splits)

lemma count_where_zero: "count_where p xs = 0 \<longleftrightarrow> (\<forall>x\<in>set xs. \<not> p x)"
  by (simp add: count_where_def filter_empty_conv)

lemma upd_where_none: "count_where p xs = 0 \<Longrightarrow> upd_where p f xs = xs"
  by (auto simp: count_where_zero upd_where_def intro!: map_idI)

lemma find_upd_where:
  assumes "\<And>x. P (f x) = P x"
  shows "find P (upd_where q f xs) = map_option (\<lambda>x. if q x then f x else x) (find P xs)"
  using assms by (induction xs) (auto simp: upd_where_def)

lemma find_append: "find P (xs @ ys) = (case find P xs of None \<Rightarrow> find P ys | Some x \<Rightarrow> Some x)"
  by (induction xs) auto

lemma find_filter: "(\<And>x. P x \<Longrightarrow> Q x) \<Longrightarrow> find P (filter Q xs) = find P xs"
  by (induction xs) auto

end
