(* ===== verification/World.thy ===== *)
theory World
  imports Complex_Main Prelude "HOL-Library.State_Monad"
begin

text \<open>
  The state every request handler runs on: the PostgreSQL tables the backend uses (one record per
  row type, columns as the embedded migrations declare them), the process state of the API, and
  the part of the environment a handler can observe (clock, randomness, failures). Handlers are
  values of the library's state monad over \<open>world\<close>; SQL statements are functions on \<open>db\<close>, run by
  \<open>stmt\<close> on the pool or inside the open transaction. Time is counted in microseconds, the
  resolution of \<open>timestamptz\<close>; one handler runs at one instant.
\<close>

section \<open>Rows\<close>

record user_row =
  u_id :: uuid
  u_phone :: "string option"
  u_name :: "string option"
  u_created :: time
  u_updated :: time

record project_row =
  p_id :: uuid
  p_owner :: uuid
  p_name :: string
  p_address :: "string option"
  p_budget :: rat
  p_currency :: string
  p_status :: string
  p_start :: string
  p_created :: time
  p_updated :: time
  p_deleted :: "time option"

record member_row =
  m_project :: uuid
  m_user :: uuid
  m_role :: string
  m_created :: time

record invite_row =
  i_id :: uuid
  i_project :: uuid
  i_by :: "uuid option"
  i_phone :: string
  i_role :: string
  i_hash :: string
  i_expires :: time
  i_accepted :: "time option"
  i_revoked :: "time option"
  i_created :: time

record subscription_row =
  s_user :: uuid
  s_plan :: string
  s_status :: string
  s_period :: string
  s_started :: time
  s_trial_ends :: time
  s_period_end :: "time option"
  s_updated :: time

record code_row =
  c_id :: uuid
  c_phone :: string
  c_hash :: string
  c_expires :: time
  c_attempts :: nat
  c_consumed :: "time option"
  c_created :: time

record session_row =
  r_id :: uuid
  r_user :: uuid
  r_hash :: string
  r_device :: "string option"
  r_expires :: time
  r_revoked :: "time option"
  r_last_used :: "time option"
  r_created :: time

record attempt_row =
  a_id :: nat
  a_phone :: "string option"
  a_remote :: string
  a_action :: string
  a_succeeded :: bool
  a_created :: time

record audit_row =
  l_actor :: "uuid option"
  l_project :: "uuid option"
  l_action :: string
  l_entity_type :: string
  l_entity :: "uuid option"
  l_metadata :: "(string \<times> string) list"
  l_id :: uuid
  l_created :: time

record task_row =
  t_id :: uuid
  t_project :: uuid
  t_by :: "uuid option"
  t_assigned :: "uuid option"
  t_title :: string
  t_description :: "string option"
  t_status :: string
  t_due :: "string option"
  t_created :: time
  t_updated :: time
  t_deleted :: "time option"

record cost_row =
  k_id :: uuid
  k_project :: uuid
  k_by :: "uuid option"
  k_title :: string
  k_description :: "string option"
  k_category :: string
  k_amount :: rat
  k_currency :: string
  k_vendor :: "string option"
  k_receipt :: "uuid option"
  k_spent :: string
  k_created :: time
  k_updated :: time
  k_deleted :: "time option"

record report_row =
  d_id :: uuid
  d_project :: uuid
  d_by :: "uuid option"
  d_date :: string
  d_summary :: string
  d_workers :: int
  d_issues :: "string option"
  d_created :: time
  d_updated :: time
  d_deleted :: "time option"

record file_row =
  f_id :: uuid
  f_project :: "uuid option"
  f_uploader :: "uuid option"
  f_kind :: string
  f_name :: string
  f_path :: string
  f_type :: string
  f_size :: int
  f_created :: time
  f_deleted :: "time option"

record deletion_row =
  x_id :: nat
  x_path :: string
  x_attempts :: nat
  x_available :: time
  x_locked :: "time option"
  x_error :: "string option"
  x_created :: time

record push_row =
  g_id :: uuid
  g_user :: uuid
  g_token :: string
  g_platform :: string
  g_created :: time
  g_updated :: time
  g_seen :: time

record order_row =
  o_id :: string
  o_user :: uuid
  o_key :: string
  o_plan :: string
  o_period :: string
  o_kgs :: int
  o_kopecks :: int
  o_currency :: string
  o_status :: string
  o_invoice :: "string option"
  o_transaction :: "string option"
  o_url :: "string option"
  o_app_link :: "string option"
  o_checked :: "time option"
  o_created :: time
  o_updated :: time
  o_paid :: "time option"

record ticket_row =
  h_id :: uuid
  h_user :: uuid
  h_channel :: string
  h_subject :: string
  h_message :: string
  h_status :: string
  h_error :: "string option"
  h_created :: time
  h_updated :: time

record db =
  users :: "user_row list"
  projects :: "project_row list"
  members :: "member_row list"
  invites :: "invite_row list"
  subscriptions :: "subscription_row list"
  codes :: "code_row list"
  sessions :: "session_row list"
  attempts :: "attempt_row list"
  attempt_seq :: nat
  audits :: "audit_row list"
  tasks :: "task_row list"
  costs :: "cost_row list"
  reports :: "report_row list"
  files :: "file_row list"
  deletions :: "deletion_row list"
  deletion_seq :: nat
  push_tokens :: "push_row list"
  orders :: "order_row list"
  tickets :: "ticket_row list"

definition empty_db :: db where
  "empty_db = \<lparr>users = [], projects = [], members = [], invites = [], subscriptions = [],
     codes = [], sessions = [], attempts = [], attempt_seq = 1, audits = [], tasks = [],
     costs = [], reports = [], files = [], deletions = [], deletion_seq = 1,
     push_tokens = [], orders = [], tickets = []\<rparr>"

section \<open>Process state and environment\<close>

record event =
  ev_id :: time
  ev_project :: uuid
  ev_type :: string
  ev_entity :: string
  ev_action :: string
  ev_created :: time

record subscriber =
  rs_user :: uuid
  rs_project :: uuid
  rs_queue :: "event list"

record hub =
  hub_next :: nat
  hub_subs :: "(nat \<times> subscriber) list"

text \<open>A push notification goroutine that was started (project, recipients, actor, entity).\<close>

record push_job =
  pj_project :: uuid
  pj_users :: "uuid list"
  pj_actor :: string
  pj_entity :: uuid

text \<open>
  What the next database call does: succeed, fail as a whole (network, timeout, a constraint this
  model does not spell out), or fail while the rows are scanned or read.
\<close>

datatype fault = NoFault | FailExec | FailScan | FailRows

record world =
  now :: time
  db :: db
  txn :: "(db \<times> bool) option"
  faults :: "fault list"
  extern :: "bool list"
  uuids :: "uuid list"
  entropy :: "nat list list"
  sms_log :: "(string \<times> string) list"
  journal :: "string list"
  hub :: hub
  push_jobs :: "push_job list"
  headers :: "(string \<times> string) list"
  prune_running :: bool
  last_prune :: "time option"
  objects :: "string \<rightharpoonup> nat list"
  tombs :: "string list"

text \<open>
  \<open>objects\<close> is the content of the object store (bytes under each key) and \<open>tombs\<close> the keys whose
  removal the deletion ledger has recorded.
\<close>

section \<open>SQL statements\<close>

text \<open>
  A statement yields a row (or the number of affected rows), no rows, or an error. A statement
  that fails on the pool changes nothing; inside a transaction it also aborts the transaction, as
  PostgreSQL does: every later statement of the transaction fails and \<open>COMMIT\<close> rolls back.
\<close>

datatype 'a sqlres = Row 'a | NoRows | SqlErr

datatype 'a qres = Rows 'a | QueryErr | ScanErr | RowsErr

datatype conn = Pool | Tx

type_synonym 'a sql = "time \<Rightarrow> db \<Rightarrow> 'a sqlres \<times> db"

definition pop_fault :: "world \<Rightarrow> fault \<times> world" where
  "pop_fault w = (case faults w of [] \<Rightarrow> (NoFault, w) | f # fs \<Rightarrow> (f, w\<lparr>faults := fs\<rparr>))"

definition stmt :: "conn \<Rightarrow> 'a sql \<Rightarrow> (world, 'a sqlres) state" where
  "stmt c q = State (\<lambda>w. case pop_fault w of (f, w1) \<Rightarrow>
     (case c of
        Pool \<Rightarrow>
          (if f \<noteq> NoFault then (SqlErr, w1)
           else case q (now w1) (db w1) of
               (SqlErr, d) \<Rightarrow> (SqlErr, w1)
             | (r, d) \<Rightarrow> (r, w1\<lparr>db := d\<rparr>))
      | Tx \<Rightarrow>
          (case txn w1 of
             None \<Rightarrow> (SqlErr, w1)
           | Some (d0, aborted) \<Rightarrow>
               (if aborted then (SqlErr, w1)
                else if f \<noteq> NoFault then (SqlErr, w1\<lparr>txn := Some (d0, True)\<rparr>)
                else case q (now w1) d0 of
                    (SqlErr, d) \<Rightarrow> (SqlErr, w1\<lparr>txn := Some (d0, True)\<rparr>)
                  | (r, d) \<Rightarrow> (r, w1\<lparr>txn := Some (d, False)\<rparr>)))))"

text \<open>A \<open>SELECT\<close> of one row (\<open>QueryRow\<close>).\<close>

definition sel :: "conn \<Rightarrow> (time \<Rightarrow> db \<Rightarrow> 'a sqlres) \<Rightarrow> (world, 'a sqlres) state" where
  "sel c f = stmt c (\<lambda>t d. (f t d, d))"

text \<open>A statement that only changes the tables (\<open>Exec\<close>, the row count not looked at).\<close>

definition exec :: "conn \<Rightarrow> (time \<Rightarrow> db \<Rightarrow> db) \<Rightarrow> (world, unit sqlres) state" where
  "exec c f = stmt c (\<lambda>t d. (Row (), f t d))"

definition row_of :: "'a option \<Rightarrow> 'a sqlres" where
  "row_of r = (case r of None \<Rightarrow> NoRows | Some x \<Rightarrow> Row x)"

text \<open>An \<open>INSERT\<close> into a table whose key defaults to \<open>gen_random_uuid()\<close>.\<close>

definition insert_stmt :: "conn \<Rightarrow> (uuid \<Rightarrow> 'a sql) \<Rightarrow> (world, 'a sqlres) state" where
  "insert_stmt c q = State (\<lambda>w. case uuids w of
       [] \<Rightarrow> run_state (stmt c (\<lambda>_ d. (SqlErr, d))) w
     | u # us \<Rightarrow> run_state (stmt c (q u)) (w\<lparr>uuids := us\<rparr>))"

text \<open>A \<open>SELECT\<close> of several rows: \<open>Query\<close>, the \<open>Scan\<close> of each row and \<open>rows.Err()\<close>.\<close>

definition query :: "conn \<Rightarrow> (time \<Rightarrow> db \<Rightarrow> 'a list) \<Rightarrow> (world, 'a list qres) state" where
  "query c q = State (\<lambda>w. case pop_fault w of (f, w1) \<Rightarrow>
     (case c of
        Pool \<Rightarrow> (case f of NoFault \<Rightarrow> (Rows (q (now w1) (db w1)), w1)
          | FailExec \<Rightarrow> (QueryErr, w1) | FailScan \<Rightarrow> (ScanErr, w1) | FailRows \<Rightarrow> (RowsErr, w1))
      | Tx \<Rightarrow>
          (case txn w1 of
             None \<Rightarrow> (QueryErr, w1)
           | Some (d0, aborted) \<Rightarrow>
               (if aborted then (QueryErr, w1)
                else case f of NoFault \<Rightarrow> (Rows (q (now w1) d0), w1)
                  | FailExec \<Rightarrow> (QueryErr, w1\<lparr>txn := Some (d0, True)\<rparr>)
                  | FailScan \<Rightarrow> (ScanErr, w1\<lparr>txn := Some (d0, True)\<rparr>)
                  | FailRows \<Rightarrow> (RowsErr, w1\<lparr>txn := Some (d0, True)\<rparr>)))))"

definition tx_begin :: "(world, bool) state" where
  "tx_begin = State (\<lambda>w. case pop_fault w of (f, w1) \<Rightarrow>
     if f \<noteq> NoFault then (False, w1) else (True, w1\<lparr>txn := Some (db w1, False)\<rparr>))"

definition tx_commit :: "(world, bool) state" where
  "tx_commit = State (\<lambda>w. case pop_fault w of (f, w1) \<Rightarrow>
     (case txn w1 of
        None \<Rightarrow> (False, w1)
      | Some (d, aborted) \<Rightarrow>
          if aborted \<or> f \<noteq> NoFault then (False, w1\<lparr>txn := None\<rparr>)
          else (True, w1\<lparr>db := d, txn := None\<rparr>)))"

definition tx_rollback :: "(world, unit) state" where
  "tx_rollback = State (\<lambda>w. ((), w\<lparr>txn := None\<rparr>))"

text \<open>\<open>defer tx.Rollback(ctx)\<close>: after the body an open transaction is rolled back.\<close>

definition defer_rollback :: "(world, 'a) state \<Rightarrow> (world, 'a) state" where
  "defer_rollback m = do { r \<leftarrow> m; tx_rollback; State_Monad.return r }"

text \<open>\<open>_ = q.QueryRow(...).Scan(&x)\<close>: the variable keeps its value when the query fails.\<close>

definition scan_ignore :: "conn \<Rightarrow> (time \<Rightarrow> db \<Rightarrow> 'a sqlres) \<Rightarrow> 'a \<Rightarrow> (world, 'a) state" where
  "scan_ignore c f x0 = do {
     r \<leftarrow> sel c f;
     State_Monad.return (case r of Row x \<Rightarrow> x | NoRows \<Rightarrow> x0 | SqlErr \<Rightarrow> x0)
   }"

section \<open>Other effects\<close>

abbreviation ret :: "'a \<Rightarrow> (world, 'a) state" where
  "ret \<equiv> State_Monad.return"

definition modify :: "(world \<Rightarrow> world) \<Rightarrow> (world, unit) state" where
  "modify f = State (\<lambda>w. ((), f w))"

definition read_now :: "(world, time) state" where
  "read_now = State (\<lambda>w. (now w, w))"

text \<open>\<open>rand.Read\<close> into a buffer of \<open>n\<close> bytes; \<open>None\<close> when the source fails.\<close>

definition rand_read :: "nat \<Rightarrow> (world, nat list option) state" where
  "rand_read n = State (\<lambda>w. case entropy w of
       [] \<Rightarrow> (None, w)
     | bs # rest \<Rightarrow>
         (if length bs = n \<and> (\<forall>b\<in>set bs. b < 256) then Some bs else None, w\<lparr>entropy := rest\<rparr>))"

text \<open>The outcome of a call to a service outside the program (SMS provider, object store).\<close>

definition extern_ok :: "(world, bool) state" where
  "extern_ok = State (\<lambda>w. case extern w of
       [] \<Rightarrow> (True, w) | failed # rest \<Rightarrow> (\<not> failed, w\<lparr>extern := rest\<rparr>))"

definition set_header :: "string \<Rightarrow> string \<Rightarrow> (world, unit) state" where
  "set_header k v = State (\<lambda>w. ((), w\<lparr>headers := (k, v) # filter (\<lambda>(k', _). k' \<noteq> k) (headers w)\<rparr>))"

section \<open>Durations and constants\<close>

definition second :: time where "second = 1000000"
definition minute :: time where "minute = 60 * second"
definition hour :: time where "hour = 60 * minute"
definition day :: time where "day = 24 * hour"

lemmas durations = second_def minute_def hour_def day_def

end
