(* ===== verification/Monad_Logic.thy ===== *)
theory Monad_Logic
  imports World
begin

text \<open>
  Reasoning about handlers. \<open>run_bindE\<close> takes a finished run of a handler apart statement by
  statement; \<open>preserves\<close> is preservation of a property of the world by a computation, with one
  introduction rule per combinator (collection \<open>pres\<close>); \<open>db_inv\<close> lifts an invariant of the
  tables to the world: it holds of the committed tables and of the open transaction. The
  \<open>fault_free\<close> equations compute the runs in which no database call fails.
\<close>

named_theorems pres "structural rules for preserves"

section \<open>Taking runs apart\<close>

lemma run_bindE:
  assumes "run_state (State_Monad.bind m f) w = (r, w')"
  obtains a w1 where "run_state m w = (a, w1)" "run_state (f a) w1 = (r, w')"
  using assms by (auto split: prod.splits)

lemma run_bind_eq:
  "run_state m w = (a, w1) \<Longrightarrow> run_state (State_Monad.bind m f) w = run_state (f a) w1"
  by simp

lemma run_state_read_now [simp]: "run_state read_now w = (now w, w)"
  by (simp add: read_now_def)

lemma run_state_modify [simp]: "run_state (modify f) w = ((), f w)"
  by (simp add: modify_def)

lemma run_state_tx_rollback [simp]: "run_state tx_rollback w = ((), w\<lparr>txn := None\<rparr>)"
  by (simp add: tx_rollback_def)

lemma run_state_set_header [simp]:
  "run_state (set_header k v) w =
     ((), w\<lparr>headers := (k, v) # filter (\<lambda>(k', _). k' \<noteq> k) (headers w)\<rparr>)"
  by (simp add: set_header_def)

lemma run_defer_rollback:
  "run_state (defer_rollback m) w = (case run_state m w of (r, w1) \<Rightarrow> (r, w1\<lparr>txn := None\<rparr>))"
  by (simp add: defer_rollback_def split: prod.splits)

section \<open>Preservation\<close>

definition preserves :: "(world \<Rightarrow> bool) \<Rightarrow> (world, 'a) state \<Rightarrow> bool" where
  "preserves P m \<longleftrightarrow> (\<forall>w. P w \<longrightarrow> P (snd (run_state m w)))"

lemma preservesD: "preserves P m \<Longrightarrow> P w \<Longrightarrow> run_state m w = (r, w') \<Longrightarrow> P w'"
  by (metis preserves_def snd_conv)

lemma preservesI: "(\<And>w r w'. P w \<Longrightarrow> run_state m w = (r, w') \<Longrightarrow> P w') \<Longrightarrow> preserves P m"
  by (metis preserves_def prod.collapse)

lemma preserves_return [pres]: "preserves P (State_Monad.return x)"
  by (simp add: preserves_def)

lemma preserves_bind [pres]:
  "preserves P m \<Longrightarrow> (\<And>a. preserves P (f a)) \<Longrightarrow> preserves P (State_Monad.bind m f)"
  by (simp add: preserves_def split: prod.splits) (metis snd_conv)

lemma preserves_if [pres]:
  "(c \<Longrightarrow> preserves P m) \<Longrightarrow> (\<not> c \<Longrightarrow> preserves P n) \<Longrightarrow> preserves P (if c then m else n)"
  by simp

lemma preserves_let [pres]: "(\<And>x. preserves P (f x)) \<Longrightarrow> preserves P (let x = t in f x)"
  by simp

lemma preserves_case_sqlres [pres]:
  "(\<And>x. preserves P (f x)) \<Longrightarrow> preserves P m \<Longrightarrow> preserves P n \<Longrightarrow>
   preserves P (case r of Row x \<Rightarrow> f x | NoRows \<Rightarrow> m | SqlErr \<Rightarrow> n)"
  by (cases r) simp_all

lemma preserves_case_qres [pres]:
  "(\<And>x. preserves P (f x)) \<Longrightarrow> preserves P m \<Longrightarrow> preserves P n \<Longrightarrow> preserves P k \<Longrightarrow>
   preserves P (case r of Rows x \<Rightarrow> f x | QueryErr \<Rightarrow> m | ScanErr \<Rightarrow> n | RowsErr \<Rightarrow> k)"
  by (cases r) simp_all

lemma preserves_case_option [pres]:
  "(\<And>x. r = Some x \<Longrightarrow> preserves P (f x)) \<Longrightarrow> preserves P m \<Longrightarrow>
   preserves P (case r of None \<Rightarrow> m | Some x \<Rightarrow> f x)"
  by (cases r) simp_all

lemma preserves_case_sum [pres]:
  "(\<And>x. preserves P (f x)) \<Longrightarrow> (\<And>x. preserves P (g x)) \<Longrightarrow>
   preserves P (case r of Inl x \<Rightarrow> f x | Inr x \<Rightarrow> g x)"
  by (cases r) simp_all

lemma preserves_case_prod [pres]:
  "(\<And>x y. preserves P (f x y)) \<Longrightarrow> preserves P (case r of (x, y) \<Rightarrow> f x y)"
  by (cases r) simp

lemma preserves_modify [pres]: "(\<And>w. P w \<Longrightarrow> P (f w)) \<Longrightarrow> preserves P (modify f)"
  by (simp add: preserves_def)

lemma preserves_read_now [pres]: "preserves P read_now"
  by (simp add: preserves_def)

section \<open>Invariants of the tables\<close>

definition db_inv :: "(db \<Rightarrow> bool) \<Rightarrow> world \<Rightarrow> bool" where
  "db_inv I w \<longleftrightarrow> I (db w) \<and> (\<forall>d a. txn w = Some (d, a) \<longrightarrow> I d)"

definition sql_inv :: "(db \<Rightarrow> bool) \<Rightarrow> 'a sql \<Rightarrow> bool" where
  "sql_inv I q \<longleftrightarrow> (\<forall>t d. I d \<longrightarrow> I (snd (q t d)))"

lemma db_inv_other [simp]:
  "db_inv I (w\<lparr>faults := x1\<rparr>) = db_inv I w"
  "db_inv I (w\<lparr>extern := x2\<rparr>) = db_inv I w"
  "db_inv I (w\<lparr>uuids := x3\<rparr>) = db_inv I w"
  "db_inv I (w\<lparr>entropy := x4\<rparr>) = db_inv I w"
  "db_inv I (w\<lparr>sms_log := x5\<rparr>) = db_inv I w"
  "db_inv I (w\<lparr>journal := x6\<rparr>) = db_inv I w"
  "db_inv I (w\<lparr>hub := x7\<rparr>) = db_inv I w"
  "db_inv I (w\<lparr>push_jobs := x8\<rparr>) = db_inv I w"
  "db_inv I (w\<lparr>headers := x9\<rparr>) = db_inv I w"
  "db_inv I (w\<lparr>prune_running := x10\<rparr>) = db_inv I w"
  "db_inv I (w\<lparr>last_prune := x11\<rparr>) = db_inv I w"
  "db_inv I (w\<lparr>now := x12\<rparr>) = db_inv I w"
  "db_inv I (w\<lparr>objects := x13\<rparr>) = db_inv I w"
  "db_inv I (w\<lparr>tombs := x14\<rparr>) = db_inv I w"
  by (simp_all add: db_inv_def)

lemma db_inv_no_txn: "db_inv I w \<Longrightarrow> db_inv I (w\<lparr>txn := None\<rparr>)"
  by (simp add: db_inv_def)

lemma same_fields:
  "faults w = fs \<Longrightarrow> w\<lparr>faults := fs\<rparr> = w"
  "txn w = t \<Longrightarrow> w\<lparr>txn := t\<rparr> = w"
  "db w = d \<Longrightarrow> w\<lparr>db := d\<rparr> = w"
  by (cases w, simp)+

lemma pop_faultE:
  assumes "pop_fault w = (f, w1)"
  obtains fs where "w1 = w\<lparr>faults := fs\<rparr>"
proof (cases "faults w")
  case Nil
  then have "w1 = w\<lparr>faults := []\<rparr>" using assms by (simp add: pop_fault_def same_fields)
  then show ?thesis by (rule that)
next
  case (Cons g gs)
  then have "w1 = w\<lparr>faults := gs\<rparr>" using assms by (simp add: pop_fault_def)
  then show ?thesis by (rule that)
qed

text \<open>The possible outcomes of a statement on the pool and in a transaction.\<close>

lemma stmt_Pool_cases:
  assumes "run_state (stmt Pool q) w = (r, w')"
  obtains (err) fs where "r = SqlErr" "w' = w\<lparr>faults := fs\<rparr>"
  | (ok) fs d where "r \<noteq> SqlErr" "q (now w) (db w) = (r, d)" "w' = w\<lparr>faults := fs, db := d\<rparr>"
proof -
  obtain f w1 where p: "pop_fault w = (f, w1)" by fastforce
  then obtain fs where w1: "w1 = w\<lparr>faults := fs\<rparr>" by (rule pop_faultE)
  obtain s d where q: "q (now w) (db w) = (s, d)" by fastforce
  show ?thesis
  proof (cases "f \<noteq> NoFault \<or> s = SqlErr")
    case True
    then have "r = SqlErr" "w' = w\<lparr>faults := fs\<rparr>"
      using assms by (auto simp: stmt_def p w1 q split: if_splits)
    then show ?thesis by (rule err)
  next
    case False
    then have "r = s" "w' = w\<lparr>faults := fs, db := d\<rparr>"
      using assms by (cases s; simp add: stmt_def p w1 q)+
    with False q show ?thesis by (intro ok) auto
  qed
qed

lemma stmt_Tx_cases:
  assumes "run_state (stmt Tx q) w = (r, w')"
  obtains (no_txn) fs where "r = SqlErr" "txn w = None" "w' = w\<lparr>faults := fs\<rparr>"
  | (err) fs d0 b where "r = SqlErr" "txn w = Some (d0, b)" "w' = w\<lparr>faults := fs, txn := Some (d0, True)\<rparr>"
  | (ok) fs d0 d where "r \<noteq> SqlErr" "txn w = Some (d0, False)" "q (now w) d0 = (r, d)"
      "w' = w\<lparr>faults := fs, txn := Some (d, False)\<rparr>"
proof -
  obtain f w1 where p: "pop_fault w = (f, w1)" by fastforce
  then obtain fs where w1: "w1 = w\<lparr>faults := fs\<rparr>" by (rule pop_faultE)
  show ?thesis
  proof (cases "txn w")
    case None
    then have "r = SqlErr" "w' = w\<lparr>faults := fs\<rparr>" using assms by (simp_all add: stmt_def p w1)
    with None show ?thesis by (intro no_txn)
  next
    case (Some da)
    obtain d0 b where da: "da = (d0, b)" by fastforce
    obtain s d where q: "q (now w) d0 = (s, d)" by fastforce
    show ?thesis
    proof (cases "b \<or> f \<noteq> NoFault \<or> s = SqlErr")
      case True
      have "w\<lparr>faults := fs\<rparr> = w\<lparr>faults := fs, txn := Some (d0, True)\<rparr>" if b
        using that Some da by (cases w) simp
      with True have "r = SqlErr" "w' = w\<lparr>faults := fs, txn := Some (d0, True)\<rparr>"
        using assms Some da q by (auto simp: stmt_def p w1 q split: if_splits)
      with Some da show ?thesis by (intro err) auto
    next
      case False
      then have "r = s" "w' = w\<lparr>faults := fs, txn := Some (d, False)\<rparr>"
        using assms Some da by (cases s; simp add: stmt_def p w1 q)+
      with False q Some da show ?thesis by (intro ok) auto
    qed
  qed
qed

lemma stmt_db_inv:
  assumes I: "sql_inv I q" and w: "db_inv I w" and r: "run_state (stmt c q) w = (r, w')"
  shows "db_inv I w'"
proof (cases c)
  case Pool
  with r have "run_state (stmt Pool q) w = (r, w')" by simp
  then show ?thesis
  proof (cases rule: stmt_Pool_cases)
    case err
    then show ?thesis using w by simp
  next
    case (ok fs d)
    then have "I d" using I w by (metis db_inv_def snd_conv sql_inv_def)
    then show ?thesis using w ok(3) by (simp add: db_inv_def)
  qed
next
  case Tx
  with r have "run_state (stmt Tx q) w = (r, w')" by simp
  then show ?thesis
  proof (cases rule: stmt_Tx_cases)
    case no_txn
    then show ?thesis using w by simp
  next
    case err
    then show ?thesis using w by (simp add: db_inv_def)
  next
    case (ok fs d0 d)
    then have "I d" using I w by (metis db_inv_def snd_conv sql_inv_def)
    then show ?thesis using w ok(4) by (simp add: db_inv_def)
  qed
qed

lemma preserves_stmt [pres]: "sql_inv I q \<Longrightarrow> preserves (db_inv I) (stmt c q)"
  by (rule preservesI) (rule stmt_db_inv)

lemma preserves_sel [pres]: "preserves (db_inv I) (sel c f)"
  unfolding sel_def by (rule preserves_stmt) (simp add: sql_inv_def)

lemma preserves_exec [pres]:
  "(\<And>t d. I d \<Longrightarrow> I (f t d)) \<Longrightarrow> preserves (db_inv I) (exec c f)"
  unfolding exec_def by (rule preserves_stmt) (simp add: sql_inv_def)

lemma preserves_scan_ignore [pres]: "preserves (db_inv I) (scan_ignore c f x0)"
  unfolding scan_ignore_def by (intro preserves_bind preserves_sel preserves_return)

lemma preserves_insert_stmt [pres]:
  assumes "\<And>u. sql_inv I (q u)" shows "preserves (db_inv I) (insert_stmt c q)"
proof (rule preservesI)
  fix w r w' assume w: "db_inv I w" and r: "run_state (insert_stmt c q) w = (r, w')"
  have e: "sql_inv I (\<lambda>t d. (SqlErr, d))" by (simp add: sql_inv_def)
  show "db_inv I w'"
  proof (cases "uuids w")
    case Nil
    then have "run_state (stmt c (\<lambda>t d. (SqlErr, d))) w = (r, w')" using r by (simp add: insert_stmt_def)
    then show ?thesis by (rule stmt_db_inv [OF e w])
  next
    case (Cons u us)
    then have "run_state (stmt c (q u)) (w\<lparr>uuids := us\<rparr>) = (r, w')"
      using r by (simp add: insert_stmt_def)
    then show ?thesis by (rule stmt_db_inv [OF assms, rotated]) (use w in simp)
  qed
qed

lemma query_cases:
  assumes "run_state (query c q) w = (r, w')"
  obtains fs where "w' = w\<lparr>faults := fs\<rparr>"
  | fs d0 b where "txn w = Some (d0, b)" "w' = w\<lparr>faults := fs, txn := Some (d0, True)\<rparr>"
proof -
  obtain f w1 where p: "pop_fault w = (f, w1)" by fastforce
  then obtain fs where w1: "w1 = w\<lparr>faults := fs\<rparr>" by (rule pop_faultE)
  show ?thesis
  proof (cases c)
    case Pool
    then have "w' = w\<lparr>faults := fs\<rparr>" using assms
      by (cases f; simp add: query_def p w1)
    then show ?thesis by (rule that(1))
  next
    case Tx
    show ?thesis
    proof (cases "txn w")
      case None
      then have "w' = w\<lparr>faults := fs\<rparr>" using assms Tx by (simp add: query_def p w1)
      then show ?thesis by (rule that(1))
    next
      case (Some da)
      obtain d0 b where da: "da = (d0, b)" by fastforce
      then have "w' = w\<lparr>faults := fs\<rparr> \<or> w' = w\<lparr>faults := fs, txn := Some (d0, True)\<rparr>"
        using assms Tx Some by (cases f; cases b; simp add: query_def p w1)
      with Some da show ?thesis using that by blast
    qed
  qed
qed

lemma preserves_query [pres]: "preserves (db_inv I) (query c q)"
proof (rule preservesI)
  fix w r w' assume w: "db_inv I w" and r: "run_state (query c q) w = (r, w')"
  from r show "db_inv I w'" using w by (cases rule: query_cases) (simp_all add: db_inv_def)
qed

lemma preserves_tx_begin [pres]: "preserves (db_inv I) tx_begin"
proof (rule preservesI)
  fix w r w' assume w: "db_inv I w" and r: "run_state tx_begin w = (r, w')"
  obtain f w1 where p: "pop_fault w = (f, w1)" by fastforce
  then obtain fs where w1: "w1 = w\<lparr>faults := fs\<rparr>" by (rule pop_faultE)
  show "db_inv I w'" using w r p w1 by (auto simp: tx_begin_def db_inv_def split: if_splits)
qed

lemma preserves_tx_commit [pres]: "preserves (db_inv I) tx_commit"
proof (rule preservesI)
  fix w r w' assume w: "db_inv I w" and r: "run_state tx_commit w = (r, w')"
  obtain f w1 where p: "pop_fault w = (f, w1)" by fastforce
  then obtain fs where w1: "w1 = w\<lparr>faults := fs\<rparr>" by (rule pop_faultE)
  show "db_inv I w'" using w r p w1
    by (auto simp: tx_commit_def db_inv_def split: if_splits option.splits)
qed

lemma preserves_tx_rollback [pres]: "preserves (db_inv I) tx_rollback"
  by (rule preservesI) (auto simp: db_inv_def)

lemma preserves_defer_rollback [pres]:
  "preserves (db_inv I) m \<Longrightarrow> preserves (db_inv I) (defer_rollback m)"
  unfolding defer_rollback_def by (intro pres)

lemma preserves_set_header [pres]: "preserves (db_inv I) (set_header k v)"
  by (rule preservesI) auto

lemma preserves_rand_read [pres]: "preserves (db_inv I) (rand_read n)"
  by (rule preservesI) (auto simp: rand_read_def split: list.splits)

lemma preserves_extern_ok [pres]: "preserves (db_inv I) extern_ok"
  by (rule preservesI) (auto simp: extern_ok_def split: list.splits)

section \<open>Runs without failures\<close>

definition fault_free :: "world \<Rightarrow> bool" where
  "fault_free w \<longleftrightarrow> faults w = []"

lemma stmt_Pool_free:
  "faults w = [] \<Longrightarrow> run_state (stmt Pool q) w =
     (case q (now w) (db w) of (SqlErr, d) \<Rightarrow> (SqlErr, w) | (r, d) \<Rightarrow> (r, w\<lparr>db := d\<rparr>))"
  by (simp add: stmt_def pop_fault_def)

lemma stmt_Tx_free:
  "faults w = [] \<Longrightarrow> txn w = Some (d0, False) \<Longrightarrow> run_state (stmt Tx q) w =
     (case q (now w) d0 of (SqlErr, d) \<Rightarrow> (SqlErr, w\<lparr>txn := Some (d0, True)\<rparr>)
      | (r, d) \<Rightarrow> (r, w\<lparr>txn := Some (d, False)\<rparr>))"
  by (simp add: stmt_def pop_fault_def)

lemma stmt_Tx_aborted:
  "txn w = Some (d0, True) \<Longrightarrow> fst (run_state (stmt Tx q) w) = SqlErr"
  by (cases "faults w") (simp_all add: stmt_def pop_fault_def)

lemma query_Pool_free: "faults w = [] \<Longrightarrow> run_state (query Pool q) w = (Rows (q (now w) (db w)), w)"
  by (simp add: query_def pop_fault_def)

lemma query_Tx_free:
  "faults w = [] \<Longrightarrow> txn w = Some (d0, False) \<Longrightarrow>
   run_state (query Tx q) w = (Rows (q (now w) d0), w)"
  by (simp add: query_def pop_fault_def)

lemma tx_begin_free: "faults w = [] \<Longrightarrow> run_state tx_begin w = (True, w\<lparr>txn := Some (db w, False)\<rparr>)"
  by (simp add: tx_begin_def pop_fault_def)

lemma tx_commit_free:
  "faults w = [] \<Longrightarrow> txn w = Some (d, False) \<Longrightarrow>
   run_state tx_commit w = (True, w\<lparr>db := d, txn := None\<rparr>)"
  by (simp add: tx_commit_def pop_fault_def)

lemma tx_commit_aborted:
  "txn w = Some (d, True) \<Longrightarrow> fst (run_state tx_commit w) = False"
  by (cases "faults w") (simp_all add: tx_commit_def pop_fault_def)

lemma insert_stmt_Cons:
  "uuids w = u # us \<Longrightarrow> run_state (insert_stmt c q) w = run_state (stmt c (q u)) (w\<lparr>uuids := us\<rparr>)"
  by (simp add: insert_stmt_def)

lemma sel_Pool_free:
  "faults w = [] \<Longrightarrow> run_state (sel Pool f) w = (f (now w) (db w), w)"
  by (cases w) (simp add: sel_def stmt_Pool_free split: sqlres.splits)

lemma sel_Tx_free:
  "faults w = [] \<Longrightarrow> txn w = Some (d0, False) \<Longrightarrow> run_state (sel Tx f) w =
     (f (now w) d0, case f (now w) d0 of SqlErr \<Rightarrow> w\<lparr>txn := Some (d0, True)\<rparr> | _ \<Rightarrow> w)"
  by (cases w) (simp add: sel_def stmt_Tx_free split: sqlres.splits)

lemma exec_Pool_free:
  "faults w = [] \<Longrightarrow> run_state (exec Pool f) w = (Row (), w\<lparr>db := f (now w) (db w)\<rparr>)"
  by (simp add: exec_def stmt_Pool_free)

lemma exec_Tx_free:
  "faults w = [] \<Longrightarrow> txn w = Some (d0, False) \<Longrightarrow>
   run_state (exec Tx f) w = (Row (), w\<lparr>txn := Some (f (now w) d0, False)\<rparr>)"
  by (simp add: exec_def stmt_Tx_free)

lemmas free_simps = exec_Pool_free exec_Tx_free sel_Pool_free sel_Tx_free stmt_Pool_free stmt_Tx_free query_Pool_free query_Tx_free tx_begin_free
  tx_commit_free insert_stmt_Cons run_defer_rollback

section \<open>What a successful statement says\<close>

lemma stmt_Pool_Row:
  assumes "run_state (stmt Pool q) w = (Row x, w')"
  obtains d fs where "q (now w) (db w) = (Row x, d)" "w' = w\<lparr>faults := fs, db := d\<rparr>"
  using assms by (cases rule: stmt_Pool_cases) (auto intro: that)

lemma stmt_Tx_Row:
  assumes "run_state (stmt Tx q) w = (Row x, w')"
  obtains d0 d fs where "txn w = Some (d0, False)" "q (now w) d0 = (Row x, d)"
    "w' = w\<lparr>faults := fs, txn := Some (d, False)\<rparr>"
  using assms by (cases rule: stmt_Tx_cases) (auto intro: that)

lemma tx_begin_True:
  assumes "run_state tx_begin w = (True, w')"
  obtains fs where "w' = w\<lparr>faults := fs, txn := Some (db w, False)\<rparr>"
proof -
  obtain f w1 where p: "pop_fault w = (f, w1)" by fastforce
  then obtain fs where w1: "w1 = w\<lparr>faults := fs\<rparr>" by (rule pop_faultE)
  show ?thesis using assms p w1 by (auto simp: tx_begin_def split: if_splits intro: that)
qed

lemma tx_commit_True:
  assumes "run_state tx_commit w = (True, w')"
  obtains d fs where "txn w = Some (d, False)" "w' = w\<lparr>faults := fs, db := d, txn := None\<rparr>"
proof -
  obtain f w1 where p: "pop_fault w = (f, w1)" by fastforce
  then obtain fs where w1: "w1 = w\<lparr>faults := fs\<rparr>" by (rule pop_faultE)
  show ?thesis using assms p w1
    by (auto simp: tx_commit_def split: if_splits option.splits intro: that)
qed

section \<open>Order of updates\<close>

text \<open>Updates of different fields of \<open>world\<close> commute; these equations put them in one order.\<close>

lemma world_update_order [simp]:
  fixes w :: world
  shows
  "w\<lparr>db := d, faults := fs\<rparr> = w\<lparr>faults := fs, db := d\<rparr>"
  "w\<lparr>txn := tx, faults := fs\<rparr> = w\<lparr>faults := fs, txn := tx\<rparr>"
  "w\<lparr>uuids := us, faults := fs\<rparr> = w\<lparr>faults := fs, uuids := us\<rparr>"
  "w\<lparr>entropy := en, faults := fs\<rparr> = w\<lparr>faults := fs, entropy := en\<rparr>"
  "w\<lparr>extern := ex, faults := fs\<rparr> = w\<lparr>faults := fs, extern := ex\<rparr>"
  "w\<lparr>sms_log := sm, faults := fs\<rparr> = w\<lparr>faults := fs, sms_log := sm\<rparr>"
  "w\<lparr>journal := jo, faults := fs\<rparr> = w\<lparr>faults := fs, journal := jo\<rparr>"
  "w\<lparr>hub := hb, faults := fs\<rparr> = w\<lparr>faults := fs, hub := hb\<rparr>"
  "w\<lparr>push_jobs := pj, faults := fs\<rparr> = w\<lparr>faults := fs, push_jobs := pj\<rparr>"
  "w\<lparr>headers := hs, faults := fs\<rparr> = w\<lparr>faults := fs, headers := hs\<rparr>"
  "w\<lparr>prune_running := pr, faults := fs\<rparr> = w\<lparr>faults := fs, prune_running := pr\<rparr>"
  "w\<lparr>last_prune := lp, faults := fs\<rparr> = w\<lparr>faults := fs, last_prune := lp\<rparr>"
  "w\<lparr>objects := ob, faults := fs\<rparr> = w\<lparr>faults := fs, objects := ob\<rparr>"
  "w\<lparr>tombs := tb, faults := fs\<rparr> = w\<lparr>faults := fs, tombs := tb\<rparr>"
  "w\<lparr>txn := tx, db := d\<rparr> = w\<lparr>db := d, txn := tx\<rparr>"
  "w\<lparr>uuids := us, db := d\<rparr> = w\<lparr>db := d, uuids := us\<rparr>"
  "w\<lparr>entropy := en, db := d\<rparr> = w\<lparr>db := d, entropy := en\<rparr>"
  "w\<lparr>extern := ex, db := d\<rparr> = w\<lparr>db := d, extern := ex\<rparr>"
  "w\<lparr>sms_log := sm, db := d\<rparr> = w\<lparr>db := d, sms_log := sm\<rparr>"
  "w\<lparr>journal := jo, db := d\<rparr> = w\<lparr>db := d, journal := jo\<rparr>"
  "w\<lparr>hub := hb, db := d\<rparr> = w\<lparr>db := d, hub := hb\<rparr>"
  "w\<lparr>push_jobs := pj, db := d\<rparr> = w\<lparr>db := d, push_jobs := pj\<rparr>"
  "w\<lparr>headers := hs, db := d\<rparr> = w\<lparr>db := d, headers := hs\<rparr>"
  "w\<lparr>prune_running := pr, db := d\<rparr> = w\<lparr>db := d, prune_running := pr\<rparr>"
  "w\<lparr>last_prune := lp, db := d\<rparr> = w\<lparr>db := d, last_prune := lp\<rparr>"
  "w\<lparr>objects := ob, db := d\<rparr> = w\<lparr>db := d, objects := ob\<rparr>"
  "w\<lparr>tombs := tb, db := d\<rparr> = w\<lparr>db := d, tombs := tb\<rparr>"
  "w\<lparr>uuids := us, txn := tx\<rparr> = w\<lparr>txn := tx, uuids := us\<rparr>"
  "w\<lparr>entropy := en, txn := tx\<rparr> = w\<lparr>txn := tx, entropy := en\<rparr>"
  "w\<lparr>extern := ex, txn := tx\<rparr> = w\<lparr>txn := tx, extern := ex\<rparr>"
  "w\<lparr>sms_log := sm, txn := tx\<rparr> = w\<lparr>txn := tx, sms_log := sm\<rparr>"
  "w\<lparr>journal := jo, txn := tx\<rparr> = w\<lparr>txn := tx, journal := jo\<rparr>"
  "w\<lparr>hub := hb, txn := tx\<rparr> = w\<lparr>txn := tx, hub := hb\<rparr>"
  "w\<lparr>push_jobs := pj, txn := tx\<rparr> = w\<lparr>txn := tx, push_jobs := pj\<rparr>"
  "w\<lparr>headers := hs, txn := tx\<rparr> = w\<lparr>txn := tx, headers := hs\<rparr>"
  "w\<lparr>prune_running := pr, txn := tx\<rparr> = w\<lparr>txn := tx, prune_running := pr\<rparr>"
  "w\<lparr>last_prune := lp, txn := tx\<rparr> = w\<lparr>txn := tx, last_prune := lp\<rparr>"
  "w\<lparr>objects := ob, txn := tx\<rparr> = w\<lparr>txn := tx, objects := ob\<rparr>"
  "w\<lparr>tombs := tb, txn := tx\<rparr> = w\<lparr>txn := tx, tombs := tb\<rparr>"
  "w\<lparr>entropy := en, uuids := us\<rparr> = w\<lparr>uuids := us, entropy := en\<rparr>"
  "w\<lparr>extern := ex, uuids := us\<rparr> = w\<lparr>uuids := us, extern := ex\<rparr>"
  "w\<lparr>sms_log := sm, uuids := us\<rparr> = w\<lparr>uuids := us, sms_log := sm\<rparr>"
  "w\<lparr>journal := jo, uuids := us\<rparr> = w\<lparr>uuids := us, journal := jo\<rparr>"
  "w\<lparr>hub := hb, uuids := us\<rparr> = w\<lparr>uuids := us, hub := hb\<rparr>"
  "w\<lparr>push_jobs := pj, uuids := us\<rparr> = w\<lparr>uuids := us, push_jobs := pj\<rparr>"
  "w\<lparr>headers := hs, uuids := us\<rparr> = w\<lparr>uuids := us, headers := hs\<rparr>"
  "w\<lparr>prune_running := pr, uuids := us\<rparr> = w\<lparr>uuids := us, prune_running := pr\<rparr>"
  "w\<lparr>last_prune := lp, uuids := us\<rparr> = w\<lparr>uuids := us, last_prune := lp\<rparr>"
  "w\<lparr>objects := ob, uuids := us\<rparr> = w\<lparr>uuids := us, objects := ob\<rparr>"
  "w\<lparr>tombs := tb, uuids := us\<rparr> = w\<lparr>uuids := us, tombs := tb\<rparr>"
  "w\<lparr>extern := ex, entropy := en\<rparr> = w\<lparr>entropy := en, extern := ex\<rparr>"
  "w\<lparr>sms_log := sm, entropy := en\<rparr> = w\<lparr>entropy := en, sms_log := sm\<rparr>"
  "w\<lparr>journal := jo, entropy := en\<rparr> = w\<lparr>entropy := en, journal := jo\<rparr>"
  "w\<lparr>hub := hb, entropy := en\<rparr> = w\<lparr>entropy := en, hub := hb\<rparr>"
  "w\<lparr>push_jobs := pj, entropy := en\<rparr> = w\<lparr>entropy := en, push_jobs := pj\<rparr>"
  "w\<lparr>headers := hs, entropy := en\<rparr> = w\<lparr>entropy := en, headers := hs\<rparr>"
  "w\<lparr>prune_running := pr, entropy := en\<rparr> = w\<lparr>entropy := en, prune_running := pr\<rparr>"
  "w\<lparr>last_prune := lp, entropy := en\<rparr> = w\<lparr>entropy := en, last_prune := lp\<rparr>"
  "w\<lparr>objects := ob, entropy := en\<rparr> = w\<lparr>entropy := en, objects := ob\<rparr>"
  "w\<lparr>tombs := tb, entropy := en\<rparr> = w\<lparr>entropy := en, tombs := tb\<rparr>"
  "w\<lparr>sms_log := sm, extern := ex\<rparr> = w\<lparr>extern := ex, sms_log := sm\<rparr>"
  "w\<lparr>journal := jo, extern := ex\<rparr> = w\<lparr>extern := ex, journal := jo\<rparr>"
  "w\<lparr>hub := hb, extern := ex\<rparr> = w\<lparr>extern := ex, hub := hb\<rparr>"
  "w\<lparr>push_jobs := pj, extern := ex\<rparr> = w\<lparr>extern := ex, push_jobs := pj\<rparr>"
  "w\<lparr>headers := hs, extern := ex\<rparr> = w\<lparr>extern := ex, headers := hs\<rparr>"
  "w\<lparr>prune_running := pr, extern := ex\<rparr> = w\<lparr>extern := ex, prune_running := pr\<rparr>"
  "w\<lparr>last_prune := lp, extern := ex\<rparr> = w\<lparr>extern := ex, last_prune := lp\<rparr>"
  "w\<lparr>objects := ob, extern := ex\<rparr> = w\<lparr>extern := ex, objects := ob\<rparr>"
  "w\<lparr>tombs := tb, extern := ex\<rparr> = w\<lparr>extern := ex, tombs := tb\<rparr>"
  "w\<lparr>journal := jo, sms_log := sm\<rparr> = w\<lparr>sms_log := sm, journal := jo\<rparr>"
  "w\<lparr>hub := hb, sms_log := sm\<rparr> = w\<lparr>sms_log := sm, hub := hb\<rparr>"
  "w\<lparr>push_jobs := pj, sms_log := sm\<rparr> = w\<lparr>sms_log := sm, push_jobs := pj\<rparr>"
  "w\<lparr>headers := hs, sms_log := sm\<rparr> = w\<lparr>sms_log := sm, headers := hs\<rparr>"
  "w\<lparr>prune_running := pr, sms_log := sm\<rparr> = w\<lparr>sms_log := sm, prune_running := pr\<rparr>"
  "w\<lparr>last_prune := lp, sms_log := sm\<rparr> = w\<lparr>sms_log := sm, last_prune := lp\<rparr>"
  "w\<lparr>objects := ob, sms_log := sm\<rparr> = w\<lparr>sms_log := sm, objects := ob\<rparr>"
  "w\<lparr>tombs := tb, sms_log := sm\<rparr> = w\<lparr>sms_log := sm, tombs := tb\<rparr>"
  "w\<lparr>hub := hb, journal := jo\<rparr> = w\<lparr>journal := jo, hub := hb\<rparr>"
  "w\<lparr>push_jobs := pj, journal := jo\<rparr> = w\<lparr>journal := jo, push_jobs := pj\<rparr>"
  "w\<lparr>headers := hs, journal := jo\<rparr> = w\<lparr>journal := jo, headers := hs\<rparr>"
  "w\<lparr>prune_running := pr, journal := jo\<rparr> = w\<lparr>journal := jo, prune_running := pr\<rparr>"
  "w\<lparr>last_prune := lp, journal := jo\<rparr> = w\<lparr>journal := jo, last_prune := lp\<rparr>"
  "w\<lparr>objects := ob, journal := jo\<rparr> = w\<lparr>journal := jo, objects := ob\<rparr>"
  "w\<lparr>tombs := tb, journal := jo\<rparr> = w\<lparr>journal := jo, tombs := tb\<rparr>"
  "w\<lparr>push_jobs := pj, hub := hb\<rparr> = w\<lparr>hub := hb, push_jobs := pj\<rparr>"
  "w\<lparr>headers := hs, hub := hb\<rparr> = w\<lparr>hub := hb, headers := hs\<rparr>"
  "w\<lparr>prune_running := pr, hub := hb\<rparr> = w\<lparr>hub := hb, prune_running := pr\<rparr>"
  "w\<lparr>last_prune := lp, hub := hb\<rparr> = w\<lparr>hub := hb, last_prune := lp\<rparr>"
  "w\<lparr>objects := ob, hub := hb\<rparr> = w\<lparr>hub := hb, objects := ob\<rparr>"
  "w\<lparr>tombs := tb, hub := hb\<rparr> = w\<lparr>hub := hb, tombs := tb\<rparr>"
  "w\<lparr>headers := hs, push_jobs := pj\<rparr> = w\<lparr>push_jobs := pj, headers := hs\<rparr>"
  "w\<lparr>prune_running := pr, push_jobs := pj\<rparr> = w\<lparr>push_jobs := pj, prune_running := pr\<rparr>"
  "w\<lparr>last_prune := lp, push_jobs := pj\<rparr> = w\<lparr>push_jobs := pj, last_prune := lp\<rparr>"
  "w\<lparr>objects := ob, push_jobs := pj\<rparr> = w\<lparr>push_jobs := pj, objects := ob\<rparr>"
  "w\<lparr>tombs := tb, push_jobs := pj\<rparr> = w\<lparr>push_jobs := pj, tombs := tb\<rparr>"
  "w\<lparr>prune_running := pr, headers := hs\<rparr> = w\<lparr>headers := hs, prune_running := pr\<rparr>"
  "w\<lparr>last_prune := lp, headers := hs\<rparr> = w\<lparr>headers := hs, last_prune := lp\<rparr>"
  "w\<lparr>objects := ob, headers := hs\<rparr> = w\<lparr>headers := hs, objects := ob\<rparr>"
  "w\<lparr>tombs := tb, headers := hs\<rparr> = w\<lparr>headers := hs, tombs := tb\<rparr>"
  "w\<lparr>last_prune := lp, prune_running := pr\<rparr> = w\<lparr>prune_running := pr, last_prune := lp\<rparr>"
  "w\<lparr>objects := ob, prune_running := pr\<rparr> = w\<lparr>prune_running := pr, objects := ob\<rparr>"
  "w\<lparr>tombs := tb, prune_running := pr\<rparr> = w\<lparr>prune_running := pr, tombs := tb\<rparr>"
  "w\<lparr>objects := ob, last_prune := lp\<rparr> = w\<lparr>last_prune := lp, objects := ob\<rparr>"
  "w\<lparr>tombs := tb, last_prune := lp\<rparr> = w\<lparr>last_prune := lp, tombs := tb\<rparr>"
  "w\<lparr>tombs := tb, objects := ob\<rparr> = w\<lparr>objects := ob, tombs := tb\<rparr>"
  by (cases w; simp)+

lemma world_update_self [simp]:
  fixes w :: world
  shows "w\<lparr>faults := fs, uuids := uuids w\<rparr> = w\<lparr>faults := fs\<rparr>"
    "w\<lparr>faults := fs, txn := txn w\<rparr> = w\<lparr>faults := fs\<rparr>"
    "w\<lparr>faults := fs, db := db w\<rparr> = w\<lparr>faults := fs\<rparr>"
    "w\<lparr>txn := txn w\<rparr> = w"
    "w\<lparr>faults := faults w\<rparr> = w"
    "w\<lparr>hub := hub w\<rparr> = w"
    "w\<lparr>push_jobs := push_jobs w\<rparr> = w"
    "w\<lparr>hub := hub w, push_jobs := push_jobs w\<rparr> = w"
    "w\<lparr>faults := fs, hub := hub w\<rparr> = w\<lparr>faults := fs\<rparr>"
    "w\<lparr>faults := fs, push_jobs := push_jobs w\<rparr> = w\<lparr>faults := fs\<rparr>"
    "w\<lparr>faults := fs, hub := h, push_jobs := push_jobs w\<rparr> = w\<lparr>faults := fs, hub := h\<rparr>"
    "w\<lparr>db := db w\<rparr> = w"
  by (cases w; simp)+

section \<open>Weakest preconditions\<close>

text \<open>
  \<open>wp m Q w\<close>: the run of \<open>m\<close> from \<open>w\<close> ends in a result and a world that satisfy \<open>Q\<close>. One
  introduction rule per combinator (collection \<open>wps\<close>); the rules of the statements split into the
  failed call, which leaves the tables alone, and the successful one.
\<close>

named_theorems wps "introduction rules of the weakest preconditions"

definition wp :: "(world, 'a) state \<Rightarrow> ('a \<Rightarrow> world \<Rightarrow> bool) \<Rightarrow> world \<Rightarrow> bool" where
  "wp m Q w \<longleftrightarrow> (case run_state m w of (r, w') \<Rightarrow> Q r w')"

lemma wpD: "wp m Q w \<Longrightarrow> run_state m w = (r, w') \<Longrightarrow> Q r w'"
  by (simp add: wp_def)

lemma wpI: "(\<And>r w'. run_state m w = (r, w') \<Longrightarrow> Q r w') \<Longrightarrow> wp m Q w"
  by (simp add: wp_def split: prod.splits)

lemma wp_mono: "wp m Q w \<Longrightarrow> (\<And>r w'. Q r w' \<Longrightarrow> R r w') \<Longrightarrow> wp m R w"
  by (simp add: wp_def split: prod.splits)

lemma wp_return [wps]: "Q x w \<Longrightarrow> wp (State_Monad.return x) Q w"
  by (simp add: wp_def)

lemma wp_bind [wps]: "wp m (\<lambda>a. wp (f a) Q) w \<Longrightarrow> wp (State_Monad.bind m f) Q w"
  by (simp add: wp_def split: prod.splits)

lemma wp_bind_run: "run_state m w = (a, w1) \<Longrightarrow> wp (State_Monad.bind m f) Q w = wp (f a) Q w1"
  by (simp add: wp_def)

lemma wp_if [wps]:
  "(c \<Longrightarrow> wp m Q w) \<Longrightarrow> (\<not> c \<Longrightarrow> wp n Q w) \<Longrightarrow> wp (if c then m else n) Q w"
  by simp

lemma wp_let [wps]: "(\<And>x. x = t \<Longrightarrow> wp (f x) Q w) \<Longrightarrow> wp (let x = t in f x) Q w"
  by simp

lemma wp_case_sqlres [wps]:
  "(\<And>x. r = Row x \<Longrightarrow> wp (f x) Q w) \<Longrightarrow> (r = NoRows \<Longrightarrow> wp m Q w) \<Longrightarrow>
   (r = SqlErr \<Longrightarrow> wp n Q w) \<Longrightarrow> wp (case r of Row x \<Rightarrow> f x | NoRows \<Rightarrow> m | SqlErr \<Rightarrow> n) Q w"
  by (cases r) simp_all

lemma wp_case_qres [wps]:
  "(\<And>x. r = Rows x \<Longrightarrow> wp (f x) Q w) \<Longrightarrow> (r = QueryErr \<Longrightarrow> wp m Q w) \<Longrightarrow>
   (r = ScanErr \<Longrightarrow> wp n Q w) \<Longrightarrow> (r = RowsErr \<Longrightarrow> wp k Q w) \<Longrightarrow>
   wp (case r of Rows x \<Rightarrow> f x | QueryErr \<Rightarrow> m | ScanErr \<Rightarrow> n | RowsErr \<Rightarrow> k) Q w"
  by (cases r) simp_all

lemma wp_case_option [wps]:
  "(\<And>x. r = Some x \<Longrightarrow> wp (f x) Q w) \<Longrightarrow> (r = None \<Longrightarrow> wp m Q w) \<Longrightarrow>
   wp (case r of None \<Rightarrow> m | Some x \<Rightarrow> f x) Q w"
  by (cases r) simp_all

lemma wp_case_sum [wps]:
  "(\<And>x. r = Inl x \<Longrightarrow> wp (f x) Q w) \<Longrightarrow> (\<And>x. r = Inr x \<Longrightarrow> wp (g x) Q w) \<Longrightarrow>
   wp (case r of Inl x \<Rightarrow> f x | Inr x \<Rightarrow> g x) Q w"
  by (cases r) simp_all

lemma wp_case_prod [wps]:
  "(\<And>x y. r = (x, y) \<Longrightarrow> wp (f x y) Q w) \<Longrightarrow> wp (case r of (x, y) \<Rightarrow> f x y) Q w"
  by (cases r) simp

lemma wp_modify [wps]: "Q () (f w) \<Longrightarrow> wp (modify f) Q w"
  by (simp add: wp_def)

lemma wp_read_now [wps]: "Q (now w) w \<Longrightarrow> wp read_now Q w"
  by (simp add: wp_def)

lemma wp_set_header [wps]:
  "(\<And>hs. Q () (w\<lparr>headers := hs\<rparr>)) \<Longrightarrow> wp (set_header k v) Q w"
  by (simp add: wp_def)

lemma wp_stmt_Pool [wps]:
  "(\<And>fs. Q SqlErr (w\<lparr>faults := fs\<rparr>)) \<Longrightarrow>
   (\<And>fs r d. q (now w) (db w) = (r, d) \<Longrightarrow> r \<noteq> SqlErr \<Longrightarrow> Q r (w\<lparr>faults := fs, db := d\<rparr>)) \<Longrightarrow>
   wp (stmt Pool q) Q w"
  by (rule wpI) (erule stmt_Pool_cases, simp_all)

lemma wp_stmt_Tx [wps]:
  assumes "\<And>fs t. (\<And>d. t \<noteq> Some (d, False)) \<Longrightarrow> Q SqlErr (w\<lparr>faults := fs, txn := t\<rparr>)"
    and "\<And>fs d0 r d. txn w = Some (d0, False) \<Longrightarrow> q (now w) d0 = (r, d) \<Longrightarrow> r \<noteq> SqlErr \<Longrightarrow>
      Q r (w\<lparr>faults := fs, txn := Some (d, False)\<rparr>)"
  shows "wp (stmt Tx q) Q w"
proof (rule wpI)
  fix r w' assume "run_state (stmt Tx q) w = (r, w')"
  then show "Q r w'"
  proof (cases rule: stmt_Tx_cases)
    case (no_txn fs)
    then have "w' = w\<lparr>faults := fs, txn := None\<rparr>" by (cases w) simp
    with no_txn(1) assms(1) show ?thesis by simp
  qed (simp_all add: assms)
qed

lemma wp_sel_Pool [wps]:
  assumes "\<And>fs. Q SqlErr (w\<lparr>faults := fs\<rparr>)"
    and "\<And>fs r. f (now w) (db w) = r \<Longrightarrow> r \<noteq> SqlErr \<Longrightarrow> Q r (w\<lparr>faults := fs\<rparr>)"
  shows "wp (sel Pool f) Q w"
  unfolding sel_def
proof (rule wp_stmt_Pool)
  fix fs r d assume a: "(f (now w) (db w), db w) = (r, d)" "r \<noteq> SqlErr"
  then have "w\<lparr>faults := fs, db := d\<rparr> = w\<lparr>faults := fs\<rparr>" by (cases w) simp
  moreover have "Q r (w\<lparr>faults := fs\<rparr>)" using a by (intro assms(2)) auto
  ultimately show "Q r (w\<lparr>faults := fs, db := d\<rparr>)" by simp
qed (rule assms(1))

lemma wp_sel_Tx [wps]:
  assumes "\<And>fs t. (\<And>d. t \<noteq> Some (d, False)) \<Longrightarrow> Q SqlErr (w\<lparr>faults := fs, txn := t\<rparr>)"
    and "\<And>fs d0 r. txn w = Some (d0, False) \<Longrightarrow> f (now w) d0 = r \<Longrightarrow> r \<noteq> SqlErr \<Longrightarrow> Q r (w\<lparr>faults := fs\<rparr>)"
  shows "wp (sel Tx f) Q w"
  unfolding sel_def
proof (rule wp_stmt_Tx)
  fix fs d0 r d assume a: "txn w = Some (d0, False)" "(f (now w) d0, d0) = (r, d)" "r \<noteq> SqlErr"
  then have "w\<lparr>faults := fs, txn := Some (d, False)\<rparr> = w\<lparr>faults := fs\<rparr>" by (cases w) simp
  moreover have "Q r (w\<lparr>faults := fs\<rparr>)" using a by (intro assms(2) [of d0]) auto
  ultimately show "Q r (w\<lparr>faults := fs, txn := Some (d, False)\<rparr>)" by simp
qed (rule assms(1))

lemma wp_scan_ignore_Tx [wps]:
  assumes "\<And>x fs t. t = txn w \<or> (\<forall>d. t \<noteq> Some (d, False)) \<Longrightarrow> Q x (w\<lparr>faults := fs, txn := t\<rparr>)"
  shows "wp (scan_ignore Tx f x0) Q w"
proof -
  have "Q x (w\<lparr>faults := fs\<rparr>)" for x fs
    using assms [where t = "txn w"] by simp
  then show ?thesis
    unfolding scan_ignore_def by (intro wps) (use assms in auto)
qed

lemma wp_scan_ignore_Pool [wps]:
  "(\<And>x fs. Q x (w\<lparr>faults := fs\<rparr>)) \<Longrightarrow> wp (scan_ignore Pool f x0) Q w"
  unfolding scan_ignore_def by (intro wps) auto

lemma wp_exec_Pool [wps]:
  "(\<And>fs. Q SqlErr (w\<lparr>faults := fs\<rparr>)) \<Longrightarrow>
   (\<And>fs. Q (Row ()) (w\<lparr>faults := fs, db := f (now w) (db w)\<rparr>)) \<Longrightarrow> wp (exec Pool f) Q w"
  unfolding exec_def by (rule wp_stmt_Pool) auto

lemma wp_exec_Tx [wps]:
  "(\<And>fs t. (\<And>d. t \<noteq> Some (d, False)) \<Longrightarrow> Q SqlErr (w\<lparr>faults := fs, txn := t\<rparr>)) \<Longrightarrow>
   (\<And>fs d0. txn w = Some (d0, False) \<Longrightarrow>
     Q (Row ()) (w\<lparr>faults := fs, txn := Some (f (now w) d0, False)\<rparr>)) \<Longrightarrow> wp (exec Tx f) Q w"
  unfolding exec_def by (rule wp_stmt_Tx) auto

lemma run_insert_stmt:
  "run_state (insert_stmt c q) w = (case uuids w of
       [] \<Rightarrow> run_state (stmt c (\<lambda>_ d. (SqlErr, d))) w
     | u # us \<Rightarrow> run_state (stmt c (q u)) (w\<lparr>uuids := us\<rparr>))"
  by (simp add: insert_stmt_def)

lemma wp_insert_Pool [wps]:
  assumes E: "\<And>fs us. Q SqlErr (w\<lparr>faults := fs, uuids := us\<rparr>)"
    and S: "\<And>fs u us r d. uuids w = u # us \<Longrightarrow> q u (now w) (db w) = (r, d) \<Longrightarrow> r \<noteq> SqlErr \<Longrightarrow>
      Q r (w\<lparr>faults := fs, db := d, uuids := us\<rparr>)"
  shows "wp (insert_stmt Pool q) Q w"
proof (rule wpI)
  fix r w' assume r: "run_state (insert_stmt Pool q) w = (r, w')"
  show "Q r w'"
  proof (cases "uuids w")
    case Nil
    then have "run_state (stmt Pool (\<lambda>_ d. (SqlErr, d))) w = (r, w')"
      using r by (simp add: run_insert_stmt)
    then show ?thesis using E [where us = "uuids w"] by (cases rule: stmt_Pool_cases) simp_all
  next
    case (Cons u us)
    then have "run_state (stmt Pool (q u)) (w\<lparr>uuids := us\<rparr>) = (r, w')"
      using r by (simp add: run_insert_stmt)
    then show ?thesis using E S Cons by (cases rule: stmt_Pool_cases) simp_all
  qed
qed

lemma wp_insert_Tx [wps]:
  assumes E: "\<And>fs us t. (\<And>d. t \<noteq> Some (d, False)) \<Longrightarrow>
      Q SqlErr (w\<lparr>faults := fs, txn := t, uuids := us\<rparr>)"
    and S: "\<And>fs u us d0 r d. uuids w = u # us \<Longrightarrow> txn w = Some (d0, False) \<Longrightarrow>
      q u (now w) d0 = (r, d) \<Longrightarrow> r \<noteq> SqlErr \<Longrightarrow>
      Q r (w\<lparr>faults := fs, txn := Some (d, False), uuids := us\<rparr>)"
  shows "wp (insert_stmt Tx q) Q w"
proof (rule wpI)
  fix r w' assume r: "run_state (insert_stmt Tx q) w = (r, w')"
  show "Q r w'"
  proof (cases "uuids w")
    case Nil
    then have "run_state (stmt Tx (\<lambda>_ d. (SqlErr, d))) w = (r, w')"
      using r by (simp add: run_insert_stmt)
    moreover have "w\<lparr>faults := fs, txn := t, uuids := []\<rparr> = w\<lparr>faults := fs, txn := t\<rparr>" for fs t
      using Nil by (cases w) simp
    moreover have "Q SqlErr (w\<lparr>faults := fs\<rparr>)" if "txn w = None" for fs
    proof -
      have "w\<lparr>faults := fs, txn := None, uuids := []\<rparr> = w\<lparr>faults := fs\<rparr>"
        using Nil that by (cases w) simp
      then show ?thesis using E [where fs = fs and us = "[]" and t = None] by simp
    qed
    ultimately show ?thesis using E [where us = "[]"] by (cases rule: stmt_Tx_cases) auto
  next
    case (Cons u us)
    then have "run_state (stmt Tx (q u)) (w\<lparr>uuids := us\<rparr>) = (r, w')"
      using r by (simp add: run_insert_stmt)
    moreover have "Q SqlErr (w\<lparr>faults := fs, uuids := us\<rparr>)" if "txn w = None" for fs
    proof -
      have "w\<lparr>faults := fs, txn := None, uuids := us\<rparr> = w\<lparr>faults := fs, uuids := us\<rparr>"
        using that by (cases w) simp
      then show ?thesis using E [where fs = fs and us = us and t = None] by simp
    qed
    ultimately show ?thesis using E S Cons by (cases rule: stmt_Tx_cases) auto
  qed
qed

lemma wp_query_Pool [wps]:
  assumes "\<And>fs r. (\<And>x. r \<noteq> Rows x) \<Longrightarrow> Q r (w\<lparr>faults := fs\<rparr>)"
    and "\<And>fs. Q (Rows (q (now w) (db w))) (w\<lparr>faults := fs\<rparr>)"
  shows "wp (query Pool q) Q w"
proof (rule wpI)
  fix r w' assume r: "run_state (query Pool q) w = (r, w')"
  obtain f w1 where p: "pop_fault w = (f, w1)" by fastforce
  then obtain fs where "w1 = w\<lparr>faults := fs\<rparr>" by (rule pop_faultE)
  with r p assms show "Q r w'" by (cases f) (auto simp: query_def)
qed

lemma wp_tx_begin [wps]:
  "(\<And>fs. Q False (w\<lparr>faults := fs\<rparr>)) \<Longrightarrow>
   (\<And>fs. Q True (w\<lparr>faults := fs, txn := Some (db w, False)\<rparr>)) \<Longrightarrow> wp tx_begin Q w"
proof (rule wpI)
  fix r w' assume Q: "\<And>fs. Q False (w\<lparr>faults := fs\<rparr>)"
    "\<And>fs. Q True (w\<lparr>faults := fs, txn := Some (db w, False)\<rparr>)" and r: "run_state tx_begin w = (r, w')"
  obtain f w1 where p: "pop_fault w = (f, w1)" by fastforce
  then obtain fs where "w1 = w\<lparr>faults := fs\<rparr>" by (rule pop_faultE)
  with Q r p show "Q r w'" by (auto simp: tx_begin_def split: if_splits)
qed

lemma wp_tx_commit [wps]:
  assumes "\<And>fs. Q False (w\<lparr>faults := fs, txn := None\<rparr>)"
    "\<And>fs d. txn w = Some (d, False) \<Longrightarrow> Q True (w\<lparr>faults := fs, db := d, txn := None\<rparr>)"
  shows "wp tx_commit Q w"
proof (rule wpI)
  fix r w' assume r: "run_state tx_commit w = (r, w')"
  obtain f w1 where p: "pop_fault w = (f, w1)" by fastforce
  then obtain fs where w1: "w1 = w\<lparr>faults := fs\<rparr>" by (rule pop_faultE)
  have "Q False (w\<lparr>faults := fs\<rparr>)" if "txn w = None"
  proof -
    have "w\<lparr>faults := fs, txn := None\<rparr> = w\<lparr>faults := fs\<rparr>" using that by (cases w) simp
    with assms(1) [of fs] show ?thesis by simp
  qed
  with w1 r p assms show "Q r w'" by (auto simp: tx_commit_def split: if_splits option.splits prod.splits)
qed

lemma wp_tx_rollback [wps]: "Q () (w\<lparr>txn := None\<rparr>) \<Longrightarrow> wp tx_rollback Q w"
  by (simp add: wp_def)

lemma wp_defer_rollback [wps]:
  "wp m (\<lambda>r w'. Q r (w'\<lparr>txn := None\<rparr>)) w \<Longrightarrow> wp (defer_rollback m) Q w"
  by (simp add: wp_def run_defer_rollback split: prod.splits)

lemma wp_rand_read [wps]:
  "(\<And>en. Q None (w\<lparr>entropy := en\<rparr>)) \<Longrightarrow>
   (\<And>bs en. entropy w = bs # en \<Longrightarrow> length bs = n \<Longrightarrow> \<forall>b\<in>set bs. b < 256 \<Longrightarrow>
     Q (Some bs) (w\<lparr>entropy := en\<rparr>)) \<Longrightarrow> wp (rand_read n) Q w"
proof (rule wpI)
  fix r w' assume Q: "\<And>en. Q None (w\<lparr>entropy := en\<rparr>)" "\<And>bs en. entropy w = bs # en \<Longrightarrow>
      length bs = n \<Longrightarrow> \<forall>b\<in>set bs. b < 256 \<Longrightarrow> Q (Some bs) (w\<lparr>entropy := en\<rparr>)"
    and r: "run_state (rand_read n) w = (r, w')"
  have "Q None w" if "entropy w = []"
  proof -
    have "w\<lparr>entropy := []\<rparr> = w" using that by (cases w) simp
    with Q(1) [of "[]"] show ?thesis by simp
  qed
  with Q r show "Q r w'"
    by (auto simp: rand_read_def split: list.splits if_splits)
qed

lemma wp_extern_ok [wps]: "(\<And>b ex. Q b (w\<lparr>extern := ex\<rparr>)) \<Longrightarrow> wp extern_ok Q w"
proof (rule wpI)
  fix r w' assume Q: "\<And>b ex. Q b (w\<lparr>extern := ex\<rparr>)" and r: "run_state extern_ok w = (r, w')"
  have "Q True w" if "extern w = []"
  proof -
    have "w\<lparr>extern := []\<rparr> = w" using that by (cases w) simp
    with Q [of True "[]"] show ?thesis by simp
  qed
  with Q r show "Q r w'" by (auto simp: extern_ok_def split: list.splits)
qed

lemma wp_query_Tx [wps]:
  assumes "\<And>fs r t. (\<And>x. r \<noteq> Rows x) \<Longrightarrow> (\<And>d. t \<noteq> Some (d, False)) \<Longrightarrow> Q r (w\<lparr>faults := fs, txn := t\<rparr>)"
    and "\<And>fs d0. txn w = Some (d0, False) \<Longrightarrow> Q (Rows (q (now w) d0)) (w\<lparr>faults := fs\<rparr>)"
  shows "wp (query Tx q) Q w"
proof (rule wpI)
  fix r w' assume r: "run_state (query Tx q) w = (r, w')"
  obtain f w1 where p: "pop_fault w = (f, w1)" by fastforce
  then obtain fs where w1: "w1 = w\<lparr>faults := fs\<rparr>" by (rule pop_faultE)
  have "Q e (w\<lparr>faults := fs\<rparr>)" if "\<And>x. e \<noteq> Rows x" "txn w = t" "\<And>d. t \<noteq> Some (d, False)" for e t
    using assms(1) [of e t fs] that by (metis same_fields(2) world_update_order(2))
  with r p w1 assms show "Q r w'"
    by (cases f; cases "txn w") (auto simp: query_def split: if_splits)
qed

lemma run_extern_ok: "run_state extern_ok w = (case extern w of [] \<Rightarrow> (True, w) | b # bs \<Rightarrow> (\<not> b, w\<lparr>extern := bs\<rparr>))"
  by (simp add: extern_ok_def split: list.splits)

section \<open>The clock stands still during a request\<close>

lemma now_stmt [pres]: "preserves (\<lambda>w. now w = t) (stmt c q)"
  by (rule preservesI, cases c) (auto elim!: stmt_Pool_cases stmt_Tx_cases)

lemma now_insert [pres]: "preserves (\<lambda>w. now w = t) (insert_stmt c q)"
proof (rule preservesI)
  fix w r w' assume w: "now w = t" "run_state (insert_stmt c q) w = (r, w')"
  show "now w' = t"
  proof (cases "uuids w")
    case Nil
    then have "run_state (stmt c (\<lambda>_ d. (SqlErr, d))) w = (r, w')" using w(2) by (simp add: run_insert_stmt)
    then show ?thesis by (rule preservesD [OF now_stmt w(1)])
  next
    case (Cons u us)
    then have "run_state (stmt c (q u)) (w\<lparr>uuids := us\<rparr>) = (r, w')" using w(2) by (simp add: run_insert_stmt)
    then show ?thesis by (rule preservesD [OF now_stmt, rotated]) (simp add: w(1))
  qed
qed

lemma now_query [pres]: "preserves (\<lambda>w. now w = t) (query c q)"
  by (rule preservesI) (auto elim: query_cases)

lemma now_other [pres]:
  "preserves (\<lambda>w. now w = t) (sel c f)" "preserves (\<lambda>w. now w = t) (exec c g)"
  "preserves (\<lambda>w. now w = t) tx_begin" "preserves (\<lambda>w. now w = t) tx_commit"
  "preserves (\<lambda>w. now w = t) tx_rollback" "preserves (\<lambda>w. now w = t) (rand_read n)"
  "preserves (\<lambda>w. now w = t) extern_ok" "preserves (\<lambda>w. now w = t) (set_header k v)"
proof -
  have p: "now w1 = now w" if "pop_fault w = (f, w1)" for w f w1 using that by (auto elim: pop_faultE)
  show "preserves (\<lambda>w. now w = t) (sel c f)" "preserves (\<lambda>w. now w = t) (exec c g)"
    unfolding sel_def exec_def by (rule now_stmt)+
  show "preserves (\<lambda>w. now w = t) tx_begin" "preserves (\<lambda>w. now w = t) tx_commit"
    "preserves (\<lambda>w. now w = t) tx_rollback" "preserves (\<lambda>w. now w = t) (rand_read n)"
    "preserves (\<lambda>w. now w = t) extern_ok" "preserves (\<lambda>w. now w = t) (set_header k v)"
    by (rule preservesI; auto simp: tx_begin_def tx_commit_def rand_read_def extern_ok_def dest: p
          split: if_splits option.splits list.splits prod.splits)+
qed

lemma now_combined [pres]:
  "preserves (\<lambda>w. now w = t) m \<Longrightarrow> preserves (\<lambda>w. now w = t) (defer_rollback m)"
  "preserves (\<lambda>w. now w = t) (scan_ignore c f x0)"
  unfolding defer_rollback_def scan_ignore_def by (intro pres; assumption?)+

lemma wp_stmt_Pool_tl:
  assumes "faults w \<noteq> [] \<or> fst (q (now w) (db w)) = SqlErr \<Longrightarrow> Q SqlErr (w\<lparr>faults := tl (faults w)\<rparr>)"
    and "\<And>r d. q (now w) (db w) = (r, d) \<Longrightarrow> r \<noteq> SqlErr \<Longrightarrow> Q r (w\<lparr>faults := tl (faults w), db := d\<rparr>)"
  shows "wp (stmt Pool q) Q w"
proof -
  obtain r d where q: "q (now w) (db w) = (r, d)" by fastforce
  have p: "pop_fault w = ((case faults w of [] \<Rightarrow> NoFault | f # fs \<Rightarrow> f), w\<lparr>faults := tl (faults w)\<rparr>)"
    by (cases "faults w") (simp_all add: pop_fault_def same_fields)
  show ?thesis
  proof (cases "r = SqlErr")
    case True
    then show ?thesis using assms(1) q p by (auto simp: wp_def stmt_def)
  next
    case False
    then show ?thesis using assms q p by (cases r) (auto simp: wp_def stmt_def split: list.splits)
  qed
qed

end
