(* ===== verification/Money.thy ===== *)
theory Money
  imports Complex_Main Prelude
begin

text \<open>
  Go's \<open>float64\<close> as far as the backend uses it, and the validation of money amounts
  (\<open>internal/httpapi/projects.go\<close>). A finite value is the rational it denotes; \<open>rn64\<close> rounds a
  rational to the nearest binary64 value, ties to even.
\<close>

datatype f64 = Fin rat | PosInf | NegInf | NaN

section \<open>Rounding to binary64\<close>

function bitlen :: "int \<Rightarrow> int" where
  "bitlen n = (if n \<le> 0 then 0 else 1 + bitlen (n div 2))"
  by pat_completeness auto
termination
  by (relation "measure nat") auto

declare bitlen.simps [simp del]

definition pow2 :: "int \<Rightarrow> rat" where
  "pow2 e = (if 0 \<le> e then of_int (2 ^ nat e) else 1 / of_int (2 ^ nat (- e)))"

definition round_even :: "rat \<Rightarrow> int" where
  "round_even q = (let n = \<lfloor>q\<rfloor>; r = q - of_int n in
     if r < 1 / 2 then n else if r > 1 / 2 then n + 1 else if even n then n else n + 1)"

definition rn64_pos :: "rat \<Rightarrow> rat" where
  "rn64_pos q = (case quotient_of q of (a, b) \<Rightarrow>
     let e0 = bitlen a - bitlen b - 53;
         e1 = (if pow2 53 \<le> q / pow2 e0 then e0 + 1 else e0);
         e = max e1 (-1074)
     in of_int (round_even (q / pow2 e)) * pow2 e)"

definition rn64 :: "rat \<Rightarrow> rat" where
  "rn64 q = (if q = 0 then 0 else if q < 0 then - rn64_pos (- q) else rn64_pos q)"

definition f_of :: "rat \<Rightarrow> f64" where
  "f_of q = (let r = rn64 q in
     if pow2 1024 \<le> r then PosInf else if r \<le> - pow2 1024 then NegInf else Fin r)"

section \<open>Comparison and arithmetic used by the validation\<close>

fun f_lt :: "f64 \<Rightarrow> f64 \<Rightarrow> bool" where
  "f_lt NaN _ = False"
| "f_lt _ NaN = False"
| "f_lt (Fin a) (Fin b) = (a < b)"
| "f_lt NegInf y = (y \<noteq> NegInf)"
| "f_lt x PosInf = (x \<noteq> PosInf)"
| "f_lt _ _ = False"

text \<open>\<open>math.Round\<close>: half away from zero.\<close>

definition go_round :: "rat \<Rightarrow> int" where
  "go_round q = (if 0 \<le> q then \<lfloor>q + 1 / 2\<rfloor> else \<lceil>q - 1 / 2\<rceil>)"

definition round_cents :: "f64 \<Rightarrow> f64" where
  "round_cents v = (case v of
     Fin q \<Rightarrow> (case f_of (q * 100) of
        Fin r \<Rightarrow> f_of (of_int (go_round r) / 100) | x \<Rightarrow> x)
   | x \<Rightarrow> x)"

definition maxMoneyAmount :: f64 where
  "maxMoneyAmount = f_of (99999999999999 / 100)"

definition validateMoneyAmount :: "f64 \<Rightarrow> string \<Rightarrow> string option" where
  "validateMoneyAmount v field_name =
     (if f_lt v (Fin 0) \<or> v = NaN \<or> v = PosInf \<or> v = NegInf \<or> f_lt maxMoneyAmount v
      then Some (field_name @ '' must be a finite non-negative number not exceeding 999999999999.99'')
      else if f_lt maxMoneyAmount (round_cents v)
      then Some (field_name @ '' must be a finite non-negative number not exceeding 999999999999.99'')
      else None)"

definition validateProjectBudget :: "f64 \<Rightarrow> string option" where
  "validateProjectBudget v = validateMoneyAmount v ''budget_amount''"

definition normalizeProjectCurrency :: "string \<Rightarrow> string + string" where
  "normalizeProjectCurrency raw =
     (let currency = to_upper (trim_space raw) in
      if currency = '''' then Inr ''KGS''
      else if currency = ''KGS'' \<or> currency = ''USD'' \<or> currency = ''KZT'' then Inr currency
      else Inl ''currency must be KGS, USD or KZT'')"

section \<open>Lemmas\<close>

lemma validateMoneyAmount_None:
  assumes "validateMoneyAmount v f = None"
  obtains q where "v = Fin q" "0 \<le> q" "\<not> f_lt maxMoneyAmount (Fin q)"
  using assms by (cases v) (auto simp: validateMoneyAmount_def split: if_splits)

lemma validateMoneyAmount_field: "(validateMoneyAmount v f = None) = (validateMoneyAmount v g = None)"
  by (simp add: validateMoneyAmount_def)

lemma normalizeProjectCurrency_Inr:
  "normalizeProjectCurrency raw = Inr c \<Longrightarrow> c = ''KGS'' \<or> c = ''USD'' \<or> c = ''KZT''"
  by (auto simp: normalizeProjectCurrency_def Let_def split: if_splits)

end
