(* ===== verification/Http.thy ===== *)
theory Http
  imports Monad_Logic Money
begin

text \<open>
  Requests, responses and the small helpers of \<open>internal/httpapi\<close> that every handler uses:
  \<open>response.go\<close>, \<open>path.go\<close>, \<open>context.go\<close> and the process-wide \<open>State\<close> of \<open>state.go\<close>. A request
  body is the JSON value the tokenizer read (or none, when it is not JSON or too long); the
  decoding of a JSON object into a Go struct is modelled by the field functions below.
\<close>

section \<open>JSON bodies\<close>

datatype json = JNull | JBool bool | JInt int | JFloat rat | JStr string | JArr "json list"
  | JObj "(string \<times> json) list"

text \<open>\<open>encoding/json\<close> matches keys case-insensitively: ASCII case, the Kelvin sign and the long s.\<close>

fun fold_key :: "string \<Rightarrow> string" where
  "fold_key [] = []"
| "fold_key (c # cs) =
     (if is_upper c then char_of (byte c + 32) # fold_key cs
      else if has_prefix [CHR 0xE2, CHR 0x84, CHR 0xAA] (c # cs) then CHR ''k'' # fold_key (drop 2 cs)
      else if has_prefix [CHR 0xC5, CHR 0xBF] (c # cs) then CHR ''s'' # fold_key (drop 1 cs)
      else c # fold_key cs)"

text \<open>The pairs of an object decoded into a struct; \<open>null\<close> leaves the struct as it is.\<close>

definition json_pairs :: "json \<Rightarrow> (string \<times> json) list option" where
  "json_pairs j = (case j of JObj fs \<Rightarrow> Some fs | JNull \<Rightarrow> Some [] | _ \<Rightarrow> None)"

fun is_null :: "json \<Rightarrow> bool" where
  "is_null JNull = True"
| "is_null _ = False"

definition field_values :: "(string \<times> json) list \<Rightarrow> string \<Rightarrow> json list" where
  "field_values fs n = filter (\<lambda>v. \<not> is_null v) (map snd (filter (\<lambda>(k, _). fold_key k = fold_key n) fs))"

definition str_values :: "json list \<Rightarrow> string list" where
  "str_values vs = List.map_filter (\<lambda>v. case v of JStr s \<Rightarrow> Some s | _ \<Rightarrow> None) vs"

definition last_or :: "'a \<Rightarrow> 'a list \<Rightarrow> 'a" where
  "last_or d xs = (if xs = [] then d else last xs)"

text \<open>A \<open>string\<close> field: a value of another JSON type is a decoding error.\<close>

definition str_field :: "(string \<times> json) list \<Rightarrow> string \<Rightarrow> string option" where
  "str_field fs n = (let vs = field_values fs n in
     if list_all (\<lambda>v. case v of JStr _ \<Rightarrow> True | _ \<Rightarrow> False) vs then Some (last_or [] (str_values vs)) else None)"

definition num_value :: "json \<Rightarrow> f64 option" where
  "num_value v = (case v of
     JInt n \<Rightarrow> (case f_of (of_int n) of Fin q \<Rightarrow> Some (Fin q) | _ \<Rightarrow> None)
   | JFloat q \<Rightarrow> (case f_of q of Fin r \<Rightarrow> Some (Fin r) | _ \<Rightarrow> None)
   | _ \<Rightarrow> None)"

text \<open>A \<open>float64\<close> field: the number rounded to binary64, an error when it overflows.\<close>

definition float_field :: "(string \<times> json) list \<Rightarrow> string \<Rightarrow> f64 option" where
  "float_field fs n = (let vs = map num_value (field_values fs n) in
     if list_ex Option.is_none vs then None else Some (last_or (Fin 0) (List.map_filter id vs)))"

text \<open>A \<open>*float64\<close> field: \<open>null\<close> or no key at all is the nil pointer.\<close>

definition float_ptr_field :: "(string \<times> json) list \<Rightarrow> string \<Rightarrow> f64 option option" where
  "float_ptr_field fs n =
     (let js = map snd (filter (\<lambda>(k, _). fold_key k = fold_key n) fs);
          vs = map (\<lambda>v. if is_null v then Some None else map_option Some (num_value v)) js
      in if list_ex Option.is_none vs then None else Some (last_or None (List.map_filter id vs)))"

text \<open>An \<open>int\<close> field (64 bits): a literal without fraction or exponent, in range.\<close>

definition int_field :: "(string \<times> json) list \<Rightarrow> string \<Rightarrow> int option" where
  "int_field fs n =
     (let vs = map (\<lambda>v. case v of JInt k \<Rightarrow> if - (2 ^ 63) \<le> k \<and> k < 2 ^ 63 then Some k else None
                       | _ \<Rightarrow> None) (field_values fs n)
      in if list_ex Option.is_none vs then None else Some (last_or 0 (List.map_filter id vs)))"

section \<open>Requests and responses\<close>

record request =
  rq_method :: string
  rq_path :: string
  rq_query :: "(string \<times> string) list"
  rq_headers :: "(string \<times> string) list"
  rq_remote :: string
  rq_body :: "json option"
  rq_trailing :: bool
  rq_user :: string

text \<open>\<open>r.URL.Query().Get(k)\<close> and \<open>r.Header.Get(k)\<close>: the first value, empty when there is none.\<close>

definition get_first :: "(string \<times> string) list \<Rightarrow> string \<Rightarrow> string" where
  "get_first kvs k = (case map_of kvs k of None \<Rightarrow> [] | Some v \<Rightarrow> v)"

definition get_values :: "(string \<times> string) list \<Rightarrow> string \<Rightarrow> string list" where
  "get_values kvs k = map snd (filter (\<lambda>(k', _). k' = k) kvs)"

text \<open>
  \<open>json.NewDecoder(r.Body).Decode\<close> reads one value; \<open>json.Unmarshal\<close> also refuses what follows it.
\<close>

definition decode_body :: "request \<Rightarrow> (string \<times> json) list option" where
  "decode_body r = Option.bind (rq_body r) json_pairs"

definition unmarshal_body :: "request \<Rightarrow> (string \<times> json) list option" where
  "unmarshal_body r = (if rq_trailing r then None else decode_body r)"

definition userIDFromContext :: "request \<Rightarrow> string" where
  "userIDFromContext r = rq_user r"

definition withUserID :: "request \<Rightarrow> string \<Rightarrow> request" where
  "withUserID r u = r\<lparr>rq_user := u\<rparr>"

text \<open>\<open>Error(w, status, message)\<close> or \<open>JSON(w, status, value)\<close>, the last thing a handler does.\<close>

datatype 'p resp = Error int string | Reply int 'p

fun status_of :: "'p resp \<Rightarrow> int" where
  "status_of (Error s _) = s"
| "status_of (Reply s _) = s"

fun is_reply :: "'p resp \<Rightarrow> bool" where
  "is_reply (Reply _ _) = True"
| "is_reply (Error _ _) = False"

type_synonym 'p handler = "request \<Rightarrow> (world, 'p resp) state"

abbreviation fail :: "int \<Rightarrow> string \<Rightarrow> (world, 'p resp) state" where
  "fail s m \<equiv> ret (Error s m)"

abbreviation reply :: "int \<Rightarrow> 'p \<Rightarrow> (world, 'p resp) state" where
  "reply s p \<equiv> ret (Reply s p)"

abbreviation methodNotAllowed :: "(world, 'p resp) state" where
  "methodNotAllowed \<equiv> fail 405 ''method not allowed''"

abbreviation dbNotAvailable :: "(world, 'p resp) state" where
  "dbNotAvailable \<equiv> fail 503 ''database is not available''"

section \<open>Paths\<close>

definition resourceIDFromPath :: "string \<Rightarrow> string \<Rightarrow> string" where
  "resourceIDFromPath path pre =
     (if \<not> has_prefix pre path then []
      else let rid = trim_char CHR ''/'' (trim_prefix pre path) in
        if CHR ''/'' \<in> set rid then [] else rid)"

lemma resourceIDFromPath_no_slash: "CHR ''/'' \<notin> set (resourceIDFromPath path pre)"
  by (simp add: resourceIDFromPath_def Let_def)

lemma trim_char_id: "d \<notin> set s \<Longrightarrow> trim_char d s = s"
proof -
  assume d: "d \<notin> set s"
  then have "dropWhile (\<lambda>c. c = d) s = s" by (cases s) auto
  moreover have "dropWhile (\<lambda>c. c = d) (rev s) = rev s" using d by (cases "rev s") (auto dest: arg_cong [where f = set])
  ultimately show ?thesis by (simp add: trim_char_def)
qed

lemma resourceIDFromPath_append:
  "CHR ''/'' \<notin> set rid \<Longrightarrow> resourceIDFromPath (pre @ rid) pre = rid"
  by (simp add: resourceIDFromPath_def trim_char_id)

section \<open>The process-wide configuration\<close>

record obank_config =
  ob_enabled :: bool
  ob_sid :: string
  ob_password :: string
  ob_api_url :: string
  ob_api_version :: int
  ob_test :: bool
  ob_test_phone :: string
  ob_test_price :: int
  ob_result_url :: string
  ob_return_url :: string

text \<open>
  \<open>appState\<close>. The interface-valued fields (\<open>DB\<close>, \<open>SMSSender\<close>, \<open>FileStore\<close>, \<open>DeletionJournal\<close>,
  \<open>PushSender\<close>) are here as "is it set" (\<open>FileStore\<close>: the local store with its root, or the S3 store with its bucket and
  ledger bucket); what a call on them does is in \<open>world\<close>.
\<close>

datatype object_store = LocalStore string | S3Store string string

record app_state =
  st_db :: bool
  st_file_store :: "object_store option"
  st_journal :: bool
  st_jwt_secret :: string
  st_token_ttl :: time
  st_upload_dir :: string
  st_max_upload :: int
  st_production :: bool
  st_production_like :: bool
  st_development :: bool
  st_proxies :: "string list"
  st_dev_sms :: bool
  st_review_only :: bool
  st_review_phone :: string
  st_review_phones :: "string list"
  st_review_code :: string
  st_staging_phone :: string
  st_staging_code :: string
  st_staging_price :: int
  st_price_override :: int
  st_sms_sender :: bool
  st_telegram_token :: string
  st_telegram_chat :: string
  st_telegram_url :: string
  st_whatsapp_token :: string
  st_whatsapp_phone :: string
  st_whatsapp_to :: string
  st_whatsapp_url :: string
  st_gemini_key :: string
  st_gemini_model :: string
  st_ai_order :: "string list"
  st_deepseek_key :: string
  st_deepseek_model :: string
  st_groq_key :: string
  st_groq_model :: string
  st_openrouter_key :: string
  st_openrouter_model :: string
  st_openrouter_fallback :: string
  st_push_sender :: bool
  st_staging :: bool
  st_obank :: obank_config

section \<open>Code outside the repository\<close>

text \<open>
  What the handlers use of code that is not part of the repository: SHA-256 (hexadecimal digest),
  the JWT library (HS256 signing and verification against the clock) and the conversion of a
  \<open>float64\<close> parameter to the \<open>NUMERIC(14,2)\<close> column by the driver and PostgreSQL.
\<close>

datatype claim = CStr string | CNum int | COther

type_synonym claims = "(string \<times> claim) list"

record externals =
  x_sha256 :: "string \<Rightarrow> string"
  x_jwt_sign :: "string \<Rightarrow> claims \<Rightarrow> string option"
  x_jwt_parse :: "string \<Rightarrow> time \<Rightarrow> string \<Rightarrow> claims option"
  x_numeric :: "f64 \<Rightarrow> rat option"

end
