(* ===== verification/Realtime.thy ===== *)
theory Realtime
  imports Http
begin

text \<open>
  The realtime hub of \<open>internal/httpapi/realtime.go\<close>: subscribers with bounded queues, admission
  limits, publication of project events to the members of a project. The opening of a stream
  (\<open>RealtimeEvents\<close>) is in \<open>Services\<close>; the push messages a publication starts are not modelled: a
  started push goroutine is recorded in \<open>push_jobs\<close>.
\<close>

definition maxRealtimeConnections :: nat where "maxRealtimeConnections = 256"
definition maxRealtimeConnectionsPerUser :: nat where "maxRealtimeConnectionsPerUser = 8"
definition realtimeQueue :: nat where "realtimeQueue = 32"

lemmas realtime_limits = maxRealtimeConnections_def maxRealtimeConnectionsPerUser_def realtimeQueue_def

section \<open>The hub\<close>

definition user_connections :: "hub \<Rightarrow> uuid \<Rightarrow> nat" where
  "user_connections h u = count_where (\<lambda>(_, s). rs_user s = u) (hub_subs h)"

definition hub_subscribe :: "hub \<Rightarrow> uuid \<Rightarrow> uuid \<Rightarrow> (nat \<times> hub) option" where
  "hub_subscribe h user_id project_id =
     (if maxRealtimeConnections \<le> length (hub_subs h) then None
      else if maxRealtimeConnectionsPerUser \<le> user_connections h user_id then None
      else let i = (hub_next h + 1) mod 2 ^ 64;
               s = \<lparr>rs_user = user_id, rs_project = project_id, rs_queue = []\<rparr>
        in Some (i, h\<lparr>hub_next := i, hub_subs := (i, s) # filter (\<lambda>(j, _). j \<noteq> i) (hub_subs h)\<rparr>))"

definition hub_unsubscribe :: "hub \<Rightarrow> nat \<Rightarrow> hub" where
  "hub_unsubscribe h i = h\<lparr>hub_subs := filter (\<lambda>(j, _). j \<noteq> i) (hub_subs h)\<rparr>"

definition wants :: "uuid \<Rightarrow> uuid list \<Rightarrow> subscriber \<Rightarrow> bool" where
  "wants project_id user_ids s \<longleftrightarrow>
     \<not> (rs_project s \<noteq> [] \<and> rs_project s \<noteq> project_id) \<and> rs_user s \<in> set user_ids"

definition offer :: "event \<Rightarrow> subscriber \<Rightarrow> subscriber" where
  "offer e s = (if length (rs_queue s) < realtimeQueue then s\<lparr>rs_queue := rs_queue s @ [e]\<rparr> else s)"

definition hub_publish :: "hub \<Rightarrow> uuid \<Rightarrow> uuid list \<Rightarrow> event \<Rightarrow> hub" where
  "hub_publish h project_id user_ids e =
     h\<lparr>hub_subs := map (\<lambda>(i, s). (i, if wants project_id user_ids s then offer e s else s)) (hub_subs h)\<rparr>"

section \<open>Publication\<close>

definition publishProjectEventForActor ::
  "app_state \<Rightarrow> uuid \<Rightarrow> string \<Rightarrow> string \<Rightarrow> string \<Rightarrow> string \<Rightarrow> uuid list \<Rightarrow> (world, unit) state" where
  "publishProjectEventForActor A project_id0 entity_type entity_id action actor_id extra =
     (let project_id = trim_space project_id0 in
      if project_id = [] \<or> \<not> st_db A then ret ()
      else do {
        rows \<leftarrow> query Pool (\<lambda>t d. map m_user (filter (\<lambda>m. m_project m = project_id) (members d)));
        (case rows of
           Rows us \<Rightarrow> (do {
             let user_ids = remdups (us @ filter (\<lambda>u. u \<noteq> []) extra);
             modify (\<lambda>w.
               (let e = \<lparr>ev_id = now w, ev_project = project_id, ev_type = entity_type,
                         ev_entity = entity_id, ev_action = action, ev_created = now w\<rparr>;
                    w1 = w\<lparr>hub := hub_publish (hub w) project_id user_ids e\<rparr>
                in if entity_type = ''cost_item'' \<and> action = ''created'' \<and> st_push_sender A
                   then w1\<lparr>push_jobs := push_jobs w1 @
                     [\<lparr>pj_project = project_id, pj_users = user_ids, pj_actor = actor_id,
                       pj_entity = entity_id\<rparr>]\<rparr>
                   else w1))
           })
         | QueryErr \<Rightarrow> ret ()
         | ScanErr \<Rightarrow> ret ()
         | RowsErr \<Rightarrow> ret ())
      })"

definition publishProjectEvent ::
  "app_state \<Rightarrow> uuid \<Rightarrow> string \<Rightarrow> string \<Rightarrow> string \<Rightarrow> uuid list \<Rightarrow> (world, unit) state" where
  "publishProjectEvent A project_id entity_type entity_id action extra =
     publishProjectEventForActor A project_id entity_type entity_id action [] extra"

section \<open>Admission limits\<close>

definition hub_ok :: "hub \<Rightarrow> bool" where
  "hub_ok h \<longleftrightarrow> length (hub_subs h) \<le> maxRealtimeConnections
     \<and> (\<forall>u. user_connections h u \<le> maxRealtimeConnectionsPerUser)
     \<and> (\<forall>(i, s) \<in> set (hub_subs h). length (rs_queue s) \<le> realtimeQueue)
     \<and> distinct (map fst (hub_subs h))"

lemma user_connections_filter: 
  "count_where (\<lambda>(_, s). rs_user s = u) (filter P xs) \<le> count_where (\<lambda>(_, s). rs_user s = u) xs"
  by (simp add: count_where_filter) (rule count_where_mono, auto)

lemma hub_ok_subscribe:
  assumes "hub_ok h" "hub_subscribe h u p = Some (i, h')" shows "hub_ok h'"
proof -
  let ?rest = "filter (\<lambda>(j, _). j \<noteq> i) (hub_subs h)"
  let ?s = "\<lparr>rs_user = u, rs_project = p, rs_queue = []\<rparr>"
  have room: "length (hub_subs h) < maxRealtimeConnections"
    "user_connections h u < maxRealtimeConnectionsPerUser"
    and h': "hub_subs h' = (i, ?s) # ?rest"
    using assms(2) by (auto simp: hub_subscribe_def Let_def split: if_splits)
  have "length ?rest < maxRealtimeConnections"
    by (rule le_less_trans [OF length_filter_le room(1)])
  moreover have "user_connections h' v \<le> maxRealtimeConnectionsPerUser" for v
    using assms(1) room(2) user_connections_filter [of v "\<lambda>(j, _). j \<noteq> i" "hub_subs h"]
    by (auto simp: hub_ok_def user_connections_def h' dest: spec [of _ v] intro: order_trans)
  moreover have "distinct (map fst ?rest)"
    using assms(1) by (simp add: hub_ok_def distinct_map_filter)
  ultimately show ?thesis using assms(1) by (auto simp: hub_ok_def h')
qed

lemma hub_ok_unsubscribe:
  assumes "hub_ok h" shows "hub_ok (hub_unsubscribe h i)"
proof -
  have "length (filter (\<lambda>(j, _). j \<noteq> i) (hub_subs h)) \<le> maxRealtimeConnections"
    using assms by (intro order_trans [OF length_filter_le]) (simp add: hub_ok_def)
  moreover have "user_connections (hub_unsubscribe h i) v \<le> maxRealtimeConnectionsPerUser" for v
    using assms user_connections_filter [of v "\<lambda>(j, _). j \<noteq> i" "hub_subs h"]
    by (auto simp: hub_ok_def hub_unsubscribe_def user_connections_def intro: order_trans)
  ultimately show ?thesis
    using assms by (auto simp: hub_ok_def hub_unsubscribe_def distinct_map_filter)
qed

lemma rs_user_offer [simp]: "rs_user (offer e s) = rs_user s"
  by (simp add: offer_def)

lemma hub_ok_publish:
  assumes "hub_ok h" shows "hub_ok (hub_publish h p us e)"
proof -
  have "user_connections (hub_publish h p us e) v = user_connections h v" for v
    by (auto simp: user_connections_def hub_publish_def count_where_def filter_map o_def
        split_beta intro!: arg_cong [where f = length] filter_cong)
  moreover have "map fst (hub_subs (hub_publish h p us e)) = map fst (hub_subs h)"
    by (simp add: hub_publish_def split_beta o_def)
  moreover have "length (hub_subs (hub_publish h p us e)) = length (hub_subs h)"
    by (simp add: hub_publish_def)
  moreover have "\<forall>(i, s) \<in> set (hub_subs (hub_publish h p us e)). length (rs_queue s) \<le> realtimeQueue"
    using assms by (auto simp: hub_ok_def hub_publish_def offer_def)
  ultimately show ?thesis
    using assms by (simp add: hub_ok_def)
qed

text \<open>A publication reaches only subscribers of the project (or of all projects) in \<open>user_ids\<close>.\<close>

lemma hub_publish_scope:
  assumes "(i, s') \<in> set (hub_subs (hub_publish h p us e))"
  obtains s where "(i, s) \<in> set (hub_subs h)" "s' = s \<or> (wants p us s \<and> s' = offer e s)"
  using assms by (auto simp: hub_publish_def split: if_splits)

lemma preserves_publish [pres]:
  "preserves (db_inv I) (publishProjectEventForActor A p t i a act ex)"
  unfolding publishProjectEventForActor_def
  by (intro pres) (auto simp: Let_def split: if_splits)

lemma preserves_publish_plain [pres]:
  "preserves (db_inv I) (publishProjectEvent A p t i a ex)"
  unfolding publishProjectEvent_def by (rule preserves_publish)

text \<open>Publication changes neither the tables nor an open transaction.\<close>

lemma wp_publishActor [wps]:
  assumes "\<And>fs h pj. Q () (w\<lparr>faults := fs, hub := h, push_jobs := pj\<rparr>)"
  shows "wp (publishProjectEventForActor A p t i a act ex) Q w"
proof -
  have same: "Q () w" "Q () (w\<lparr>faults := fs\<rparr>)" "Q () (w\<lparr>faults := fs, hub := h\<rparr>)" for fs h
    using assms [where fs = "faults w" and h = "hub w" and pj = "push_jobs w"]
      assms [where fs = fs and h = "hub w" and pj = "push_jobs w"]
      assms [where fs = fs and h = h and pj = "push_jobs w"] by simp_all
  show ?thesis
    unfolding publishProjectEventForActor_def
    by (intro wps) (use assms same in \<open>auto simp: Let_def\<close>)
qed

lemma wp_publish [wps]:
  assumes "\<And>fs h pj. Q () (w\<lparr>faults := fs, hub := h, push_jobs := pj\<rparr>)"
  shows "wp (publishProjectEvent A p t i a ex) Q w"
  unfolding publishProjectEvent_def using assms by (rule wp_publishActor)

end
