(* ===== verification/Permissions.thy ===== *)
theory Permissions
  imports Realtime
begin

text \<open>
  Roles and permissions (\<open>internal/httpapi/permissions.go\<close>) and the role check in front of the
  mutations of project entities (\<open>rbac_handlers.go\<close>). \<open>allowed\<close> is the specification on the
  tables: an operation the code lets through satisfies it. The locale \<open>entity_resolver\<close> is what the
  role check needs to know of the function that finds the project of an entity.
\<close>

datatype permission = PermissionRead | PermissionContribute | PermissionManage

definition ProjectRoleOwner :: string where "ProjectRoleOwner = ''owner''"
definition ProjectRoleManager :: string where "ProjectRoleManager = ''manager''"
definition ProjectRoleWorker :: string where "ProjectRoleWorker = ''worker''"
definition ProjectRoleViewer :: string where "ProjectRoleViewer = ''viewer''"

lemmas role_defs = ProjectRoleOwner_def ProjectRoleManager_def ProjectRoleWorker_def
  ProjectRoleViewer_def

fun roleAllows :: "string \<Rightarrow> permission \<Rightarrow> bool" where
  "roleAllows r PermissionRead =
     (r = ProjectRoleOwner \<or> r = ProjectRoleManager \<or> r = ProjectRoleWorker \<or> r = ProjectRoleViewer)"
| "roleAllows r PermissionContribute =
     (r = ProjectRoleOwner \<or> r = ProjectRoleManager \<or> r = ProjectRoleWorker)"
| "roleAllows r PermissionManage = (r = ProjectRoleOwner \<or> r = ProjectRoleManager)"

text \<open>Permissions are ordered by what they require.\<close>

instantiation permission :: linorder
begin

definition perm_rank :: "permission \<Rightarrow> nat" where
  "perm_rank p = (case p of PermissionRead \<Rightarrow> 0 | PermissionContribute \<Rightarrow> 1 | PermissionManage \<Rightarrow> 2)"

definition less_eq_permission :: "permission \<Rightarrow> permission \<Rightarrow> bool" where
  "p \<le> q \<longleftrightarrow> perm_rank p \<le> perm_rank q"

definition less_permission :: "permission \<Rightarrow> permission \<Rightarrow> bool" where
  "p < q \<longleftrightarrow> perm_rank p < perm_rank q"

instance
  by standard
    (auto simp: less_eq_permission_def less_permission_def perm_rank_def split: permission.splits)

end

section \<open>Lookups\<close>

definition live_project :: "db \<Rightarrow> uuid \<Rightarrow> project_row option" where
  "live_project d pid = find (\<lambda>p. p_id p = pid \<and> p_deleted p = None) (projects d)"

definition member_of :: "db \<Rightarrow> uuid \<Rightarrow> uuid \<Rightarrow> member_row option" where
  "member_of d pid u = find (\<lambda>m. m_project m = pid \<and> m_user m = u) (members d)"

definition sel_permission :: "uuid \<Rightarrow> uuid \<Rightarrow> time \<Rightarrow> db \<Rightarrow> (string \<times> string) sqlres" where
  "sel_permission u pid t d =
     (case member_of d pid u of
        None \<Rightarrow> NoRows
      | Some m \<Rightarrow> (case live_project d pid of
            None \<Rightarrow> NoRows
          | Some p \<Rightarrow> Row (m_role m, p_status p)))"

section \<open>The checks\<close>

definition hasProjectPermission :: "uuid \<Rightarrow> uuid \<Rightarrow> permission \<Rightarrow> (world, bool) state" where
  "hasProjectPermission u pid required = do {
     r \<leftarrow> sel Pool (sel_permission u pid);
     (case r of
        Row rs \<Rightarrow>
          if required \<noteq> PermissionRead \<and> snd rs \<noteq> ''active'' then ret False
          else ret (roleAllows (fst rs) required)
      | NoRows \<Rightarrow> ret False
      | SqlErr \<Rightarrow> ret False)
   }"

definition canContributeToProject :: "uuid \<Rightarrow> uuid \<Rightarrow> (world, bool) state" where
  "canContributeToProject u pid = hasProjectPermission u pid PermissionContribute"

definition canManageProject :: "uuid \<Rightarrow> uuid \<Rightarrow> (world, bool) state" where
  "canManageProject u pid = hasProjectPermission u pid PermissionManage"

definition canAccessProject :: "uuid \<Rightarrow> uuid \<Rightarrow> (world, bool) state" where
  "canAccessProject u pid = hasProjectPermission u pid PermissionRead"

definition canManageProjectLifecycle :: "uuid \<Rightarrow> uuid \<Rightarrow> (world, bool) state" where
  "canManageProjectLifecycle u pid = do {
     r \<leftarrow> sel Pool (sel_permission u pid);
     (case r of
        Row rs \<Rightarrow> ret (roleAllows (fst rs) PermissionManage)
      | NoRows \<Rightarrow> ret False
      | SqlErr \<Rightarrow> ret False)
   }"

section \<open>The check in front of a mutation\<close>

text \<open>A resolver is nil or finds the project of an entity.\<close>

type_synonym resolver = "(string \<Rightarrow> (world, string \<times> bool) state) option"

definition mutationProjectID :: "request \<Rightarrow> string \<Rightarrow> resolver \<Rightarrow> (world, string \<times> bool) state" where
  "mutationProjectID r item_prefix resolver =
     (if rq_method r = ''POST'' then
        (case unmarshal_body r of
           None \<Rightarrow> ret ([], False)
         | Some fs \<Rightarrow> (case str_field fs ''project_id'' of
               None \<Rightarrow> ret ([], False)
             | Some s \<Rightarrow> let pid = trim_space s in ret (pid, pid \<noteq> [])))
      else (case resolver of
          None \<Rightarrow> ret ([], False)
        | Some rs \<Rightarrow>
            if item_prefix = [] then ret ([], False)
            else let eid = resourceIDFromPath (rq_path r) item_prefix in
              if eid = [] then ret ([], False) else rs eid))"

definition withProjectMutationRBAC :: "'p handler \<Rightarrow> string \<Rightarrow> resolver \<Rightarrow> 'p handler" where
  "withProjectMutationRBAC nxt item_prefix resolver r =
     (if rq_method r = ''GET'' \<or> rq_method r = ''HEAD'' \<or> rq_method r = ''OPTIONS'' then nxt r
      else if rq_method r \<noteq> ''POST'' \<and> rq_method r \<noteq> ''PATCH'' \<and> rq_method r \<noteq> ''DELETE''
      then methodNotAllowed
      else do {
        res \<leftarrow> mutationProjectID r item_prefix resolver;
        if \<not> snd res \<or> fst res = [] then fail 400 ''project_id is required''
        else if rq_method r = ''DELETE'' then do {
          ok \<leftarrow> canManageProject (userIDFromContext r) (fst res);
          if \<not> ok then fail 403 ''project management permission required'' else nxt r
        } else do {
          ok \<leftarrow> canContributeToProject (userIDFromContext r) (fst res);
          if \<not> ok then fail 403 ''project contribution permission required'' else nxt r
        }
      })"

section \<open>Specification of the checks\<close>

definition allowed :: "db \<Rightarrow> uuid \<Rightarrow> uuid \<Rightarrow> permission \<Rightarrow> bool" where
  "allowed d u pid required =
     (case (member_of d pid u, live_project d pid) of
        (Some m, Some p) \<Rightarrow> (required = PermissionRead \<or> p_status p = ''active'') \<and>
          roleAllows (m_role m) required
      | _ \<Rightarrow> False)"

definition lifecycle_allowed :: "db \<Rightarrow> uuid \<Rightarrow> uuid \<Rightarrow> bool" where
  "lifecycle_allowed d u pid =
     (case (member_of d pid u, live_project d pid) of
        (Some m, Some p) \<Rightarrow> roleAllows (m_role m) PermissionManage
      | _ \<Rightarrow> False)"

lemma roleAllows_mono: "p \<le> q \<Longrightarrow> roleAllows r q \<Longrightarrow> roleAllows r p"
  by (cases p; cases q) (auto simp: less_eq_permission_def perm_rank_def)

lemma allowed_mono: "p \<le> q \<Longrightarrow> allowed d u pid q \<Longrightarrow> allowed d u pid p"
  by (auto simp: allowed_def intro: roleAllows_mono split: option.splits)
    (auto simp: less_eq_permission_def perm_rank_def split: permission.splits)

lemma allowed_lifecycle: "allowed d u pid PermissionManage \<Longrightarrow> lifecycle_allowed d u pid"
  by (auto simp: allowed_def lifecycle_allowed_def split: option.splits)

lemma allowed_memberE:
  assumes "allowed d u pid q"
  obtains m p where "member_of d pid u = Some m" "live_project d pid = Some p"
    "roleAllows (m_role m) q" "q \<noteq> PermissionRead \<Longrightarrow> p_status p = ''active''"
  using assms by (auto simp: allowed_def split: option.splits)

lemma live_project_Some:
  "live_project d pid = Some p \<Longrightarrow> p \<in> set (projects d) \<and> p_id p = pid \<and> p_deleted p = None"
  by (auto simp: live_project_def find_Some_iff)

lemma live_project_None:
  "live_project d pid = None \<longleftrightarrow> (\<forall>p\<in>set (projects d). p_id p = pid \<longrightarrow> p_deleted p \<noteq> None)"
  by (auto simp: live_project_def find_None_iff)

lemma member_of_Some:
  "member_of d pid u = Some m \<Longrightarrow> m \<in> set (members d) \<and> m_project m = pid \<and> m_user m = u"
  by (auto simp: member_of_def find_Some_iff)

lemma sel_permission_Row:
  assumes "sel_permission u pid t d = Row rs"
  shows "allowed d u pid q \<longleftrightarrow> (q = PermissionRead \<or> snd rs = ''active'') \<and> roleAllows (fst rs) q"
    and "lifecycle_allowed d u pid \<longleftrightarrow> roleAllows (fst rs) PermissionManage"
  using assms by (auto simp: sel_permission_def allowed_def lifecycle_allowed_def split: option.splits)

lemma wp_hasProjectPermission [wps]:
  assumes F: "\<And>fs. Q False (w\<lparr>faults := fs\<rparr>)"
    and T: "\<And>fs. allowed (db w) u pid q \<Longrightarrow> Q True (w\<lparr>faults := fs\<rparr>)"
  shows "wp (hasProjectPermission u pid q) Q w"
  unfolding hasProjectPermission_def
proof (intro wps F)
  fix fs r rs
  assume "sel_permission u pid (now w) (db w) = r" "r = Row rs" "\<not> (q \<noteq> PermissionRead \<and> snd rs \<noteq> ''active'')"
  then have "allowed (db w) u pid q = roleAllows (fst rs) q" using sel_permission_Row(1) by auto
  then show "Q (roleAllows (fst rs) q) (w\<lparr>faults := fs\<rparr>)"
    using F T by (cases "roleAllows (fst rs) q") simp_all
qed simp_all

lemma wp_canManageProjectLifecycle [wps]:
  assumes F: "\<And>fs. Q False (w\<lparr>faults := fs\<rparr>)"
    and T: "\<And>fs. lifecycle_allowed (db w) u pid \<Longrightarrow> Q True (w\<lparr>faults := fs\<rparr>)"
  shows "wp (canManageProjectLifecycle u pid) Q w"
  unfolding canManageProjectLifecycle_def
proof (intro wps F)
  fix fs r rs
  assume "sel_permission u pid (now w) (db w) = r" "r = Row rs"
  then have "lifecycle_allowed (db w) u pid = roleAllows (fst rs) PermissionManage"
    using sel_permission_Row(2) by auto
  then show "Q (roleAllows (fst rs) PermissionManage) (w\<lparr>faults := fs\<rparr>)"
    using F T by (cases "roleAllows (fst rs) PermissionManage") simp_all
qed simp_all

lemma wp_permission_checks [wps]:
  assumes "\<And>fs. Q False (w\<lparr>faults := fs\<rparr>)"
  shows "(\<And>fs. allowed (db w) u pid PermissionContribute \<Longrightarrow> Q True (w\<lparr>faults := fs\<rparr>)) \<Longrightarrow>
      wp (canContributeToProject u pid) Q w"
    and "(\<And>fs. allowed (db w) u pid PermissionManage \<Longrightarrow> Q True (w\<lparr>faults := fs\<rparr>)) \<Longrightarrow>
      wp (canManageProject u pid) Q w"
    and "(\<And>fs. allowed (db w) u pid PermissionRead \<Longrightarrow> Q True (w\<lparr>faults := fs\<rparr>)) \<Longrightarrow>
      wp (canAccessProject u pid) Q w"
  unfolding canContributeToProject_def canManageProject_def canAccessProject_def
  using assms by (auto intro: wps)

lemma preserves_permission_checks [pres]:
  "preserves (db_inv I) (hasProjectPermission u pid q)"
  "preserves (db_inv I) (canContributeToProject u pid)"
  "preserves (db_inv I) (canManageProject u pid)"
  "preserves (db_inv I) (canAccessProject u pid)"
  "preserves (db_inv I) (canManageProjectLifecycle u pid)"
  unfolding hasProjectPermission_def canContributeToProject_def canManageProject_def
    canAccessProject_def canManageProjectLifecycle_def
  by (intro pres)+

text \<open>Without a failing database call the checks decide \<open>allowed\<close>.\<close>

lemma run_permission_free:
  assumes "faults w = []"
  shows "run_state (hasProjectPermission u pid q) w = (allowed (db w) u pid q, w)"
    "run_state (canContributeToProject u pid) w = (allowed (db w) u pid PermissionContribute, w)"
    "run_state (canManageProject u pid) w = (allowed (db w) u pid PermissionManage, w)"
    "run_state (canAccessProject u pid) w = (allowed (db w) u pid PermissionRead, w)"
proof -
  show *: "run_state (hasProjectPermission u pid q) w = (allowed (db w) u pid q, w)" for q
    using assms
    by (simp add: hasProjectPermission_def free_simps sel_permission_def allowed_def split: option.splits)
  show "run_state (canContributeToProject u pid) w = (allowed (db w) u pid PermissionContribute, w)"
    "run_state (canManageProject u pid) w = (allowed (db w) u pid PermissionManage, w)"
    "run_state (canAccessProject u pid) w = (allowed (db w) u pid PermissionRead, w)"
    unfolding canContributeToProject_def canManageProject_def canAccessProject_def by (rule *)+
qed

end
