(* ===== verification/Subscriptions.thy ===== *)
theory Subscriptions
  imports Permissions
begin

text \<open>
  Account subscriptions and plan limits: \<open>internal/httpapi/subscription_limits.go\<close>, the
  subscription check of \<open>subscription_auth.go\<close> and \<open>SubscriptionStatus\<close> of \<open>subscriptions.go\<close>.
  \<open>sub_ensure\<close> is the specification of \<open>ensureSubscription\<close> as one function on the tables;
  \<open>run_ensure_free\<close> and \<open>wp_ensureSubscription_Tx\<close> say that the statements implement it. A row lock (\<open>FOR UPDATE\<close>) has no effect
  here, because a handler runs alone.
\<close>

section \<open>Plans\<close>

record subscriptionPlan =
  pl_id :: string
  pl_name :: string
  pl_price :: int
  pl_discount :: int
  pl_max_projects :: int
  pl_max_members :: int
  pl_trial_days :: int

definition trialPlan :: subscriptionPlan where
  "trialPlan = \<lparr>pl_id = ''trial'', pl_name =
      [CHR 0xD0, CHR 0x9F, CHR 0xD1, CHR 0x80, CHR 0xD0, CHR 0xBE, CHR 0xD0, CHR 0xB1, CHR 0xD0, CHR 0xBD, CHR 0xD1, CHR 0x8B, CHR 0xD0, CHR 0xB9, CHR 0x20, CHR 0xD0, CHR 0xBF, CHR 0xD0, CHR 0xB5, CHR 0xD1, CHR 0x80, CHR 0xD0, CHR 0xB8, CHR 0xD0, CHR 0xBE, CHR 0xD0, CHR 0xB4],
     pl_price = 0, pl_discount = 0, pl_max_projects = 1, pl_max_members = 0, pl_trial_days = 30\<rparr>"

definition standardPlan :: subscriptionPlan where
  "standardPlan = \<lparr>pl_id = ''standard'', pl_name =
      [CHR 0xD0, CHR 0xA1, CHR 0xD1, CHR 0x82, CHR 0xD0, CHR 0xB0, CHR 0xD0, CHR 0xBD, CHR 0xD0, CHR 0xB4, CHR 0xD0, CHR 0xB0, CHR 0xD1, CHR 0x80, CHR 0xD1, CHR 0x82, CHR 0xD0, CHR 0xBD, CHR 0xD1, CHR 0x8B, CHR 0xD0, CHR 0xB9],
     pl_price = 3000, pl_discount = 10, pl_max_projects = 5, pl_max_members = 5, pl_trial_days = 0\<rparr>"

definition maxPlan :: subscriptionPlan where
  "maxPlan = \<lparr>pl_id = ''max'', pl_name =
      [CHR 0xD0, CHR 0x9C, CHR 0xD0, CHR 0xB0, CHR 0xD0, CHR 0xBA, CHR 0xD1, CHR 0x81, CHR 0xD0, CHR 0xB8, CHR 0xD0, CHR 0xBC, CHR 0xD0, CHR 0xB0, CHR 0xD0, CHR 0xBB, CHR 0xD1, CHR 0x8C, CHR 0xD0, CHR 0xBD, CHR 0xD1, CHR 0x8B, CHR 0xD0, CHR 0xB9],
     pl_price = 5000, pl_discount = 15, pl_max_projects = 20, pl_max_members = 20, pl_trial_days = 0\<rparr>"

definition subscriptionPlans :: "subscriptionPlan list" where
  "subscriptionPlans = [trialPlan, standardPlan, maxPlan]"

lemmas plan_defs = subscriptionPlans_def trialPlan_def standardPlan_def maxPlan_def

definition planByCode :: "string \<Rightarrow> subscriptionPlan option" where
  "planByCode code = find (\<lambda>p. pl_id p = code) subscriptionPlans"

definition stagingTestPriceOverrideEnabled :: "app_state \<Rightarrow> bool" where
  "stagingTestPriceOverrideEnabled A \<longleftrightarrow>
     st_staging A \<and> ob_enabled (st_obank A) \<and> ob_test (st_obank A) \<and> 0 < st_staging_price A"

text \<open>The quotient of Go truncates; price and discount are not negative, so it is \<open>div\<close>.\<close>

definition planPrice :: "app_state \<Rightarrow> subscriptionPlan \<Rightarrow> string \<Rightarrow> int option" where
  "planPrice A plan period =
     (if st_staging A \<and> 0 < st_price_override A \<and> pl_id plan \<noteq> ''trial'' then
        (if period \<noteq> ''month'' \<and> period \<noteq> ''year'' then None else Some (st_price_override A))
      else if stagingTestPriceOverrideEnabled A \<and> pl_id plan \<noteq> ''trial'' then
        (if period \<noteq> ''month'' \<and> period \<noteq> ''year'' then None else Some (st_staging_price A))
      else if period = ''month'' then Some (pl_price plan)
      else if period = ''year'' then Some (pl_price plan * 12 * (100 - pl_discount plan) div 100)
      else None)"

section \<open>The subscription of an account\<close>

datatype sub_error = SubscriptionExpired | ProjectPlanLimit | MemberPlanLimit | OtherError

record subscriptionState =
  ss_plan :: subscriptionPlan
  ss_status :: string
  ss_period :: string
  ss_started :: time
  ss_trial_ends :: time
  ss_period_end :: "time option"

definition subscription_of :: "db \<Rightarrow> uuid \<Rightarrow> subscription_row option" where
  "subscription_of d u = find (\<lambda>s. s_user s = u) (subscriptions d)"

definition user_by_id :: "db \<Rightarrow> uuid \<Rightarrow> user_row option" where
  "user_by_id d u = find (\<lambda>x. u_id x = u) (users d)"

definition ins_trial :: "uuid \<Rightarrow> time \<Rightarrow> db \<Rightarrow> db" where
  "ins_trial u t d =
     (case (user_by_id d u, subscription_of d u) of
        (Some x, None) \<Rightarrow> d\<lparr>subscriptions := subscriptions d @
          [\<lparr>s_user = u, s_plan = ''trial'', s_status = ''trialing'', s_period = ''month'',
            s_started = u_created x, s_trial_ends = u_created x + 30 * day,
            s_period_end = None, s_updated = t\<rparr>]\<rparr>
      | _ \<Rightarrow> d)"

definition sel_subscription :: "uuid \<Rightarrow> time \<Rightarrow> db \<Rightarrow> subscription_row sqlres" where
  "sel_subscription u t d = row_of (subscription_of d u)"

definition upd_expire :: "uuid \<Rightarrow> time \<Rightarrow> db \<Rightarrow> db" where
  "upd_expire u t d = d\<lparr>subscriptions :=
     upd_where (\<lambda>s. s_user s = u) (\<lambda>s. s\<lparr>s_status := ''expired'', s_updated := t\<rparr>) (subscriptions d)\<rparr>"

definition sub_is_expired :: "time \<Rightarrow> subscription_row \<Rightarrow> bool" where
  "sub_is_expired t s \<longleftrightarrow> (s_status s = ''trialing'' \<and> \<not> t < s_trial_ends s)
     \<or> (s_status s = ''active'' \<and> (case s_period_end s of None \<Rightarrow> False | Some e \<Rightarrow> \<not> t < e))"

definition state_of_row :: "subscriptionPlan \<Rightarrow> subscription_row \<Rightarrow> subscriptionState" where
  "state_of_row p s = \<lparr>ss_plan = p, ss_status = s_status s,
     ss_period = (if s_period s = [] then ''month'' else s_period s),
     ss_started = s_started s, ss_trial_ends = s_trial_ends s, ss_period_end = s_period_end s\<rparr>"

definition ensureSubscription ::
  "conn \<Rightarrow> uuid \<Rightarrow> bool \<Rightarrow> (world, sub_error + subscriptionState) state" where
  "ensureSubscription c u lock = do {
     r0 \<leftarrow> exec c (ins_trial u);
     if r0 = SqlErr then ret (Inl OtherError) else do {
       r \<leftarrow> sel c (sel_subscription u);
       (case r of
          NoRows \<Rightarrow> ret (Inl OtherError)
        | SqlErr \<Rightarrow> ret (Inl OtherError)
        | Row s \<Rightarrow> (case planByCode (s_plan s) of
              None \<Rightarrow> ret (Inl OtherError)
            | Some p \<Rightarrow> do {
                t \<leftarrow> read_now;
                if sub_is_expired t s then do {
                  r1 \<leftarrow> exec c (upd_expire u);
                  if r1 = SqlErr then ret (Inl OtherError)
                  else ret (Inr ((state_of_row p s)\<lparr>ss_status := ''expired''\<rparr>))
                } else ret (Inr (state_of_row p s))
              }))
     }
   }"

definition subscriptionHTTPError :: "sub_error \<Rightarrow> (int \<times> string) option" where
  "subscriptionHTTPError e = (case e of
     SubscriptionExpired \<Rightarrow> Some (403, ''subscription is expired; choose a paid plan'')
   | ProjectPlanLimit \<Rightarrow> Some (403,
      [CHR 0xD0, CHR 0x94, CHR 0xD0, CHR 0xBE, CHR 0xD1, CHR 0x81, CHR 0xD1, CHR 0x82, CHR 0xD0, CHR 0xB8, CHR 0xD0, CHR 0xB3, CHR 0xD0, CHR 0xBD, CHR 0xD1, CHR 0x83, CHR 0xD1, CHR 0x82, CHR 0x20, CHR 0xD0, CHR 0xBB, CHR 0xD0, CHR 0xB8, CHR 0xD0, CHR 0xBC, CHR 0xD0, CHR 0xB8, CHR 0xD1, CHR 0x82, CHR 0x20, CHR 0xD0, CHR 0xB0, CHR 0xD0, CHR 0xBA, CHR 0xD1, CHR 0x82, CHR 0xD0, CHR 0xB8, CHR 0xD0, CHR 0xB2, CHR 0xD0, CHR 0xBD, CHR 0xD1, CHR 0x8B, CHR 0xD1, CHR 0x85, CHR 0x20, CHR 0xD0, CHR 0xBE, CHR 0xD0, CHR 0xB1, CHR 0xD1, CHR 0x8A, CHR 0xD0, CHR 0xB5, CHR 0xD0, CHR 0xBA, CHR 0xD1, CHR 0x82, CHR 0xD0, CHR 0xBE, CHR 0xD0, CHR 0xB2, CHR 0x20, CHR 0xD1, CHR 0x82, CHR 0xD0, CHR 0xB0, CHR 0xD1, CHR 0x80, CHR 0xD0, CHR 0xB8, CHR 0xD1, CHR 0x84, CHR 0xD0, CHR 0xB0, CHR 0x2E, CHR 0x20, CHR 0xD0, CHR 0x90, CHR 0xD1, CHR 0x80, CHR 0xD1, CHR 0x85, CHR 0xD0, CHR 0xB8, CHR 0xD0, CHR 0xB2, CHR 0xD0, CHR 0xB8, CHR 0xD1, CHR 0x80, CHR 0xD1, CHR 0x83, CHR 0xD0, CHR 0xB9, CHR 0xD1, CHR 0x82, CHR 0xD0, CHR 0xB5, CHR 0x20, CHR 0xD0, CHR 0xB4, CHR 0xD1, CHR 0x80, CHR 0xD1, CHR 0x83, CHR 0xD0, CHR 0xB3, CHR 0xD0, CHR 0xBE, CHR 0xD0, CHR 0xB9, CHR 0x20, CHR 0xD0, CHR 0xBE, CHR 0xD0, CHR 0xB1, CHR 0xD1, CHR 0x8A, CHR 0xD0, CHR 0xB5, CHR 0xD0, CHR 0xBA, CHR 0xD1, CHR 0x82, CHR 0x20, CHR 0xD0, CHR 0xB8, CHR 0xD0, CHR 0xBB, CHR 0xD0, CHR 0xB8, CHR 0x20, CHR 0xD1, CHR 0x81, CHR 0xD0, CHR 0xBC, CHR 0xD0, CHR 0xB5, CHR 0xD0, CHR 0xBD, CHR 0xD0, CHR 0xB8, CHR 0xD1, CHR 0x82, CHR 0xD0, CHR 0xB5, CHR 0x20, CHR 0xD1, CHR 0x82, CHR 0xD0, CHR 0xB0, CHR 0xD1, CHR 0x80, CHR 0xD0, CHR 0xB8, CHR 0xD1, CHR 0x84, CHR 0x2E])
   | MemberPlanLimit \<Rightarrow> Some (403, ''participant limit reached for the current plan'')
   | OtherError \<Rightarrow> None)"

definition sub_usable :: "subscriptionState \<Rightarrow> bool" where
  "sub_usable s \<longleftrightarrow> \<not> (ss_status s \<noteq> ''trialing'' \<and> ss_status s \<noteq> ''active'')"

section \<open>Plan limits\<close>

definition active_projects :: "db \<Rightarrow> uuid \<Rightarrow> nat" where
  "active_projects d u =
     count_where (\<lambda>p. p_owner p = u \<and> p_deleted p = None \<and> p_status p = ''active'') (projects d)"

definition pending_invite :: "time \<Rightarrow> uuid \<Rightarrow> invite_row \<Rightarrow> bool" where
  "pending_invite t pid i \<longleftrightarrow> i_project i = pid \<and> i_accepted i = None \<and> i_revoked i = None \<and> t < i_expires i"

definition participants :: "db \<Rightarrow> time \<Rightarrow> uuid \<Rightarrow> string \<Rightarrow> nat" where
  "participants d t pid phone =
     count_where (\<lambda>m. m_project m = pid \<and> m_role m \<noteq> ''owner'') (members d)
     + count_where (\<lambda>i. pending_invite t pid i \<and> i_phone i \<noteq> phone) (invites d)"

definition ensureProjectCreationAllowed :: "uuid \<Rightarrow> (world, sub_error option) state" where
  "ensureProjectCreationAllowed u = do {
     s \<leftarrow> ensureSubscription Tx u True;
     (case s of
        Inl e \<Rightarrow> ret (Some e)
      | Inr st \<Rightarrow>
          if ss_status st \<noteq> ''trialing'' \<and> ss_status st \<noteq> ''active'' then ret (Some SubscriptionExpired)
          else do {
            r \<leftarrow> sel Tx (\<lambda>t d. Row (active_projects d u));
            (case r of
               Row n \<Rightarrow> if pl_max_projects (ss_plan st) \<le> int n then ret (Some ProjectPlanLimit) else ret None
             | NoRows \<Rightarrow> ret (Some OtherError)
             | SqlErr \<Rightarrow> ret (Some OtherError))
          })
   }"

definition ensureProjectMemberCapacity :: "uuid \<Rightarrow> string \<Rightarrow> (world, sub_error option) state" where
  "ensureProjectMemberCapacity pid phone = do {
     r0 \<leftarrow> sel Tx (\<lambda>t d. row_of (map_option p_owner (live_project d pid)));
     (case r0 of
        NoRows \<Rightarrow> ret (Some OtherError)
      | SqlErr \<Rightarrow> ret (Some OtherError)
      | Row owner \<Rightarrow> do {
          s \<leftarrow> ensureSubscription Tx owner True;
          (case s of
             Inl e \<Rightarrow> ret (Some e)
           | Inr st \<Rightarrow>
               if ss_status st \<noteq> ''trialing'' \<and> ss_status st \<noteq> ''active''
               then ret (Some SubscriptionExpired)
               else do {
                 r \<leftarrow> sel Tx (\<lambda>t d. Row (participants d t pid phone));
                 (case r of
                    Row n \<Rightarrow> if pl_max_members (ss_plan st) \<le> int n then ret (Some MemberPlanLimit)
                      else ret None
                  | NoRows \<Rightarrow> ret (Some OtherError)
                  | SqlErr \<Rightarrow> ret (Some OtherError))
               })
        })
   }"

section \<open>Handlers\<close>

definition requireCurrentSubscription :: "app_state \<Rightarrow> uuid \<Rightarrow> (world, (int \<times> string) option) state" where
  "requireCurrentSubscription A u =
     (if \<not> st_db A then ret (Some (503, ''subscription service is unavailable''))
      else do {
        s \<leftarrow> ensureSubscription Pool u False;
        (case s of
           Inl e \<Rightarrow> ret (Some (503, ''subscription service is unavailable''))
         | Inr st \<Rightarrow>
             if ss_status st \<noteq> ''trialing'' \<and> ss_status st \<noteq> ''active''
             then ret (subscriptionHTTPError SubscriptionExpired)
             else ret None)
      })"

record status_dto =
  sd_user :: uuid
  sd_plan :: string
  sd_status :: string
  sd_period :: string
  sd_price :: int
  sd_discount :: int
  sd_started :: time
  sd_trial_ends :: time
  sd_ends :: time
  sd_max_projects :: int
  sd_max_members :: int
  sd_period_end :: "time option"

definition SubscriptionStatus :: "app_state \<Rightarrow> status_dto handler" where
  "SubscriptionStatus A r =
     (if rq_method r \<noteq> ''GET'' then methodNotAllowed
      else if \<not> st_db A then dbNotAvailable
      else do {
        let u = userIDFromContext r;
        res \<leftarrow> ensureSubscription Pool u False;
        (case res of
           Inl e \<Rightarrow> fail 500 ''failed to load subscription''
         | Inr s \<Rightarrow>
             let ends = (case ss_period_end s of None \<Rightarrow> ss_trial_ends s | Some e \<Rightarrow> e);
                 price = (case planPrice A (ss_plan s) (ss_period s) of None \<Rightarrow> 0 | Some n \<Rightarrow> n);
                 discount0 = (if ss_period s = ''year'' then pl_discount (ss_plan s) else 0);
                 discount = (if stagingTestPriceOverrideEnabled A \<and> pl_id (ss_plan s) \<noteq> ''trial'' then 0
                             else discount0)
             in reply 200 \<lparr>sd_user = u, sd_plan = pl_id (ss_plan s), sd_status = ss_status s,
                  sd_period = ss_period s, sd_price = price, sd_discount = discount,
                  sd_started = ss_started s, sd_trial_ends = ss_trial_ends s, sd_ends = ends,
                  sd_max_projects = pl_max_projects (ss_plan s),
                  sd_max_members = pl_max_members (ss_plan s), sd_period_end = ss_period_end s\<rparr>)
      })"

section \<open>Specification\<close>

definition sub_ensure :: "time \<Rightarrow> uuid \<Rightarrow> db \<Rightarrow> (subscriptionState \<times> db) option" where
  "sub_ensure t u d = (let d1 = ins_trial u t d in
     case subscription_of d1 u of
       None \<Rightarrow> None
     | Some s \<Rightarrow> (case planByCode (s_plan s) of
           None \<Rightarrow> None
         | Some p \<Rightarrow>
             if sub_is_expired t s
             then Some ((state_of_row p s)\<lparr>ss_status := ''expired''\<rparr>, upd_expire u t d1)
             else Some (state_of_row p s, d1)))"

lemma planByCode_Some:
  "planByCode c = Some p \<Longrightarrow> p \<in> set subscriptionPlans \<and> pl_id p = c"
  by (auto simp: planByCode_def find_Some_iff)

lemma plan_limits:
  "p \<in> set subscriptionPlans \<Longrightarrow> 1 \<le> pl_max_projects p \<and> pl_max_projects p \<le> 20 \<and>
     0 \<le> pl_max_members p \<and> pl_max_members p \<le> 20"
  by (auto simp: plan_defs)

lemma ex_subscriptions: "\<exists>ss. d = d\<lparr>subscriptions := ss\<rparr>"
  by (rule exI [of _ "subscriptions d"]) simp

lemma ins_trial_frame: "\<exists>ss. ins_trial u t d = d\<lparr>subscriptions := ss\<rparr>"
  using ex_subscriptions [of d] by (auto simp: ins_trial_def split: option.splits)

lemma sub_ensure_frame:
  assumes "sub_ensure t u d = Some (s, d')" shows "\<exists>ss. d' = d\<lparr>subscriptions := ss\<rparr>"
proof -
  obtain ss where e: "ins_trial u t d = d\<lparr>subscriptions := ss\<rparr>" using ins_trial_frame by blast
  have "d' = ins_trial u t d \<or> d' = upd_expire u t (ins_trial u t d)"
    using assms by (auto simp: sub_ensure_def Let_def split: option.splits if_splits)
  then show ?thesis unfolding e upd_expire_def by auto
qed

lemma sub_ensure_plan:
  "sub_ensure t u d = Some (s, d') \<Longrightarrow> ss_plan s \<in> set subscriptionPlans"
  by (auto simp: sub_ensure_def Let_def state_of_row_def dest!: planByCode_Some
      split: option.splits if_splits)

lemma subscription_of_upd_expire:
  "subscription_of (upd_expire u t d) v =
     map_option (\<lambda>s. if s_user s = u then s\<lparr>s_status := ''expired'', s_updated := t\<rparr> else s)
       (subscription_of d v)"
  by (simp add: subscription_of_def upd_expire_def find_upd_where)

lemma ins_trial_id: "subscription_of d u = Some s \<Longrightarrow> ins_trial u t d = d"
  by (simp add: ins_trial_def split: option.splits)

lemma sub_ensure_row:
  assumes "sub_ensure t u d = Some (s, d')"
  obtains r p where "subscription_of d' u = Some r" "planByCode (s_plan r) = Some p"
    "s = state_of_row p r" "\<not> sub_is_expired t r"
proof -
  let ?d = "ins_trial u t d"
  obtain r where r: "subscription_of ?d u = Some r"
    using assms by (auto simp: sub_ensure_def Let_def split: option.splits)
  moreover obtain p where p: "planByCode (s_plan r) = Some p"
    using assms r by (auto simp: sub_ensure_def Let_def split: option.splits)
  moreover have "s_user r = u" using r by (auto simp: subscription_of_def find_Some_iff)
  ultimately show ?thesis
    using assms that [of r p] that [of "r\<lparr>s_status := ''expired'', s_updated := t\<rparr>" p]
    by (cases "sub_is_expired t r")
      (auto simp: sub_ensure_def Let_def subscription_of_upd_expire state_of_row_def sub_is_expired_def)
qed

lemma sub_ensure_stable:
  assumes "sub_ensure t u d = Some (s, d')" shows "sub_ensure t u d' = Some (s, d')"
proof -
  obtain r p where "subscription_of d' u = Some r" "planByCode (s_plan r) = Some p"
    "s = state_of_row p r" "\<not> sub_is_expired t r"
    using assms by (rule sub_ensure_row)
  then show ?thesis by (simp add: sub_ensure_def ins_trial_id)
qed

section \<open>The statements implement the specification\<close>

lemma run_ensure_free:
  assumes "faults w = []"
  shows "run_state (ensureSubscription Pool u lk) w = (case sub_ensure (now w) u (db w) of
      None \<Rightarrow> (Inl OtherError, w\<lparr>db := ins_trial u (now w) (db w)\<rparr>)
    | Some (s, d) \<Rightarrow> (Inr s, w\<lparr>db := d\<rparr>))"
  using assms
  by (cases "subscription_of (ins_trial u (now w) (db w)) u")
    (simp_all add: ensureSubscription_def free_simps sub_ensure_def Let_def sel_subscription_def
      row_of_def split: option.splits)

lemma sub_ensureI:
  assumes "sel_subscription u t (ins_trial u t d) = Row s" "planByCode (s_plan s) = Some p"
  shows "sub_is_expired t s \<Longrightarrow>
      sub_ensure t u d = Some ((state_of_row p s)\<lparr>ss_status := ''expired''\<rparr>, upd_expire u t (ins_trial u t d))"
    and "\<not> sub_is_expired t s \<Longrightarrow> sub_ensure t u d = Some (state_of_row p s, ins_trial u t d)"
  using assms by (auto simp: sub_ensure_def sel_subscription_def row_of_def split: option.splits)

lemma wp_ensureSubscription_Tx [wps]:
  assumes E: "\<And>fs t. Q (Inl OtherError) (w\<lparr>faults := fs, txn := t\<rparr>)"
    and S: "\<And>fs d0 d1 s. txn w = Some (d0, False) \<Longrightarrow> sub_ensure (now w) u d0 = Some (s, d1) \<Longrightarrow>
      Q (Inr s) (w\<lparr>faults := fs, txn := Some (d1, False)\<rparr>)"
  shows "wp (ensureSubscription Tx u lk) Q w"
  unfolding ensureSubscription_def
  by (intro wps) (use E in \<open>auto intro!: S sub_ensureI\<close>)

lemma wp_ensureSubscription_Pool [wps]:
  assumes E: "\<And>fs ss. Q (Inl OtherError) (w\<lparr>faults := fs, db := (db w)\<lparr>subscriptions := ss\<rparr>\<rparr>)"
    and S: "\<And>fs d1 s. sub_ensure (now w) u (db w) = Some (s, d1) \<Longrightarrow>
      Q (Inr s) (w\<lparr>faults := fs, db := d1\<rparr>)"
  shows "wp (ensureSubscription Pool u lk) Q w"
proof -
  obtain ss where e: "ins_trial u (now w) (db w) = (db w)\<lparr>subscriptions := ss\<rparr>"
    using ins_trial_frame by blast
  have E1: "Q (Inl OtherError) (w\<lparr>faults := fs\<rparr>)" for fs
  proof -
    have "w\<lparr>faults := fs, db := (db w)\<lparr>subscriptions := subscriptions (db w)\<rparr>\<rparr> = w\<lparr>faults := fs\<rparr>"
      by (cases w) simp
    then show ?thesis using E [of "subscriptions (db w)" fs] by simp
  qed
  show ?thesis
    unfolding ensureSubscription_def
    by (intro wps) (use E E1 in \<open>auto simp: e intro!: S sub_ensureI [of u "now w" "db w", unfolded e]\<close>)
qed

lemma wp_ensureProjectCreationAllowed [wps]:
  assumes E: "\<And>fs t e. Q (Some e) (w\<lparr>faults := fs, txn := t\<rparr>)"
    and S: "\<And>fs d0 d1 s. txn w = Some (d0, False) \<Longrightarrow> sub_ensure (now w) u d0 = Some (s, d1) \<Longrightarrow>
      sub_usable s \<Longrightarrow> int (active_projects d0 u) < pl_max_projects (ss_plan s) \<Longrightarrow>
      Q None (w\<lparr>faults := fs, txn := Some (d1, False)\<rparr>)"
  shows "wp (ensureProjectCreationAllowed u) Q w"
proof -
  have "active_projects d1 u = active_projects d0 u" if "sub_ensure t u d0 = Some (s, d1)" for t d0 d1 s
    using sub_ensure_frame [OF that] by (auto simp: active_projects_def)
  then show ?thesis
    unfolding ensureProjectCreationAllowed_def
    by (intro wps) (use E in \<open>auto intro!: S simp: sub_usable_def\<close>)
qed

lemma wp_ensureProjectMemberCapacity [wps]:
  assumes E: "\<And>fs t e. Q (Some e) (w\<lparr>faults := fs, txn := t\<rparr>)"
    and S: "\<And>fs d0 d1 s p. txn w = Some (d0, False) \<Longrightarrow> live_project d0 pid = Some p \<Longrightarrow>
      sub_ensure (now w) (p_owner p) d0 = Some (s, d1) \<Longrightarrow> sub_usable s \<Longrightarrow>
      int (participants d0 (now w) pid phone) < pl_max_members (ss_plan s) \<Longrightarrow>
      Q None (w\<lparr>faults := fs, txn := Some (d1, False)\<rparr>)"
  shows "wp (ensureProjectMemberCapacity pid phone) Q w"
proof -
  have "participants d1 t' pid phone = participants d0 t' pid phone"
    if "sub_ensure t u d0 = Some (s, d1)" for t u d0 d1 s t'
    using sub_ensure_frame [OF that] by (auto simp: participants_def)
  moreover have "Q (Some e) (w\<lparr>faults := fs\<rparr>)" for e fs
    using E [where e = e and fs = fs and t = "txn w"] by simp
  ultimately show ?thesis
    unfolding ensureProjectMemberCapacity_def
    by (intro wps) (use E in \<open>auto intro!: S simp: sub_usable_def row_of_def split: option.splits\<close>)
qed

lemma preserves_ensureSubscription [pres]:
  assumes "\<And>u t d. I d \<Longrightarrow> I (ins_trial u t d)" "\<And>u t d. I d \<Longrightarrow> I (upd_expire u t d)"
  shows "preserves (db_inv I) (ensureSubscription c u lk)"
    "preserves (db_inv I) (ensureProjectCreationAllowed u)"
    "preserves (db_inv I) (ensureProjectMemberCapacity pid phone)"
    "preserves (db_inv I) (requireCurrentSubscription A u)"
    "preserves (db_inv I) (SubscriptionStatus A r)"
proof -
  show *: "preserves (db_inv I) (ensureSubscription c u lk)" for c u lk
    unfolding ensureSubscription_def by (intro pres assms)
  show "preserves (db_inv I) (ensureProjectCreationAllowed u)"
    "preserves (db_inv I) (ensureProjectMemberCapacity pid phone)"
    "preserves (db_inv I) (requireCurrentSubscription A u)"
    "preserves (db_inv I) (SubscriptionStatus A r)"
    unfolding ensureProjectCreationAllowed_def ensureProjectMemberCapacity_def
      requireCurrentSubscription_def SubscriptionStatus_def
    by (intro pres *)+
qed

end
