(* ===== verification/Projects.thy ===== *)
theory Projects
  imports Subscriptions
begin

text \<open>
  Projects (\<open>internal/httpapi/projects.go\<close>): the list, one project, creation, update, archiving and
  restoring. The upload variant \<open>CreateProjectWithCover\<close> is not here.
\<close>

section \<open>Dates\<close>

definition leap :: "nat \<Rightarrow> bool" where
  "leap y \<longleftrightarrow> y mod 4 = 0 \<and> (y mod 100 \<noteq> 0 \<or> y mod 400 = 0)"

definition daysIn :: "nat \<Rightarrow> nat \<Rightarrow> nat" where
  "daysIn y m = (if m = 2 then (if leap y then 29 else 28)
     else if m = 4 \<or> m = 6 \<or> m = 9 \<or> m = 11 then 30 else 31)"

definition digit_val :: "char \<Rightarrow> nat" where
  "digit_val c = nat (byte c - 48)"

definition read_nat :: "string \<Rightarrow> nat" where
  "read_nat s = foldl (\<lambda>n c. n * 10 + digit_val c) 0 s"

text \<open>\<open>time.Parse("2006-01-02", s)\<close>.\<close>

definition parse_iso_date :: "string \<Rightarrow> (nat \<times> nat \<times> nat) option" where
  "parse_iso_date s =
     (let ys = take 4 s; ms = take 2 (drop 5 s); ds = take 2 (drop 8 s);
          y = read_nat ys; m = read_nat ms; d = read_nat ds
      in if length s = 10 \<and> list_all is_digit ys \<and> s ! 4 = CHR ''-'' \<and> list_all is_digit ms
            \<and> s ! 7 = CHR ''-'' \<and> list_all is_digit ds
            \<and> 1 \<le> m \<and> m \<le> 12 \<and> 1 \<le> d \<and> d \<le> daysIn y m
         then Some (y, m, d) else None)"

text \<open>\<open>time.Now().Format("2006-01-02")\<close> on a server in UTC: the civil date of a day number.\<close>

function civil_year :: "nat \<Rightarrow> nat \<Rightarrow> nat \<times> nat" where
  "civil_year y d = (let n = (if leap y then 366 else 365) in
     if d < n then (y, d) else civil_year (y + 1) (d - n))"
  by pat_completeness auto
termination
  by (relation "measure snd") (auto simp: Let_def)

declare civil_year.simps [simp del]

fun civil_month :: "nat \<Rightarrow> nat list \<Rightarrow> nat \<Rightarrow> nat \<times> nat" where
  "civil_month y [] d = (12, d)"
| "civil_month y (m # ms) d = (if d < daysIn y m then (m, d) else civil_month y ms (d - daysIn y m))"

definition today :: "time \<Rightarrow> string" where
  "today t = (case civil_year 1970 (nat (t div day)) of (y, d) \<Rightarrow>
     case civil_month y [1 ..< 13] d of (m, e) \<Rightarrow>
       pad_nat 4 y @ ''-'' @ pad_nat 2 m @ ''-'' @ pad_nat 2 (e + 1))"

definition normalizeISODate :: "time \<Rightarrow> string \<Rightarrow> bool \<Rightarrow> string \<Rightarrow> string + string" where
  "normalizeISODate t raw fallback_today field_name =
     (let v = trim_space raw in
      if v = [] then (if fallback_today then Inr (today t) else Inr [])
      else if parse_iso_date v = None then Inl (field_name @ '' must use YYYY-MM-DD format'')
      else Inr v)"

definition normalizeProjectStartDate :: "time \<Rightarrow> string \<Rightarrow> bool \<Rightarrow> string + string" where
  "normalizeProjectStartDate t raw fallback_today = normalizeISODate t raw fallback_today ''start_date''"

text \<open>PostgreSQL's cast of an ISO date to \<open>date\<close>: there is no year 0.\<close>

definition pg_date :: "string \<Rightarrow> string option" where
  "pg_date s = (case parse_iso_date s of
     None \<Rightarrow> None | Some (y, m, d) \<Rightarrow> if y = 0 then None else Some s)"

section \<open>Requests and responses\<close>

record project_dto =
  pd_id :: uuid
  pd_name :: string
  pd_address :: string
  pd_budget :: f64
  pd_currency :: string
  pd_status :: string
  pd_role :: string
  pd_cover :: string
  pd_start :: string
  pd_created :: time

datatype project_payload = ProjectItem project_dto | ProjectList "project_dto list"
  | ProjectArchived

record create_project_req =
  cq_name :: string
  cq_address :: string
  cq_budget :: f64
  cq_currency :: string
  cq_start :: string

record update_project_req =
  uq_name :: string
  uq_address :: string
  uq_budget :: "f64 option"
  uq_currency :: string
  uq_status :: string
  uq_start :: string

definition decode_create_project :: "request \<Rightarrow> create_project_req option" where
  "decode_create_project r = do {
     fs \<leftarrow> decode_body r;
     n \<leftarrow> str_field fs ''name'';
     a \<leftarrow> str_field fs ''address'';
     b \<leftarrow> float_field fs ''budget_amount'';
     c \<leftarrow> str_field fs ''currency'';
     s \<leftarrow> str_field fs ''start_date'';
     Some \<lparr>cq_name = n, cq_address = a, cq_budget = b, cq_currency = c, cq_start = s\<rparr>
   }"

definition decode_update_project :: "request \<Rightarrow> update_project_req option" where
  "decode_update_project r = do {
     fs \<leftarrow> decode_body r;
     n \<leftarrow> str_field fs ''name'';
     a \<leftarrow> str_field fs ''address'';
     b \<leftarrow> float_ptr_field fs ''budget_amount'';
     c \<leftarrow> str_field fs ''currency'';
     st \<leftarrow> str_field fs ''status'';
     s \<leftarrow> str_field fs ''start_date'';
     Some \<lparr>uq_name = n, uq_address = a, uq_budget = b, uq_currency = c, uq_status = st, uq_start = s\<rparr>
   }"

section \<open>Statements\<close>

definition or_empty :: "string option \<Rightarrow> string" where
  "or_empty s = (case s of None \<Rightarrow> [] | Some x \<Rightarrow> x)"

definition null_if_empty :: "string \<Rightarrow> string option" where
  "null_if_empty s = (if s = [] then None else Some s)"

text \<open>The newest image that is the cover of a project (\<open>ORDER BY created_at DESC LIMIT 1\<close>).\<close>

definition cover_of :: "db \<Rightarrow> uuid \<Rightarrow> string" where
  "cover_of d pid =
     (case sort_key (\<lambda>f. - f_created f)
        (filter (\<lambda>f. f_project f = Some pid \<and> f_deleted f = None \<and> f_kind f = ''project_cover''
           \<and> has_prefix ''image/'' (f_type f)) (files d)) of
        [] \<Rightarrow> [] | f # _ \<Rightarrow> f_id f)"

definition dto_of :: "project_row \<Rightarrow> string \<Rightarrow> string \<Rightarrow> project_dto" where
  "dto_of p role cover = \<lparr>pd_id = p_id p, pd_name = p_name p, pd_address = or_empty (p_address p),
     pd_budget = f_of (p_budget p), pd_currency = p_currency p, pd_status = p_status p,
     pd_role = role, pd_cover = cover, pd_start = p_start p, pd_created = p_created p\<rparr>"

definition sel_projects :: "uuid \<Rightarrow> bool \<Rightarrow> db \<Rightarrow> project_dto list" where
  "sel_projects u archived d =
     concat (map (\<lambda>p. map (\<lambda>m. dto_of p (m_role m) (cover_of d (p_id p)))
         (filter (\<lambda>m. m_project m = p_id p \<and> m_user m = u) (members d)))
       (sort_key (\<lambda>p. - p_created p)
         (filter (\<lambda>p. p_deleted p = None \<and> (archived \<or> p_status p = ''active'')) (projects d))))"

definition sel_project :: "uuid \<Rightarrow> uuid \<Rightarrow> time \<Rightarrow> db \<Rightarrow> project_dto sqlres" where
  "sel_project pid u t d =
     (case live_project d pid of
        None \<Rightarrow> NoRows
      | Some p \<Rightarrow> (case member_of d pid u of
            None \<Rightarrow> NoRows
          | Some m \<Rightarrow> Row (dto_of p (m_role m) (cover_of d pid))))"

definition ins_project ::
  "externals \<Rightarrow> uuid \<Rightarrow> string \<Rightarrow> string \<Rightarrow> f64 \<Rightarrow> string \<Rightarrow> string \<Rightarrow> uuid \<Rightarrow> project_row sql" where
  "ins_project X owner nm addr budget cur start pid t d =
     (case (x_numeric X budget, pg_date start) of
        (Some b, Some s) \<Rightarrow>
          if user_by_id d owner = None \<or> pid \<in> p_id ` set (projects d) \<or> b < 0
             \<or> cur \<notin> {''KGS'', ''USD'', ''KZT''} then (SqlErr, d)
          else let p = \<lparr>p_id = pid, p_owner = owner, p_name = nm, p_address = null_if_empty addr,
                 p_budget = b, p_currency = cur, p_status = ''active'', p_start = s,
                 p_created = t, p_updated = t, p_deleted = None\<rparr>
            in (Row p, d\<lparr>projects := projects d @ [p]\<rparr>)
      | _ \<Rightarrow> (SqlErr, d))"

text \<open>\<open>INSERT INTO project_members ... ON CONFLICT DO NOTHING\<close>, with the number of rows inserted.\<close>

definition ins_member :: "uuid \<Rightarrow> uuid \<Rightarrow> string \<Rightarrow> nat sql" where
  "ins_member pid u role t d =
     (if role \<notin> {''owner'', ''manager'', ''worker'', ''viewer''} then (SqlErr, d)
      else if member_of d pid u \<noteq> None then (Row 0, d)
      else if pid \<notin> p_id ` set (projects d) \<or> user_by_id d u = None then (SqlErr, d)
      else (Row 1, d\<lparr>members := members d @
        [\<lparr>m_project = pid, m_user = u, m_role = role, m_created = t\<rparr>]\<rparr>))"

definition ins_audit ::
  "uuid \<Rightarrow> uuid option \<Rightarrow> string \<Rightarrow> string \<Rightarrow> uuid option \<Rightarrow> (string \<times> string) list \<Rightarrow> uuid \<Rightarrow> unit sql" where
  "ins_audit actor pid action etype entity meta aid t d =
     (if user_by_id d actor = None
         \<or> (case pid of None \<Rightarrow> False | Some p \<Rightarrow> p \<notin> p_id ` set (projects d))
         \<or> aid \<in> l_id ` set (audits d) then (SqlErr, d)
      else (Row (), d\<lparr>audits := audits d @
        [\<lparr>l_actor = Some actor, l_project = pid, l_action = action, l_entity_type = etype,
          l_entity = entity, l_metadata = meta, l_id = aid, l_created = t\<rparr>]\<rparr>))"

definition audit ::
  "conn \<Rightarrow> uuid \<Rightarrow> uuid option \<Rightarrow> string \<Rightarrow> string \<Rightarrow> uuid option \<Rightarrow> (string \<times> string) list \<Rightarrow>
   (world, unit sqlres) state" where
  "audit c actor pid action etype entity meta =
     insert_stmt c (ins_audit actor pid action etype entity meta)"

text \<open>The \<open>SET\<close> clause of the update, with its \<open>COALESCE\<close> and \<open>NULLIF\<close>.\<close>

definition edit_project ::
  "string \<Rightarrow> string \<Rightarrow> string \<Rightarrow> rat option \<Rightarrow> string \<Rightarrow> string option \<Rightarrow> time \<Rightarrow> project_row \<Rightarrow> project_row" where
  "edit_project nm addr status b cur s t q = q\<lparr>p_name := nm, p_address := null_if_empty addr,
     p_status := (if status = [] then p_status q else status),
     p_budget := (case b of None \<Rightarrow> p_budget q | Some v \<Rightarrow> v),
     p_currency := (if cur = [] then p_currency q else cur),
     p_start := (case s of None \<Rightarrow> p_start q | Some v \<Rightarrow> v),
     p_updated := t\<rparr>"

definition upd_project ::
  "externals \<Rightarrow> uuid \<Rightarrow> string \<Rightarrow> string \<Rightarrow> string \<Rightarrow> f64 option \<Rightarrow> string \<Rightarrow> string \<Rightarrow> project_row sql" where
  "upd_project X pid nm addr status budget cur start t d =
     (let nb = (case budget of None \<Rightarrow> Some None | Some v \<Rightarrow> map_option Some (x_numeric X v));
          ns = (if start = [] then Some None else map_option Some (pg_date start))
      in case (nb, ns, live_project d pid) of
          (Some b, Some s, Some p) \<Rightarrow>
            let q = edit_project nm addr status b cur s t p
            in if p_budget q < 0 \<or> p_status q \<notin> {''active'', ''archived''}
                  \<or> p_currency q \<notin> {''KGS'', ''USD'', ''KZT''} then (SqlErr, d)
               else (Row q, d\<lparr>projects := upd_where (\<lambda>x. p_id x = pid \<and> p_deleted x = None)
                  (edit_project nm addr status b cur s t) (projects d)\<rparr>)
        | (Some b, Some s, None) \<Rightarrow> (NoRows, d)
        | _ \<Rightarrow> (SqlErr, d))"

lemma edit_project_keeps [simp]:
  "p_id (edit_project nm addr status b cur s t q) = p_id q"
  "p_owner (edit_project nm addr status b cur s t q) = p_owner q"
  "p_deleted (edit_project nm addr status b cur s t q) = p_deleted q"
  by (simp_all add: edit_project_def)

lemma upd_project_effect:
  assumes "upd_project X pid nm a st bu c sa t d = (Row p, d')"
  obtains b s p0 where "live_project d pid = Some p0" "p = edit_project nm a st b c s t p0"
    "d' = d\<lparr>projects := upd_where (\<lambda>x. p_id x = pid \<and> p_deleted x = None)
       (edit_project nm a st b c s t) (projects d)\<rparr>"
  using assms
  by (cases "live_project d pid") (auto simp: upd_project_def Let_def split: option.splits if_splits)

definition archivable :: "uuid \<Rightarrow> project_row \<Rightarrow> bool" where
  "archivable pid p \<longleftrightarrow> p_id p = pid \<and> p_deleted p = None \<and> p_status p \<noteq> ''archived''"

definition upd_archive :: "uuid \<Rightarrow> nat sql" where
  "upd_archive pid t d = (Row (count_where (archivable pid) (projects d)),
     d\<lparr>projects := upd_where (archivable pid)
        (\<lambda>p. p\<lparr>p_status := ''archived'', p_updated := t\<rparr>) (projects d)\<rparr>)"

section \<open>Handlers\<close>

definition parse_bool :: "string \<Rightarrow> bool" where
  "parse_bool s \<longleftrightarrow> s \<in> {''1'', ''t'', ''T'', ''TRUE'', ''true'', ''True''}"

definition listProjects :: "project_payload handler" where
  "listProjects r = do {
     let u = userIDFromContext r;
     let archived = parse_bool (get_first (rq_query r) ''include_archived'');
     rows \<leftarrow> query Pool (\<lambda>t d. sel_projects u archived d);
     (case rows of
        Rows ps \<Rightarrow> reply 200 (ProjectList ps)
      | QueryErr \<Rightarrow> fail 500 ''failed to load projects''
      | ScanErr \<Rightarrow> fail 500 ''failed to scan project''
      | RowsErr \<Rightarrow> fail 500 ''failed to read projects'')
   }"

definition getProject :: "uuid \<Rightarrow> project_payload handler" where
  "getProject pid r = do {
     let u = userIDFromContext r;
     ok \<leftarrow> canAccessProject u pid;
     if \<not> ok then fail 403 ''project access denied''
     else do {
       row \<leftarrow> sel Pool (sel_project pid u);
       (case row of
          Row item \<Rightarrow> reply 200 (ProjectItem item)
        | NoRows \<Rightarrow> fail 404 ''project not found''
        | SqlErr \<Rightarrow> fail 404 ''project not found'')
     }
   }"

definition createProject :: "app_state \<Rightarrow> externals \<Rightarrow> project_payload handler" where
  "createProject A X r = do {
     t \<leftarrow> read_now;
     let u = userIDFromContext r;
     (case decode_create_project r of
        None \<Rightarrow> fail 400 ''invalid JSON body''
      | Some req \<Rightarrow>
          let nm = trim_space (cq_name req); addr = trim_space (cq_address req) in
          if nm = [] then fail 400 ''project name is required''
          else (case validateProjectBudget (cq_budget req) of
            Some e \<Rightarrow> fail 400 e
          | None \<Rightarrow> (case normalizeProjectCurrency (cq_currency req) of
              Inl e \<Rightarrow> fail 400 e
            | Inr cur \<Rightarrow> (case normalizeProjectStartDate t (cq_start req) True of
                Inl e \<Rightarrow> fail 400 e
              | Inr start \<Rightarrow> do {
                  b \<leftarrow> tx_begin;
                  if \<not> b then fail 500 ''failed to start transaction''
                  else defer_rollback (do {
                    lim \<leftarrow> ensureProjectCreationAllowed u;
                    (case lim of
                       Some e \<Rightarrow> (case subscriptionHTTPError e of
                           Some sm \<Rightarrow> fail (fst sm) (snd sm)
                         | None \<Rightarrow> fail 500 ''failed to enforce subscription limits'')
                     | None \<Rightarrow> do {
                         row \<leftarrow> insert_stmt Tx (ins_project X u nm addr (cq_budget req) cur start);
                         (case row of
                            NoRows \<Rightarrow> fail 500 ''failed to create project''
                          | SqlErr \<Rightarrow> fail 500 ''failed to create project''
                          | Row p \<Rightarrow> do {
                              m \<leftarrow> stmt Tx (ins_member (p_id p) u ''owner'');
                              if m = SqlErr then fail 500 ''failed to create project membership''
                              else do {
                                _ \<leftarrow> audit Tx u (Some (p_id p)) ''create'' ''project'' (Some (p_id p)) [];
                                c \<leftarrow> tx_commit;
                                if \<not> c then fail 500 ''failed to commit project''
                                else do {
                                  publishProjectEvent A (p_id p) ''project'' (p_id p) ''created'' [];
                                  reply 201 (ProjectItem (dto_of p ProjectRoleOwner []))
                                }
                              }
                            })
                       })
                  })
                }))))
   }"

text \<open>The transaction of \<open>updateProject\<close>, after the validation and the permission check.\<close>

definition updateProjectTx ::
  "app_state \<Rightarrow> externals \<Rightarrow> uuid \<Rightarrow> uuid \<Rightarrow> string \<Rightarrow> string \<Rightarrow> string \<Rightarrow> f64 option \<Rightarrow> string \<Rightarrow> string \<Rightarrow>
   (world, project_payload resp) state" where
  "updateProjectTx A X u pid nm addr status budget cur start = do {
     cur_row \<leftarrow> sel Tx (\<lambda>t d. row_of (map_option (\<lambda>p. (p_owner p, p_status p)) (live_project d pid)));
     (case cur_row of
        NoRows \<Rightarrow> fail 404 ''project not found''
      | SqlErr \<Rightarrow> fail 404 ''project not found''
      | Row os \<Rightarrow> do {
          lim \<leftarrow> (if status = ''active'' \<and> snd os = ''archived''
                 then ensureProjectCreationAllowed (fst os) else ret None);
          (case lim of
             Some e \<Rightarrow> (case subscriptionHTTPError e of
                 Some sm \<Rightarrow> fail (fst sm) (snd sm)
               | None \<Rightarrow> fail 500 ''failed to enforce subscription limits'')
           | None \<Rightarrow> do {
               row \<leftarrow> stmt Tx (upd_project X pid nm addr status budget cur start);
               (case row of
                  NoRows \<Rightarrow> fail 404 ''project not found''
                | SqlErr \<Rightarrow> fail 404 ''project not found''
                | Row p \<Rightarrow> do {
                    role \<leftarrow> scan_ignore Tx (\<lambda>t d. row_of (map_option m_role (member_of d pid u))) [];
                    cov \<leftarrow> scan_ignore Tx (\<lambda>t d. Row (cover_of d pid)) [];
                    _ \<leftarrow> audit Tx u (Some pid) ''update'' ''project'' (Some pid) [];
                    c \<leftarrow> tx_commit;
                    if \<not> c then fail 500 ''failed to save project''
                    else do {
                      publishProjectEvent A pid ''project'' pid ''updated'' [];
                      reply 200 (ProjectItem (dto_of p role cov))
                    }
                  })
             })
        })
   }"

definition updateProject :: "app_state \<Rightarrow> externals \<Rightarrow> uuid \<Rightarrow> project_payload handler" where
  "updateProject A X pid r = do {
     t \<leftarrow> read_now;
     let u = userIDFromContext r;
     (case decode_update_project r of
        None \<Rightarrow> fail 400 ''invalid JSON body''
      | Some req \<Rightarrow>
          let nm = trim_space (uq_name req); addr = trim_space (uq_address req);
              status = trim_space (uq_status req) in
          if nm = [] then fail 400 ''project name is required''
          else if status \<noteq> [] \<and> status \<noteq> ''active'' \<and> status \<noteq> ''archived''
          then fail 400 ''invalid project status''
          else (case normalizeProjectStartDate t (uq_start req) False of
            Inl e \<Rightarrow> fail 400 e
          | Inr start \<Rightarrow> (case Option.bind (uq_budget req) validateProjectBudget of
              Some e \<Rightarrow> fail 400 e
            | None \<Rightarrow> (case (if trim_space (uq_currency req) \<noteq> []
                            then normalizeProjectCurrency (uq_currency req) else Inr []) of
                Inl e \<Rightarrow> fail 400 e
              | Inr cur \<Rightarrow> do {
                  ok \<leftarrow> (if status = ''active'' then canManageProjectLifecycle u pid
                        else canManageProject u pid);
                  if \<not> ok then fail 403 ''project management permission required''
                  else do {
                    b \<leftarrow> tx_begin;
                    if \<not> b then fail 500 ''failed to start transaction''
                    else defer_rollback
                      (updateProjectTx A X u pid nm addr status (uq_budget req) cur start)
                  }
                }))))
   }"

definition deleteProject :: "app_state \<Rightarrow> uuid \<Rightarrow> project_payload handler" where
  "deleteProject A pid r = do {
     let u = userIDFromContext r;
     ok \<leftarrow> canManageProject u pid;
     if \<not> ok then fail 403 ''project management permission required''
     else do {
       n \<leftarrow> stmt Pool (upd_archive pid);
       (case n of
          SqlErr \<Rightarrow> fail 500 ''failed to archive project''
        | NoRows \<Rightarrow> fail 500 ''failed to archive project''
        | Row k \<Rightarrow>
            if k = 0 then fail 404 ''project not found or already archived''
            else do {
              _ \<leftarrow> audit Pool u (Some pid) ''archive'' ''project'' (Some pid) [];
              publishProjectEvent A pid ''project'' pid ''archived'' [];
              reply 200 ProjectArchived
            })
     }
   }"

definition Projects :: "app_state \<Rightarrow> externals \<Rightarrow> project_payload handler" where
  "Projects A X r =
     (if \<not> st_db A then dbNotAvailable
      else let pid = resourceIDFromPath (rq_path r) ''/api/v1/projects/'' in
        if pid \<noteq> [] then
          (if rq_method r = ''GET'' then getProject pid r
           else if rq_method r = ''PATCH'' then updateProject A X pid r
           else if rq_method r = ''DELETE'' then deleteProject A pid r
           else methodNotAllowed)
        else if rq_method r = ''GET'' then listProjects r
        else if rq_method r = ''POST'' then createProject A X r
        else methodNotAllowed)"

end
