(* ===== verification/Phones.thy ===== *)
theory Phones
  imports Prelude
begin

text \<open>
  Phone numbers and account identifiers (\<open>normalizePhone\<close>, \<open>phoneRe\<close>, \<open>accountIDRe\<close> of
  \<open>internal/httpapi/auth.go\<close> and \<open>smsRateLimitPhone\<close> of \<open>auth_abuse.go\<close>).
\<close>

definition normalizePhone :: "string \<Rightarrow> string" where
  "normalizePhone phone = remove_char CHR '' '' (trim_space phone)"

text \<open>\<open>^\+?[0-9]{9,15}$\<close>\<close>

definition phoneRe :: "string \<Rightarrow> bool" where
  "phoneRe s = (let ds = (if has_prefix ''+'' s then drop 1 s else s) in
     9 \<le> length ds \<and> length ds \<le> 15 \<and> list_all is_digit ds)"

text \<open>\<open>^[0-9a-fA-F]{8}-[0-9a-fA-F]{4}-[0-9a-fA-F]{4}-[0-9a-fA-F]{4}-[0-9a-fA-F]{12}$\<close>\<close>

definition accountIDRe :: "string \<Rightarrow> bool" where
  "accountIDRe s \<longleftrightarrow> map length (split_on CHR ''-'' s) = [8, 4, 4, 4, 12]
     \<and> list_all (\<lambda>c. is_hex c \<or> c = CHR ''-'') s"

definition smsRateLimitPhone :: "string \<Rightarrow> string" where
  "smsRateLimitPhone phone = trim_prefix ''+'' (normalizePhone phone)"

definition phone_char :: "char \<Rightarrow> bool" where
  "phone_char c \<longleftrightarrow> is_digit c \<or> c = CHR ''+''"

lemma phoneRe_chars: "phoneRe s \<Longrightarrow> list_all phone_char s"
proof -
  assume a: "phoneRe s"
  show ?thesis
  proof (cases "has_prefix ''+'' s")
    case True
    then obtain t where "s = CHR ''+'' # t" by (auto simp: has_prefix_iff)
    with a show ?thesis by (auto simp: phoneRe_def has_prefix_def phone_char_def list_all_iff)
  next
    case False
    with a show ?thesis by (auto simp: phoneRe_def phone_char_def list_all_iff Let_def)
  qed
qed

lemma strip_id:
  assumes "\<And>p. p \<in> set ws \<Longrightarrow> p \<noteq> [] \<Longrightarrow> \<not> has_prefix p s" shows "strip ws s = s"
  by (rule strip_fixed) (use assms in \<open>auto simp: find_None_iff\<close>)

lemma phone_char_byte: "phone_char c \<longleftrightarrow> is_digit c \<or> byte c = 43"
proof -
  have "byte CHR ''+'' = 43" by (simp add: byte_def)
  then have "c = CHR ''+'' \<longleftrightarrow> byte c = 43" unfolding byte_def by (metis of_char_eq_iff)
  then show ?thesis by (simp add: phone_char_def)
qed

lemma space_not_phone_char:
  "p \<in> set spaces \<Longrightarrow> p \<noteq> [] \<and> (\<forall>c\<in>set p. \<not> phone_char c)"
  by (auto simp: spaces_def phone_char_byte is_digit_def byte_def)

lemma trim_space_phone:
  assumes "list_all phone_char s" shows "trim_space s = s"
proof -
  have "\<not> has_prefix p s" if p: "p \<in> set spaces" for p
  proof
    assume "has_prefix p s"
    then obtain t where "s = p @ t" by (auto simp: has_prefix_iff)
    with assms space_not_phone_char [OF p] show False by (cases p) auto
  qed
  then have l: "strip spaces s = s" by (intro strip_id) auto
  have "\<not> has_prefix p (rev s)" if p: "p \<in> set (map rev spaces)" for p
  proof
    assume "has_prefix p (rev s)"
    then obtain t where t: "rev s = p @ t" by (auto simp: has_prefix_iff)
    obtain q where q: "q \<in> set spaces" "p = rev q" using p by auto
    have "set q \<subseteq> set s" using arg_cong [OF t, of set] q by auto
    with assms space_not_phone_char [OF q(1)] show False by (cases q) (auto simp: list_all_iff)
  qed
  then have "strip (map rev spaces) (rev s) = rev s" by (intro strip_id) auto
  with l show ?thesis by (simp add: trim_space_def)
qed

lemma normalizePhone_id: "phoneRe s \<Longrightarrow> normalizePhone s = s"
proof -
  assume "phoneRe s"
  then have c: "list_all phone_char s" by (rule phoneRe_chars)
  then have "filter (\<lambda>c. c \<noteq> CHR '' '') s = s"
    by (intro filter_True) (auto simp: list_all_iff phone_char_def is_digit_def byte_def)
  with c show ?thesis by (simp add: normalizePhone_def trim_space_phone remove_char_def)
qed

lemma phoneRe_nonempty: "phoneRe s \<Longrightarrow> s \<noteq> []"
  by (auto simp: phoneRe_def Let_def has_prefix_def)

end
