(* ===== verification/Integrity.thy ===== *)
theory Integrity
  imports Projects Phones
begin

text \<open>
  The invariant of the identity tables (users, projects, members, invites): foreign keys,
  owner membership, and no invitation addressed to the owner of its project. The locale
  \<open>core_invariant\<close> collects what follows for every invariant that reads these four tables only;
  the component theories prove their handlers preserve it.
\<close>

section \<open>Audit records\<close>

text \<open>An audit insert changes the audit table only; when it fails in a transaction, it aborts it.\<close>

lemma ins_audit_ok:
  "ins_audit ac p a e en m i t d = (r, d') \<Longrightarrow> r \<noteq> SqlErr \<Longrightarrow> \<exists>as. d' = d\<lparr>audits := as\<rparr>"
  by (auto simp: ins_audit_def split: if_splits option.splits)

lemma wp_audit_Tx [wps]:
  assumes "\<And>r fs us t. (\<forall>d. t \<noteq> Some (d, False)) \<or>
      (\<exists>d as. txn w = Some (d, False) \<and> t = Some (d\<lparr>audits := as\<rparr>, False)) \<Longrightarrow>
      Q r (w\<lparr>faults := fs, txn := t, uuids := us\<rparr>)"
  shows "wp (audit Tx ac p a e en m) Q w"
  unfolding audit_def
proof (intro wps)
  fix fs us and t :: "(db \<times> bool) option"
  assume "\<And>d. t \<noteq> Some (d, False)"
  then show "Q SqlErr (w\<lparr>faults := fs, txn := t, uuids := us\<rparr>)" by (intro assms) auto
next
  fix fs u us d0 r d
  assume "txn w = Some (d0, False)" "ins_audit ac p a e en m u (now w) d0 = (r, d)" "r \<noteq> SqlErr"
  then show "Q r (w\<lparr>faults := fs, txn := Some (d, False), uuids := us\<rparr>)"
    by (intro assms) (auto dest: ins_audit_ok)
qed

lemma wp_audit_Pool [wps]:
  assumes "\<And>r fs us as. Q r (w\<lparr>faults := fs, db := (db w)\<lparr>audits := as\<rparr>, uuids := us\<rparr>)"
  shows "wp (audit Pool ac p a e en m) Q w"
  unfolding audit_def
proof (intro wps)
  fix fs us
  have "w\<lparr>faults := fs, db := (db w)\<lparr>audits := audits (db w)\<rparr>, uuids := us\<rparr> = w\<lparr>faults := fs, uuids := us\<rparr>"
    by (cases w) simp
  then show "Q SqlErr (w\<lparr>faults := fs, uuids := us\<rparr>)" using assms by metis
next
  fix fs u us r d
  assume "ins_audit ac p a e en m u (now w) (db w) = (r, d)" "r \<noteq> SqlErr"
  then obtain as where "d = (db w)\<lparr>audits := as\<rparr>" by (auto dest: ins_audit_ok)
  then show "Q r (w\<lparr>faults := fs, db := d, uuids := us\<rparr>)" using assms by simp
qed

section \<open>The invariant\<close>

definition owner_member :: "db \<Rightarrow> project_row \<Rightarrow> bool" where
  "owner_member d p \<longleftrightarrow> (case member_of d (p_id p) (p_owner p) of
     None \<Rightarrow> False | Some m \<Rightarrow> m_role m = ''owner'')"

definition owner_phone_free :: "db \<Rightarrow> invite_row \<Rightarrow> bool" where
  "owner_phone_free d i \<longleftrightarrow> (\<forall>p\<in>set (projects d). p_id p = i_project i \<longrightarrow>
     (\<forall>x\<in>set (users d). u_id x = p_owner p \<longrightarrow> u_phone x \<noteq> Some (i_phone i)))"

definition valid_user :: "user_row \<Rightarrow> bool" where
  "valid_user x \<longleftrightarrow> (case u_phone x of None \<Rightarrow> False | Some ph \<Rightarrow> phoneRe ph)"

definition valid_invite :: "db \<Rightarrow> invite_row \<Rightarrow> bool" where
  "valid_invite d i \<longleftrightarrow> phoneRe (i_phone i) \<and> i_role i \<in> {''manager'', ''worker'', ''viewer''}
     \<and> i_project i \<in> p_id ` set (projects d) \<and> owner_phone_free d i"

definition valid_project :: "db \<Rightarrow> project_row \<Rightarrow> bool" where
  "valid_project d p \<longleftrightarrow> p_owner p \<in> u_id ` set (users d) \<and> owner_member d p"

definition valid_member :: "db \<Rightarrow> member_row \<Rightarrow> bool" where
  "valid_member d m \<longleftrightarrow> m_project m \<in> p_id ` set (projects d) \<and> m_user m \<in> u_id ` set (users d)"

text \<open>The primary key of \<open>project_members\<close>.\<close>

definition member_key :: "member_row \<Rightarrow> uuid \<times> uuid" where
  "member_key m = (m_project m, m_user m)"

lemma member_of_key: "member_of d p u = None \<longleftrightarrow> (p, u) \<notin> member_key ` set (members d)"
  by (force simp: member_of_def find_None_iff member_key_def)

definition integrity :: "db \<Rightarrow> bool" where
  "integrity d \<longleftrightarrow> (\<forall>x\<in>set (users d). valid_user x) \<and> (\<forall>p\<in>set (projects d). valid_project d p)
     \<and> (\<forall>m\<in>set (members d). valid_member d m) \<and> (\<forall>i\<in>set (invites d). valid_invite d i)
     \<and> distinct (map p_id (projects d)) \<and> distinct (map member_key (members d))"

lemmas integrity_defs = integrity_def valid_user_def valid_project_def valid_member_def
  valid_invite_def owner_member_def owner_phone_free_def

lemma integrity_empty: "integrity empty_db"
  by (simp add: integrity_def empty_db_def)

section \<open>Invariants of the core tables\<close>

definition same_core :: "db \<Rightarrow> db \<Rightarrow> bool" where
  "same_core d d' \<longleftrightarrow> users d = users d' \<and> projects d = projects d' \<and> members d = members d'
     \<and> invites d = invites d'"

locale core_invariant =
  fixes I :: "db \<Rightarrow> bool"
  assumes core: "same_core d d' \<Longrightarrow> I d = I d'"
begin

lemma frame [simp]:
  "I (d\<lparr>subscriptions := x1\<rparr>) = I d"
  "I (d\<lparr>codes := x2\<rparr>) = I d"
  "I (d\<lparr>sessions := x3\<rparr>) = I d"
  "I (d\<lparr>attempts := x4\<rparr>) = I d"
  "I (d\<lparr>attempt_seq := x5\<rparr>) = I d"
  "I (d\<lparr>audits := x6\<rparr>) = I d"
  "I (d\<lparr>tasks := x7\<rparr>) = I d"
  "I (d\<lparr>costs := x8\<rparr>) = I d"
  "I (d\<lparr>reports := x9\<rparr>) = I d"
  "I (d\<lparr>files := x10\<rparr>) = I d"
  "I (d\<lparr>deletions := x11\<rparr>) = I d"
  "I (d\<lparr>deletion_seq := x12\<rparr>) = I d"
  "I (d\<lparr>push_tokens := x13\<rparr>) = I d"
  "I (d\<lparr>orders := x14\<rparr>) = I d"
  "I (d\<lparr>tickets := x15\<rparr>) = I d"
  by (rule core, simp add: same_core_def)+

lemma ins_trial [simp]: "I (ins_trial u t d) = I d"
  using ins_trial_frame [of u t d] by auto

lemma upd_expire [simp]: "I (upd_expire u t d) = I d"
  by (simp add: upd_expire_def)

lemma sub_ensure: "sub_ensure t u d = Some (s, d') \<Longrightarrow> I d' = I d"
  by (drule sub_ensure_frame) auto

lemma ins_audit: "ins_audit ac p a e en m i t d = (r, d') \<Longrightarrow> I d' = I d"
  by (auto simp: ins_audit_def split: if_splits)

lemma pres_audit [pres]: "preserves (db_inv I) (audit c ac p a e en m)"
  unfolding audit_def by (rule preserves_insert_stmt) (metis ins_audit prod.collapse sql_inv_def)

lemmas pres_subscription = preserves_ensureSubscription [of I, simplified]

end

lemma integrity_core: "same_core d d' \<Longrightarrow> integrity d = integrity d'"
  by (simp add: same_core_def integrity_defs member_of_def)

interpretation core: core_invariant integrity
  by unfold_locales (rule integrity_core)

section \<open>Statements on the core tables\<close>

lemma integrity_projects_upd:
  assumes "\<And>p. p_id (f p) = p_id p" "\<And>p. p_owner (f p) = p_owner p"
  shows "integrity (d\<lparr>projects := upd_where q f (projects d)\<rparr>) = integrity d"
proof -
  let ?d = "d\<lparr>projects := upd_where q f (projects d)\<rparr>"
  have ids: "p_id ` set (upd_where q f (projects d)) = p_id ` set (projects d)"
    "map p_id (upd_where q f (projects d)) = map p_id (projects d)"
    using map_upd_where [of p_id f q "projects d"] assms(1) by (metis set_map)+
  have "(\<forall>p\<in>set (upd_where q f xs). R (p_id p) (p_owner p)) =
      (\<forall>p\<in>set xs. R (p_id p) (p_owner p))" for R xs
    by (induction xs) (simp_all add: upd_where_def assms)
  note all = this [where xs = "projects d"]
  have "valid_project ?d p \<longleftrightarrow> (\<lambda>i w. w \<in> u_id ` set (users d) \<and> (case member_of d i w of
      None \<Rightarrow> False | Some m \<Rightarrow> m_role m = ''owner'')) (p_id p) (p_owner p)" for p
    by (simp add: valid_project_def owner_member_def member_of_def)
  moreover have "valid_project d p \<longleftrightarrow> (\<lambda>i w. w \<in> u_id ` set (users d) \<and> (case member_of d i w of
      None \<Rightarrow> False | Some m \<Rightarrow> m_role m = ''owner'')) (p_id p) (p_owner p)" for p
    by (simp add: valid_project_def owner_member_def)
  moreover have "owner_phone_free ?d i = owner_phone_free d i" for i
    unfolding owner_phone_free_def
    using all [of "\<lambda>j w. j = i_project i \<longrightarrow> (\<forall>x\<in>set (users d). u_id x = w \<longrightarrow> u_phone x \<noteq> Some (i_phone i))"]
    by simp
  ultimately show ?thesis
    using all [of "\<lambda>i w. w \<in> u_id ` set (users d) \<and> (case member_of d i w of
      None \<Rightarrow> False | Some m \<Rightarrow> m_role m = ''owner'')"]
    by (simp add: integrity_def valid_invite_def valid_member_def ids)
qed

lemma integrity_upd_archive: "integrity (snd (upd_archive pid t d)) = integrity d"
  by (simp add: upd_archive_def integrity_projects_upd)

lemma sql_upd_project:
  "upd_project X pid nm addr st b cur start t d = (r, d') \<Longrightarrow> r \<noteq> Row p \<Longrightarrow> (\<forall>p. r \<noteq> Row p) \<Longrightarrow> d' = d"
  by (cases "live_project d pid") (auto simp: upd_project_def Let_def split: option.splits if_splits)

lemma integrity_upd_project:
  "upd_project X pid nm addr st b cur start t d = (Row p, d') \<Longrightarrow> integrity d' = integrity d"
  by (erule upd_project_effect) (simp add: integrity_projects_upd)

lemma member_of_append:
  "member_of (d\<lparr>members := members d @ [m]\<rparr>) p u = (case member_of d p u of
     None \<Rightarrow> if m_project m = p \<and> m_user m = u then Some m else None | Some x \<Rightarrow> Some x)"
  by (simp add: member_of_def find_append split: option.split)

lemma integrity_add_member:
  assumes "integrity d" "valid_member d m" "member_of d (m_project m) (m_user m) = None"
  shows "integrity (d\<lparr>members := members d @ [m]\<rparr>)"
proof -
  let ?d = "d\<lparr>members := members d @ [m]\<rparr>"
  have "owner_member d p \<Longrightarrow> owner_member ?d p" for p
    by (simp add: owner_member_def member_of_append split: option.splits)
  then have "valid_project d p \<Longrightarrow> valid_project ?d p" for p
    by (simp add: valid_project_def)
  moreover have "valid_invite ?d i = valid_invite d i" "valid_member ?d n = valid_member d n" for i n
    by (simp_all add: valid_invite_def owner_phone_free_def valid_member_def)
  moreover have "distinct (map member_key (members d @ [m]))"
    using assms(1,3) by (simp add: integrity_def member_of_key) (simp add: member_key_def)
  ultimately show ?thesis using assms(1,2) by (auto simp: integrity_def)
qed

lemma user_by_id_Some: "user_by_id d u = Some x \<Longrightarrow> x \<in> set (users d) \<and> u_id x = u"
  by (auto simp: user_by_id_def find_Some_iff)

lemma user_by_id_None: "user_by_id d u = None \<longleftrightarrow> u \<notin> u_id ` set (users d)"
  by (auto simp: user_by_id_def find_None_iff)

lemma integrity_ins_member:
  assumes "ins_member pid u role t d = (r, d')" "integrity d"
  shows "integrity d'"
  using assms integrity_add_member
  by (auto simp: ins_member_def valid_member_def user_by_id_None split: if_splits)

end
