(* ===== verification/Samples.thy ===== *)
theory Samples
  imports Http
begin

text \<open>
  A concrete configuration, environment and world, on which the theorems with hypotheses are
  instantiated: one account (registered at time 0) and an idle process. The external functions
  have concrete instances: the digest and the token are the text itself, and the numeric
  conversion keeps a finite number.
\<close>

definition s_obank :: obank_config where
  "s_obank = \<lparr>ob_enabled = False, ob_sid = [], ob_password = [], ob_api_url = [], ob_api_version = 4,
     ob_test = False, ob_test_phone = [], ob_test_price = 0, ob_result_url = [], ob_return_url = []\<rparr>"

definition s_app :: app_state where
  "s_app = \<lparr>st_db = True, st_file_store = Some (S3Store ''files'' ''ledger''), st_journal = True, st_jwt_secret = ''key'',
     st_token_ttl = 900 * second, st_upload_dir = ''up'', st_max_upload = 1000, st_production = False,
     st_production_like = False, st_development = True, st_proxies = [], st_dev_sms = True,
     st_review_only = False, st_review_phone = [], st_review_phones = [], st_review_code = [],
     st_staging_phone = [], st_staging_code = [], st_staging_price = 0, st_price_override = 0,
     st_sms_sender = False, st_telegram_token = [], st_telegram_chat = [], st_telegram_url = [],
     st_whatsapp_token = [], st_whatsapp_phone = [], st_whatsapp_to = [], st_whatsapp_url = [],
     st_gemini_key = [], st_gemini_model = [], st_ai_order = [], st_deepseek_key = [],
     st_deepseek_model = [], st_groq_key = [], st_groq_model = [], st_openrouter_key = [],
     st_openrouter_model = [], st_openrouter_fallback = [], st_push_sender = False,
     st_staging = False, st_obank = s_obank\<rparr>"

text \<open>
  Tokens of the sample: a tag, the two times in six bytes each, and the subject in clear.
\<close>

fun s_enc :: "nat \<Rightarrow> int \<Rightarrow> string" where
  "s_enc 0 n = []"
| "s_enc (Suc k) n = char_of (n mod 256) # s_enc k (n div 256)"

fun s_dec :: "string \<Rightarrow> int" where
  "s_dec [] = 0"
| "s_dec (c # cs) = of_char c + 256 * s_dec cs"

definition s_claims :: "bool \<Rightarrow> string \<Rightarrow> int \<Rightarrow> int \<Rightarrow> claims" where
  "s_claims del u e i = (''sub'', CStr u) # (if del then [(''scope'', CStr ''account:delete'')] else [])
     @ [(''exp'', CNum e), (''iat'', CNum i)]"

definition claim_num :: "claims \<Rightarrow> string \<Rightarrow> int" where
  "claim_num cs k = (case map_of cs k of Some (CNum n) \<Rightarrow> n | _ \<Rightarrow> - 1)"

definition s_sign :: "string \<Rightarrow> claims \<Rightarrow> string option" where
  "s_sign k cs = (case map_of cs ''sub'' of
     Some (CStr u) \<Rightarrow> (let d = (length cs = 4); e = claim_num cs ''exp''; i = claim_num cs ''iat'' in
       if cs = s_claims d u e i \<and> 0 \<le> e \<and> e < 256 ^ 6 \<and> 0 \<le> i \<and> i < 256 ^ 6
       then Some ((if d then CHR ''d'' else CHR ''a'') # s_enc 6 e @ s_enc 6 i @ u) else None)
   | _ \<Rightarrow> None)"

definition s_parse :: "string \<Rightarrow> time \<Rightarrow> string \<Rightarrow> claims option" where
  "s_parse k t tok = (case tok of [] \<Rightarrow> None | c # s \<Rightarrow>
     (let e = s_dec (take 6 s); i = s_dec (take 6 (drop 6 s)) in
      if t < e * second then Some (s_claims (c = CHR ''d'') (drop 12 s) e i) else None))"

definition s_ext :: externals where
  "s_ext = \<lparr>x_sha256 = (\<lambda>s. s), x_jwt_sign = s_sign, x_jwt_parse = s_parse,
     x_numeric = (\<lambda>v. case v of Fin q \<Rightarrow> Some q | _ \<Rightarrow> None)\<rparr>"

lemma s_enc_length [simp]: "length (s_enc k n) = k"
  by (induction k arbitrary: n) simp_all

lemma s_dec_enc: "0 \<le> n \<Longrightarrow> n < 256 ^ k \<Longrightarrow> s_dec (s_enc k n) = n"
proof (induction k arbitrary: n)
  case (Suc k)
  then have "0 \<le> n div 256" "n div 256 < 256 ^ k" by (simp_all add: div_less_iff_less_mult)
  then show ?case using Suc.IH by simp
qed simp

lemma s_parse_sign:
  assumes "s_sign k cs = Some tok"
  shows "s_parse k' t tok = (if t < claim_num cs ''exp'' * second then Some cs else None)"
proof -
  obtain u where u: "map_of cs ''sub'' = Some (CStr u)"
    using assms by (auto simp: s_sign_def split: option.splits claim.splits)
  let ?e = "claim_num cs ''exp''" let ?i = "claim_num cs ''iat''"
  have cs: "cs = s_claims (length cs = 4) u ?e ?i" "0 \<le> ?e" "?e < 256 ^ 6" "0 \<le> ?i" "?i < 256 ^ 6"
    "tok = (if length cs = 4 then CHR ''d'' else CHR ''a'') # s_enc 6 ?e @ s_enc 6 ?i @ u"
    using assms u by (auto simp: s_sign_def Let_def split: if_splits)
  have "s_dec (s_enc 6 ?e) = ?e" "s_dec (s_enc 6 ?i) = ?i"
    by (rule s_dec_enc; use cs in simp)+
  then have "s_parse k' t tok = (if t < ?e * second then Some (s_claims (length cs = 4) u ?e ?i) else None)"
    using cs(2,4,6) by (auto simp: s_parse_def Let_def)
  then show ?thesis using cs(1) by simp
qed

definition s_phone :: string where "s_phone = ''+996700111222''"

definition s_account :: "uuid \<Rightarrow> string \<Rightarrow> user_row" where
  "s_account i ph = \<lparr>u_id = i, u_phone = Some ph, u_name = None, u_created = 0, u_updated = 0\<rparr>"

definition s_db :: db where
  "s_db = empty_db\<lparr>users := [s_account ''u1'' s_phone]\<rparr>"

definition s_world :: world where
  "s_world = \<lparr>now = day, db = s_db, txn = None, faults = [], extern = [],
     uuids = [''a1'', ''a2'', ''a3'', ''a4'', ''a5'', ''a6''], entropy = [], sms_log = [],
     journal = [], hub = \<lparr>hub_next = 0, hub_subs = []\<rparr>, push_jobs = [], headers = [],
     prune_running = False, last_prune = None, objects = Map.empty, tombs = []\<rparr>"

definition s_req :: "string \<Rightarrow> string \<Rightarrow> json \<Rightarrow> request" where
  "s_req m path body = \<lparr>rq_method = m, rq_path = path, rq_query = [], rq_headers = [],
     rq_remote = ''192.0.2.1:4000'', rq_body = Some body, rq_trailing = False, rq_user = ''u1''\<rparr>"

text \<open>
  The same process with a project \<open>p1\<close> of \<open>u1\<close> on the standard plan, its worker \<open>u3\<close>, an open
  invitation for the phone of \<open>u2\<close>, and a task, a cost item and a report.
\<close>

definition s_phone2 :: string where "s_phone2 = ''+996700333444''"
definition s_phone3 :: string where "s_phone3 = ''+996700555666''"

definition s_team_db :: db where
  "s_team_db = empty_db\<lparr>users := [s_account ''u1'' s_phone, s_account ''u2'' s_phone2, s_account ''u3'' s_phone3],
     projects := [\<lparr>p_id = ''p1'', p_owner = ''u1'', p_name = ''House'', p_address = None, p_budget = 0,
       p_currency = ''KGS'', p_status = ''active'', p_start = ''2025-01-01'', p_created = 0,
       p_updated = 0, p_deleted = None\<rparr>],
     members := [\<lparr>m_project = ''p1'', m_user = ''u1'', m_role = ''owner'', m_created = 0\<rparr>,
       \<lparr>m_project = ''p1'', m_user = ''u3'', m_role = ''worker'', m_created = 0\<rparr>],
     invites := [\<lparr>i_id = ''i1'', i_project = ''p1'', i_by = Some ''u1'', i_phone = s_phone2,
       i_role = ''worker'', i_hash = ''tok'', i_expires = 7 * day, i_accepted = None,
       i_revoked = None, i_created = 0\<rparr>],
     subscriptions := [\<lparr>s_user = ''u1'', s_plan = ''standard'', s_status = ''active'',
       s_period = ''month'', s_started = 0, s_trial_ends = 0, s_period_end = Some (30 * day),
       s_updated = 0\<rparr>],
     tasks := [\<lparr>t_id = ''t1'', t_project = ''p1'', t_by = Some ''u1'', t_assigned = None,
       t_title = ''Dig'', t_description = None, t_status = ''open'', t_due = None, t_created = 0,
       t_updated = 0, t_deleted = None\<rparr>],
     costs := [\<lparr>k_id = ''k1'', k_project = ''p1'', k_by = Some ''u1'', k_title = ''Sand'',
       k_description = None, k_category = ''material'', k_amount = 100, k_currency = ''KGS'',
       k_vendor = None, k_receipt = None, k_spent = ''2025-01-02'', k_created = 0, k_updated = 0,
       k_deleted = None\<rparr>],
     reports := [\<lparr>d_id = ''d1'', d_project = ''p1'', d_by = Some ''u1'', d_date = ''2025-01-02'',
       d_summary = ''Dug'', d_workers = 2, d_issues = None, d_created = 0, d_updated = 0,
       d_deleted = None\<rparr>]\<rparr>"

definition s_team :: world where
  "s_team = s_world\<lparr>db := s_team_db, entropy := [replicate 32 7]\<rparr>"

definition s_as :: "uuid \<Rightarrow> request \<Rightarrow> request" where
  "s_as u r = r\<lparr>rq_user := u\<rparr>"

definition s_query :: "(string \<times> string) list \<Rightarrow> request \<Rightarrow> request" where
  "s_query q r = r\<lparr>rq_query := q\<rparr>"

lemmas sample_defs = s_obank_def s_app_def s_ext_def s_phone_def s_account_def s_db_def s_world_def
  s_req_def s_phone2_def s_phone3_def s_team_db_def s_team_def s_as_def s_query_def

end
