(* ===== verification/Project_Facts.thy ===== *)
theory Project_Facts
  imports Integrity Samples
begin

text \<open>
  What the project handlers guarantee: creation makes the caller the owner within the plan limit,
  a failed request changes nothing, ordinary mutations of an archived project are refused,
  restoring consumes a slot of the owner's plan, and the integrity of the identity tables is
  preserved.
\<close>

section \<open>Creation\<close>

definition project_created :: "time \<Rightarrow> uuid \<Rightarrow> db \<Rightarrow> project_row \<Rightarrow> db \<Rightarrow> bool" where
  "project_created t u d p d' \<longleftrightarrow> (\<exists>s d1 d2 n as. sub_ensure t u d = Some (s, d1) \<and> sub_usable s
     \<and> int (active_projects d u) < pl_max_projects (ss_plan s)
     \<and> p_owner p = u \<and> p_status p = ''active'' \<and> p_deleted p = None \<and> p_id p \<notin> p_id ` set (projects d)
     \<and> user_by_id d u \<noteq> None
     \<and> ins_member (p_id p) u ''owner'' t (d1\<lparr>projects := projects d1 @ [p]\<rparr>) = (Row n, d2)
     \<and> d' = d2\<lparr>audits := as\<rparr>)"

lemma ins_project_Row:
  assumes "ins_project X u nm a b c s pid t d = (Row p, d')"
  shows "d' = d\<lparr>projects := projects d @ [p]\<rparr> \<and> p_id p = pid \<and> p_owner p = u \<and> p_status p = ''active''
    \<and> p_deleted p = None \<and> pid \<notin> p_id ` set (projects d) \<and> user_by_id d u \<noteq> None"
  using assms by (auto simp: ins_project_def Let_def split: option.splits if_splits)

lemma ins_member_Row: "ins_member p u r t d = (x, d') \<Longrightarrow> x \<noteq> SqlErr \<Longrightarrow> \<exists>n. x = Row n"
  by (auto simp: ins_member_def split: if_splits)

lemma project_createdI:
  assumes "sub_ensure t u d = Some (s, d1)" "sub_usable s"
    "int (active_projects d u) < pl_max_projects (ss_plan s)"
    "ins_project X u nm a b c st pid t d1 = (Row p, d2)"
    "ins_member (p_id p) u ''owner'' t d2 = (r, d3)" "r \<noteq> SqlErr"
  shows "project_created t u d p (d3\<lparr>audits := as\<rparr>)"
proof -
  obtain ss where "d1 = d\<lparr>subscriptions := ss\<rparr>" using sub_ensure_frame [OF assms(1)] by blast
  moreover obtain n where "r = Row n" using ins_member_Row assms(5,6) by blast
  moreover note ins_project_Row [OF assms(4)]
  ultimately show ?thesis using assms by (auto simp: project_created_def user_by_id_def)
qed

lemma wp_createProject:
  assumes "txn w = None"
  shows "wp (createProject A X r) (\<lambda>resp w'. txn w' = None \<and> (case resp of
      Error s m \<Rightarrow> db w' = db w
    | Reply s x \<Rightarrow> s = 201 \<and> (\<exists>p. x = ProjectItem (dto_of p ''owner'' []) \<and>
        project_created (now w) (userIDFromContext r) (db w) p (db w')))) w"
  unfolding createProject_def
  by (intro wps; simp add: assms ProjectRoleOwner_def; (rule exI, rule conjI, rule refl)?;
      auto intro: project_createdI)

lemma active_projects_add:
  "active_projects (d\<lparr>projects := projects d @ [p]\<rparr>) u = active_projects d u +
     (if p_owner p = u \<and> p_deleted p = None \<and> p_status p = ''active'' then 1 else 0)"
  by (simp add: active_projects_def)

lemma live_project_append:
  "live_project (d\<lparr>projects := projects d @ [p]\<rparr>) i = (case live_project d i of
     None \<Rightarrow> if p_id p = i \<and> p_deleted p = None then Some p else None | Some x \<Rightarrow> Some x)"
  by (simp add: live_project_def find_append split: option.split)

lemma live_project_fresh: "i \<notin> p_id ` set (projects d) \<Longrightarrow> live_project d i = None"
  by (auto simp: live_project_None)

lemma member_of_fresh:
  "integrity d \<Longrightarrow> i \<notin> p_id ` set (projects d) \<Longrightarrow> member_of d i u = None"
  by (auto simp: integrity_def valid_member_def member_of_def find_None_iff)

lemma ins_member_frame:
  "ins_member i u r t d = (x, d') \<Longrightarrow> \<exists>ms. d' = d\<lparr>members := ms\<rparr>"
proof -
  have "\<exists>ms. d = d\<lparr>members := ms\<rparr>" by (rule exI [of _ "members d"]) simp
  then show "ins_member i u r t d = (x, d') \<Longrightarrow> ?thesis"
    by (auto simp: ins_member_def split: if_splits)
qed

lemma project_created_effect:
  assumes "project_created t u d p d'" "integrity d"
  obtains s d1 where "sub_ensure t u d = Some (s, d1)" "sub_usable s"
    "int (active_projects d' u) \<le> pl_max_projects (ss_plan s)"
    "live_project d (p_id p) = None" "live_project d' (p_id p) = Some p"
    "\<exists>m. member_of d' (p_id p) u = Some m \<and> m_role m = ''owner''"
    "p_owner p = u" "integrity d'"
proof -
  obtain s d1 d2 n as where c: "sub_ensure t u d = Some (s, d1)" "sub_usable s"
    "int (active_projects d u) < pl_max_projects (ss_plan s)"
    "p_owner p = u" "p_status p = ''active''" "p_deleted p = None" "p_id p \<notin> p_id ` set (projects d)"
    "user_by_id d u \<noteq> None"
    "ins_member (p_id p) u ''owner'' t (d1\<lparr>projects := projects d1 @ [p]\<rparr>) = (Row n, d2)"
    "d' = d2\<lparr>audits := as\<rparr>"
    using assms(1) by (auto simp: project_created_def)
  obtain ss where d1: "d1 = d\<lparr>subscriptions := ss\<rparr>" using sub_ensure_frame [OF c(1)] by blast
  let ?m = "\<lparr>m_project = p_id p, m_user = u, m_role = ''owner'', m_created = t\<rparr>"
  have none: "member_of d (p_id p) v = None" for v by (rule member_of_fresh [OF assms(2) c(7)])
  then have d2: "d2 = d\<lparr>subscriptions := ss, projects := projects d @ [p], members := members d @ [?m]\<rparr>"
    using c(9) by (auto simp: d1 ins_member_def member_of_def split: if_splits)
  then have d': "d' = d\<lparr>subscriptions := ss, projects := projects d @ [p], members := members d @ [?m],
      audits := as\<rparr>" using c(10) by simp
  have own: "member_of d' (p_id p) u = Some ?m"
    using none [of u] by (simp add: d' member_of_def find_append)
  have keep: "member_of d' i v = Some m" if "member_of d i v = Some m" for i v m
    using that by (simp add: d' member_of_def find_append)
  have "integrity d'"
    unfolding integrity_def
  proof (intro conjI ballI)
    show "valid_user x" if "x \<in> set (users d')" for x
      using that assms(2) by (simp add: d' integrity_def)
    show "valid_project d' q" if "q \<in> set (projects d')" for q
    proof (cases "q = p")
      case True
      then show ?thesis using own c(4,8) by (auto simp: valid_project_def owner_member_def d' user_by_id_None)
    next
      case False
      then have "valid_project d q" using that assms(2) by (auto simp: d' integrity_def)
      then show ?thesis using keep
        by (auto simp: valid_project_def owner_member_def d' split: option.splits)
    qed
    show "valid_member d' m" if "m \<in> set (members d')" for m
      using that assms(2) c(8) by (auto simp: d' integrity_def valid_member_def user_by_id_None)
    show "valid_invite d' i" if "i \<in> set (invites d')" for i
    proof -
      have "valid_invite d i" using that assms(2) by (auto simp: d' integrity_def)
      then show ?thesis using c(7) by (auto simp: valid_invite_def owner_phone_free_def d')
    qed
    show "distinct (map p_id (projects d'))"
      using assms(2) c(7) by (simp add: d' integrity_def)
    show "distinct (map member_key (members d'))"
      using assms(2) none [of u] by (simp add: d' integrity_def member_of_key) (simp add: member_key_def)
  qed
  moreover have "int (active_projects d' u) \<le> pl_max_projects (ss_plan s)"
    using c(3-6) by (simp add: d' active_projects_def)
  moreover have "live_project d' (p_id p) = Some p"
    using live_project_fresh [OF c(7)] c(6) by (simp add: d' live_project_def find_append)
  ultimately show ?thesis using c own live_project_fresh [OF c(7)] by (intro that) auto
qed

section \<open>Update and restoring\<close>

definition project_updated ::
  "externals \<Rightarrow> time \<Rightarrow> uuid \<Rightarrow> uuid \<Rightarrow> update_project_req \<Rightarrow> db \<Rightarrow> project_row \<Rightarrow> db \<Rightarrow> bool" where
  "project_updated X t u pid req d p d' \<longleftrightarrow> (\<exists>p0 d1 d2 as cur start.
     live_project d pid = Some p0
     \<and> (if trim_space (uq_status req) = ''active'' then lifecycle_allowed d u pid
        else allowed d u pid PermissionManage)
     \<and> (if trim_space (uq_status req) = ''active'' \<and> p_status p0 = ''archived''
        then (\<exists>s. sub_ensure t (p_owner p0) d = Some (s, d1) \<and> sub_usable s
                \<and> int (active_projects d (p_owner p0)) < pl_max_projects (ss_plan s))
        else d1 = d)
     \<and> upd_project X pid (trim_space (uq_name req)) (trim_space (uq_address req))
         (trim_space (uq_status req)) (uq_budget req) cur start t d1 = (Row p, d2)
     \<and> d' = d2\<lparr>audits := as\<rparr>)"

lemma wp_updateProjectTx:
  assumes "txn w = Some (d, False)"
    and E: "\<And>s m w'. db w' = db w \<Longrightarrow> Q (Error s m) w'"
    and S: "\<And>st p0 d1 d2 as p role cov w'.
      upd_project X pid nm addr st b cur start (now w) d1 = (Row p, d2) \<Longrightarrow> st = status \<Longrightarrow>
      live_project d pid = Some p0 \<Longrightarrow>
      (if status = ''active'' \<and> p_status p0 = ''archived''
       then (\<exists>s. sub_ensure (now w) (p_owner p0) d = Some (s, d1) \<and> sub_usable s
                \<and> int (active_projects d (p_owner p0)) < pl_max_projects (ss_plan s))
       else d1 = d) \<Longrightarrow>
      db w' = d2\<lparr>audits := as\<rparr> \<Longrightarrow> Q (Reply 200 (ProjectItem (dto_of p role cov))) w'"
  shows "wp (updateProjectTx A X u pid nm addr status b cur start) Q w"
  unfolding updateProjectTx_def
  apply (intro wps)
  apply (simp_all add: assms(1) row_of_def split: option.splits)
  apply (auto intro!: E)
    apply (rule S, assumption, simp, assumption, force, simp)+
  done

lemma project_updatedI:
  assumes "upd_project X pid (trim_space (uq_name req)) (trim_space (uq_address req))
       (trim_space (uq_status req)) (uq_budget req) cur start t d1 = (Row p, d2)"
    "live_project d pid = Some p0"
    "if trim_space (uq_status req) = ''active'' then lifecycle_allowed d u pid
     else allowed d u pid PermissionManage"
    "if trim_space (uq_status req) = ''active'' \<and> p_status p0 = ''archived''
     then (\<exists>s. sub_ensure t (p_owner p0) d = Some (s, d1) \<and> sub_usable s
             \<and> int (active_projects d (p_owner p0)) < pl_max_projects (ss_plan s))
     else d1 = d"
  shows "project_updated X t u pid req d p (d2\<lparr>audits := as\<rparr>)"
  unfolding project_updated_def using assms
  by (intro exI [of _ p0] exI [of _ d1] exI [of _ d2] exI [of _ as] exI [of _ cur] exI [of _ start]) auto

lemma wp_updateProject:
  assumes "txn w = None"
  shows "wp (updateProject A X pid r) (\<lambda>resp w'. txn w' = None \<and> (case resp of
      Error s m \<Rightarrow> db w' = db w
    | Reply s x \<Rightarrow> s = 200 \<and> (case decode_update_project r of None \<Rightarrow> False
        | Some req \<Rightarrow> \<exists>p role cov. x = ProjectItem (dto_of p role cov) \<and>
            project_updated X (now w) (userIDFromContext r) pid req (db w) p (db w')))) w"
  unfolding updateProject_def
  apply (intro wps wp_updateProjectTx)
  apply (simp_all add: assms)
  apply (rule exI, rule conjI, rule exI, rule exI, rule refl, rule project_updatedI;
      force split: if_splits)+
  done

lemma count_where_upd_one:
  assumes "distinct (map k xs)" "\<And>x. q x \<Longrightarrow> k x = a"
  shows "count_where P (upd_where q f xs) \<le> Suc (count_where P xs)"
proof -
  have none: "upd_where q f ys = ys" if "a \<notin> k ` set ys" for ys
    using that assms(2) by (induction ys) (auto simp: upd_where_def)
  show ?thesis using assms(1)
  proof (induction xs)
    case (Cons x xs)
    show ?case
    proof (cases "q x")
      case True
      then have "upd_where q f (x # xs) = f x # xs"
        using none [of xs] Cons.prems assms(2) [of x] by (auto simp: upd_where_def)
      then show ?thesis by simp
    next
      case False
      then have "upd_where q f (x # xs) = x # upd_where q f xs" by (simp add: upd_where_def)
      then show ?thesis using Cons by simp
    qed
  qed simp
qed

lemma live_projectI:
  assumes "distinct (map p_id (projects d))" "p \<in> set (projects d)" "p_deleted p = None"
  shows "live_project d (p_id p) = Some p"
proof -
  obtain q where q: "live_project d (p_id p) = Some q"
    using assms(2,3) live_project_None [of d "p_id p"] by (cases "live_project d (p_id p)") auto
  then have "q \<in> set (projects d)" "p_id q = p_id p" using live_project_Some by blast+
  then have "q = p" using assms(1,2) by (meson distinct_map inj_onD)
  with q show ?thesis by simp
qed

lemma active_projects_upd_project:
  assumes "upd_project X pid nm a st b c s t d = (Row p, d')" "distinct (map p_id (projects d))"
  shows "active_projects d' u \<le> Suc (active_projects d u)"
  using assms(1)
proof (rule upd_project_effect)
  fix b' s' p0
  assume "d' = d\<lparr>projects := upd_where (\<lambda>x. p_id x = pid \<and> p_deleted x = None)
      (edit_project nm a st b' c s' t) (projects d)\<rparr>"
  then show ?thesis unfolding active_projects_def
    using count_where_upd_one [OF assms(2), of "\<lambda>q. p_id q = pid \<and> p_deleted q = None" pid] by simp
qed

text \<open>The plan that limits an account.\<close>

definition plan_of :: "db \<Rightarrow> uuid \<Rightarrow> subscriptionPlan option" where
  "plan_of d u = Option.bind (subscription_of d u) (\<lambda>s. planByCode (s_plan s))"

definition within_plan :: "db \<Rightarrow> uuid \<Rightarrow> bool" where
  "within_plan d u \<longleftrightarrow> (case plan_of d u of
     None \<Rightarrow> False | Some p \<Rightarrow> int (active_projects d u) \<le> pl_max_projects p)"

lemma plan_of_sub_ensure:
  "sub_ensure t u d = Some (s, d') \<Longrightarrow> plan_of d' u = Some (ss_plan s)"
  by (erule sub_ensure_row) (auto simp: plan_of_def state_of_row_def)

lemma plan_of_same: "subscriptions d = subscriptions d' \<Longrightarrow> plan_of d u = plan_of d' u"
  by (simp add: plan_of_def subscription_of_def)

lemma project_created_plan:
  assumes "project_created t u d p d'" "integrity d" shows "within_plan d' u"
proof -
  obtain s d1 d2 n as where c: "sub_ensure t u d = Some (s, d1)"
    "ins_member (p_id p) u ''owner'' t (d1\<lparr>projects := projects d1 @ [p]\<rparr>) = (Row n, d2)"
    "d' = d2\<lparr>audits := as\<rparr>" "int (active_projects d u) < pl_max_projects (ss_plan s)"
    "p_owner p = u" "p_status p = ''active''" "p_deleted p = None"
    using assms(1) by (auto simp: project_created_def)
  obtain ms where "d2 = d1\<lparr>projects := projects d1 @ [p], members := ms\<rparr>"
    using ins_member_frame [OF c(2)] by auto
  moreover obtain ss where "d1 = d\<lparr>subscriptions := ss\<rparr>" using sub_ensure_frame [OF c(1)] by blast
  ultimately show ?thesis
    using plan_of_sub_ensure [OF c(1)] c(3-) plan_of_same [of d' d1 u]
    by (simp add: within_plan_def active_projects_def)
qed

section \<open>Properties\<close>

text \<open>
  C1. Creating a project: a failed request leaves every table as it was; a successful one answers
  201 with a project that did not exist before, makes the caller its owner with the right to
  manage it, and leaves the caller within the number of active projects of the plan. The
  integrity of the identity tables is preserved either way.
\<close>

theorem createProject_safe:
  assumes "integrity (db w)" "txn w = None"
  shows "case run_state (createProject A X r) w of (resp, w') \<Rightarrow>
     txn w' = None \<and> integrity (db w') \<and> (case resp of
       Error s m \<Rightarrow> db w' = db w
     | Reply s x \<Rightarrow> s = 201 \<and> (\<exists>p. x = ProjectItem (dto_of p ''owner'' [])
         \<and> live_project (db w) (p_id p) = None \<and> live_project (db w') (p_id p) = Some p
         \<and> p_owner p = userIDFromContext r
         \<and> allowed (db w') (userIDFromContext r) (p_id p) PermissionManage
         \<and> within_plan (db w') (userIDFromContext r)))"
proof -
  have "wp (createProject A X r) (\<lambda>resp w'. txn w' = None \<and> integrity (db w') \<and> (case resp of
       Error s m \<Rightarrow> db w' = db w
     | Reply s x \<Rightarrow> s = 201 \<and> (\<exists>p. x = ProjectItem (dto_of p ''owner'' [])
         \<and> live_project (db w) (p_id p) = None \<and> live_project (db w') (p_id p) = Some p
         \<and> p_owner p = userIDFromContext r
         \<and> allowed (db w') (userIDFromContext r) (p_id p) PermissionManage
         \<and> within_plan (db w') (userIDFromContext r)))) w"
  proof (rule wp_mono [OF wp_createProject [OF assms(2)]], elim conjE)
    fix resp w'
    assume t: "txn w' = None" and c: "case resp of Error s m \<Rightarrow> db w' = db w
      | Reply s x \<Rightarrow> s = 201 \<and> (\<exists>p. x = ProjectItem (dto_of p ''owner'' []) \<and>
          project_created (now w) (userIDFromContext r) (db w) p (db w'))"
    show "txn w' = None \<and> integrity (db w') \<and> (case resp of
       Error s m \<Rightarrow> db w' = db w
     | Reply s x \<Rightarrow> s = 201 \<and> (\<exists>p. x = ProjectItem (dto_of p ''owner'' [])
         \<and> live_project (db w) (p_id p) = None \<and> live_project (db w') (p_id p) = Some p
         \<and> p_owner p = userIDFromContext r
         \<and> allowed (db w') (userIDFromContext r) (p_id p) PermissionManage
         \<and> within_plan (db w') (userIDFromContext r)))"
    proof (cases resp)
      case (Error s m)
      then show ?thesis using t c assms(1) by simp
    next
      case (Reply s x)
      with c obtain p where p: "s = 201" "x = ProjectItem (dto_of p ''owner'' [])"
        "project_created (now w) (userIDFromContext r) (db w) p (db w')" by auto
      have "p_status p = ''active''" using p(3) by (auto simp: project_created_def)
      then have "live_project (db w) (p_id p) = None \<and> live_project (db w') (p_id p) = Some p
          \<and> p_owner p = userIDFromContext r \<and> integrity (db w')
          \<and> allowed (db w') (userIDFromContext r) (p_id p) PermissionManage"
        by (rule_tac project_created_effect [OF p(3) assms(1)])
          (auto simp: allowed_def ProjectRoleOwner_def)
      with p project_created_plan [OF p(3) assms(1)] t Reply show ?thesis by auto
    qed
  qed
  then show ?thesis by (simp add: wp_def)
qed

lemma s_world_integrity: "integrity (db s_world)" "txn s_world = None"
  by code_simp (simp add: s_world_def)

lemma s_team_integrity: "integrity (db s_team)" "txn s_team = None"
  by code_simp (simp add: s_team_def s_world_def)

definition s_create :: request where
  "s_create = s_req ''POST'' ''/api/v1/projects'' (JObj [(''name'', JStr ''House''), (''currency'', JStr ''KGS''),
     (''budget'', JInt 5000), (''start_date'', JStr ''2025-03-01'')])"

theorem createProject_safe_witness:
  "case run_state (createProject s_app s_ext s_create) s_world of (resp, w') \<Rightarrow>
     is_reply resp \<and> integrity (db w') \<and> within_plan (db w') ''u1''"
proof -
  have "is_reply (fst (run_state (createProject s_app s_ext s_create) s_world))" by code_simp
  moreover have "userIDFromContext s_create = ''u1''" by code_simp
  ultimately show ?thesis
    using createProject_safe [OF s_world_integrity, where A = s_app and X = s_ext and r = s_create]
    by (auto split: prod.splits resp.splits)
qed

text \<open>
  C2. Updating a project: a failed request changes nothing; a successful one comes from a member
  who may manage the project; when the project was not active, the request is the one that
  restores it, and after restoring an archived project its owner is within the plan.
\<close>

theorem updateProject_safe:
  assumes "integrity (db w)" "txn w = None"
  shows "case run_state (updateProject A X pid r) w of (resp, w') \<Rightarrow>
     txn w' = None \<and> integrity (db w') \<and> (case resp of
       Error s m \<Rightarrow> db w' = db w
     | Reply s x \<Rightarrow> (case (decode_update_project r, live_project (db w) pid) of
         (Some req, Some p0) \<Rightarrow> lifecycle_allowed (db w) (userIDFromContext r) pid
           \<and> (if p_status p0 = ''active'' then True else trim_space (uq_status req) = ''active'')
           \<and> (if p_status p0 = ''archived'' then within_plan (db w') (p_owner p0) else True)
       | _ \<Rightarrow> False))"
proof -
  have step: "integrity d' \<and> (case live_project d pid of None \<Rightarrow> False | Some p0 \<Rightarrow>
      lifecycle_allowed d u pid
      \<and> (if p_status p0 = ''active'' then True else trim_space (uq_status req) = ''active'')
      \<and> (if p_status p0 = ''archived'' then within_plan d' (p_owner p0) else True))"
    if upd: "project_updated X t u pid req d p d'" and i: "integrity d" for t u req d p d'
  proof -
    obtain p0 d1 d2 as cur start where c: "live_project d pid = Some p0"
      "if trim_space (uq_status req) = ''active'' then lifecycle_allowed d u pid
       else allowed d u pid PermissionManage"
      "if trim_space (uq_status req) = ''active'' \<and> p_status p0 = ''archived''
       then (\<exists>s. sub_ensure t (p_owner p0) d = Some (s, d1) \<and> sub_usable s
                \<and> int (active_projects d (p_owner p0)) < pl_max_projects (ss_plan s))
       else d1 = d"
      "upd_project X pid (trim_space (uq_name req)) (trim_space (uq_address req))
         (trim_space (uq_status req)) (uq_budget req) cur start t d1 = (Row p, d2)"
      "d' = d2\<lparr>audits := as\<rparr>"
      using upd unfolding project_updated_def by blast
    have i1: "integrity d1" using c(3) i core.sub_ensure by (auto split: if_splits)
    have "integrity d'" using integrity_upd_project [OF c(4)] i1 c(5) by simp
    moreover have "lifecycle_allowed d u pid" using c(2) allowed_lifecycle by (auto split: if_splits)
    moreover have "trim_space (uq_status req) = ''active''" if "p_status p0 \<noteq> ''active''"
      using c(1,2) that by (auto simp: allowed_def split: if_splits option.splits)
    moreover have "within_plan d' (p_owner p0)" if ar: "p_status p0 = ''archived''"
    proof -
      have "trim_space (uq_status req) = ''active''" using calculation(3) ar by simp
      then obtain s where s: "sub_ensure t (p_owner p0) d = Some (s, d1)"
        "int (active_projects d (p_owner p0)) < pl_max_projects (ss_plan s)"
        using c(3) ar by auto
      have "active_projects d1 (p_owner p0) = active_projects d (p_owner p0)"
        using sub_ensure_frame [OF s(1)] by (auto simp: active_projects_def)
      moreover have "active_projects d2 (p_owner p0) \<le> Suc (active_projects d1 (p_owner p0))"
        using i1 active_projects_upd_project [OF c(4)] by (simp add: integrity_def)
      moreover have "subscriptions d2 = subscriptions d1"
        by (rule upd_project_effect [OF c(4)]) simp
      then have "plan_of d' (p_owner p0) = Some (ss_plan s)"
        using plan_of_sub_ensure [OF s(1)] plan_of_same [of d' d1] c(5) by simp
      ultimately show ?thesis using s(2) c(5) by (simp add: within_plan_def active_projects_def)
    qed
    ultimately show ?thesis using c(1) by simp
  qed
  from wp_updateProject [OF assms(2), of A X pid r] step assms(1) show ?thesis
    unfolding wp_def by (fastforce split: prod.splits resp.splits option.splits)
qed

definition s_archive :: request where
  "s_archive = s_req ''PATCH'' ''/api/v1/projects/p1'' (JObj [(''name'', JStr ''House''),
     (''status'', JStr ''archived''), (''start_date'', JStr ''2025-03-01'')])"

theorem updateProject_safe_witness:
  "case run_state (updateProject s_app s_ext ''p1'' s_archive) s_team of (resp, w') \<Rightarrow>
     is_reply resp \<and> integrity (db w') \<and> lifecycle_allowed (db s_team) ''u1'' ''p1''"
proof -
  have "is_reply (fst (run_state (updateProject s_app s_ext ''p1'' s_archive) s_team))" by code_simp
  moreover have "userIDFromContext s_archive = ''u1''" by code_simp
  ultimately show ?thesis
    using updateProject_safe [OF s_team_integrity, where A = s_app and X = s_ext and pid = "''p1''" and r = s_archive]
    by (auto split: prod.splits resp.splits option.splits)
qed

section \<open>Archiving and listing\<close>

lemma archive_frame:
  "upd_archive pid t d = (r, d') \<Longrightarrow> members d' = members d"
  by (auto simp: upd_archive_def)

lemma live_project_upd_archive:
  "live_project (snd (upd_archive pid t d)) q = map_option
     (\<lambda>p. if archivable pid p then p\<lparr>p_status := ''archived'', p_updated := t\<rparr> else p) (live_project d q)"
  by (simp add: live_project_def upd_archive_def find_upd_where)

lemma member_of_upd_archive: "member_of (snd (upd_archive pid t d)) q u = member_of d q u"
  by (simp add: member_of_def upd_archive_def)

lemma allowed_upd_archive:
  "allowed (snd (upd_archive pid t d)) v q perm \<longleftrightarrow>
     allowed d v q perm \<and> (q = pid \<longrightarrow> perm = PermissionRead)"
proof -
  have "p_status p = ''archived''" if "live_project d pid = Some p" "\<not> archivable pid p" for p
    using that live_project_Some [OF that(1)] by (simp add: archivable_def)
  then show ?thesis
    by (auto simp: allowed_def live_project_upd_archive member_of_upd_archive archivable_def
        dest!: live_project_Some split: option.splits)
qed

lemma allowed_audits [simp]: "allowed (d\<lparr>audits := as\<rparr>) v q perm = allowed d v q perm"
  by (simp add: allowed_def live_project_def member_of_def)

text \<open>
  C3. Archiving: a failed request changes nothing; a successful one comes from a member who may
  manage the project, and afterwards nobody may contribute to it or manage it, while the right to
  read it and every right on other projects are as before.
\<close>

theorem deleteProject_archives:
  "case run_state (deleteProject A pid r) w of (resp, w') \<Rightarrow> (case resp of
     Error s m \<Rightarrow> db w' = db w
   | Reply s x \<Rightarrow> allowed (db w) (userIDFromContext r) pid PermissionManage
       \<and> (\<forall>v q perm. allowed (db w') v q perm \<longleftrightarrow>
            allowed (db w) v q perm \<and> \<not> (q = pid \<and> perm \<noteq> PermissionRead)))"
proof -
  have none: "upd_archive pid t d = (Row 0, d') \<Longrightarrow> d' = d" for t d d'
    by (auto simp: upd_archive_def upd_where_none)
  have row: "upd_archive pid t d = (Row n, d') \<Longrightarrow> d' = snd (upd_archive pid t d)" for t d n d'
    by simp
  have some: "upd_archive pid t d = (x, d') \<Longrightarrow> \<exists>n. x = Row n" for t d x d'
    by (auto simp: upd_archive_def)
  have "wp (deleteProject A pid r) (\<lambda>resp w'. case resp of
     Error s m \<Rightarrow> db w' = db w
   | Reply s x \<Rightarrow> allowed (db w) (userIDFromContext r) pid PermissionManage
       \<and> (\<forall>v q perm. allowed (db w') v q perm \<longleftrightarrow>
            allowed (db w) v q perm \<and> \<not> (q = pid \<and> perm \<noteq> PermissionRead))) w"
    unfolding deleteProject_def
    by (intro wps) (auto simp: allowed_upd_archive dest: none row some)
  then show ?thesis by (simp add: wp_def)
qed

lemma sel_projects_item:
  assumes "item \<in> set (sel_projects u archived d)"
  obtains p m where "p \<in> set (projects d)" "m \<in> set (members d)" "m_project m = p_id p" "m_user m = u"
    "p_deleted p = None" "archived \<or> p_status p = ''active''" "item = dto_of p (m_role m) (cover_of d (p_id p))"
  using assms by (auto simp: sel_projects_def)

lemma sorted_concat_const:
  assumes "sorted (map k xs)" "\<And>x y. y \<in> set (f x) \<Longrightarrow> g y = k x"
  shows "sorted (map (g :: 'b \<Rightarrow> int) (concat (map f xs)))"
proof -
  have ys: "sorted (map g ys)" if "\<And>y. y \<in> set ys \<Longrightarrow> g y = c" for ys and c :: int
    using that by (induction ys) auto
  show ?thesis using assms(1)
    by (induction xs) (auto simp: sorted_append assms(2) intro!: ys)
qed

text \<open>
  C4. The list of projects: it never fails without a failing database call, shows exactly the
  projects that are not deleted and of which the caller is a member (archived ones only on
  request), newest first, and changes nothing.
\<close>

theorem listProjects_scope:
  "case run_state (listProjects r) w of (resp, w') \<Rightarrow> db w' = db w \<and> (case resp of
     Error s m \<Rightarrow> faults w \<noteq> []
   | Reply s x \<Rightarrow> s = 200 \<and> (case x of
       ProjectList items \<Rightarrow>
         (\<forall>pid. pid \<in> pd_id ` set items \<longleftrightarrow> (\<exists>p m. p \<in> set (projects (db w)) \<and> m \<in> set (members (db w))
             \<and> p_id p = pid \<and> m_project m = pid \<and> m_user m = userIDFromContext r \<and> p_deleted p = None
             \<and> (parse_bool (get_first (rq_query r) ''include_archived'') \<or> p_status p = ''active'')))
         \<and> sorted (map (\<lambda>i. - pd_created i) items)
     | _ \<Rightarrow> False))"
proof -
  have sorted: "sorted (map (\<lambda>i. - pd_created i) (sel_projects u a d))" for u a d
    unfolding sel_projects_def
    by (rule sorted_concat_const [where k = "\<lambda>p. - p_created p"]) (auto simp: dto_of_def)
  have "wp (listProjects r) (\<lambda>resp w'. db w' = db w \<and> (case resp of Error s m \<Rightarrow> True
    | Reply s x \<Rightarrow> s = 200 \<and> (case x of
       ProjectList items \<Rightarrow> items = sel_projects (userIDFromContext r)
           (parse_bool (get_first (rq_query r) ''include_archived'')) (db w)
     | _ \<Rightarrow> False))) w"
    unfolding listProjects_def by (intro wps) auto
  moreover have "is_reply (fst (run_state (listProjects r) w))" if "faults w = []"
    using that by (simp add: listProjects_def query_Pool_free)
  moreover have "pid \<in> pd_id ` set (sel_projects u a d) \<longleftrightarrow> (\<exists>p m. p \<in> set (projects d) \<and> m \<in> set (members d)
      \<and> p_id p = pid \<and> m_project m = pid \<and> m_user m = u \<and> p_deleted p = None \<and> (a \<or> p_status p = ''active''))"
    for pid u a d
    by (force simp: sel_projects_def dto_of_def image_iff)
  ultimately show ?thesis using sorted
    by (auto simp: wp_def split: prod.splits resp.splits project_payload.splits)
qed

end
