(* ===== verification/Tokens.thy ===== *)
theory Tokens
  imports Samples
begin

text \<open>
  Opaque random tokens (\<open>newRefreshToken\<close> of \<open>sessions.go\<close>, \<open>newProjectInviteToken\<close> of
  \<open>project_team.go\<close>) and the two kinds of JSON web tokens (\<open>auth.go\<close>,
  \<open>account_deletion_auth.go\<close>). The alphabet of the random tokens decodes uniquely, so two
  different byte strings never give the same token; an access token is never taken for a deletion
  token and the other way round.
\<close>

section \<open>Random tokens\<close>

definition b64_alphabet :: string where
  "b64_alphabet = ''ABCDEFGHIJKLMNOPQRSTUVWXYZabcdefghijklmnopqrstuvwxyz0123456789-_''"

definition b64_char :: "nat \<Rightarrow> char" where
  "b64_char n = b64_alphabet ! n"

text \<open>\<open>base64.RawURLEncoding.EncodeToString\<close>\<close>

fun b64url :: "nat list \<Rightarrow> string" where
  "b64url [] = []"
| "b64url [a] = [b64_char (a div 4), b64_char (a mod 4 * 16)]"
| "b64url [a, b] = [b64_char (a div 4), b64_char (a mod 4 * 16 + b div 16), b64_char (b mod 16 * 4)]"
| "b64url (a # b # c # rest) =
     [b64_char (a div 4), b64_char (a mod 4 * 16 + b div 16), b64_char (b mod 16 * 4 + c div 64),
      b64_char (c mod 64)] @ b64url rest"

definition random_token :: "(world, string option) state" where
  "random_token = do {
     bs \<leftarrow> rand_read 32;
     ret (map_option b64url bs)
   }"

definition b64_value :: "char \<Rightarrow> nat" where
  "b64_value c = length (takeWhile (\<lambda>x. x \<noteq> c) b64_alphabet)"

fun unb64 :: "string \<Rightarrow> nat list" where
  "unb64 (p # q # r # s # rest) =
     [b64_value p * 4 + b64_value q div 16, b64_value q mod 16 * 16 + b64_value r div 4,
      b64_value r mod 4 * 64 + b64_value s] @ unb64 rest"
| "unb64 [p, q, r] = [b64_value p * 4 + b64_value q div 16, b64_value q mod 16 * 16 + b64_value r div 4]"
| "unb64 [p, q] = [b64_value p * 4 + b64_value q div 16]"
| "unb64 _ = []"

lemma b64_value_char: "n < 64 \<Longrightarrow> b64_value (b64_char n) = n"
proof -
  have "\<forall>n\<in>set [0..<64]. b64_value (b64_char n) = n" by code_simp
  then show "n < 64 \<Longrightarrow> b64_value (b64_char n) = n" by simp
qed

lemma b64_bounds:
  fixes a :: nat
  assumes "a < 256"
  shows "a div 4 < 64" "a div 16 < 16" "a div 64 < 4" "a mod 4 * 16 < 64" "a mod 16 * 4 < 64" "a mod 64 < 64"
proof -
  show "a div 4 < 64" "a div 16 < 16" "a div 64 < 4"
    by (rule less_mult_imp_div_less, use assms in simp)+
  show "a mod 4 * 16 < 64" "a mod 16 * 4 < 64" "a mod 64 < 64"
    using mod_less_divisor [of 4 a] mod_less_divisor [of 16 a] by simp_all
qed

lemma b64_join:
  fixes x y m :: nat
  assumes "y < m"
  shows "(x * m + y) div m = x" "(x * m + y) mod m = y"
  using assms by simp_all

lemma b64_middle:
  fixes a b :: nat
  assumes "a < 256" "b < 256"
  shows "a mod 4 * 16 + b div 16 < 64" "b64_value (b64_char (a mod 4 * 16 + b div 16)) = a mod 4 * 16 + b div 16"
    "a mod 16 * 4 + b div 64 < 64" "b64_value (b64_char (a mod 16 * 4 + b div 64)) = a mod 16 * 4 + b div 64"
proof -
  show 1: "a mod 4 * 16 + b div 16 < 64"
    using b64_bounds(2) [OF assms(2)] mod_less_divisor [of 4 a] by linarith
  show 2: "a mod 16 * 4 + b div 64 < 64"
    using b64_bounds(3) [OF assms(2)] mod_less_divisor [of 16 a] by linarith
  show "b64_value (b64_char (a mod 4 * 16 + b div 16)) = a mod 4 * 16 + b div 16"
    "b64_value (b64_char (a mod 16 * 4 + b div 64)) = a mod 16 * 4 + b div 64"
    using 1 2 by (simp_all only: b64_value_char)
qed

lemma b64_back:
  fixes a b c :: nat
  assumes "a < 256" "b < 256" "c < 256"
  shows "a div 4 * 4 + (a mod 4 * 16 + b div 16) div 16 = a"
    "(a mod 4 * 16 + b div 16) mod 16 * 16 + (b mod 16 * 4 + c div 64) div 4 = b"
    "(b mod 16 * 4 + c div 64) mod 4 * 64 + c mod 64 = c"
  by (simp_all only: b64_join [OF b64_bounds(2) [OF assms(2)]] b64_join [OF b64_bounds(3) [OF assms(3)]]
      div_mult_mod_eq)

lemma b64_values:
  fixes a :: nat
  assumes "a < 256"
  shows "b64_value (b64_char (a div 4)) = a div 4" "b64_value (b64_char (a mod 4 * 16)) = a mod 4 * 16"
    "b64_value (b64_char (a mod 16 * 4)) = a mod 16 * 4" "b64_value (b64_char (a mod 64)) = a mod 64"
  by (rule b64_value_char, rule b64_bounds, rule assms)+

lemma unb64_b64url: "\<forall>b\<in>set bs. b < 256 \<Longrightarrow> unb64 (b64url bs) = bs"
proof (induction bs rule: b64url.induct)
  case (2 a)
  then have a: "a < 256" by simp
  show ?case using b64_back(1) [of a 0 0] a
    by (simp only: b64url.simps unb64.simps b64_values [OF a]) simp
next
  case (3 a b)
  then have ab: "a < 256" "b < 256" by simp_all
  show ?case using b64_back(1,2) [OF ab, of 0]
    by (simp only: b64url.simps unb64.simps b64_values [OF ab(1)] b64_values [OF ab(2)]
        b64_middle(2) [OF ab]) simp
next
  case (4 a b c rest)
  then have abc: "a < 256" "b < 256" "c < 256" by simp_all
  show ?case using 4
    by (simp only: b64url.simps unb64.simps append.simps b64_values(1) [OF abc(1)]
        b64_values(4) [OF abc(3)] b64_middle(2) [OF abc(1,2)] b64_middle(4) [OF abc(2,3)]
        b64_back [OF abc]) simp
qed simp

text \<open>
  Random tokens are as unpredictable as their bytes: a token comes only from 32 bytes of the
  random source, has 43 characters, and decodes to these bytes, so two draws give the same token
  only when their bytes agree.
\<close>

lemma random_token_roundtrip:
  "case run_state random_token w of (tok, w') \<Rightarrow> (case (tok, entropy w) of
     (None, _) \<Rightarrow> True
   | (Some t, bs # rest) \<Rightarrow> unb64 t = bs \<and> length bs = 32 \<and> length t = 43 \<and> entropy w' = rest
   | (Some t, []) \<Rightarrow> False)"
proof -
  have len: "length (b64url bs) = 4 * (length bs div 3) + (if length bs mod 3 = 0 then 0 else length bs mod 3 + 1)"
    for bs by (induction bs rule: b64url.induct) simp_all
  show ?thesis
    by (auto simp: random_token_def rand_read_def unb64_b64url len split: list.splits)
qed

section \<open>JSON web tokens\<close>

definition access_claims :: "app_state \<Rightarrow> time \<Rightarrow> uuid \<Rightarrow> claims" where
  "access_claims A t u =
     [(''sub'', CStr u), (''exp'', CNum ((t + st_token_ttl A) div second)), (''iat'', CNum (t div second))]"

definition signAccessToken :: "app_state \<Rightarrow> externals \<Rightarrow> uuid \<Rightarrow> (world, string option) state" where
  "signAccessToken A X u = do {
     t \<leftarrow> read_now;
     ret (x_jwt_sign X (st_jwt_secret A) (access_claims A t u))
   }"

definition parseAccessToken :: "app_state \<Rightarrow> externals \<Rightarrow> time \<Rightarrow> string \<Rightarrow> uuid option" where
  "parseAccessToken A X t raw = (case x_jwt_parse X (st_jwt_secret A) t raw of
     None \<Rightarrow> None
   | Some cs \<Rightarrow>
       if map_of cs ''scope'' \<noteq> None then None
       else (case map_of cs ''sub'' of
           Some (CStr s) \<Rightarrow> if s = [] then None else Some s
         | _ \<Rightarrow> None))"

definition accountDeletionTokenScope :: string where "accountDeletionTokenScope = ''account:delete''"

definition accountDeletionTokenTTL :: time where "accountDeletionTokenTTL = 10 * minute"

definition deletion_claims :: "time \<Rightarrow> uuid \<Rightarrow> claims" where
  "deletion_claims t u = [(''sub'', CStr u), (''scope'', CStr accountDeletionTokenScope),
     (''exp'', CNum ((t + accountDeletionTokenTTL) div second)), (''iat'', CNum (t div second))]"

definition signAccountDeletionToken :: "app_state \<Rightarrow> externals \<Rightarrow> uuid \<Rightarrow> (world, string option) state" where
  "signAccountDeletionToken A X u = do {
     t \<leftarrow> read_now;
     ret (x_jwt_sign X (st_jwt_secret A) (deletion_claims t u))
   }"

definition parseAccountDeletionToken :: "app_state \<Rightarrow> externals \<Rightarrow> time \<Rightarrow> string \<Rightarrow> uuid option" where
  "parseAccountDeletionToken A X t raw = (case x_jwt_parse X (st_jwt_secret A) t raw of
     None \<Rightarrow> None
   | Some cs \<Rightarrow>
       if map_of cs ''scope'' \<noteq> Some (CStr accountDeletionTokenScope) then None
       else (case map_of cs ''sub'' of
           Some (CStr s) \<Rightarrow> if s = [] then None else Some s
         | _ \<Rightarrow> None))"

lemma wp_sign [wps]:
  "Q (x_jwt_sign X (st_jwt_secret A) (access_claims A (now w) u)) w \<Longrightarrow> wp (signAccessToken A X u) Q w"
  "Q (x_jwt_sign X (st_jwt_secret A) (deletion_claims (now w) u)) w \<Longrightarrow> wp (signAccountDeletionToken A X u) Q w"
  unfolding signAccessToken_def signAccountDeletionToken_def by (intro wps; simp)+

text \<open>
  What is relied on of the JWT library: a token it signed verifies under the same key to the
  claims it was signed with, as long as the clock is before \<open>exp\<close>, and not from then on.
\<close>

definition jwt_ok :: "externals \<Rightarrow> bool" where
  "jwt_ok X \<longleftrightarrow> (\<forall>k cs tok t. x_jwt_sign X k cs = Some tok \<longrightarrow> x_jwt_parse X k t tok =
     (if t < claim_num cs ''exp'' * second then Some cs else None))"

lemma jwt_okD:
  "jwt_ok X \<Longrightarrow> x_jwt_sign X k cs = Some tok \<Longrightarrow>
   x_jwt_parse X k t tok = (if t < claim_num cs ''exp'' * second then Some cs else None)"
  by (simp add: jwt_ok_def)

lemma s_ext_jwt_ok: "jwt_ok s_ext"
  by (simp add: jwt_ok_def s_ext_def s_parse_sign)

lemma parse_signed:
  assumes "jwt_ok X" "x_jwt_sign X (st_jwt_secret A) cs = Some tok" "map_of cs ''sub'' = Some (CStr u)"
    "u \<noteq> []" "map_of cs ''exp'' = Some (CNum e)"
  shows "parseAccessToken A X t tok = (if t < e * second \<and> map_of cs ''scope'' = None then Some u else None)"
    "parseAccountDeletionToken A X t tok =
      (if t < e * second \<and> map_of cs ''scope'' = Some (CStr accountDeletionTokenScope) then Some u else None)"
proof -
  have "x_jwt_parse X (st_jwt_secret A) t tok = (if t < e * second then Some cs else None)"
    using jwt_okD [OF assms(1,2)] assms(5) by (simp add: claim_num_def)
  then show "parseAccessToken A X t tok = (if t < e * second \<and> map_of cs ''scope'' = None then Some u else None)"
    "parseAccountDeletionToken A X t tok =
      (if t < e * second \<and> map_of cs ''scope'' = Some (CStr accountDeletionTokenScope) then Some u else None)"
    using assms(3,4) by (simp_all add: parseAccessToken_def parseAccountDeletionToken_def)
qed

text \<open>
  C14. Access and deletion tokens: what \<open>signAccessToken\<close> signed is accepted by
  \<open>parseAccessToken\<close> as its subject until the second of its expiry and never after, and is never a
  deletion token; a token signed for the deletion of an account is accepted only as a deletion
  token, and only for ten minutes.
\<close>

theorem tokens_do_not_mix:
  assumes "jwt_ok X" "u \<noteq> []"
  shows "(case fst (run_state (signAccessToken A X u) w) of None \<Rightarrow> True | Some tok \<Rightarrow>
      parseAccountDeletionToken A X t tok = None
      \<and> parseAccessToken A X t tok =
          (if t < (now w + st_token_ttl A) div second * second then Some u else None))
    \<and> (case fst (run_state (signAccountDeletionToken A X u) w) of None \<Rightarrow> True | Some tok \<Rightarrow>
      parseAccessToken A X t tok = None
      \<and> parseAccountDeletionToken A X t tok =
          (if t < (now w + accountDeletionTokenTTL) div second * second then Some u else None))"
proof -
  let ?a = "access_claims A (now w) u" let ?d = "deletion_claims (now w) u"
  have "fst (run_state (signAccessToken A X u) w) = x_jwt_sign X (st_jwt_secret A) ?a"
    "fst (run_state (signAccountDeletionToken A X u) w) = x_jwt_sign X (st_jwt_secret A) ?d"
    by (simp_all add: signAccessToken_def signAccountDeletionToken_def)
  moreover have "parseAccountDeletionToken A X t tok = None \<and> parseAccessToken A X t tok =
      (if t < (now w + st_token_ttl A) div second * second then Some u else None)"
    if "x_jwt_sign X (st_jwt_secret A) ?a = Some tok" for tok
    using parse_signed [OF assms(1) that _ assms(2)] by (simp add: access_claims_def)
  moreover have "parseAccessToken A X t tok = None \<and> parseAccountDeletionToken A X t tok =
      (if t < (now w + accountDeletionTokenTTL) div second * second then Some u else None)"
    if "x_jwt_sign X (st_jwt_secret A) ?d = Some tok" for tok
    using parse_signed [OF assms(1) that _ assms(2)] by (simp add: deletion_claims_def)
  ultimately show ?thesis by (simp only:) (simp split: option.split)
qed

theorem tokens_do_not_mix_witness:
  "map_option (parseAccessToken s_app s_ext (now s_world)) (fst (run_state (signAccessToken s_app s_ext ''u1'') s_world))
     = Some (Some ''u1'')
   \<and> map_option (parseAccessToken s_app s_ext (now s_world))
       (fst (run_state (signAccountDeletionToken s_app s_ext ''u1'') s_world)) = Some None"
proof -
  have "fst (run_state (signAccessToken s_app s_ext ''u1'') s_world) \<noteq> None"
    "fst (run_state (signAccountDeletionToken s_app s_ext ''u1'') s_world) \<noteq> None"
    "now s_world < (now s_world + st_token_ttl s_app) div second * second" by code_simp+
  then show ?thesis
    using tokens_do_not_mix [OF s_ext_jwt_ok, where u = "''u1''" and A = s_app and w = s_world and t = "now s_world"]
    by auto
qed

end
