(* ===== verification/Sessions.thy ===== *)
theory Sessions
  imports Project_Facts Tokens
begin

text \<open>
  Refresh sessions (\<open>internal/httpapi/sessions.go\<close>): creation within the limit of live sessions,
  rotation of the refresh token, and logout. A session is live while it is neither revoked nor
  expired; \<open>usable_token\<close> is the abstract view a client has of the table.
\<close>

definition refreshTokenTTL :: time where "refreshTokenTTL = 60 * 24 * hour"
definition maxActiveUserSessions :: nat where "maxActiveUserSessions = 10"
definition refreshSessionRetentionDays :: int where "refreshSessionRetentionDays = 30"

definition newRefreshToken :: "(world, string option) state" where
  "newRefreshToken = random_token"

definition hashRefreshToken :: "externals \<Rightarrow> string \<Rightarrow> string" where
  "hashRefreshToken X token = x_sha256 X token"

datatype session_payload = SessionCreated string time
  | SessionRefreshed string string time
  | LoggedOut

section \<open>Requests\<close>

text \<open>The error of \<open>Decode\<close> is ignored: the field keeps the last string seen.\<close>

definition decode_session :: "request \<Rightarrow> string" where
  "decode_session r = (case rq_body r of
     Some (JObj fs) \<Rightarrow> last_or [] (str_values (field_values fs ''device_name''))
   | _ \<Rightarrow> [])"

definition decode_refresh :: "request \<Rightarrow> string option" where
  "decode_refresh r = do { fs \<leftarrow> decode_body r; str_field fs ''refresh_token'' }"

section \<open>Statements\<close>

definition live_session :: "time \<Rightarrow> session_row \<Rightarrow> bool" where
  "live_session t s \<longleftrightarrow> r_revoked s = None \<and> t < r_expires s"

definition session_used :: "session_row \<Rightarrow> time" where
  "session_used s = (case r_last_used s of None \<Rightarrow> r_created s | Some t \<Rightarrow> t)"

definition old_session :: "time \<Rightarrow> session_row \<Rightarrow> bool" where
  "old_session t s \<longleftrightarrow> r_expires s < t - refreshSessionRetentionDays * day
     \<or> (case r_revoked s of None \<Rightarrow> False | Some v \<Rightarrow> v < t - refreshSessionRetentionDays * day)"

definition del_old_sessions :: "time \<Rightarrow> db \<Rightarrow> db" where
  "del_old_sessions t d = d\<lparr>sessions := filter (\<lambda>s. \<not> old_session t s) (sessions d)\<rparr>"

text \<open>\<open>ORDER BY COALESCE(last_used_at, created_at) DESC OFFSET n\<close>\<close>

definition sessions_to_revoke :: "uuid \<Rightarrow> nat \<Rightarrow> time \<Rightarrow> session_row list \<Rightarrow> session_row list" where
  "sessions_to_revoke u n t ss =
     drop n (sort_key (\<lambda>s. - session_used s) (filter (\<lambda>s. r_user s = u \<and> live_session t s) ss))"

definition upd_session_limit :: "uuid \<Rightarrow> nat \<Rightarrow> time \<Rightarrow> db \<Rightarrow> db" where
  "upd_session_limit u n t d =
     d\<lparr>sessions := upd_where (\<lambda>s. r_id s \<in> r_id ` set (sessions_to_revoke u n t (sessions d)))
        (\<lambda>s. s\<lparr>r_revoked := Some t\<rparr>) (sessions d)\<rparr>"

definition new_session :: "uuid \<Rightarrow> string \<Rightarrow> string \<Rightarrow> time \<Rightarrow> uuid \<Rightarrow> time \<Rightarrow> session_row" where
  "new_session u hash device expires i t = \<lparr>r_id = i, r_user = u, r_hash = hash,
     r_device = null_if_empty device, r_expires = expires, r_revoked = None, r_last_used = None,
     r_created = t\<rparr>"

definition ins_session :: "uuid \<Rightarrow> string \<Rightarrow> string \<Rightarrow> time \<Rightarrow> uuid \<Rightarrow> unit sql" where
  "ins_session u hash device expires i t d =
     (if user_by_id d u = None \<or> i \<in> r_id ` set (sessions d) \<or> hash \<in> r_hash ` set (sessions d)
      then (SqlErr, d)
      else (Row (), d\<lparr>sessions := sessions d @ [new_session u hash device expires i t]\<rparr>))"

definition find_session :: "db \<Rightarrow> time \<Rightarrow> string \<Rightarrow> session_row option" where
  "find_session d t hash = find (\<lambda>s. r_hash s = hash \<and> live_session t s) (sessions d)"

definition upd_rotate_session :: "uuid \<Rightarrow> string \<Rightarrow> time \<Rightarrow> unit sql" where
  "upd_rotate_session i hash expires t d =
     (if list_ex (\<lambda>s. r_hash s = hash \<and> r_id s \<noteq> i) (sessions d) then (SqlErr, d)
      else (Row (), d\<lparr>sessions := upd_where (\<lambda>s. r_id s = i)
         (\<lambda>s. s\<lparr>r_hash := hash, r_expires := expires, r_last_used := Some t\<rparr>) (sessions d)\<rparr>))"

definition upd_revoke_session :: "string \<Rightarrow> time \<Rightarrow> db \<Rightarrow> db" where
  "upd_revoke_session hash t d = d\<lparr>sessions := upd_where (\<lambda>s. r_hash s = hash)
     (\<lambda>s. s\<lparr>r_revoked := Some (case r_revoked s of None \<Rightarrow> t | Some v \<Rightarrow> v)\<rparr>) (sessions d)\<rparr>"

section \<open>Handlers\<close>

definition createSessionTx ::
  "externals \<Rightarrow> uuid \<Rightarrow> string \<Rightarrow> string \<Rightarrow> (world, session_payload resp) state" where
  "createSessionTx X u device token = do {
     _ \<leftarrow> exec Tx del_old_sessions;
     e \<leftarrow> exec Tx (upd_session_limit u (maxActiveUserSessions - 1));
     if e = SqlErr then fail 500 ''failed to enforce session limit''
     else do {
       t \<leftarrow> read_now;
       i \<leftarrow> insert_stmt Tx (ins_session u (hashRefreshToken X token) device (t + refreshTokenTTL));
       if i = SqlErr then fail 500 ''failed to save session''
       else do {
         c \<leftarrow> tx_commit;
         if \<not> c then fail 500 ''failed to commit session''
         else reply 201 (SessionCreated token (refreshTokenTTL div second))
       }
     }
   }"

definition CreateSession :: "app_state \<Rightarrow> externals \<Rightarrow> session_payload handler" where
  "CreateSession A X r =
     (if rq_method r \<noteq> ''POST'' then methodNotAllowed
      else if \<not> st_db A then dbNotAvailable
      else let device = trim_space (decode_session r) in
        if 200 < length device then fail 400 ''device_name is too long''
        else do {
          tok \<leftarrow> newRefreshToken;
          (case tok of
             None \<Rightarrow> fail 500 ''failed to create session''
           | Some token \<Rightarrow> do {
               b \<leftarrow> tx_begin;
               if \<not> b then fail 500 ''failed to start session creation''
               else defer_rollback (createSessionTx X (userIDFromContext r) device token)
             })
        })"

definition refreshSessionTx ::
  "app_state \<Rightarrow> externals \<Rightarrow> string \<Rightarrow> (world, session_payload resp) state" where
  "refreshSessionTx A X token = do {
     s \<leftarrow> sel Tx (\<lambda>t d. row_of (find_session d t (hashRefreshToken X token)));
     (case s of
        NoRows \<Rightarrow> fail 401 ''invalid or expired refresh token''
      | SqlErr \<Rightarrow> fail 401 ''invalid or expired refresh token''
      | Row s \<Rightarrow> do {
          tok \<leftarrow> newRefreshToken;
          (case tok of
             None \<Rightarrow> fail 500 ''failed to rotate session''
           | Some new \<Rightarrow> do {
               t \<leftarrow> read_now;
               e \<leftarrow> stmt Tx (upd_rotate_session (r_id s) (hashRefreshToken X new) (t + refreshTokenTTL));
               if e = SqlErr then fail 500 ''failed to rotate session''
               else do {
                 acc \<leftarrow> signAccessToken A X (r_user s);
                 (case acc of
                    None \<Rightarrow> fail 500 ''failed to sign access token''
                  | Some a \<Rightarrow> do {
                      c \<leftarrow> tx_commit;
                      if \<not> c then fail 500 ''failed to commit session refresh''
                      else reply 200 (SessionRefreshed a new (st_token_ttl A div second))
                    })
               }
             })
        })
   }"

definition RefreshSession :: "app_state \<Rightarrow> externals \<Rightarrow> session_payload handler" where
  "RefreshSession A X r =
     (if rq_method r \<noteq> ''POST'' then methodNotAllowed
      else if \<not> st_db A then dbNotAvailable
      else (case decode_refresh r of
        None \<Rightarrow> fail 400 ''invalid JSON body''
      | Some raw \<Rightarrow>
          let token = trim_space raw in
          if token = [] then fail 400 ''refresh_token is required''
          else do {
            b \<leftarrow> tx_begin;
            if \<not> b then fail 500 ''failed to start session refresh''
            else defer_rollback (refreshSessionTx A X token)
          }))"

definition LogoutSession :: "app_state \<Rightarrow> externals \<Rightarrow> session_payload handler" where
  "LogoutSession A X r =
     (if rq_method r \<noteq> ''POST'' then methodNotAllowed
      else if \<not> st_db A then dbNotAvailable
      else (case decode_refresh r of
        None \<Rightarrow> fail 400 ''invalid JSON body''
      | Some raw \<Rightarrow>
          let token = trim_space raw in
          if token = [] then fail 400 ''refresh_token is required''
          else do {
            _ \<leftarrow> exec Pool (upd_revoke_session (hashRefreshToken X token));
            reply 200 LoggedOut
          }))"

section \<open>The limit of live sessions\<close>

definition live_sessions :: "time \<Rightarrow> uuid \<Rightarrow> db \<Rightarrow> nat" where
  "live_sessions t u d = count_where (\<lambda>s. r_user s = u \<and> live_session t s) (sessions d)"

text \<open>
  The invariant of the table: unique keys and digests (its constraints), and no account with more
  live sessions than \<open>maxActiveUserSessions\<close>.
\<close>

definition sessions_ok :: "time \<Rightarrow> db \<Rightarrow> bool" where
  "sessions_ok t d \<longleftrightarrow> distinct (map r_id (sessions d)) \<and> distinct (map r_hash (sessions d))
     \<and> (\<forall>u. live_sessions t u d \<le> maxActiveUserSessions)"

lemma length_filter_sort_key: "length (filter P (sort_key f xs)) = length (filter P xs)"
  by (simp add: filter_sort)

lemma live_after_limit: "live_sessions t u (upd_session_limit u n t d) \<le> n"
proof -
  let ?P = "\<lambda>s. r_user s = u \<and> live_session t s"
  let ?L = "sort_key (\<lambda>s. - session_used s) (filter ?P (sessions d))"
  let ?R = "r_id ` set (drop n ?L)"
  have "live_sessions t u (upd_session_limit u n t d) =
      count_where (\<lambda>s. ?P s \<and> r_id s \<notin> ?R) (sessions d)"
    unfolding live_sessions_def upd_session_limit_def sessions_to_revoke_def
    by (auto simp: count_where_upd_where live_session_def intro!: count_where_cong)
  also have "\<dots> = length (filter (\<lambda>s. r_id s \<notin> ?R) (filter ?P (sessions d)))"
    by (simp add: count_where_def conj_commute)
  also have "\<dots> = length (filter (\<lambda>s. r_id s \<notin> ?R) ?L)"
    by (simp only: length_filter_sort_key)
  also have "\<dots> = length (filter (\<lambda>s. r_id s \<notin> ?R) (take n ?L @ drop n ?L))" by simp
  also have "\<dots> = length (filter (\<lambda>s. r_id s \<notin> ?R) (take n ?L))"
    unfolding filter_append by (simp add: filter_empty_conv)
  also have "\<dots> \<le> length (take n ?L)" by (rule length_filter_le)
  also have "\<dots> \<le> n" by simp
  finally show ?thesis .
qed

lemma filter_upd_where:
  "(\<And>s. s \<in> set xs \<Longrightarrow> q s \<Longrightarrow> \<not> p s \<and> \<not> p (f s)) \<Longrightarrow> filter p (upd_where q f xs) = filter p xs"
  by (induction xs) (auto simp: upd_where_def)

text \<open>The sessions of other accounts are left alone.\<close>

lemma limit_others:
  assumes "distinct (map r_id (sessions d))"
  shows "filter (\<lambda>s. r_user s \<noteq> u \<and> live_session t s) (sessions (upd_session_limit u n t d)) =
    filter (\<lambda>s. r_user s \<noteq> u \<and> live_session t s) (sessions d)"
proof -
  have "r_user s = u" if "s \<in> set (sessions d)" "r_id s \<in> r_id ` set (sessions_to_revoke u n t (sessions d))" for s
  proof -
    have "\<exists>s'\<in>set (sessions_to_revoke u n t (sessions d)). r_id s = r_id s'" using that(2) by auto
    then obtain s' where s': "s' \<in> set (sessions_to_revoke u n t (sessions d))" "r_id s = r_id s'" by blast
    then have "s' \<in> set (sessions d)" "r_user s' = u"
      by (auto simp: sessions_to_revoke_def dest!: in_set_dropD)
    then show ?thesis using assms that(1) s'(2) by (metis distinct_map inj_onD)
  qed
  then show ?thesis
    by (simp add: upd_session_limit_def filter_upd_where)
qed

lemma old_not_live: "old_session t s \<Longrightarrow> \<not> live_session t s"
  by (auto simp: old_session_def live_session_def refreshSessionRetentionDays_def durations split: option.splits)

lemma filter_del_old:
  "(\<And>s. p s \<Longrightarrow> live_session t s) \<Longrightarrow> filter p (sessions (del_old_sessions t d)) = filter p (sessions d)"
  using old_not_live by (auto simp: del_old_sessions_def intro!: filter_cong)

lemma keys_del_old:
  "distinct (map f (sessions d)) \<Longrightarrow> distinct (map f (sessions (del_old_sessions t d)))"
  by (simp add: del_old_sessions_def distinct_map_filter)

lemma keys_upd_limit:
  "(\<And>s v. f (s\<lparr>r_revoked := v\<rparr>) = f s) \<Longrightarrow>
   map f (sessions (upd_session_limit u n t d)) = map f (sessions d)"
  by (simp add: upd_session_limit_def map_upd_where)

text \<open>The tables after a successful creation.\<close>

definition session_created :: "uuid \<Rightarrow> string \<Rightarrow> string \<Rightarrow> time \<Rightarrow> uuid \<Rightarrow> db \<Rightarrow> db \<Rightarrow> bool" where
  "session_created u hash device t i d d' \<longleftrightarrow>
     (let d1 = upd_session_limit u (maxActiveUserSessions - 1) t (del_old_sessions t d) in
      user_by_id d u \<noteq> None \<and> i \<notin> r_id ` set (sessions d1) \<and> hash \<notin> r_hash ` set (sessions d1)
      \<and> d' = d1\<lparr>sessions := sessions d1 @ [new_session u hash device (t + refreshTokenTTL) i t]\<rparr>)"

lemma session_createdI:
  assumes "ins_session u hash device (t + refreshTokenTTL) i t
    (upd_session_limit u (maxActiveUserSessions - 1) t (del_old_sessions t d)) = (r, d')" "r \<noteq> SqlErr"
  shows "session_created u hash device t i d d'"
  using assms
  by (auto simp: ins_session_def session_created_def Let_def upd_session_limit_def del_old_sessions_def
      user_by_id_def split: if_splits)

lemma wp_createSessionTx:
  assumes t: "txn w = Some (d, False)"
    and E: "\<And>s m w'. db w' = db w \<Longrightarrow> now w' = now w \<Longrightarrow> Q (Error s m) w'"
    and S: "\<And>i w'. session_created u (hashRefreshToken X tok) device (now w) i d (db w') \<Longrightarrow> now w' = now w \<Longrightarrow> txn w' = None \<Longrightarrow>
      Q (Reply 201 (SessionCreated tok (refreshTokenTTL div second))) w'"
  shows "wp (createSessionTx X u device tok) Q w"
  unfolding createSessionTx_def
  apply (intro wps)
  apply (simp_all add: t)
  apply (auto intro!: E)
  apply (rule S; force intro: session_createdI)
  done

lemma wp_CreateSession:
  assumes "txn w = None"
  shows "wp (CreateSession A X r) (\<lambda>resp w'. txn w' = None \<and> now w' = now w \<and> (case resp of
      Error s m \<Rightarrow> db w' = db w
    | Reply s x \<Rightarrow> s = 201 \<and> (case x of
        SessionCreated tok secs \<Rightarrow> secs = refreshTokenTTL div second \<and>
          (\<exists>i. session_created (userIDFromContext r) (hashRefreshToken X tok) (trim_space (decode_session r)) (now w) i
             (db w) (db w'))
      | _ \<Rightarrow> False))) w"
  unfolding CreateSession_def newRefreshToken_def random_token_def
  by (intro wps wp_createSessionTx) (auto simp: assms)

lemma created_effect:
  assumes "session_created u hash device t i d d'" "distinct (map r_id (sessions d))" "distinct (map r_hash (sessions d))"
  shows "live_sessions t u d' \<le> maxActiveUserSessions"
    "find_session d' t hash = Some (new_session u hash device (t + refreshTokenTTL) i t)"
    "filter (\<lambda>s. r_user s \<noteq> u \<and> live_session t s) (sessions d') = filter (\<lambda>s. r_user s \<noteq> u \<and> live_session t s) (sessions d)"
    "distinct (map r_id (sessions d'))" "distinct (map r_hash (sessions d'))"
    "\<exists>ss. d' = d\<lparr>sessions := ss\<rparr>"
proof -
  let ?d0 = "del_old_sessions t d"
  let ?d1 = "upd_session_limit u (maxActiveUserSessions - 1) t ?d0"
  let ?s = "new_session u hash device (t + refreshTokenTTL) i t"
  have d': "d' = ?d1\<lparr>sessions := sessions ?d1 @ [?s]\<rparr>" "i \<notin> r_id ` set (sessions ?d1)"
    "hash \<notin> r_hash ` set (sessions ?d1)"
    using assms(1) by (simp_all add: session_created_def Let_def)
  have s: "r_user ?s = u" "r_id ?s = i" "r_hash ?s = hash" "live_session t ?s"
    by (simp_all add: new_session_def live_session_def refreshTokenTTL_def durations)
  show "live_sessions t u d' \<le> maxActiveUserSessions"
    using live_after_limit [of t u "maxActiveUserSessions - 1" ?d0]
    by (simp add: live_sessions_def d' count_where_append maxActiveUserSessions_def s)
  show "find_session d' t hash = Some ?s"
    using d'(3) s by (auto simp: find_session_def d' find_append find_None_iff split: option.splits
        dest!: find_Some_iff [THEN iffD1])
  have "filter (\<lambda>s. r_user s \<noteq> u \<and> live_session t s) (sessions d') =
      filter (\<lambda>s. r_user s \<noteq> u \<and> live_session t s) (sessions ?d1)" by (simp add: d' s)
  also have "\<dots> = filter (\<lambda>s. r_user s \<noteq> u \<and> live_session t s) (sessions ?d0)"
    by (rule limit_others) (rule keys_del_old [OF assms(2)])
  finally show "filter (\<lambda>s. r_user s \<noteq> u \<and> live_session t s) (sessions d') = filter (\<lambda>s. r_user s \<noteq> u \<and> live_session t s) (sessions d)"
    using filter_del_old [of "\<lambda>s. r_user s \<noteq> u \<and> live_session t s" t d] by simp
  have "distinct (map r_id (sessions ?d1))" "distinct (map r_hash (sessions ?d1))"
    using keys_del_old [OF assms(2), of t] keys_del_old [OF assms(3), of t]
      keys_upd_limit [of r_id u "maxActiveUserSessions - 1" t ?d0]
      keys_upd_limit [of r_hash u "maxActiveUserSessions - 1" t ?d0] by simp_all
  then show "distinct (map r_id (sessions d'))" "distinct (map r_hash (sessions d'))"
    using d'(2,3) by (simp_all add: d'(1) s)
  show "\<exists>ss. d' = d\<lparr>sessions := ss\<rparr>"
    by (simp add: d'(1) upd_session_limit_def del_old_sessions_def) blast
qed


section \<open>Rotation and logout\<close>

lemma find_session_Some:
  "find_session d t h = Some s \<Longrightarrow> s \<in> set (sessions d) \<and> r_hash s = h \<and> live_session t s"
  by (auto simp: find_session_def find_Some_iff)

definition rotate :: "string \<Rightarrow> time \<Rightarrow> session_row \<Rightarrow> session_row" where
  "rotate hash t s = s\<lparr>r_hash := hash, r_expires := t + refreshTokenTTL, r_last_used := Some t\<rparr>"

lemma rotate_sel [simp]:
  "r_id (rotate h t s) = r_id s" "r_user (rotate h t s) = r_user s" "r_hash (rotate h t s) = h"
  "r_revoked (rotate h t s) = r_revoked s" "live_session t (rotate h t s) \<longleftrightarrow> r_revoked s = None"
  by (simp_all add: rotate_def live_session_def refreshTokenTTL_def durations)

text \<open>The tables after a successful rotation.\<close>

definition session_rotated :: "string \<Rightarrow> time \<Rightarrow> session_row \<Rightarrow> db \<Rightarrow> db \<Rightarrow> bool" where
  "session_rotated hash t s d d' \<longleftrightarrow>
     d' = d\<lparr>sessions := upd_where (\<lambda>x. r_id x = r_id s) (rotate hash t) (sessions d)\<rparr>
     \<and> (\<forall>x\<in>set (sessions d). r_hash x = hash \<longrightarrow> r_id x = r_id s)"

lemma session_rotatedI:
  "upd_rotate_session (r_id s) hash (t + refreshTokenTTL) t d = (r, d') \<Longrightarrow> r \<noteq> SqlErr \<Longrightarrow>
   session_rotated hash t s d d'"
  by (auto simp: upd_rotate_session_def session_rotated_def rotate_def [abs_def] list_ex_iff split: if_splits)

lemma wp_refreshSessionTx:
  assumes t: "txn w = Some (d, False)"
    and E: "\<And>s m w'. db w' = db w \<Longrightarrow> now w' = now w \<Longrightarrow> Q (Error s m) w'"
    and S: "\<And>s a new w'. find_session d (now w) (hashRefreshToken X tok) = Some s \<Longrightarrow>
      session_rotated (hashRefreshToken X new) (now w) s d (db w') \<Longrightarrow>
      x_jwt_sign X (st_jwt_secret A) (access_claims A (now w) (r_user s)) = Some a \<Longrightarrow> now w' = now w \<Longrightarrow> txn w' = None \<Longrightarrow>
      Q (Reply 200 (SessionRefreshed a new (st_token_ttl A div second))) w'"
  shows "wp (refreshSessionTx A X tok) Q w"
  unfolding refreshSessionTx_def newRefreshToken_def random_token_def
  apply (intro wps)
  apply (simp_all add: t row_of_def split: option.splits)
  apply (auto intro!: E)
  apply (rule S; force intro: session_rotatedI)
  done


lemma wp_RefreshSession:
  assumes "txn w = None"
  shows "wp (RefreshSession A X r) (\<lambda>resp w'. txn w' = None \<and> now w' = now w \<and> (case resp of
      Error s m \<Rightarrow> db w' = db w
    | Reply st x \<Rightarrow> st = 200 \<and> (case (decode_refresh r, x) of
        (Some raw, SessionRefreshed a new secs) \<Rightarrow>
          secs = st_token_ttl A div second \<and>
          (\<exists>s. find_session (db w) (now w) (hashRefreshToken X (trim_space raw)) = Some s
           \<and> session_rotated (hashRefreshToken X new) (now w) s (db w) (db w')
           \<and> x_jwt_sign X (st_jwt_secret A) (access_claims A (now w) (r_user s)) = Some a)
      | _ \<Rightarrow> False))) w"
  unfolding RefreshSession_def
  by (intro wps wp_refreshSessionTx) (auto simp: assms)

lemma rotated_effect:
  assumes "session_rotated hash t s d d'" "find_session d t h0 = Some s" "distinct (map r_id (sessions d))"
    "distinct (map r_hash (sessions d))"
  shows "find_session d' t hash = Some (rotate hash t s)"
    "h0 \<noteq> hash \<Longrightarrow> find_session d' t' h0 = None"
    "distinct (map r_id (sessions d'))" "distinct (map r_hash (sessions d'))"
    "live_sessions t u d' = live_sessions t u d"
    "map (\<lambda>x. (r_id x, r_user x, r_revoked x)) (sessions d') = map (\<lambda>x. (r_id x, r_user x, r_revoked x)) (sessions d)"
proof -
  note s = find_session_Some [OF assms(2)]
  have d': "d' = d\<lparr>sessions := upd_where (\<lambda>x. r_id x = r_id s) (rotate hash t) (sessions d)\<rparr>"
    and fresh: "\<And>x. x \<in> set (sessions d) \<Longrightarrow> r_hash x = hash \<Longrightarrow> r_id x = r_id s"
    using assms(1) by (auto simp: session_rotated_def)
  have one: "x = s" if "x \<in> set (sessions d)" "r_id x = r_id s" for x
    using assms(3) that s by (metis distinct_map inj_onD)
  have upd: "sessions d' = map (\<lambda>x. if x = s then rotate hash t s else x) (sessions d)"
    using one by (auto simp: d' upd_where_def)
  have "session_used s = session_used s" by simp
  show "find_session d' t hash = Some (rotate hash t s)"
  proof -
    have "find (\<lambda>x. r_hash x = hash \<and> live_session t x) (map (\<lambda>x. if x = s then rotate hash t s else x) xs)
        = Some (rotate hash t s)" if "s \<in> set xs" "set xs \<subseteq> set (sessions d)" for xs
      using that
    proof (induction xs)
      case (Cons x xs)
      show ?case
      proof (cases "x = s")
        case True
        then show ?thesis using s by (simp add: live_session_def [of t s])
      next
        case False
        then have "r_hash x \<noteq> hash" using Cons.prems fresh one by auto
        then show ?thesis using False Cons by simp
      qed
    qed simp
    then show ?thesis using s by (simp add: find_session_def upd)
  qed
  show "find_session d' t' h0 = None" if "h0 \<noteq> hash"
  proof -
    have "r_hash x \<noteq> h0" if "x \<in> set (sessions d)" "x \<noteq> s" for x
      using assms(4) that s by (metis distinct_map inj_onD)
    then show ?thesis using that by (auto simp: find_session_def upd find_None_iff)
  qed
  have "map r_id (sessions d') = map r_id (sessions d)" by (auto simp: upd)
  then show "distinct (map r_id (sessions d'))" using assms(3) by simp
  show "distinct (map r_hash (sessions d'))"
  proof -
    have "distinct (map r_hash (map (\<lambda>x. if x = s then rotate hash t s else x) xs))"
      if "set xs \<subseteq> set (sessions d)" "distinct (map r_hash xs)" "distinct xs" for xs
      using that
    proof (induction xs)
      case (Cons x xs)
      then show ?case using fresh one by (auto split: if_splits)
    qed simp
    then show ?thesis using assms(3,4) by (simp add: upd distinct_map)
  qed
  show "live_sessions t u d' = live_sessions t u d"
    unfolding live_sessions_def d' using s one
    by (simp add: count_where_upd_where) (rule count_where_cong, metis rotate_sel(2,5) live_session_def)
  show "map (\<lambda>x. (r_id x, r_user x, r_revoked x)) (sessions d') = map (\<lambda>x. (r_id x, r_user x, r_revoked x)) (sessions d)"
    by (auto simp: upd)
qed

lemma wp_LogoutSession:
  "wp (LogoutSession A X r) (\<lambda>resp w'. txn w' = txn w \<and> now w' = now w \<and> (case resp of
      Error s m \<Rightarrow> db w' = db w
    | Reply st x \<Rightarrow> st = 200 \<and> x = LoggedOut \<and> (case decode_refresh r of None \<Rightarrow> False | Some raw \<Rightarrow>
        db w' \<in> {db w, upd_revoke_session (hashRefreshToken X (trim_space raw)) (now w) (db w)}))) w"
  unfolding LogoutSession_def by (intro wps) auto

lemma revoke_effect:
  "find_session (upd_revoke_session h t d) t' h = None"
  "map r_id (sessions (upd_revoke_session h t d)) = map r_id (sessions d)"
  "map r_hash (sessions (upd_revoke_session h t d)) = map r_hash (sessions d)"
  "live_sessions t' u (upd_revoke_session h t d) \<le> live_sessions t' u d"
proof -
  show "find_session (upd_revoke_session h t d) t' h = None"
  proof -
    have "find (\<lambda>s. r_hash s = h \<and> live_session t' s)
        (upd_where (\<lambda>s. r_hash s = h) (\<lambda>s. s\<lparr>r_revoked := Some (g s)\<rparr>) xs) = None" for g xs
      by (induction xs) (simp_all add: upd_where_def live_session_def)
    then show ?thesis by (simp add: find_session_def upd_revoke_session_def)
  qed
  show "map r_id (sessions (upd_revoke_session h t d)) = map r_id (sessions d)"
    "map r_hash (sessions (upd_revoke_session h t d)) = map r_hash (sessions d)"
    by (simp_all add: upd_revoke_session_def map_upd_where)
  show "live_sessions t' u (upd_revoke_session h t d) \<le> live_sessions t' u d"
    by (simp add: live_sessions_def upd_revoke_session_def)
      (rule count_where_upd_mono, simp add: live_session_def)
qed

section \<open>Properties\<close>

text \<open>
  C15. Creating a session: a failed request changes nothing. A successful one answers 201 with a
  token that identifies a live session of the caller for sixty days, leaves the caller at most ten
  live sessions, and keeps every live session of the other accounts.
\<close>

theorem CreateSession_limit:
  assumes "distinct (map r_id (sessions (db w)))" "distinct (map r_hash (sessions (db w)))" "txn w = None"
  shows "case run_state (CreateSession A X r) w of (resp, w') \<Rightarrow> txn w' = None \<and> (case resp of
     Error s m \<Rightarrow> db w' = db w
   | Reply s x \<Rightarrow> s = 201 \<and> (case x of
       SessionCreated tok secs \<Rightarrow> secs = 60 * 24 * 60 * 60
         \<and> live_sessions (now w) (userIDFromContext r) (db w') \<le> 10
         \<and> map_option (\<lambda>s. (r_user s, r_expires s)) (find_session (db w') (now w) (hashRefreshToken X tok))
             = Some (userIDFromContext r, now w + 60 * day)
         \<and> filter (\<lambda>s. r_user s \<noteq> userIDFromContext r \<and> live_session (now w) s) (sessions (db w'))
             = filter (\<lambda>s. r_user s \<noteq> userIDFromContext r \<and> live_session (now w) s) (sessions (db w))
     | _ \<Rightarrow> False))"
proof -
  have secs: "refreshTokenTTL div second = 60 * 24 * 60 * 60" "refreshTokenTTL = 60 * day"
    by (simp_all add: refreshTokenTTL_def durations)
  have eff: "live_sessions t u d' \<le> 10 \<and>
      map_option (\<lambda>s. (r_user s, r_expires s)) (find_session d' t hash) = Some (u, t + 60 * day) \<and>
      filter (\<lambda>s. r_user s \<noteq> u \<and> live_session t s) (sessions d') =
        filter (\<lambda>s. r_user s \<noteq> u \<and> live_session t s) (sessions (db w))"
    if "session_created u hash device t i (db w) d'" for u hash device t i d'
    using created_effect(1-3) [OF that assms(1,2)]
    by (simp add: maxActiveUserSessions_def new_session_def secs(2))
  show ?thesis
    using wp_CreateSession [OF assms(3), of A X r] unfolding wp_def secs(1)
    by (auto dest!: eff split: prod.splits resp.splits session_payload.splits)
qed

definition s_session :: request where
  "s_session = s_req ''POST'' ''/api/v1/auth/session'' (JObj [(''device_name'', JStr ''phone'')])"

theorem CreateSession_limit_witness:
  "case run_state (CreateSession s_app s_ext s_session) s_team of (resp, w') \<Rightarrow>
     resp = Reply 201 (SessionCreated (b64url (replicate 32 7)) (60 * 24 * 60 * 60))
     \<and> live_sessions (now s_team) ''u1'' (db w') \<le> 10"
proof -
  have "fst (run_state (CreateSession s_app s_ext s_session) s_team)
      = Reply 201 (SessionCreated (b64url (replicate 32 7)) (60 * 24 * 60 * 60))" by code_simp
  moreover have "userIDFromContext s_session = ''u1''" by code_simp
  moreover have "sessions (db s_team) = []" "txn s_team = None" by (simp_all add: sample_defs empty_db_def)
  ultimately show ?thesis
    using CreateSession_limit [where w = s_team and A = s_app and X = s_ext and r = s_session] by (auto split: prod.splits)
qed

text \<open>
  C16. Refreshing a session: a failed request changes nothing. A successful one found the live
  session of the presented token; the new token identifies this very session, of the same account,
  for another sixty days, the old token is never accepted again (unless the digests collide), and
  the access token in the answer is signed for the account of the session.
\<close>

theorem RefreshSession_rotates:
  assumes "distinct (map r_id (sessions (db w)))" "distinct (map r_hash (sessions (db w)))" "txn w = None"
  shows "case run_state (RefreshSession A X r) w of (resp, w') \<Rightarrow> txn w' = None \<and> (case resp of
     Error s m \<Rightarrow> db w' = db w
   | Reply st x \<Rightarrow> st = 200 \<and> (case (decode_refresh r, x) of
       (Some raw, SessionRefreshed a new secs) \<Rightarrow>
         (case find_session (db w) (now w) (hashRefreshToken X (trim_space raw)) of None \<Rightarrow> False | Some s \<Rightarrow>
           map_option (\<lambda>s'. (r_id s', r_user s', r_expires s'))
               (find_session (db w') (now w) (hashRefreshToken X new)) = Some (r_id s, r_user s, now w + 60 * day)
           \<and> (if hashRefreshToken X new = hashRefreshToken X (trim_space raw) then True
              else \<forall>t. find_session (db w') t (hashRefreshToken X (trim_space raw)) = None)
           \<and> fst (run_state (signAccessToken A X (r_user s)) w) = Some a)
     | _ \<Rightarrow> False))"
proof -
  have eff: "map_option (\<lambda>s'. (r_id s', r_user s', r_expires s')) (find_session d' t hash)
        = Some (r_id s, r_user s, t + 60 * day) \<and> (hash = h0 \<or> (\<forall>t'. find_session d' t' h0 = None))"
    if "session_rotated hash t s (db w) d'" "find_session (db w) t h0 = Some s" for hash t s d' h0
  proof -
    have "r_expires (rotate hash t s) = t + 60 * day"
      by (simp add: rotate_def refreshTokenTTL_def durations)
    then show ?thesis using rotated_effect(1,2) [OF that assms(1,2)] by auto
  qed
  have "wp (RefreshSession A X r) (\<lambda>resp w'. txn w' = None \<and> (case resp of
     Error s m \<Rightarrow> db w' = db w
   | Reply st x \<Rightarrow> st = 200 \<and> (case (decode_refresh r, x) of
       (Some raw, SessionRefreshed a new secs) \<Rightarrow>
         (case find_session (db w) (now w) (hashRefreshToken X (trim_space raw)) of None \<Rightarrow> False | Some s \<Rightarrow>
           map_option (\<lambda>s'. (r_id s', r_user s', r_expires s'))
               (find_session (db w') (now w) (hashRefreshToken X new)) = Some (r_id s, r_user s, now w + 60 * day)
           \<and> (if hashRefreshToken X new = hashRefreshToken X (trim_space raw) then True
              else \<forall>t. find_session (db w') t (hashRefreshToken X (trim_space raw)) = None)
           \<and> fst (run_state (signAccessToken A X (r_user s)) w) = Some a)
     | _ \<Rightarrow> False))) w"
    by (rule wp_mono [OF wp_RefreshSession [OF assms(3)]])
      (auto dest!: eff simp: signAccessToken_def split: resp.splits session_payload.splits option.splits)
  then show ?thesis by (simp add: wp_def)
qed

definition s_session_world :: world where
  "s_session_world = s_team\<lparr>db := s_team_db\<lparr>sessions := [new_session ''u1'' ''tok'' [] (30 * day) ''r1'' 0]\<rparr>\<rparr>"

definition s_refresh :: request where
  "s_refresh = s_req ''POST'' ''/api/v1/auth/refresh'' (JObj [(''refresh_token'', JStr '' tok '')])"

theorem RefreshSession_rotates_witness:
  "case run_state (RefreshSession s_app s_ext s_refresh) s_session_world of (resp, w') \<Rightarrow>
     is_reply resp \<and> find_session (db w') (2 * day) ''tok'' = None"
proof -
  have "is_reply (fst (run_state (RefreshSession s_app s_ext s_refresh) s_session_world))"
    "map_option trim_space (decode_refresh s_refresh) = Some ''tok''"
    "find_session (db (snd (run_state (RefreshSession s_app s_ext s_refresh) s_session_world)))
       (now s_session_world) (hashRefreshToken s_ext ''tok'') = None" by code_simp+
  moreover have "distinct (map r_id (sessions (db s_session_world)))"
    "distinct (map r_hash (sessions (db s_session_world)))" "txn s_session_world = None"
    by (simp_all add: s_session_world_def sample_defs)
  moreover have "hashRefreshToken s_ext t = t" for t by (simp add: hashRefreshToken_def s_ext_def)
  ultimately show ?thesis
    using RefreshSession_rotates [where w = s_session_world and A = s_app and X = s_ext and r = s_refresh]
    by (auto split: prod.splits resp.splits option.splits session_payload.splits if_splits)
qed

text \<open>
  C17. Logging out: an answer of 200 means that the presented token is never accepted again,
  unless the database call failed, in which case the answer is 200 all the same and the table is as it was.
\<close>

theorem LogoutSession_revokes:
  "case run_state (LogoutSession A X r) w of (resp, w') \<Rightarrow> (case resp of
     Error s m \<Rightarrow> db w' = db w
   | Reply st x \<Rightarrow> (case decode_refresh r of None \<Rightarrow> False | Some raw \<Rightarrow>
       if db w' = db w then
         (if faults w = [] then find_session (db w) (now w) (hashRefreshToken X (trim_space raw)) = None else True)
       else \<forall>t. find_session (db w') t (hashRefreshToken X (trim_space raw)) = None))"
proof -
  have live: "find_session (db w) t h = None" if "upd_revoke_session h t (db w) = db w" for t h
    using revoke_effect(1) [of h t "db w" t] that by simp
  have "db (snd (run_state (LogoutSession A X r) w)) =
      upd_revoke_session (hashRefreshToken X (trim_space raw)) (now w) (db w)"
    if "faults w = []" "is_reply (fst (run_state (LogoutSession A X r) w))" "decode_refresh r = Some raw" for raw
    using that by (auto simp: LogoutSession_def exec_Pool_free Let_def split: if_splits)
  then show ?thesis
    using wp_LogoutSession [of A X r w] live
    by (fastforce simp: wp_def revoke_effect(1) split: prod.splits resp.splits option.splits)
qed

text \<open>The failed call behind the answer 200: the session survives its own logout.\<close>

lemma LogoutSession_ignores_failure:
  "case run_state (LogoutSession s_app s_ext (s_req ''POST'' ''/api/v1/auth/logout'' (JObj [(''refresh_token'', JStr ''tok'')])))
     (s_team\<lparr>faults := [FailExec], db := s_team_db\<lparr>sessions := [new_session ''u1'' ''tok'' [] (30 * day) ''r1'' 0]\<rparr>\<rparr>)
   of (resp, w') \<Rightarrow> resp = Reply 200 LoggedOut \<and> find_session (db w') (now w') (hashRefreshToken s_ext ''tok'') \<noteq> None"
  by code_simp

end
