(* ===== verification/Session_Overlap.thy ===== *)
theory Session_Overlap
  imports Sessions
begin

text \<open>
  Overlapping requests to the session handlers. The transaction of \<open>CreateSession\<close> takes no lock: it revokes the
  oldest live sessions it can see, inserts its own, and only its commit shows both to the others. A creation in flight is
  kept by what its statements will have changed, so any number of them may have read the table before one commits.
  Rotation (\<open>SELECT ... FOR UPDATE\<close>) and logout (one statement) are atomic. The row of a creation
  is unseen until its commit, where the constraints of the table are checked.
\<close>

section \<open>A creation in flight\<close>

record creation =
  c_user :: uuid
  c_since :: time
  c_gone :: "uuid list"
  c_cut :: "uuid list"

text \<open>The first two statements, in a transaction begun at \<open>t\<close>, on the committed table.\<close>

definition start_creation :: "uuid \<Rightarrow> time \<Rightarrow> db \<Rightarrow> creation" where
  "start_creation u t d = \<lparr>c_user = u, c_since = t, c_gone = map r_id (filter (old_session t) (sessions d)),
     c_cut = map r_id (sessions_to_revoke u (maxActiveUserSessions - 1) t (sessions (del_old_sessions t d)))\<rparr>"

definition apply_cut :: "creation \<Rightarrow> db \<Rightarrow> db" where
  "apply_cut c d = d\<lparr>sessions := upd_where (\<lambda>s. r_id s \<in> set (c_cut c)) (\<lambda>s. s\<lparr>r_revoked := Some (c_since c)\<rparr>)
     (filter (\<lambda>s. r_id s \<notin> set (c_gone c)) (sessions d))\<rparr>"

text \<open>The insertion and the commit, on the table committed by then.\<close>

definition finish_creation :: "externals \<Rightarrow> creation \<Rightarrow> string \<Rightarrow> string \<Rightarrow> time \<Rightarrow> uuid \<Rightarrow> db \<Rightarrow> unit sqlres \<times> db" where
  "finish_creation X c token device expires i d =
     ins_session (c_user c) (hashRefreshToken X token) device expires i (c_since c) (apply_cut c d)"

text \<open>Without another request in between this is what the handler does.\<close>

lemma creation_alone:
  assumes "distinct (map r_id (sessions d))"
  shows "session_created u (hashRefreshToken X token) device t i d d' \<longleftrightarrow>
     finish_creation X (start_creation u t d) token device (t + refreshTokenTTL) i d = (Row (), d')"
proof -
  have "x = y" if "x \<in> set (sessions d)" "y \<in> set (sessions d)" "r_id x = r_id y" for x y
    using assms that by (metis distinct_map inj_onD)
  then have "r_id s \<in> r_id ` set (filter (old_session t) (sessions d)) \<longleftrightarrow> old_session t s" if "s \<in> set (sessions d)" for s
    using that by auto
  then have "filter (\<lambda>s. r_id s \<notin> set (c_gone (start_creation u t d))) (sessions d) = sessions (del_old_sessions t d)"
    by (auto simp: start_creation_def del_old_sessions_def intro!: filter_cong)
  then have "apply_cut (start_creation u t d) d = upd_session_limit u (maxActiveUserSessions - 1) t (del_old_sessions t d)"
    by (simp add: apply_cut_def upd_session_limit_def) (simp add: start_creation_def del_old_sessions_def)
  moreover have "user_by_id (upd_session_limit u n t (del_old_sessions t d)) u = user_by_id d u" for n
    by (simp add: user_by_id_def upd_session_limit_def del_old_sessions_def)
  ultimately show ?thesis
    by (auto simp: finish_creation_def ins_session_def session_created_def Let_def start_creation_def)
qed

section \<open>Steps\<close>

text \<open>At most \<open>n\<close> creations of one account are in flight; the list holds those whose \<open>UPDATE\<close> ran, in that order.\<close>

definition in_flight :: "uuid \<Rightarrow> creation list \<Rightarrow> nat" where
  "in_flight u cs = count_where (\<lambda>c. c_user c = u) cs"

inductive overlap_step :: "nat \<Rightarrow> app_state \<Rightarrow> externals \<Rightarrow> world \<times> creation list \<Rightarrow> world \<times> creation list \<Rightarrow> bool"
  for n A X where
  start: "in_flight u cs < n \<Longrightarrow> t \<le> now w \<Longrightarrow>
    overlap_step n A X (w, cs) (w, cs @ [start_creation u t (db w)])"
| finish: "finish_creation X c token device expires i (db w) = (Row (), d) \<Longrightarrow>
    overlap_step n A X (w, xs @ c # ys) (w\<lparr>db := d\<rparr>, xs @ ys)"
| give_up: "overlap_step n A X (w, xs @ c # ys) (w, xs @ ys)"
| refresh: "run_state (RefreshSession A X r) w = (resp, w') \<Longrightarrow> overlap_step n A X (w, cs) (w', cs)"
| logout: "run_state (LogoutSession A X r) w = (resp, w') \<Longrightarrow> overlap_step n A X (w, cs) (w', cs)"
| environment: "now w \<le> t \<Longrightarrow>
    overlap_step n A X (w, cs) (w\<lparr>now := t, faults := fs, uuids := us, entropy := es\<rparr>, cs)"

text \<open>A whole request of \<open>CreateSession\<close> is two of the steps.\<close>

lemma CreateSession_overlap:
  assumes "run_state (CreateSession A X r) w = (resp, w')" "txn w = None" "distinct (map r_id (sessions (db w)))"
    "in_flight (userIDFromContext r) cs < n"
  shows "(overlap_step n A X)\<^sup>*\<^sup>* (w, cs) (w\<lparr>db := db w'\<rparr>, cs)"
proof (cases "db w' = db w")
  case False
  then obtain tok i where "session_created (userIDFromContext r) (hashRefreshToken X tok) (trim_space (decode_session r))
      (now w) i (db w) (db w')"
    using wpD [OF wp_CreateSession [OF assms(2)] assms(1)] by (auto split: resp.splits session_payload.splits)
  then have "overlap_step n A X (w, cs @ start_creation (userIDFromContext r) (now w) (db w) # []) (w\<lparr>db := db w'\<rparr>, cs @ [])"
    using creation_alone [OF assms(3)] by (intro overlap_step.finish) blast
  moreover have "overlap_step n A X (w, cs) (w, cs @ [start_creation (userIDFromContext r) (now w) (db w)])"
    using assms(4) by (intro overlap_step.start) simp_all
  ultimately show ?thesis by (simp add: converse_rtranclp_into_rtranclp)
qed simp

section \<open>Counting\<close>

text \<open>The live sessions of \<open>u\<close> that a set of deleted and revoked keys leaves.\<close>

definition left_live :: "time \<Rightarrow> uuid \<Rightarrow> uuid set \<Rightarrow> db \<Rightarrow> nat" where
  "left_live t u C d = count_where (\<lambda>s. (r_user s = u \<and> live_session t s) \<and> r_id s \<notin> C) (sessions d)"

definition keys_of :: "creation \<Rightarrow> uuid set" where
  "keys_of c = set (c_gone c) \<union> set (c_cut c)"

lemma left_live_none: "left_live t u {} d = live_sessions t u d"
  by (simp add: left_live_def live_sessions_def)

lemma left_live_cut: "left_live t u C (apply_cut c d) = left_live t u (C \<union> keys_of c) d"
  by (auto simp: left_live_def apply_cut_def keys_of_def count_where_upd_where count_where_filter live_session_def
      intro!: count_where_cong)

lemma left_live_later: "t \<le> t' \<Longrightarrow> left_live t' u C d \<le> left_live t u C d"
  unfolding left_live_def by (rule count_where_mono) (auto simp: live_session_def)

lemma left_live_mono: "C \<subseteq> D \<Longrightarrow> left_live t u D d \<le> left_live t u C d"
  unfolding left_live_def by (rule count_where_mono) auto

lemma left_live_start:
  assumes "t \<le> t'"
  shows "left_live t' u (keys_of (start_creation u t d)) d \<le> maxActiveUserSessions - 1"
proof -
  let ?d = "del_old_sessions t d" and ?n = "maxActiveUserSessions - 1"
  have "left_live t u (keys_of (start_creation u t d)) d \<le> live_sessions t u (upd_session_limit u ?n t ?d)"
    unfolding left_live_def live_sessions_def upd_session_limit_def start_creation_def keys_of_def
    by (simp add: count_where_upd_where, subst del_old_sessions_def, simp add: count_where_filter)
      (rule count_where_mono, auto simp: old_not_live)
  also have "\<dots> \<le> ?n" by (rule live_after_limit)
  finally show ?thesis using left_live_later [OF assms] le_trans by blast
qed

lemma finish_effect:
  assumes "finish_creation X c token device expires i d = (Row (), d')"
  shows "left_live t u C d' \<le> left_live t u (C \<union> keys_of c) d + (if u = c_user c then 1 else 0)"
    "distinct (map r_id (sessions d)) \<Longrightarrow> distinct (map r_id (sessions d'))"
    "distinct (map r_hash (sessions d)) \<Longrightarrow> distinct (map r_hash (sessions d'))"
proof -
  let ?d = "apply_cut c d"
  let ?s = "new_session (c_user c) (hashRefreshToken X token) device expires i (c_since c)"
  have d': "d' = ?d\<lparr>sessions := sessions ?d @ [?s]\<rparr>" "i \<notin> r_id ` set (sessions ?d)"
    "hashRefreshToken X token \<notin> r_hash ` set (sessions ?d)"
    using assms by (auto simp: finish_creation_def ins_session_def split: if_splits)
  show "left_live t u C d' \<le> left_live t u (C \<union> keys_of c) d + (if u = c_user c then 1 else 0)"
    unfolding left_live_cut [symmetric] by (simp add: left_live_def d' new_session_def)
  have k: "map f (sessions ?d) = map f (filter (\<lambda>s. r_id s \<notin> set (c_gone c)) (sessions d))"
    if "\<And>s v. f (s\<lparr>r_revoked := v\<rparr>) = f s" for f :: "session_row \<Rightarrow> string"
    using that by (simp add: apply_cut_def map_upd_where)
  have "distinct (map f (sessions ?d))" if "distinct (map f (sessions d))" "\<And>s v. f (s\<lparr>r_revoked := v\<rparr>) = f s"
    for f :: "session_row \<Rightarrow> string"
    using that by (simp add: k distinct_map_filter)
  from this [of r_id] this [of r_hash]
  show "distinct (map r_id (sessions d)) \<Longrightarrow> distinct (map r_id (sessions d'))"
    "distinct (map r_hash (sessions d)) \<Longrightarrow> distinct (map r_hash (sessions d'))"
    using d'(2,3) by (simp_all add: d'(1) new_session_def)
qed

section \<open>The invariant\<close>

text \<open>
  \<open>old\<close> are the creations of the account whose \<open>UPDATE\<close> ran before that of the last one committed, \<open>new\<close> the
  later ones: the live sessions and the rows to come stay within the bound \<open>b\<close>.
\<close>

definition bounded :: "nat \<Rightarrow> time \<Rightarrow> db \<Rightarrow> uuid \<Rightarrow> creation list \<Rightarrow> bool" where
  "bounded b t d u cs \<longleftrightarrow> (\<exists>old new. filter (\<lambda>c. c_user c = u) cs = old @ new
     \<and> left_live t u {} d + length old \<le> b
     \<and> (\<forall>xs c ys. new = xs @ c # ys \<longrightarrow> left_live t u (keys_of c) d + 1 + length old + length xs \<le> b))"

definition overlap_ok :: "nat \<Rightarrow> world \<times> creation list \<Rightarrow> bool" where
  "overlap_ok n s \<longleftrightarrow> (case s of (w, cs) \<Rightarrow> txn w = None
     \<and> distinct (map r_id (sessions (db w))) \<and> distinct (map r_hash (sessions (db w)))
     \<and> (\<forall>u. in_flight u cs \<le> n \<and> bounded (maxActiveUserSessions - 1 + n) (now w) (db w) u cs))"

lemma bounded_shrink:
  assumes "bounded b t d u cs" "\<And>C. left_live t' u C d' \<le> left_live t u C d"
  shows "bounded b t' d' u cs"
  using assms unfolding bounded_def by (meson add_le_mono1 le_trans)

lemma bounded_start:
  assumes "bounded (maxActiveUserSessions - 1 + n) t d u cs" "in_flight v cs < n" "t0 \<le> t"
  shows "bounded (maxActiveUserSessions - 1 + n) t d u (cs @ [start_creation v t0 d])"
proof (cases "v = u")
  case True
  obtain old new where s: "filter (\<lambda>c. c_user c = u) cs = old @ new" "left_live t u {} d + length old \<le> maxActiveUserSessions - 1 + n"
    and B: "\<And>xs c ys. new = xs @ c # ys \<Longrightarrow> left_live t u (keys_of c) d + 1 + length old + length xs \<le> maxActiveUserSessions - 1 + n"
    using assms(1) unfolding bounded_def by blast
  let ?c = "start_creation v t0 d"
  have u: "c_user ?c = v" by (simp add: start_creation_def)
  have len: "length old + length new < n"
    using assms(2) s(1) True unfolding in_flight_def count_where_def by simp
  have "left_live t u (keys_of c) d + 1 + length old + length xs \<le> maxActiveUserSessions - 1 + n"
    if e: "new @ [?c] = xs @ c # ys" for xs c ys
  proof (cases ys rule: rev_cases)
    case Nil
    then have "xs = new" "c = ?c" using e by simp_all
    then show ?thesis using left_live_start [OF assms(3), of u d] len True by simp
  next
    case (snoc zs z)
    then have "new = xs @ c # zs" using e by simp
    then show ?thesis by (rule B)
  qed
  then show ?thesis
    unfolding bounded_def using s True u by (intro exI [of _ old] exI [of _ "new @ [?c]"]) simp
qed (use assms(1) in \<open>simp add: bounded_def start_creation_def\<close>)

lemma split_at:
  assumes "xs @ c # ys = old @ new"
  obtains (old) zs where "old = xs @ c # zs" "ys = zs @ new" | (new) zs where "xs = old @ zs" "new = zs @ c # ys"
  using assms by (auto simp: append_eq_append_conv2 Cons_eq_append_conv)

lemma insert_keeps_order:
  assumes "zs @ ys = as @ e # bs"
  shows "\<exists>as' bs'. zs @ c # ys = as' @ e # bs' \<and> length as \<le> length as'"
proof -
  consider us where "zs = as @ e # us" | "zs = as" "ys = e # bs" | us where "as = zs @ us" "ys = us @ e # bs"
    using assms by (auto simp: append_eq_append_conv2 Cons_eq_append_conv append_eq_Cons_conv)
  then show ?thesis
  proof cases
    case 1
    then show ?thesis by (intro exI [of _ as] exI [of _ "us @ c # ys"]) simp
  next
    case 2
    then show ?thesis by (intro exI [of _ "zs @ [c]"] exI [of _ bs]) simp
  next
    case 3
    then show ?thesis by (intro exI [of _ "zs @ c # us"] exI [of _ bs]) simp
  qed
qed

lemma bounded_give_up: "bounded b t d u (xs @ c # ys) \<Longrightarrow> bounded b t d u (xs @ ys)"
proof (cases "c_user c = u")
  case True
  assume "bounded b t d u (xs @ c # ys)"
  then obtain old new where s: "filter (\<lambda>c. c_user c = u) xs @ c # filter (\<lambda>c. c_user c = u) ys = old @ new"
      "left_live t u {} d + length old \<le> b"
    and B: "\<And>xs c ys. new = xs @ c # ys \<Longrightarrow> left_live t u (keys_of c) d + 1 + length old + length xs \<le> b"
    using True unfolding bounded_def by auto
  from s(1) show ?thesis
  proof (cases rule: split_at)
    case (old zs)
    have "left_live t u (keys_of e) d + 1 + length (filter (\<lambda>c. c_user c = u) xs @ zs) + length as \<le> b" if "new = as @ e # bs" for as e bs
      using B [OF that] by (simp add: old)
    then show ?thesis
      unfolding bounded_def using s(2) old by (intro exI [of _ "filter (\<lambda>c. c_user c = u) xs @ zs"] exI [of _ new]) simp
  next
    case (new zs)
    have "left_live t u (keys_of e) d + 1 + length old + length as \<le> b" if e: "zs @ filter (\<lambda>c. c_user c = u) ys = as @ e # bs" for as e bs
      using insert_keeps_order [OF e, of c] B new(2) by fastforce
    then show ?thesis
      unfolding bounded_def using s(2) new by (intro exI [of _ old] exI [of _ "zs @ filter (\<lambda>c. c_user c = u) ys"]) simp
  qed
qed (simp add: bounded_def)

lemma bounded_finish:
  assumes "bounded b t d u (xs @ c # ys)" "\<And>C. left_live t u C d' \<le> left_live t u (C \<union> keys_of c) d + (if u = c_user c then 1 else 0)"
  shows "bounded b t d' u (xs @ ys)"
proof (cases "u = c_user c")
  case False
  have "left_live t u C d' \<le> left_live t u C d" for C
    using assms(2) [of C] left_live_mono [of C "C \<union> keys_of c" t u d] False by simp
  then show ?thesis using bounded_shrink [OF bounded_give_up [OF assms(1)]] by blast
next
  case True
  let ?xs = "filter (\<lambda>c. c_user c = u) xs" and ?ys = "filter (\<lambda>c. c_user c = u) ys"
  have le: "left_live t u C d' \<le> left_live t u C d + 1" "left_live t u {} d' \<le> left_live t u (keys_of c) d + 1" for C
    using assms(2) [of C] assms(2) [of "{}"] left_live_mono [of C "C \<union> keys_of c" t u d] True by simp_all
  obtain old new where s: "?xs @ c # ?ys = old @ new" "left_live t u {} d + length old \<le> b"
    and B: "\<And>xs c ys. new = xs @ c # ys \<Longrightarrow> left_live t u (keys_of c) d + 1 + length old + length xs \<le> b"
    using assms(1) True unfolding bounded_def by auto
  from s(1) show ?thesis
  proof (cases rule: split_at)
    case (old zs)
    have "left_live t u (keys_of e) d' + 1 + length (?xs @ zs) + length as \<le> b" if "new = as @ e # bs" for as e bs
      using B [OF that] le(1) [of "keys_of e"] old by simp
    then show ?thesis
      unfolding bounded_def using s(2) le(1) [of "{}"] old by (intro exI [of _ "?xs @ zs"] exI [of _ new]) simp
  next
    case (new zs)
    have "left_live t u (keys_of e) d' + 1 + length (old @ zs) + length as \<le> b" if e: "?ys = as @ e # bs" for as e bs
      using B [of "zs @ c # as" e bs] le(1) [of "keys_of e"] e new by simp
    then show ?thesis
      unfolding bounded_def using le(2) B [OF new(2)] new(1) by (intro exI [of _ "old @ zs"] exI [of _ ?ys]) simp
  qed
qed

lemma rotated_left_live:
  assumes "session_rotated hash t s d d'" "find_session d t h0 = Some s" "distinct (map r_id (sessions d))"
  shows "left_live t u C d' \<le> left_live t u C d"
proof -
  note s = find_session_Some [OF assms(2)]
  have "left_live t u C d' = count_where (\<lambda>x. if r_id x = r_id s then (r_user x = u \<and> r_revoked x = None) \<and> r_id x \<notin> C
      else (r_user x = u \<and> live_session t x) \<and> r_id x \<notin> C) (sessions d)"
    using assms(1) by (simp add: left_live_def session_rotated_def count_where_upd_where)
  also have "\<dots> \<le> left_live t u C d"
    unfolding left_live_def
  proof (rule count_where_mono)
    fix x assume x: "x \<in> set (sessions d)" "if r_id x = r_id s then (r_user x = u \<and> r_revoked x = None) \<and> r_id x \<notin> C
      else (r_user x = u \<and> live_session t x) \<and> r_id x \<notin> C"
    have "x = s" if "r_id x = r_id s"
      using assms(3) x(1) s that by (metis distinct_map inj_onD)
    then show "(r_user x = u \<and> live_session t x) \<and> r_id x \<notin> C" using x(2) s by (auto split: if_splits)
  qed
  finally show ?thesis .
qed

lemma revoked_left_live: "left_live t u C (upd_revoke_session h t' d) \<le> left_live t u C d"
  by (simp add: left_live_def upd_revoke_session_def) (rule count_where_upd_mono, simp add: live_session_def)

lemma overlap_step_ok:
  assumes "overlap_step n A X s s'" "overlap_ok n s"
  shows "overlap_ok n s'"
  using assms
proof (induction rule: overlap_step.induct)
  case (start u cs t w)
  have "in_flight v (cs @ [start_creation u t (db w)]) \<le> n" for v
    using start by (auto simp: overlap_ok_def in_flight_def start_creation_def)
  then show ?case using start by (auto simp: overlap_ok_def intro: bounded_start [simplified])
next
  case (finish c token device expires i w d xs ys)
  have "in_flight v (xs @ ys) \<le> in_flight v (xs @ c # ys)" for v by (simp add: in_flight_def)
  then show ?case using finish
    by (auto simp: overlap_ok_def intro: le_trans finish_effect(2,3)
        bounded_finish [OF _ finish_effect(1) [OF finish.hyps]])
next
  case (give_up w xs c ys)
  have "in_flight v (xs @ ys) \<le> in_flight v (xs @ c # ys)" for v by (simp add: in_flight_def)
  then show ?case using give_up by (auto simp: overlap_ok_def intro: le_trans bounded_give_up)
next
  case (refresh r w resp w' cs)
  note ok = refresh.prems [unfolded overlap_ok_def prod.case]
  have "txn w' = None" "now w' = now w" and eff: "db w' = db w \<or> (\<exists>s hash h. find_session (db w) (now w) h = Some s
      \<and> session_rotated hash (now w) s (db w) (db w'))"
    using wpD [OF wp_RefreshSession refresh.hyps] ok
    by (auto split: resp.splits option.splits session_payload.splits)
  from eff show ?case
  proof (elim disjE exE conjE)
    fix s hash h assume f: "find_session (db w) (now w) h = Some s" "session_rotated hash (now w) s (db w) (db w')"
    have "left_live (now w) u C (db w') \<le> left_live (now w) u C (db w)" for u C
      using rotated_left_live [OF f(2,1)] ok by blast
    then show ?thesis using rotated_effect(3,4) [OF f(2,1)] ok \<open>txn w' = None\<close> \<open>now w' = now w\<close>
      by (auto simp: overlap_ok_def intro: bounded_shrink)
  qed (use ok \<open>txn w' = None\<close> \<open>now w' = now w\<close> in \<open>simp add: overlap_ok_def\<close>)
next
  case (logout r w resp w' cs)
  have "txn w' = txn w" "now w' = now w" and eff: "db w' = db w \<or> (\<exists>h. db w' = upd_revoke_session h (now w) (db w))"
    using wpD [OF wp_LogoutSession logout.hyps] by (auto split: resp.splits option.splits)
  from eff show ?case using logout.prems \<open>txn w' = txn w\<close> \<open>now w' = now w\<close> revoked_left_live
    by (auto simp: overlap_ok_def revoke_effect(2,3) intro: bounded_shrink)
next
  case (environment w t cs fs us es)
  then show ?case using left_live_later [OF environment.hyps] by (auto simp: overlap_ok_def intro: bounded_shrink)
qed

lemma overlap_steps_ok: "(overlap_step n A X)\<^sup>*\<^sup>* s s' \<Longrightarrow> overlap_ok n s \<Longrightarrow> overlap_ok n s'"
  by (induction rule: rtranclp_induct) (auto intro: overlap_step_ok)

section \<open>The property\<close>

text \<open>
  C18. In every state reachable by creations, rotations and logouts, of which the creations may overlap in any
  order while at most \<open>n\<close> of one account are in flight, with any failures in between, keys and digests of the
  sessions are unique and no account has more than \<open>10 + (n - 1)\<close> live sessions: ten when creations do not overlap, and 29
  for a process, whose pool has twenty connections.
\<close>

theorem sessions_invariant:
  assumes "(overlap_step n A X)\<^sup>*\<^sup>* (w, []) (w', cs)" "sessions_ok (now w) (db w)" "txn w = None" "1 \<le> n"
  shows "distinct (map r_id (sessions (db w'))) \<and> distinct (map r_hash (sessions (db w')))
    \<and> (\<forall>u. live_sessions (now w') u (db w') \<le> 10 + (n - 1))"
proof -
  have "bounded (maxActiveUserSessions - 1 + n) (now w) (db w) u []" for u
  proof -
    have "left_live (now w) u {} (db w) \<le> maxActiveUserSessions - 1 + n"
      using assms(2,4) by (auto simp: sessions_ok_def left_live_none maxActiveUserSessions_def intro: le_trans)
    then show ?thesis by (simp add: bounded_def)
  qed
  then have "overlap_ok n (w, [])"
    using assms(2,3) by (simp add: overlap_ok_def sessions_ok_def in_flight_def)
  then have ok: "overlap_ok n (w', cs)" using overlap_steps_ok assms(1) by blast
  have "live_sessions (now w') u (db w') \<le> 10 + (n - 1)" for u
  proof -
    have "bounded (maxActiveUserSessions - 1 + n) (now w') (db w') u cs" using ok by (auto simp: overlap_ok_def)
    then obtain k where "left_live (now w') u {} (db w') + k \<le> maxActiveUserSessions - 1 + n" by (auto simp: bounded_def)
    then show ?thesis using assms(4) by (simp add: left_live_none maxActiveUserSessions_def)
  qed
  then show ?thesis using ok by (auto simp: overlap_ok_def)
qed

text \<open>Nine live sessions, and two creations that both read the table before either commits.\<close>

definition s_nine :: world where
  "s_nine = s_team\<lparr>db := s_team_db\<lparr>sessions := map (\<lambda>n. new_session ''u1'' [n] [] (30 * day) [n] 0) ''123456789''\<rparr>\<rparr>"

definition s_creation :: creation where
  "s_creation = start_creation ''u1'' (now s_nine) (db s_nine)"

definition s_eleven :: db where
  "s_eleven = snd (finish_creation s_ext s_creation ''b'' [] (31 * day) ''b''
     (snd (finish_creation s_ext s_creation ''a'' [] (31 * day) ''a'' (db s_nine))))"

lemma s_eleven_reached:
  "(overlap_step 2 s_app s_ext)\<^sup>*\<^sup>* (s_nine, []) (s_nine\<lparr>db := s_eleven\<rparr>, [])"
  "live_sessions (now s_nine) ''u1'' s_eleven = 11"
proof -
  let ?d = "snd (finish_creation s_ext s_creation ''a'' [] (31 * day) ''a'' (db s_nine))"
  have f: "fst (finish_creation s_ext s_creation ''a'' [] (31 * day) ''a'' (db s_nine)) = Row ()"
    "fst (finish_creation s_ext s_creation ''b'' [] (31 * day) ''b'' ?d) = Row ()"
    "in_flight ''u1'' [s_creation] = 1" by code_simp+
  have "overlap_step 2 s_app s_ext (s_nine, []) (s_nine, [] @ [s_creation])"
    unfolding s_creation_def by (rule overlap_step.start) (simp_all add: in_flight_def)
  moreover have "overlap_step 2 s_app s_ext (s_nine, [s_creation]) (s_nine, [s_creation] @ [s_creation])"
    using f(3) overlap_step.start [of "''u1''" "[s_creation]" 2 "now s_nine" s_nine s_app s_ext]
    by (simp add: s_creation_def)
  moreover have "overlap_step 2 s_app s_ext (s_nine, [] @ s_creation # [s_creation]) (s_nine\<lparr>db := ?d\<rparr>, [] @ [s_creation])"
    using f(1) by (intro overlap_step.finish) (simp add: prod_eq_iff)
  moreover have "overlap_step 2 s_app s_ext (s_nine\<lparr>db := ?d\<rparr>, [] @ s_creation # []) (s_nine\<lparr>db := ?d\<rparr>\<lparr>db := s_eleven\<rparr>, [] @ [])"
    using f(2) by (intro overlap_step.finish) (simp add: prod_eq_iff s_eleven_def)
  ultimately show "(overlap_step 2 s_app s_ext)\<^sup>*\<^sup>* (s_nine, []) (s_nine\<lparr>db := s_eleven\<rparr>, [])"
    by (simp add: converse_rtranclp_into_rtranclp)
  show "live_sessions (now s_nine) ''u1'' s_eleven = 11" by code_simp
qed

theorem sessions_invariant_witness:
  "(overlap_step 2 s_app s_ext)\<^sup>*\<^sup>* (s_nine, []) (s_nine\<lparr>db := s_eleven\<rparr>, [])
   \<and> live_sessions (now s_nine) ''u1'' s_eleven = 11 \<and> distinct (map r_hash (sessions s_eleven))
   \<and> live_sessions (now s_nine) ''u3'' s_eleven \<le> 11"
proof -
  have "sessions_ok (now s_nine) (db s_nine)"
    by (simp add: sessions_ok_def live_sessions_def s_nine_def new_session_def live_session_def maxActiveUserSessions_def)
  moreover have "txn s_nine = None" by (simp add: s_nine_def sample_defs)
  ultimately show ?thesis
    using sessions_invariant [OF s_eleven_reached(1)] s_eleven_reached by simp
qed

end
