(* ===== verification/Team.thy ===== *)
theory Team
  imports Project_Facts Tokens
begin

text \<open>
  Members and invitations of a project (\<open>internal/httpapi/project_team.go\<close>): the member list, the
  invitation (immediate membership for a registered phone, a token otherwise), its acceptance,
  and the change or removal of a member.
\<close>

definition projectInviteTTL :: time where "projectInviteTTL = 7 * 24 * hour"

definition isAssignableProjectRole :: "string \<Rightarrow> bool" where
  "isAssignableProjectRole role \<longleftrightarrow>
     role = ProjectRoleManager \<or> role = ProjectRoleWorker \<or> role = ProjectRoleViewer"

section \<open>Invitation tokens\<close>

definition newProjectInviteToken :: "(world, string option) state" where
  "newProjectInviteToken = random_token"

definition hashProjectInviteToken :: "externals \<Rightarrow> string \<Rightarrow> string" where
  "hashProjectInviteToken X token = x_sha256 X token"

section \<open>Requests and responses\<close>

record member_dto =
  md_user :: uuid
  md_phone :: string
  md_name :: string
  md_role :: string
  md_created :: time

datatype team_payload = MemberList "member_dto list"
  | MemberAdded uuid uuid string
  | Invited int "string option"
  | InviteAccepted uuid string
  | MemberUpdated string
  | MemberRemoved

definition decode_invite :: "request \<Rightarrow> (string \<times> string \<times> string) option" where
  "decode_invite r = do {
     fs \<leftarrow> decode_body r;
     p \<leftarrow> str_field fs ''project_id'';
     ph \<leftarrow> str_field fs ''phone'';
     ro \<leftarrow> str_field fs ''role'';
     Some (p, ph, ro)
   }"

definition decode_accept :: "request \<Rightarrow> string option" where
  "decode_accept r = do { fs \<leftarrow> decode_body r; str_field fs ''invite_token'' }"

definition decode_member_update :: "request \<Rightarrow> string option" where
  "decode_member_update r = do { fs \<leftarrow> decode_body r; str_field fs ''role'' }"

section \<open>Statements\<close>

definition role_rank :: "string \<Rightarrow> nat" where
  "role_rank r = (if r = ''owner'' then 0 else if r = ''manager'' then 1 else if r = ''worker'' then 2 else 3)"

definition sel_members :: "uuid \<Rightarrow> db \<Rightarrow> member_dto list" where
  "sel_members pid d = concat (map (\<lambda>m. map (\<lambda>x. \<lparr>md_user = u_id x, md_phone = or_empty (u_phone x),
         md_name = or_empty (u_name x), md_role = m_role m, md_created = m_created m\<rparr>)
       (filter (\<lambda>x. u_id x = m_user m) (users d)))
     (sort_key (\<lambda>m. role_rank (m_role m)) (sort_key m_created
       (filter (\<lambda>m. m_project m = pid) (members d)))))"

definition phone_is_member :: "uuid \<Rightarrow> string \<Rightarrow> db \<Rightarrow> bool" where
  "phone_is_member pid phone d \<longleftrightarrow> list_ex (\<lambda>m. m_project m = pid
     \<and> list_ex (\<lambda>x. u_id x = m_user m \<and> u_phone x = Some phone) (users d)) (members d)"

definition user_by_phone :: "db \<Rightarrow> string \<Rightarrow> user_row option" where
  "user_by_phone d phone = find (\<lambda>x. u_phone x = Some phone) (users d)"

definition open_invite :: "uuid \<Rightarrow> string \<Rightarrow> invite_row \<Rightarrow> bool" where
  "open_invite pid phone i \<longleftrightarrow>
     i_project i = pid \<and> i_phone i = phone \<and> i_accepted i = None \<and> i_revoked i = None"

definition upd_revoke_invites :: "uuid \<Rightarrow> string \<Rightarrow> time \<Rightarrow> db \<Rightarrow> db" where
  "upd_revoke_invites pid phone t d =
     d\<lparr>invites := upd_where (open_invite pid phone) (\<lambda>i. i\<lparr>i_revoked := Some t\<rparr>) (invites d)\<rparr>"

definition new_invite :: "uuid \<Rightarrow> uuid \<Rightarrow> string \<Rightarrow> string \<Rightarrow> string \<Rightarrow> time \<Rightarrow> uuid \<Rightarrow> time \<Rightarrow> invite_row" where
  "new_invite pid inviter phone role hash expires i t =
     \<lparr>i_id = i, i_project = pid, i_by = Some inviter, i_phone = phone, i_role = role, i_hash = hash,
      i_expires = expires, i_accepted = None, i_revoked = None, i_created = t\<rparr>"

definition ins_invite :: "uuid \<Rightarrow> uuid \<Rightarrow> string \<Rightarrow> string \<Rightarrow> string \<Rightarrow> time \<Rightarrow> uuid \<Rightarrow> unit sql" where
  "ins_invite pid inviter phone role hash expires i t d =
     (if pid \<notin> p_id ` set (projects d) \<or> user_by_id d inviter = None \<or> i \<in> i_id ` set (invites d)
         \<or> hash \<in> i_hash ` set (invites d) \<or> role \<notin> {''manager'', ''worker'', ''viewer''}
      then (SqlErr, d)
      else (Row (), d\<lparr>invites := invites d @ [new_invite pid inviter phone role hash expires i t]\<rparr>))"

definition sel_invite :: "string \<Rightarrow> time \<Rightarrow> db \<Rightarrow> invite_row sqlres" where
  "sel_invite hash t d = row_of (find (\<lambda>i. i_hash i = hash \<and> i_accepted i = None \<and> i_revoked i = None
     \<and> t < i_expires i) (invites d))"

text \<open>\<open>INSERT ... ON CONFLICT (project_id, user_id) DO UPDATE SET role = EXCLUDED.role\<close>\<close>

definition upsert_member :: "uuid \<Rightarrow> uuid \<Rightarrow> string \<Rightarrow> unit sql" where
  "upsert_member pid u role t d =
     (if role \<notin> {''owner'', ''manager'', ''worker'', ''viewer''} then (SqlErr, d)
      else if member_of d pid u \<noteq> None then
        (Row (), d\<lparr>members := upd_where (\<lambda>m. m_project m = pid \<and> m_user m = u)
           (\<lambda>m. m\<lparr>m_role := role\<rparr>) (members d)\<rparr>)
      else if pid \<notin> p_id ` set (projects d) \<or> user_by_id d u = None then (SqlErr, d)
      else (Row (), d\<lparr>members := members d @
        [\<lparr>m_project = pid, m_user = u, m_role = role, m_created = t\<rparr>]\<rparr>))"

definition upd_accept_invite :: "uuid \<Rightarrow> time \<Rightarrow> db \<Rightarrow> db" where
  "upd_accept_invite i t d =
     d\<lparr>invites := upd_where (\<lambda>x. i_id x = i) (\<lambda>x. x\<lparr>i_accepted := Some t\<rparr>) (invites d)\<rparr>"

definition upd_member_role :: "uuid \<Rightarrow> uuid \<Rightarrow> string \<Rightarrow> unit sql" where
  "upd_member_role pid u role t d =
     (if role \<notin> {''owner'', ''manager'', ''worker'', ''viewer''} then (SqlErr, d)
      else (Row (), d\<lparr>members := upd_where (\<lambda>m. m_project m = pid \<and> m_user m = u)
         (\<lambda>m. m\<lparr>m_role := role\<rparr>) (members d)\<rparr>))"

definition del_member :: "uuid \<Rightarrow> uuid \<Rightarrow> nat sql" where
  "del_member pid u t d =
     (Row (count_where (\<lambda>m. m_project m = pid \<and> m_user m = u) (members d)),
      d\<lparr>members := filter (\<lambda>m. \<not> (m_project m = pid \<and> m_user m = u)) (members d)\<rparr>)"

section \<open>Handlers\<close>

definition ProjectMembers :: "app_state \<Rightarrow> team_payload handler" where
  "ProjectMembers A r =
     (if rq_method r \<noteq> ''GET'' then methodNotAllowed
      else if \<not> st_db A then dbNotAvailable
      else let pid = trim_space (get_first (rq_query r) ''project_id'') in
        if pid = [] then fail 400 ''project_id is required''
        else do {
          ok \<leftarrow> canAccessProject (userIDFromContext r) pid;
          if \<not> ok then fail 403 ''project access denied''
          else do {
            rows \<leftarrow> query Pool (\<lambda>t d. sel_members pid d);
            (case rows of
               Rows ms \<Rightarrow> reply 200 (MemberList ms)
             | QueryErr \<Rightarrow> fail 500 ''failed to load project members''
             | ScanErr \<Rightarrow> fail 500 ''failed to scan project member''
             | RowsErr \<Rightarrow> fail 500 ''failed to read project members'')
          }
        })"

definition subscription_failure :: "sub_error \<Rightarrow> (world, 'p resp) state" where
  "subscription_failure e = (case subscriptionHTTPError e of
     Some sm \<Rightarrow> fail (fst sm) (snd sm)
   | None \<Rightarrow> fail 500 ''failed to enforce subscription limits'')"

text \<open>The membership transaction of \<open>CreateProjectInvite\<close> for a phone that has an account.\<close>

definition assignMemberTx ::
  "app_state \<Rightarrow> uuid \<Rightarrow> uuid \<Rightarrow> string \<Rightarrow> string \<Rightarrow> uuid \<Rightarrow> (world, team_payload resp) state" where
  "assignMemberTx A actor pid phone role target = do {
     lim \<leftarrow> ensureProjectMemberCapacity pid phone;
     (case lim of
        Some e \<Rightarrow> subscription_failure e
      | None \<Rightarrow> do {
          n \<leftarrow> stmt Tx (ins_member pid target role);
          (case n of
             NoRows \<Rightarrow> fail 500 ''failed to add project member''
           | SqlErr \<Rightarrow> fail 500 ''failed to add project member''
           | Row k \<Rightarrow>
               if k = 0 then fail 409 ''user is already a project member''
               else do {
                 rv \<leftarrow> exec Tx (upd_revoke_invites pid phone);
                 if rv = SqlErr then fail 500 ''failed to close previous invitation''
                 else do {
                   c \<leftarrow> tx_commit;
                   if \<not> c then fail 500 ''failed to commit project member''
                   else do {
                     _ \<leftarrow> audit Pool actor (Some pid) ''add_member'' ''project_member'' (Some target)
                       [(''phone'', phone), (''role'', role), (''source'', ''phone'')];
                     publishProjectEvent A pid ''project_member'' target ''added'' [];
                     reply 200 (MemberAdded pid target role)
                   }
                 }
               })
        })
   }"

text \<open>The invitation of a phone without an account.\<close>

definition inviteByToken ::
  "app_state \<Rightarrow> externals \<Rightarrow> uuid \<Rightarrow> uuid \<Rightarrow> string \<Rightarrow> string \<Rightarrow> (world, team_payload resp) state" where
  "inviteByToken A X actor pid phone role = do {
     b \<leftarrow> tx_begin;
     if \<not> b then fail 500 ''failed to start subscription check''
     else do {
       lim \<leftarrow> ensureProjectMemberCapacity pid phone;
       (case lim of
          Some e \<Rightarrow> do { tx_rollback; subscription_failure e }
        | None \<Rightarrow> do {
            c \<leftarrow> tx_commit;
            if \<not> c then fail 500 ''failed to finish subscription check''
            else do {
              tok \<leftarrow> newProjectInviteToken;
              (case tok of
                 None \<Rightarrow> fail 500 ''failed to create invitation''
               | Some token \<Rightarrow> do {
                   rv \<leftarrow> exec Pool (upd_revoke_invites pid phone);
                   if rv = SqlErr then fail 500 ''failed to replace previous invitation''
                   else do {
                     t \<leftarrow> read_now;
                     i \<leftarrow> insert_stmt Pool (ins_invite pid actor phone role
                            (hashProjectInviteToken X token) (t + projectInviteTTL));
                     if i = SqlErr then fail 500 ''failed to save invitation''
                     else do {
                       _ \<leftarrow> audit Pool actor (Some pid) ''invite'' ''project_member'' None
                         [(''phone'', phone), (''role'', role)];
                       publishProjectEvent A pid ''project_member'' [] ''invited'' [];
                       reply 201 (Invited (projectInviteTTL div second)
                         (if st_production_like A then None else Some token))
                     }
                   }
                 })
            }
          })
     }
   }"

definition CreateProjectInvite :: "app_state \<Rightarrow> externals \<Rightarrow> team_payload handler" where
  "CreateProjectInvite A X r =
     (if rq_method r \<noteq> ''POST'' then methodNotAllowed
      else if \<not> st_db A then dbNotAvailable
      else (case decode_invite r of
        None \<Rightarrow> fail 400 ''invalid JSON body''
      | Some q \<Rightarrow>
          let pid = trim_space (fst q); phone = normalizePhone (fst (snd q));
              role = to_lower (trim_space (snd (snd q))); actor = userIDFromContext r in
          if pid = [] \<or> \<not> phoneRe phone \<or> \<not> isAssignableProjectRole role
          then fail 400 ''project_id, valid phone and role are required''
          else do {
            ok \<leftarrow> canManageProject actor pid;
            if \<not> ok then fail 403 ''project management permission required''
            else do {
              ex \<leftarrow> sel Pool (\<lambda>t d. Row (phone_is_member pid phone d));
              (case ex of
                 NoRows \<Rightarrow> fail 500 ''failed to check project membership''
               | SqlErr \<Rightarrow> fail 500 ''failed to check project membership''
               | Row e \<Rightarrow>
                   if e then fail 409 ''user is already a project member''
                   else do {
                     tg \<leftarrow> sel Pool (\<lambda>t d. Row (case user_by_phone d phone of None \<Rightarrow> [] | Some x \<Rightarrow> u_id x));
                     (case tg of
                        NoRows \<Rightarrow> fail 500 ''failed to find invited user''
                      | SqlErr \<Rightarrow> fail 500 ''failed to find invited user''
                      | Row target \<Rightarrow>
                          if target \<noteq> [] then do {
                            b \<leftarrow> tx_begin;
                            if \<not> b then fail 500 ''failed to start member assignment''
                            else defer_rollback (assignMemberTx A actor pid phone role target)
                          }
                          else inviteByToken A X actor pid phone role)
                   })
            }
          }))"

definition acceptInviteTx ::
  "app_state \<Rightarrow> externals \<Rightarrow> uuid \<Rightarrow> string \<Rightarrow> (world, team_payload resp) state" where
  "acceptInviteTx A X u token = do {
     inv \<leftarrow> sel Tx (sel_invite (hashProjectInviteToken X token));
     (case inv of
        NoRows \<Rightarrow> fail 401 ''invalid or expired invitation''
      | SqlErr \<Rightarrow> fail 401 ''invalid or expired invitation''
      | Row i \<Rightarrow> do {
          ph \<leftarrow> sel Tx (\<lambda>t d. row_of (map_option (\<lambda>x. or_empty (u_phone x)) (user_by_id d u)));
          (case ph of
             NoRows \<Rightarrow> fail 401 ''user not found''
           | SqlErr \<Rightarrow> fail 401 ''user not found''
           | Row phone \<Rightarrow>
               if normalizePhone phone \<noteq> normalizePhone (i_phone i)
               then fail 403 ''invitation belongs to another phone number''
               else do {
                 lim \<leftarrow> ensureProjectMemberCapacity (i_project i) (i_phone i);
                 (case lim of
                    Some e \<Rightarrow> subscription_failure e
                  | None \<Rightarrow> do {
                      m \<leftarrow> stmt Tx (upsert_member (i_project i) u (i_role i));
                      if m = SqlErr then fail 500 ''failed to add project member''
                      else do {
                        a \<leftarrow> exec Tx (upd_accept_invite (i_id i));
                        if a = SqlErr then fail 500 ''failed to complete invitation''
                        else do {
                          _ \<leftarrow> audit Tx u (Some (i_project i)) ''accept_invite'' ''project_member'' (Some u)
                            [(''role'', i_role i)];
                          c \<leftarrow> tx_commit;
                          if \<not> c then fail 500 ''failed to commit invitation''
                          else do {
                            publishProjectEvent A (i_project i) ''project_member'' u ''accepted'' [];
                            reply 200 (InviteAccepted (i_project i) (i_role i))
                          }
                        }
                      }
                    })
               })
        })
   }"

definition AcceptProjectInvite :: "app_state \<Rightarrow> externals \<Rightarrow> team_payload handler" where
  "AcceptProjectInvite A X r =
     (if rq_method r \<noteq> ''POST'' then methodNotAllowed
      else if \<not> st_db A then dbNotAvailable
      else (case decode_accept r of
        None \<Rightarrow> fail 400 ''invalid JSON body''
      | Some raw \<Rightarrow>
          let token = trim_space raw in
          if token = [] then fail 400 ''invite_token is required''
          else do {
            b \<leftarrow> tx_begin;
            if \<not> b then fail 500 ''failed to start invitation acceptance''
            else defer_rollback (acceptInviteTx A X (userIDFromContext r) token)
          }))"

definition updateMember :: "app_state \<Rightarrow> uuid \<Rightarrow> uuid \<Rightarrow> team_payload handler" where
  "updateMember A pid mid r =
     (case decode_member_update r of
        None \<Rightarrow> fail 400 ''invalid JSON body''
      | Some raw \<Rightarrow>
          let role = to_lower (trim_space raw) in
          if \<not> isAssignableProjectRole role then fail 400 ''invalid project role''
          else do {
            e \<leftarrow> stmt Pool (upd_member_role pid mid role);
            if e = SqlErr then fail 500 ''failed to update project member''
            else do {
              _ \<leftarrow> audit Pool (userIDFromContext r) (Some pid) ''update_role'' ''project_member'' (Some mid)
                [(''role'', role)];
              publishProjectEvent A pid ''project_member'' mid ''role_updated'' [];
              reply 200 (MemberUpdated role)
            }
          })"

definition removeMember :: "app_state \<Rightarrow> uuid \<Rightarrow> uuid \<Rightarrow> team_payload handler" where
  "removeMember A pid mid r = do {
     n \<leftarrow> stmt Pool (del_member pid mid);
     (case n of
        NoRows \<Rightarrow> fail 500 ''failed to remove project member''
      | SqlErr \<Rightarrow> fail 500 ''failed to remove project member''
      | Row k \<Rightarrow>
          if k = 0 then fail 404 ''project member not found''
          else do {
            _ \<leftarrow> audit Pool (userIDFromContext r) (Some pid) ''remove'' ''project_member'' (Some mid) [];
            publishProjectEvent A pid ''project_member'' mid ''removed'' [mid];
            reply 200 MemberRemoved
          })
   }"

definition ProjectMember :: "app_state \<Rightarrow> team_payload handler" where
  "ProjectMember A r =
     (if \<not> st_db A then dbNotAvailable
      else let pid = trim_space (get_first (rq_query r) ''project_id'');
               mid = resourceIDFromPath (rq_path r) ''/api/v1/project-members/'' in
        if pid = [] \<or> mid = [] then fail 400 ''project_id and member id are required''
        else do {
          ok \<leftarrow> canManageProject (userIDFromContext r) pid;
          if \<not> ok then fail 403 ''project management permission required''
          else do {
            cur \<leftarrow> sel Pool (\<lambda>t d. row_of (map_option m_role (member_of d pid mid)));
            (case cur of
               NoRows \<Rightarrow> fail 404 ''project member not found''
             | SqlErr \<Rightarrow> fail 404 ''project member not found''
             | Row role \<Rightarrow>
                 if role = ProjectRoleOwner then fail 409 ''project owner cannot be modified or removed''
                 else if rq_method r = ''PATCH'' then updateMember A pid mid r
                 else if rq_method r = ''DELETE'' then removeMember A pid mid r
                 else methodNotAllowed)
          }
        })"

end
