(* ===== verification/Team_Facts.thy ===== *)
theory Team_Facts
  imports Team
begin

text \<open>
  What the team handlers guarantee: only a manager invites, membership stays within the plan of
  the owner, an invitation is used at most once and only by the phone it names, the owner of a
  project is never demoted or removed, and the integrity of the identity tables is preserved.
\<close>

section \<open>Statements and the integrity of the identity tables\<close>

lemma assignable_cases:
  "isAssignableProjectRole r \<longleftrightarrow> r \<in> {''manager'', ''worker'', ''viewer''}"
  by (auto simp: isAssignableProjectRole_def role_defs)

lemma integrity_invites_upd:
  assumes "\<And>i. i_project (f i) = i_project i" "\<And>i. i_phone (f i) = i_phone i" "\<And>i. i_role (f i) = i_role i"
    "integrity d"
  shows "integrity (d\<lparr>invites := upd_where q f (invites d)\<rparr>)"
proof -
  have "valid_invite d (f i) = valid_invite d i" for i
    using assms(1-3) by (simp add: valid_invite_def owner_phone_free_def)
  then have "\<forall>i\<in>set (upd_where q f (invites d)). valid_invite d i"
    using assms(4) by (auto simp: upd_where_def integrity_def)
  then show ?thesis using assms(4)
    by (simp add: integrity_def valid_invite_def owner_phone_free_def valid_project_def
        valid_member_def owner_member_def member_of_def)
qed

lemma integrity_revoke [simp]: "integrity d \<Longrightarrow> integrity (upd_revoke_invites pid ph t d)"
  unfolding upd_revoke_invites_def by (rule integrity_invites_upd) auto

lemma integrity_accept [simp]: "integrity d \<Longrightarrow> integrity (upd_accept_invite i t d)"
  unfolding upd_accept_invite_def by (rule integrity_invites_upd) auto

lemma integrity_add_invite:
  assumes "integrity d" "valid_invite d i"
  shows "integrity (d\<lparr>invites := invites d @ [i]\<rparr>)"
  using assms
  by (auto simp: integrity_def valid_invite_def owner_phone_free_def valid_project_def
      valid_member_def owner_member_def member_of_def)

text \<open>A change of the members that leaves the owners alone.\<close>

lemma integrity_members:
  assumes "integrity d" "\<And>m. m \<in> set ms \<Longrightarrow> valid_member d m"
    and "\<And>p m. p \<in> set (projects d) \<Longrightarrow> member_of d (p_id p) (p_owner p) = Some m \<Longrightarrow>
      find (\<lambda>m. m_project m = p_id p \<and> m_user m = p_owner p) ms = Some m"
    and "distinct (map member_key ms)"
  shows "integrity (d\<lparr>members := ms\<rparr>)"
proof -
  let ?d = "d\<lparr>members := ms\<rparr>"
  have "valid_project ?d p" if p: "p \<in> set (projects d)" for p
  proof -
    have v: "valid_project d p" using assms(1) p by (simp add: integrity_def)
    then obtain m where "member_of d (p_id p) (p_owner p) = Some m" "m_role m = ''owner''"
      by (auto simp: valid_project_def owner_member_def split: option.splits)
    with assms(3) [OF p] v show ?thesis
      by (simp add: valid_project_def owner_member_def member_of_def)
  qed
  then show ?thesis using assms(1,2,4)
    by (auto simp: integrity_def valid_invite_def owner_phone_free_def valid_member_def)
qed

text \<open>The owner is never the member whose row is changed, because that row has another role.\<close>

definition not_owner_of :: "db \<Rightarrow> uuid \<Rightarrow> uuid \<Rightarrow> bool" where
  "not_owner_of d pid u \<longleftrightarrow> (\<forall>p\<in>set (projects d). p_id p = pid \<longrightarrow> p_owner p \<noteq> u)"

lemma not_owner_by_role:
  assumes "integrity d" "member_of d pid u = Some m" "m_role m \<noteq> ''owner''"
  shows "not_owner_of d pid u"
  using assms by (force simp: not_owner_of_def integrity_def valid_project_def owner_member_def)

lemma not_owner_by_phone:
  assumes "integrity d" "i \<in> set (invites d)" "i_project i = pid" "user_by_id d u = Some x"
    "u_phone x = Some (i_phone i)"
  shows "not_owner_of d pid u"
proof -
  have "owner_phone_free d i" using assms(1,2) by (simp add: integrity_def valid_invite_def)
  then show ?thesis using assms(3-5) user_by_id_Some [OF assms(4)]
    by (auto simp: not_owner_of_def owner_phone_free_def)
qed

lemma integrity_change_role:
  assumes "integrity d" "not_owner_of d pid u"
  shows "integrity (d\<lparr>members := upd_where (\<lambda>m. m_project m = pid \<and> m_user m = u)
    (\<lambda>m. m\<lparr>m_role := r\<rparr>) (members d)\<rparr>)"
proof (rule integrity_members [OF assms(1)])
  show "valid_member d m" if "m \<in> set (upd_where (\<lambda>m. m_project m = pid \<and> m_user m = u)
      (\<lambda>m. m\<lparr>m_role := r\<rparr>) (members d))" for m
    using that assms(1) by (auto simp: upd_where_def integrity_def valid_member_def)
  show "find (\<lambda>m. m_project m = p_id p \<and> m_user m = p_owner p) (upd_where
      (\<lambda>m. m_project m = pid \<and> m_user m = u) (\<lambda>m. m\<lparr>m_role := r\<rparr>) (members d)) = Some m"
    if "p \<in> set (projects d)" "member_of d (p_id p) (p_owner p) = Some m" for p m
  proof -
    have "\<not> (p_id p = pid \<and> p_owner p = u)" using assms(2) that(1) by (auto simp: not_owner_of_def)
    then show ?thesis using that(2)
      by (subst find_upd_where) (auto simp: member_of_def find_Some_iff)
  qed
  have "map member_key (upd_where q (\<lambda>m. m\<lparr>m_role := r\<rparr>) ms) = map member_key ms" for q ms
    by (rule map_upd_where) (simp add: member_key_def)
  then show "distinct (map member_key (upd_where (\<lambda>m. m_project m = pid \<and> m_user m = u)
      (\<lambda>m. m\<lparr>m_role := r\<rparr>) (members d)))"
    using assms(1) by (simp add: integrity_def)
qed

lemma integrity_remove_member:
  assumes "integrity d" "not_owner_of d pid u"
  shows "integrity (d\<lparr>members := filter (\<lambda>m. m_project m = pid \<longrightarrow> m_user m \<noteq> u) (members d)\<rparr>)"
proof (rule integrity_members [OF assms(1)])
  show "valid_member d m" if "m \<in> set (filter (\<lambda>m. m_project m = pid \<longrightarrow> m_user m \<noteq> u) (members d))" for m
    using that assms(1) by (auto simp: integrity_def)
  show "find (\<lambda>m. m_project m = p_id p \<and> m_user m = p_owner p)
      (filter (\<lambda>m. m_project m = pid \<longrightarrow> m_user m \<noteq> u) (members d)) = Some m"
    if "p \<in> set (projects d)" "member_of d (p_id p) (p_owner p) = Some m" for p m
  proof -
    have ne: "\<not> (p_id p = pid \<and> p_owner p = u)" using assms(2) that(1) by (auto simp: not_owner_of_def)
    show ?thesis using that(2) ne by (subst find_filter) (auto simp: member_of_def)
  qed
  show "distinct (map member_key (filter (\<lambda>m. m_project m = pid \<longrightarrow> m_user m \<noteq> u) (members d)))"
    using assms(1) by (simp add: integrity_def distinct_map_filter)
qed

lemma integrity_upsert_member:
  assumes "upsert_member pid u role t d = (r, d')" "integrity d" "not_owner_of d pid u"
  shows "integrity d'"
  using assms integrity_change_role [OF assms(2,3)]
    integrity_add_member [OF assms(2), of "\<lparr>m_project = pid, m_user = u, m_role = role, m_created = t\<rparr>"]
  by (auto simp: upsert_member_def valid_member_def user_by_id_None split: if_splits)

lemma integrity_upd_member_role:
  "upd_member_role pid u role t d = (r, d') \<Longrightarrow> integrity d \<Longrightarrow> not_owner_of d pid u \<Longrightarrow> integrity d'"
  by (auto simp: upd_member_role_def integrity_change_role split: if_splits)

lemma integrity_del_member:
  "del_member pid u t d = (r, d') \<Longrightarrow> integrity d \<Longrightarrow> not_owner_of d pid u \<Longrightarrow> integrity d'"
  by (auto simp: del_member_def integrity_remove_member)

lemma integrity_ins_invite:
  assumes "ins_invite pid iv phone role h e i t d = (r, d')" "integrity d" "phoneRe phone"
    "\<not> phone_is_member pid phone d"
  shows "integrity d'"
proof -
  have "owner_phone_free d (new_invite pid iv phone role h e i t)"
    unfolding owner_phone_free_def
  proof (intro ballI impI)
    fix p x assume p: "p \<in> set (projects d)" "p_id p = i_project (new_invite pid iv phone role h e i t)"
      and x: "x \<in> set (users d)" "u_id x = p_owner p"
    have "valid_project d p" using assms(2) p(1) by (simp add: integrity_def)
    then obtain m where "member_of d (p_id p) (p_owner p) = Some m"
      by (auto simp: valid_project_def owner_member_def split: option.splits)
    then have "m \<in> set (members d)" "m_project m = pid" "m_user m = p_owner p"
      using p(2) by (auto dest!: member_of_Some simp: new_invite_def)
    with x assms(4) show "u_phone x \<noteq> Some (i_phone (new_invite pid iv phone role h e i t))"
      by (auto simp: phone_is_member_def list_ex_iff new_invite_def)
  qed
  with assms show ?thesis
    by (auto simp: ins_invite_def valid_invite_def new_invite_def intro!: integrity_add_invite
        split: if_splits)
qed

section \<open>Seats\<close>

text \<open>
  The seats a project takes from its owner's plan: members other than the owner and pending
  invitations.
\<close>

definition seats_within_plan :: "db \<Rightarrow> time \<Rightarrow> uuid \<Rightarrow> string \<Rightarrow> bool" where
  "seats_within_plan d t pid phone \<longleftrightarrow> (case live_project d pid of
     None \<Rightarrow> False
   | Some p \<Rightarrow> (case plan_of d (p_owner p) of
         None \<Rightarrow> False | Some pl \<Rightarrow> int (participants d t pid phone) \<le> pl_max_members pl))"

definition has_capacity :: "db \<Rightarrow> time \<Rightarrow> uuid \<Rightarrow> string \<Rightarrow> db \<Rightarrow> bool" where
  "has_capacity d t pid phone d1 \<longleftrightarrow> (\<exists>p s. live_project d pid = Some p
     \<and> sub_ensure t (p_owner p) d = Some (s, d1) \<and> sub_usable s
     \<and> int (participants d t pid phone) < pl_max_members (ss_plan s))"

lemma has_capacityI:
  "live_project d pid = Some p \<Longrightarrow> sub_ensure t (p_owner p) d = Some (s, d1) \<Longrightarrow> sub_usable s \<Longrightarrow>
   int (participants d t pid phone) < pl_max_members (ss_plan s) \<Longrightarrow> has_capacity d t pid phone d1"
  by (auto simp: has_capacity_def)

lemma has_capacity_frame:
  "has_capacity d t pid phone d1 \<Longrightarrow> \<exists>ss. d1 = d\<lparr>subscriptions := ss\<rparr>"
  by (auto simp: has_capacity_def dest: sub_ensure_frame)

lemma seats_after:
  assumes "has_capacity d t pid phone d1" "projects d' = projects d" "subscriptions d' = subscriptions d1"
    "participants d' t pid phone' \<le> Suc (participants d t pid phone)"
  shows "seats_within_plan d' t pid phone'"
proof -
  obtain p s where c: "live_project d pid = Some p" "sub_ensure t (p_owner p) d = Some (s, d1)"
    "int (participants d t pid phone) < pl_max_members (ss_plan s)"
    using assms(1) by (auto simp: has_capacity_def)
  have "live_project d' pid = Some p" using c(1) assms(2) by (simp add: live_project_def)
  moreover have "plan_of d' (p_owner p) = Some (ss_plan s)"
    using plan_of_sub_ensure [OF c(2)] plan_of_same [OF assms(3)] by simp
  ultimately show ?thesis using c(3) assms(4) by (simp add: seats_within_plan_def)
qed

lemma pending_after_revoke:
  "count_where (\<lambda>i. pending_invite t pid i \<and> i_phone i \<noteq> x)
     (upd_where (open_invite pid phone) (\<lambda>i. i\<lparr>i_revoked := Some t'\<rparr>) is)
   \<le> count_where (\<lambda>i. pending_invite t pid i \<and> i_phone i \<noteq> phone) is"
  unfolding count_where_upd_where
  by (rule count_where_mono) (auto simp: pending_invite_def open_invite_def split: if_splits)

lemma no_open_after_revoke:
  "count_where (open_invite pid phone)
     (upd_where (open_invite pid phone) (\<lambda>i. i\<lparr>i_revoked := Some t'\<rparr>) is) = 0"
  by (simp add: count_where_upd_where count_where_zero open_invite_def)

section \<open>Runs of the transactions\<close>

lemma wp_subscription_failure [wps]:
  "(\<And>s m. Q (Error s m) w) \<Longrightarrow> wp (subscription_failure e) Q w"
  unfolding subscription_failure_def by (intro wps)

lemma wp_assignMemberTx:
  assumes t: "txn w = Some (d, False)"
    and E: "\<And>s m w'. db w' = db w \<Longrightarrow> Q (Error s m) w'"
    and S: "\<And>d1 d2 n as w'. has_capacity d (now w) pid phone d1 \<Longrightarrow>
      ins_member pid target role (now w) d1 = (Row n, d2) \<Longrightarrow> n \<noteq> 0 \<Longrightarrow>
      db w' = (upd_revoke_invites pid phone (now w) d2)\<lparr>audits := as\<rparr> \<Longrightarrow>
      Q (Reply 200 (MemberAdded pid target role)) w'"
  shows "wp (assignMemberTx A actor pid phone role target) Q w"
  unfolding assignMemberTx_def
  apply (intro wps)
  apply (simp_all add: t)
  apply (auto intro!: E)
  apply (rule S; force intro: has_capacityI)
  done

lemma wp_inviteByToken:
  assumes E: "\<And>s m w'. members (db w') = members (db w) \<Longrightarrow> users (db w') = users (db w) \<Longrightarrow>
      projects (db w') = projects (db w) \<Longrightarrow>
      invites (db w') \<in> {invites (db w), invites (upd_revoke_invites pid phone (now w) (db w))} \<Longrightarrow>
      txn w' = None \<or> txn w' = txn w \<Longrightarrow> Q (Error s m) w'"
    and S: "\<And>d1 d2 tok h i r as w'. has_capacity (db w) (now w) pid phone d1 \<Longrightarrow>
      ins_invite pid actor phone role h (now w + projectInviteTTL) i (now w)
        (upd_revoke_invites pid phone (now w) d1) = (r, d2) \<Longrightarrow> r \<noteq> SqlErr \<Longrightarrow>
      db w' = d2\<lparr>audits := as\<rparr> \<Longrightarrow> txn w' = None \<Longrightarrow> (st_production_like A \<Longrightarrow> tok = None) \<Longrightarrow>
      Q (Reply 201 (Invited (projectInviteTTL div second) tok)) w'"
  shows "wp (inviteByToken A X actor pid phone role) Q w"
  unfolding inviteByToken_def newProjectInviteToken_def random_token_def
  apply (intro wps)
  apply (simp_all)
       apply (rule E; force dest!: sub_ensure_frame simp: upd_revoke_invites_def)+
  apply (intro conjI impI; rule S; (rule has_capacityI)?; auto)
  done

text \<open>Who the target of an immediate membership is.\<close>

lemma ins_member_new:
  assumes "ins_member pid u role t d = (Row n, d')" "n \<noteq> 0"
  shows "d' = d\<lparr>members := members d @ [\<lparr>m_project = pid, m_user = u, m_role = role, m_created = t\<rparr>]\<rparr>
    \<and> member_of d pid u = None"
  using assms by (auto simp: ins_member_def split: if_splits)

lemma assign_effect:
  assumes "has_capacity d t pid phone d1" "ins_member pid u role t d1 = (Row n, d2)" "n \<noteq> 0"
    "d' = (upd_revoke_invites pid phone t d2)\<lparr>audits := as\<rparr>" "integrity d"
    "isAssignableProjectRole role"
  shows "integrity d'" "member_of d' pid u = Some \<lparr>m_project = pid, m_user = u, m_role = role, m_created = t\<rparr>"
    "count_where (open_invite pid phone) (invites d') = 0" "seats_within_plan d' t pid []"
proof -
  obtain ss where d1: "d1 = d\<lparr>subscriptions := ss\<rparr>" using has_capacity_frame [OF assms(1)] by blast
  let ?m = "\<lparr>m_project = pid, m_user = u, m_role = role, m_created = t\<rparr>"
  have d2: "d2 = d\<lparr>subscriptions := ss, members := members d @ [?m]\<rparr>" "member_of d pid u = None"
    using ins_member_new [OF assms(2,3)] by (auto simp: d1 member_of_def)
  have "integrity d2" using integrity_ins_member [OF assms(2)] assms(5) by (simp add: d1)
  then show "integrity d'" by (simp add: assms(4))
  show "member_of d' pid u = Some ?m"
    using d2 by (simp add: assms(4) upd_revoke_invites_def member_of_def find_append)
  show "count_where (open_invite pid phone) (invites d') = 0"
    by (simp add: assms(4) upd_revoke_invites_def no_open_after_revoke)
  show "seats_within_plan d' t pid []"
  proof (rule seats_after [OF assms(1)])
    have "pl_max_members pl \<ge> 0 \<Longrightarrow> True" for pl by simp
    show "participants d' t pid [] \<le> Suc (participants d t pid phone)"
      using pending_after_revoke [of t pid "[]" phone t "invites d"]
      by (simp add: participants_def assms(4) upd_revoke_invites_def d2(1))
  qed (simp_all add: assms(4) upd_revoke_invites_def d2(1) d1)
qed

lemma phone_is_member_frame [simp]:
  "phone_is_member pid ph (upd_revoke_invites pid' ph' t d) = phone_is_member pid ph d"
  "phone_is_member pid ph (d\<lparr>subscriptions := ss\<rparr>) = phone_is_member pid ph d"
  by (simp_all add: phone_is_member_def upd_revoke_invites_def)

lemma invite_effect:
  assumes "has_capacity d t pid phone d1"
    "ins_invite pid actor phone role h e i t (upd_revoke_invites pid phone t d1) = (r, d2)"
    "r \<noteq> SqlErr" "d' = d2\<lparr>audits := as\<rparr>" "integrity d" "phoneRe phone" "\<not> phone_is_member pid phone d"
  shows "integrity d'" "members d' = members d" "count_where (open_invite pid phone) (invites d') = 1"
    "seats_within_plan d' t pid []"
proof -
  obtain ss where d1: "d1 = d\<lparr>subscriptions := ss\<rparr>" using has_capacity_frame [OF assms(1)] by blast
  let ?i = "new_invite pid actor phone role h e i t"
  have d2: "d2 = d\<lparr>subscriptions := ss, invites :=
      upd_where (open_invite pid phone) (\<lambda>i. i\<lparr>i_revoked := Some t\<rparr>) (invites d) @ [?i]\<rparr>"
    using assms(2,3) by (auto simp: ins_invite_def upd_revoke_invites_def d1 split: if_splits)
  have "integrity d2"
    by (rule integrity_ins_invite [OF assms(2) _ assms(6)]) (use assms(5,7) in \<open>simp_all add: d1\<close>)
  then show "integrity d'" by (simp add: assms(4))
  show "members d' = members d" by (simp add: assms(4) d2)
  show "count_where (open_invite pid phone) (invites d') = 1"
    by (simp add: assms(4) d2 no_open_after_revoke open_invite_def new_invite_def)
  show "seats_within_plan d' t pid []"
  proof (rule seats_after [OF assms(1)])
    show "participants d' t pid [] \<le> Suc (participants d t pid phone)"
      using pending_after_revoke [of t pid "[]" phone t "invites d"]
      by (simp add: participants_def assms(4) d2)
  qed (simp_all add: assms(4) d2 d1)
qed


text \<open>The error answers of the invitation: membership, users and projects stay as they are.\<close>

definition invite_post :: "app_state \<Rightarrow> uuid \<Rightarrow> string \<Rightarrow> string \<Rightarrow> world \<Rightarrow> team_payload resp \<Rightarrow> world \<Rightarrow> bool" where
  "invite_post A pid phone role w resp w' \<longleftrightarrow> txn w' = None \<and> integrity (db w') \<and> (case resp of
       Error s m \<Rightarrow> members (db w') = members (db w)
     | Reply s x \<Rightarrow> isAssignableProjectRole role \<and> seats_within_plan (db w') (now w) pid [] \<and>
         (case x of
           MemberAdded p target ro \<Rightarrow> s = 200 \<and> p = pid \<and> ro = role
             \<and> member_of (db w) pid target = None
             \<and> member_of (db w') pid target = Some \<lparr>m_project = pid, m_user = target, m_role = role, m_created = now w\<rparr>
             \<and> count_where (open_invite pid phone) (invites (db w')) = 0
         | Invited secs tok \<Rightarrow> s = 201 \<and> members (db w') = members (db w)
             \<and> count_where (open_invite pid phone) (invites (db w')) = 1
             \<and> (if st_production_like A then tok = None else True)
         | _ \<Rightarrow> False))"

lemma invite_post_assign:
  assumes "has_capacity (db w) (now w) pid phone d1" "ins_member pid target role (now w) d1 = (Row n, d2)"
    "n \<noteq> 0" "db w' = (upd_revoke_invites pid phone (now w) d2)\<lparr>audits := as\<rparr>" "txn w' = None"
    "integrity (db w)" "isAssignableProjectRole role"
  shows "invite_post A pid phone role w (Reply 200 (MemberAdded pid target role)) w'"
proof -
  obtain ss where "d1 = (db w)\<lparr>subscriptions := ss\<rparr>" using has_capacity_frame [OF assms(1)] by blast
  then have "member_of (db w) pid target = None"
    using ins_member_new [OF assms(2,3)] by (simp add: member_of_def)
  then show ?thesis using assign_effect [OF assms(1-4,6,7)] assms(5,7) by (simp add: invite_post_def)
qed

lemma invite_post_token:
  assumes "has_capacity (db w) (now w) pid phone d1"
    "ins_invite pid actor phone role h e i (now w) (upd_revoke_invites pid phone (now w) d1) = (r, d2)"
    "r \<noteq> SqlErr" "db w' = d2\<lparr>audits := as\<rparr>" "txn w' = None" "integrity (db w)"
    "isAssignableProjectRole role" "phoneRe phone" "\<not> phone_is_member pid phone (db w)"
    "st_production_like A \<Longrightarrow> tok = None"
  shows "invite_post A pid phone role w (Reply 201 (Invited secs tok)) w'"
  using invite_effect [OF assms(1-4,6,8,9)] assms(5,7,10) by (simp add: invite_post_def)

lemma integrity_invites_subset:
  assumes "integrity d" "invites d' \<in> {invites d, invites (upd_revoke_invites pid phone t d)}"
    "members d' = members d" "users d' = users d" "projects d' = projects d"
  shows "integrity d'"
proof -
  have "integrity (d\<lparr>invites := invites d'\<rparr>)"
    using assms(1,2) integrity_revoke [OF assms(1), of pid phone t]
    by (auto simp: upd_revoke_invites_def)
  then show ?thesis using assms(3-)
    by (simp add: integrity_def valid_invite_def owner_phone_free_def valid_project_def
        valid_member_def owner_member_def member_of_def)
qed

lemma invite_post_error:
  assumes "members (db w') = members (db w)" "users (db w') = users (db w)"
    "projects (db w') = projects (db w)" "txn w' = None" "integrity (db w)"
    "invites (db w') \<in> {invites (db w), invites (upd_revoke_invites pid phone (now w) (db w))}"
  shows "invite_post A pid phone role w (Error s m) w'"
  using assms integrity_invites_subset [OF assms(5,6)] by (simp add: invite_post_def)

lemma wp_CreateProjectInvite:
  assumes "txn w = None" "integrity (db w)"
  shows "wp (CreateProjectInvite A X r) (\<lambda>resp w'. case decode_invite r of
      None \<Rightarrow> txn w' = None \<and> db w' = db w \<and> \<not> is_reply resp
    | Some q \<Rightarrow> (is_reply resp \<longrightarrow> allowed (db w) (userIDFromContext r) (trim_space (fst q)) PermissionManage) \<and>
        invite_post A (trim_space (fst q)) (normalizePhone (fst (snd q))) (to_lower (trim_space (snd (snd q))))
         w resp w') w"
  unfolding CreateProjectInvite_def
  apply (intro wps wp_assignMemberTx wp_inviteByToken)
  apply (simp_all add: assms split: option.splits)
  apply (auto intro!: invite_post_error intro: invite_post_assign invite_post_token simp: assms)
  done


text \<open>Acceptance.\<close>

definition accept_post :: "externals \<Rightarrow> uuid \<Rightarrow> string \<Rightarrow> world \<Rightarrow> team_payload resp \<Rightarrow> world \<Rightarrow> bool" where
  "accept_post X u token w resp w' \<longleftrightarrow> txn w' = None \<and> integrity (db w') \<and> (case resp of
       Error s m \<Rightarrow> db w' = db w
     | Reply s x \<Rightarrow> s = 200 \<and> (case find (\<lambda>i. i_hash i = x_sha256 X token \<and> i_accepted i = None
           \<and> i_revoked i = None \<and> now w < i_expires i) (invites (db w)) of
         None \<Rightarrow> False
       | Some i \<Rightarrow> x = InviteAccepted (i_project i) (i_role i)
           \<and> map_option u_phone (user_by_id (db w) u) = Some (Some (i_phone i))
           \<and> map_option m_role (member_of (db w') (i_project i) u) = Some (i_role i)
           \<and> filter (\<lambda>j. i_id j = i_id i \<and> i_accepted j = None) (invites (db w')) = []
           \<and> seats_within_plan (db w') (now w) (i_project i) (i_phone i)))"

lemma wp_acceptInviteTx:
  assumes "txn w = Some (d, False)" 
    and E: "\<And>s m w'. db w' = db w \<Longrightarrow> Q (Error s m) w'"
    and S: "\<And>i x d1 d2 r as w'. sel_invite (x_sha256 X token) (now w) d = Row i \<Longrightarrow>
      user_by_id d u = Some x \<Longrightarrow> normalizePhone (or_empty (u_phone x)) = normalizePhone (i_phone i) \<Longrightarrow>
      has_capacity d (now w) (i_project i) (i_phone i) d1 \<Longrightarrow>
      upsert_member (i_project i) u (i_role i) (now w) d1 = (r, d2) \<Longrightarrow> r \<noteq> SqlErr \<Longrightarrow>
      db w' = (upd_accept_invite (i_id i) (now w) d2)\<lparr>audits := as\<rparr> \<Longrightarrow>
      Q (Reply 200 (InviteAccepted (i_project i) (i_role i))) w'"
  shows "wp (acceptInviteTx A X u token) Q w"
  unfolding acceptInviteTx_def hashProjectInviteToken_def
  apply (intro wps)
  apply (simp_all add: assms(1) row_of_def split: option.splits)
  apply (auto intro!: E)
  apply (rule S; force intro: has_capacityI)+
  done


lemma count_members_upsert:
  assumes "upsert_member pid u role t d = (r, d')" "r \<noteq> SqlErr" "integrity d"
  shows "count_where P (members d') \<le> Suc (count_where P (members d))"
    "map_option m_role (member_of d' pid u) = Some role" "\<exists>ms. d' = d\<lparr>members := ms\<rparr>"
proof -
  have "count_where P (upd_where (\<lambda>m. m_project m = pid \<and> m_user m = u) f (members d)) \<le> Suc (count_where P (members d))" for f
    by (rule count_where_upd_one [of member_key _ _ "(pid, u)"]) (use assms(3) in \<open>auto simp: integrity_def member_key_def\<close>)
  then show "count_where P (members d') \<le> Suc (count_where P (members d))"
    using assms(1,2) by (auto simp: upsert_member_def split: if_splits)
  show "map_option m_role (member_of d' pid u) = Some role"
  proof (cases "member_of d pid u")
    case None
    then show ?thesis using assms(1,2)
      by (auto simp: upsert_member_def member_of_def find_append split: if_splits)
  next
    case (Some m)
    then have "m_project m = pid \<and> m_user m = u" using member_of_Some by blast
    with Some show ?thesis using assms(1,2)
      by (auto simp: upsert_member_def member_of_def find_upd_where split: if_splits)
  qed
  show "\<exists>ms. d' = d\<lparr>members := ms\<rparr>"
    using assms(1,2) by (auto simp: upsert_member_def split: if_splits)
qed

lemma accept_effect:
  assumes "integrity (db w)" "sel_invite (x_sha256 X token) (now w) (db w) = Row i"
    "user_by_id (db w) u = Some x" "normalizePhone (or_empty (u_phone x)) = normalizePhone (i_phone i)"
    "has_capacity (db w) (now w) (i_project i) (i_phone i) d1"
    "upsert_member (i_project i) u (i_role i) (now w) d1 = (r, d2)" "r \<noteq> SqlErr"
    "db w' = (upd_accept_invite (i_id i) (now w) d2)\<lparr>audits := as\<rparr>" "txn w' = None"
  shows "accept_post X u token w (Reply 200 (InviteAccepted (i_project i) (i_role i))) w'"
proof -
  obtain ss where d1: "d1 = (db w)\<lparr>subscriptions := ss\<rparr>" using has_capacity_frame [OF assms(5)] by blast
  have i1: "integrity d1" using assms(1) by (simp add: d1)
  obtain ms where d2: "d2 = d1\<lparr>members := ms\<rparr>" using count_members_upsert(3) [OF assms(6,7) i1] by blast
  have f: "find (\<lambda>i. i_hash i = x_sha256 X token \<and> i_accepted i = None
      \<and> i_revoked i = None \<and> now w < i_expires i) (invites (db w)) = Some i"
    using assms(2) by (simp add: sel_invite_def row_of_def split: option.splits)
  then have mem: "i \<in> set (invites (db w))" by (auto simp: find_Some_iff)
  then have "phoneRe (i_phone i)" using assms(1) by (simp add: integrity_def valid_invite_def)
  moreover obtain ph where ph: "u_phone x = Some ph" "phoneRe ph"
    using assms(1) user_by_id_Some [OF assms(3)]
    by (auto simp: integrity_def valid_user_def split: option.splits)
  ultimately have eq: "u_phone x = Some (i_phone i)"
    using assms(4) by (simp add: normalizePhone_id or_empty_def)
  have no: "not_owner_of d1 (i_project i) u"
    using not_owner_by_phone [OF assms(1) mem refl assms(3) eq] by (simp add: not_owner_of_def d1)
  have "integrity (db w')"
    using integrity_upsert_member [OF assms(6) i1 no] assms(8) by simp
  moreover have "seats_within_plan (db w') (now w) (i_project i) (i_phone i)"
  proof (rule seats_after [OF assms(5)])
    have "count_where (\<lambda>j. pending_invite (now w) (i_project i) j \<and> i_phone j \<noteq> i_phone i) (invites (db w'))
        \<le> count_where (\<lambda>j. pending_invite (now w) (i_project i) j \<and> i_phone j \<noteq> i_phone i) (invites (db w))"
      unfolding assms(8) upd_accept_invite_def
      by (simp add: d1 d2) (rule count_where_upd_mono, simp add: pending_invite_def)
    moreover have "count_where (\<lambda>m. m_project m = i_project i \<and> m_role m \<noteq> ''owner'') (members (db w'))
        \<le> Suc (count_where (\<lambda>m. m_project m = i_project i \<and> m_role m \<noteq> ''owner'') (members (db w)))"
      using count_members_upsert(1) [OF assms(6,7) i1,
          of "\<lambda>m. m_project m = i_project i \<and> m_role m \<noteq> ''owner''"]
      by (simp add: assms(8) upd_accept_invite_def d1 d2)
    ultimately show "participants (db w') (now w) (i_project i) (i_phone i) \<le>
        Suc (participants (db w) (now w) (i_project i) (i_phone i))"
      by (simp add: participants_def)
  qed (simp_all add: assms(8) upd_accept_invite_def d2 d1)
  moreover have "map_option m_role (member_of (db w') (i_project i) u) = Some (i_role i)"
    using count_members_upsert(2) [OF assms(6,7) i1]
    by (simp add: assms(8) upd_accept_invite_def member_of_def)
  moreover have "filter (\<lambda>j. i_id j = i_id i \<and> i_accepted j = None) (invites (db w')) = []"
    by (auto simp add: assms(8) upd_accept_invite_def filter_empty_conv upd_where_def)
  ultimately show ?thesis
    using f eq assms(3,9) by (simp add: accept_post_def)
qed

lemma wp_AcceptProjectInvite:
  assumes "txn w = None" "integrity (db w)"
  shows "wp (AcceptProjectInvite A X r) (\<lambda>resp w'. case decode_accept r of
      None \<Rightarrow> txn w' = None \<and> db w' = db w \<and> \<not> is_reply resp
    | Some raw \<Rightarrow> accept_post X (userIDFromContext r) (trim_space raw) w resp w') w"
proof -
  have err: "db w' = db w \<Longrightarrow> txn w' = None \<Longrightarrow> accept_post X u token w (Error s m) w'" for u token s m w'
    using assms(2) by (simp add: accept_post_def)
  show ?thesis unfolding AcceptProjectInvite_def
    apply (intro wps wp_acceptInviteTx)
    apply (simp_all add: assms split: option.splits)
    apply (auto intro!: err intro: accept_effect simp: assms)
    done
qed


text \<open>Change and removal of a member.\<close>

lemma role_change_effect:
  "upd_member_role pid u role t d = (r, d') \<Longrightarrow> r \<noteq> SqlErr \<Longrightarrow> member_of d pid u = Some m \<Longrightarrow>
   member_of d' pid u = Some (m\<lparr>m_role := role\<rparr>)"
  using member_of_Some [of d pid u m]
  by (auto simp: upd_member_role_def member_of_def find_upd_where split: if_splits)

lemma del_member_effect:
  "del_member pid u t d = (r, d') \<Longrightarrow> member_of d' pid u = None"
  by (auto simp: del_member_def member_of_def find_None_iff)

definition member_post :: "uuid \<Rightarrow> uuid \<Rightarrow> world \<Rightarrow> team_payload resp \<Rightarrow> world \<Rightarrow> bool" where
  "member_post pid u w resp w' \<longleftrightarrow> integrity (db w') \<and> (case resp of
       Error s m \<Rightarrow> db w' = db w
     | Reply s x \<Rightarrow> s = 200 \<and> projects (db w') = projects (db w) \<and> (case member_of (db w) pid u of
         None \<Rightarrow> False
       | Some m \<Rightarrow> m_role m \<noteq> ''owner'' \<and> member_of (db w') pid u = (case x of
             MemberUpdated role \<Rightarrow> if isAssignableProjectRole role then Some (m\<lparr>m_role := role\<rparr>) else Some m
           | _ \<Rightarrow> None)))"

lemma member_post_update:
  assumes "integrity (db w)" "member_of (db w) pid u = Some m" "m_role m \<noteq> ''owner''"
    "upd_member_role pid u role t (db w) = (r, d)" "r \<noteq> SqlErr" "db w' = d\<lparr>audits := as\<rparr>"
    "isAssignableProjectRole role"
  shows "member_post pid u w (Reply 200 (MemberUpdated role)) w'"
  using assms integrity_upd_member_role [OF assms(4,1) not_owner_by_role [OF assms(1-3)]]
    role_change_effect [OF assms(4,5,2)]
  by (auto simp: member_post_def member_of_def upd_member_role_def split: if_splits)

lemma member_post_remove:
  assumes "integrity (db w)" "member_of (db w) pid u = Some m" "m_role m \<noteq> ''owner''"
    "del_member pid u t (db w) = (r, d)" "db w' = d\<lparr>audits := as\<rparr>"
  shows "member_post pid u w (Reply 200 MemberRemoved) w'"
  using assms integrity_del_member [OF assms(4,1) not_owner_by_role [OF assms(1-3)]]
    del_member_effect [OF assms(4)]
  by (auto simp: member_post_def member_of_def del_member_def)

lemma wp_ProjectMember:
  assumes "integrity (db w)"
  shows "wp (ProjectMember A r) (\<lambda>resp w'.
      (is_reply resp \<longrightarrow> allowed (db w) (userIDFromContext r)
         (trim_space (get_first (rq_query r) ''project_id'')) PermissionManage) \<and>
      member_post (trim_space (get_first (rq_query r) ''project_id''))
        (resourceIDFromPath (rq_path r) ''/api/v1/project-members/'') w resp w') w"
proof -
  have err: "db w' = db w \<Longrightarrow> member_post pid u w (Error s m) w'" for pid u s m w'
    using assms by (simp add: member_post_def)
  have none: "del_member pid u t d = (Row 0, d') \<Longrightarrow> d' = d"
    "del_member pid u t d = (NoRows, d') \<Longrightarrow> d' = d" for pid u t d d'
    by (cases d; auto simp: del_member_def count_where_zero filter_id_conv)+
  show ?thesis unfolding ProjectMember_def updateMember_def removeMember_def
    apply (intro wps)
    apply (simp_all add: assms row_of_def ProjectRoleOwner_def split: option.splits)
    apply (auto intro!: err intro: member_post_update member_post_remove simp: assms dest: none)
    done
qed

section \<open>Properties\<close>

text \<open>
  C5. Inviting a phone to a project: only who may manage the project succeeds. A registered phone
  becomes a member at once, with the assignable role asked for, and its open invitations are
  closed; another phone gets exactly one open invitation, whose token is not shown in a
  production-like environment. Seats stay within the owner's plan, a failed request changes no
  membership, and the integrity of the identity tables is preserved.
\<close>

theorem CreateProjectInvite_safe:
  assumes "integrity (db w)" "txn w = None"
  shows "case run_state (CreateProjectInvite A X r) w of (resp, w') \<Rightarrow>
     txn w' = None \<and> integrity (db w') \<and> (case resp of
       Error s m \<Rightarrow> members (db w') = members (db w)
     | Reply s x \<Rightarrow> (case decode_invite r of None \<Rightarrow> False | Some (p0, ph, ro) \<Rightarrow>
         let pid = trim_space p0; phone = normalizePhone ph; role = to_lower (trim_space ro) in
         allowed (db w) (userIDFromContext r) pid PermissionManage
         \<and> isAssignableProjectRole role \<and> seats_within_plan (db w') (now w) pid []
         \<and> (case x of
             MemberAdded p target ro' \<Rightarrow> s = 200 \<and> p = pid \<and> ro' = role \<and> member_of (db w) pid target = None
               \<and> member_of (db w') pid target =
                   Some \<lparr>m_project = pid, m_user = target, m_role = role, m_created = now w\<rparr>
               \<and> count_where (open_invite pid phone) (invites (db w')) = 0
           | Invited secs tok \<Rightarrow> s = 201 \<and> members (db w') = members (db w)
               \<and> count_where (open_invite pid phone) (invites (db w')) = 1
               \<and> (if st_production_like A then tok = None else True)
           | _ \<Rightarrow> False)))"
  using wp_CreateProjectInvite [OF assms(2,1), of A X r] assms
  by (auto simp: wp_def invite_post_def Let_def split: prod.splits option.splits resp.splits team_payload.splits)

definition s_invite :: "string \<Rightarrow> request" where
  "s_invite ph = s_req ''POST'' ''/api/v1/project-invites'' (JObj [(''project_id'', JStr ''p1''),
     (''phone'', JStr ph), (''role'', JStr ''manager'')])"

theorem CreateProjectInvite_safe_witness:
  "case run_state (CreateProjectInvite s_app s_ext (s_invite s_phone2)) s_team of (resp, w') \<Rightarrow>
     resp = Reply 200 (MemberAdded ''p1'' ''u2'' ''manager'') \<and> integrity (db w')
     \<and> map_option m_role (member_of (db w') ''p1'' ''u2'') = Some ''manager''"
proof -
  have "fst (run_state (CreateProjectInvite s_app s_ext (s_invite s_phone2)) s_team)
      = Reply 200 (MemberAdded ''p1'' ''u2'' ''manager'')" by code_simp
  then show ?thesis
    using CreateProjectInvite_safe [OF s_team_integrity, where A = s_app and X = s_ext and r = "s_invite s_phone2"]
    by (auto simp: Let_def split: prod.splits option.splits)
qed

text \<open>
  C6. Accepting an invitation: a failed request changes nothing. A successful one found an
  unexpired invitation, neither accepted nor revoked, with the digest of the token and exactly the
  phone of the caller; the caller becomes a member with the invited role, the invitation cannot be
  used again, the seats stay within the owner's plan, and integrity is preserved.
\<close>

theorem AcceptProjectInvite_safe:
  assumes "integrity (db w)" "txn w = None"
  shows "case run_state (AcceptProjectInvite A X r) w of (resp, w') \<Rightarrow>
     txn w' = None \<and> integrity (db w') \<and> (case resp of
       Error s m \<Rightarrow> db w' = db w
     | Reply s x \<Rightarrow> s = 200 \<and> (case find (\<lambda>i. map_option (\<lambda>t. x_sha256 X (trim_space t)) (decode_accept r)
             = Some (i_hash i) \<and> i_accepted i = None \<and> i_revoked i = None \<and> now w < i_expires i)
           (invites (db w)) of
         None \<Rightarrow> False
       | Some i \<Rightarrow> x = InviteAccepted (i_project i) (i_role i)
           \<and> map_option u_phone (user_by_id (db w) (userIDFromContext r)) = Some (Some (i_phone i))
           \<and> map_option m_role (member_of (db w') (i_project i) (userIDFromContext r)) = Some (i_role i)
           \<and> filter (\<lambda>j. i_id j = i_id i \<and> i_accepted j = None) (invites (db w')) = []
           \<and> seats_within_plan (db w') (now w) (i_project i) (i_phone i)))"
proof -
  have eq: "(x_sha256 X t = i_hash i) = (i_hash i = x_sha256 X t)" for t i by auto
  show ?thesis using wp_AcceptProjectInvite [OF assms(2,1), of A X r] assms
    by (auto simp: wp_def accept_post_def eq split: prod.splits option.splits resp.splits)
qed

definition s_accept :: request where
  "s_accept = s_as ''u2'' (s_req ''POST'' ''/api/v1/project-invites/accept''
     (JObj [(''invite_token'', JStr '' tok '')]))"

theorem AcceptProjectInvite_safe_witness:
  "case run_state (AcceptProjectInvite s_app s_ext s_accept) s_team of (resp, w') \<Rightarrow>
     resp = Reply 200 (InviteAccepted ''p1'' ''worker'') \<and> integrity (db w')
     \<and> map_option m_role (member_of (db w') ''p1'' ''u2'') = Some ''worker''"
proof -
  have "fst (run_state (AcceptProjectInvite s_app s_ext s_accept) s_team)
      = Reply 200 (InviteAccepted ''p1'' ''worker'')" by code_simp
  moreover have "userIDFromContext s_accept = ''u2''" by code_simp
  ultimately show ?thesis
    using AcceptProjectInvite_safe [OF s_team_integrity, where A = s_app and X = s_ext and r = s_accept]
    by (auto split: prod.splits option.splits)
qed

text \<open>
  C7. Changing or removing a member: only who may manage the project succeeds, the owner is never
  changed or removed, a failed request changes nothing, a changed member has the new role, a
  removed one is no member any more, and integrity (so the owner's membership) is preserved.
\<close>

theorem ProjectMember_safe:
  assumes "integrity (db w)"
  shows "case run_state (ProjectMember A r) w of (resp, w') \<Rightarrow> integrity (db w') \<and> (case resp of
       Error s m \<Rightarrow> db w' = db w
     | Reply s x \<Rightarrow> (let pid = trim_space (get_first (rq_query r) ''project_id'');
             u = resourceIDFromPath (rq_path r) ''/api/v1/project-members/'' in
         s = 200 \<and> allowed (db w) (userIDFromContext r) pid PermissionManage
         \<and> (case member_of (db w) pid u of
             None \<Rightarrow> False
           | Some m \<Rightarrow> m_role m \<noteq> ''owner'' \<and> member_of (db w') pid u = (case x of
               MemberUpdated role \<Rightarrow> if isAssignableProjectRole role then Some (m\<lparr>m_role := role\<rparr>) else Some m
             | _ \<Rightarrow> None))))"
  using wp_ProjectMember [OF assms, of A r]
  by (auto simp: wp_def member_post_def Let_def split: prod.splits resp.splits option.splits)

definition s_promote :: request where
  "s_promote = s_query [(''project_id'', ''p1'')] (s_req ''PATCH'' ''/api/v1/project-members/u3''
     (JObj [(''role'', JStr ''manager'')]))"

theorem ProjectMember_safe_witness:
  "case run_state (ProjectMember s_app s_promote) s_team of (resp, w') \<Rightarrow>
     resp = Reply 200 (MemberUpdated ''manager'') \<and> integrity (db w')
     \<and> allowed (db s_team) ''u1'' ''p1'' PermissionManage"
proof -
  have "fst (run_state (ProjectMember s_app s_promote) s_team) = Reply 200 (MemberUpdated ''manager'')"
    by code_simp
  moreover have "userIDFromContext s_promote = ''u1''"
    "trim_space (get_first (rq_query s_promote) ''project_id'') = ''p1''" by code_simp+
  ultimately show ?thesis
    using ProjectMember_safe [OF s_team_integrity(1), where A = s_app and r = s_promote]
    by (auto simp: Let_def split: prod.splits option.splits)
qed

end
