(* ===== verification/Login.thy ===== *)
theory Login
  imports Team_Facts Sessions
begin

text \<open>
  Login by SMS code (\<open>internal/httpapi/auth.go\<close>): issuing and delivering a code, verifying it,
  creating the account, applying the invitations that wait for the phone, and the bearer token
  check in front of the handlers.
\<close>

datatype login_payload = CodeRequested "string option"
  | Verified string time uuid

section \<open>Codes\<close>

definition developmentSMSCode :: string where "developmentSMSCode = ''111111''"

definition isReviewPhone :: "app_state \<Rightarrow> string \<Rightarrow> bool" where
  "isReviewPhone A phone =
     (if \<not> st_review_only A then False
      else let normalized = normalizePhone phone in
        if normalized = [] then False
        else if st_review_phone A \<noteq> [] \<and> normalized = st_review_phone A then True
        else list_ex (\<lambda>p. normalized = p) (st_review_phones A))"

definition isStagingTestPhone :: "app_state \<Rightarrow> string \<Rightarrow> bool" where
  "isStagingTestPhone A phone \<longleftrightarrow>
     st_staging A \<and> st_staging_phone A \<noteq> [] \<and> normalizePhone phone = st_staging_phone A"

definition developmentSMSFallbackEnabled :: "app_state \<Rightarrow> bool" where
  "developmentSMSFallbackEnabled A \<longleftrightarrow> st_development A \<and> st_dev_sms A \<and> \<not> st_sms_sender A"

text \<open>The value has 32 bits and \<open>int\<close> has 64, so it is never negative.\<close>

definition code_of_bytes :: "nat list \<Rightarrow> string" where
  "code_of_bytes bs = pad_nat 6 ((((bs ! 0 * 256 + bs ! 1) * 256 + bs ! 2) * 256 + bs ! 3) mod 1000000)"

definition generateSMSCode :: "(world, string option) state" where
  "generateSMSCode = do { bs \<leftarrow> rand_read 4; ret (map_option code_of_bytes bs) }"

definition issueSMSCode :: "app_state \<Rightarrow> (world, string option) state" where
  "issueSMSCode A =
     (if developmentSMSFallbackEnabled A then ret (Some developmentSMSCode) else generateSMSCode)"

definition issueSMSCodeForPhone :: "app_state \<Rightarrow> string \<Rightarrow> (world, string option) state" where
  "issueSMSCodeForPhone A phone =
     (if isReviewPhone A phone \<and> st_review_code A \<noteq> [] then ret (Some (st_review_code A))
      else if isStagingTestPhone A phone \<and> st_staging_code A \<noteq> [] then ret (Some (st_staging_code A))
      else issueSMSCode A)"

definition hashLoginCode :: "app_state \<Rightarrow> externals \<Rightarrow> string \<Rightarrow> string \<Rightarrow> string" where
  "hashLoginCode A X phone code = x_sha256 X (phone @ '':'' @ code @ '':'' @ st_jwt_secret A)"

section \<open>Requests\<close>

definition decode_request_code :: "request \<Rightarrow> string option" where
  "decode_request_code r = do {
     fs \<leftarrow> decode_body r;
     p \<leftarrow> str_field fs ''phone'';
     n \<leftarrow> str_field fs ''name'';
     Some p
   }"

definition verify_fields :: "(string \<times> json) list \<Rightarrow> (string \<times> string) option" where
  "verify_fields fs = do {
     p \<leftarrow> str_field fs ''phone'';
     c \<leftarrow> str_field fs ''code'';
     Some (p, c)
   }"

definition decode_verify :: "request \<Rightarrow> (string \<times> string) option" where
  "decode_verify r = Option.bind (decode_body r) verify_fields"

section \<open>Statements\<close>

definition new_code :: "string \<Rightarrow> string \<Rightarrow> time \<Rightarrow> uuid \<Rightarrow> time \<Rightarrow> code_row" where
  "new_code phone hash expires i t = \<lparr>c_id = i, c_phone = phone, c_hash = hash, c_expires = expires,
     c_attempts = 0, c_consumed = None, c_created = t\<rparr>"

definition ins_code :: "string \<Rightarrow> string \<Rightarrow> time \<Rightarrow> uuid \<Rightarrow> uuid sql" where
  "ins_code phone hash expires i t d =
     (if i \<in> c_id ` set (codes d) then (SqlErr, d)
      else (Row i, d\<lparr>codes := codes d @ [new_code phone hash expires i t]\<rparr>))"

definition del_code :: "uuid \<Rightarrow> time \<Rightarrow> db \<Rightarrow> db" where
  "del_code i t d = d\<lparr>codes := filter (\<lambda>c. c_id c \<noteq> i) (codes d)\<rparr>"

definition upd_older_codes :: "string \<Rightarrow> uuid \<Rightarrow> time \<Rightarrow> db \<Rightarrow> db" where
  "upd_older_codes phone keep t d = d\<lparr>codes := upd_where
     (\<lambda>c. c_phone c = phone \<and> c_id c \<noteq> keep \<and> c_consumed c = None) (\<lambda>c. c\<lparr>c_consumed := Some t\<rparr>) (codes d)\<rparr>"

definition live_code :: "time \<Rightarrow> string \<Rightarrow> code_row \<Rightarrow> bool" where
  "live_code t phone c \<longleftrightarrow> c_phone c = phone \<and> c_consumed c = None \<and> t < c_expires c"

text \<open>\<open>ORDER BY created_at DESC LIMIT 1\<close>\<close>

definition current_code :: "db \<Rightarrow> time \<Rightarrow> string \<Rightarrow> code_row option" where
  "current_code d t phone =
     (case sort_key (\<lambda>c. - c_created c) (filter (live_code t phone) (codes d)) of
        [] \<Rightarrow> None | c # _ \<Rightarrow> Some c)"

definition upd_code_attempt :: "uuid \<Rightarrow> time \<Rightarrow> db \<Rightarrow> db" where
  "upd_code_attempt i t d =
     d\<lparr>codes := upd_where (\<lambda>c. c_id c = i) (\<lambda>c. c\<lparr>c_attempts := c_attempts c + 1\<rparr>) (codes d)\<rparr>"

definition upd_consume_code :: "uuid \<Rightarrow> time \<Rightarrow> db \<Rightarrow> db" where
  "upd_consume_code i t d =
     d\<lparr>codes := upd_where (\<lambda>c. c_id c = i) (\<lambda>c. c\<lparr>c_consumed := Some t\<rparr>) (codes d)\<rparr>"

definition new_user :: "string \<Rightarrow> uuid \<Rightarrow> time \<Rightarrow> user_row" where
  "new_user phone i t = \<lparr>u_id = i, u_phone = Some phone, u_name = None, u_created = t, u_updated = t\<rparr>"

text \<open>\<open>INSERT INTO users ... ON CONFLICT (phone) DO UPDATE SET updated_at = now() RETURNING id\<close>\<close>

definition upsert_user :: "string \<Rightarrow> uuid \<Rightarrow> uuid sql" where
  "upsert_user phone i t d = (case user_by_phone d phone of
     Some x \<Rightarrow> (Row (u_id x), d\<lparr>users := upd_where (\<lambda>x. u_phone x = Some phone) (\<lambda>x. x\<lparr>u_updated := t\<rparr>) (users d)\<rparr>)
   | None \<Rightarrow>
       if i \<in> u_id ` set (users d) then (SqlErr, d)
       else (Row i, d\<lparr>users := users d @ [new_user phone i t]\<rparr>))"

definition waiting_invite :: "time \<Rightarrow> string \<Rightarrow> invite_row \<Rightarrow> bool" where
  "waiting_invite t phone i \<longleftrightarrow>
     i_phone i = phone \<and> i_accepted i = None \<and> i_revoked i = None \<and> t < i_expires i"

definition sel_waiting_invites :: "string \<Rightarrow> time \<Rightarrow> db \<Rightarrow> invite_row list" where
  "sel_waiting_invites phone t d = sort_key i_created (filter (waiting_invite t phone) (invites d))"

section \<open>Handlers\<close>

definition cleanupSMSCode :: "uuid \<Rightarrow> (world, unit) state" where
  "cleanupSMSCode i = do { _ \<leftarrow> exec Pool (del_code i); ret () }"

definition invalidateOlderSMSCodes :: "string \<Rightarrow> uuid \<Rightarrow> (world, unit) state" where
  "invalidateOlderSMSCodes phone keep = do { _ \<leftarrow> exec Pool (upd_older_codes phone keep); ret () }"

text \<open>\<open>SMSSender.SendLoginCode\<close>: the provider gets the message and reports success or failure.\<close>

definition sendLoginCode :: "string \<Rightarrow> string \<Rightarrow> (world, bool) state" where
  "sendLoginCode phone code = do {
     modify (\<lambda>w. w\<lparr>sms_log := sms_log w @ [(phone, code)]\<rparr>);
     extern_ok
   }"

definition finishCodeRequest :: "app_state \<Rightarrow> string \<Rightarrow> uuid \<Rightarrow> string \<Rightarrow> (world, login_payload resp) state" where
  "finishCodeRequest A phone i code = do {
     invalidateOlderSMSCodes phone i;
     reply 202 (CodeRequested (if developmentSMSFallbackEnabled A then Some code else None))
   }"

definition RequestSMSCode :: "app_state \<Rightarrow> externals \<Rightarrow> login_payload handler" where
  "RequestSMSCode A X r =
     (if rq_method r \<noteq> ''POST'' then methodNotAllowed
      else if \<not> st_db A then dbNotAvailable
      else (case decode_request_code r of
        None \<Rightarrow> fail 400 ''invalid JSON body''
      | Some raw \<Rightarrow>
          let phone = normalizePhone raw in
          if \<not> phoneRe phone then fail 400 ''invalid phone number''
          else do {
            let special = isReviewPhone A phone \<or> isStagingTestPhone A phone;
            c \<leftarrow> issueSMSCodeForPhone A phone;
            (case c of
               None \<Rightarrow> fail 500 ''failed to generate code''
             | Some code \<Rightarrow> do {
                 t \<leftarrow> read_now;
                 res \<leftarrow> insert_stmt Pool (ins_code phone (hashLoginCode A X phone code) (t + 5 * minute));
                 (case res of
                    NoRows \<Rightarrow> fail 500 ''failed to create login code''
                  | SqlErr \<Rightarrow> fail 500 ''failed to create login code''
                  | Row i \<Rightarrow>
                      if st_sms_sender A \<and> \<not> special then do {
                        ok \<leftarrow> sendLoginCode phone code;
                        if \<not> ok then do {
                          cleanupSMSCode i;
                          fail 502 ''failed to deliver login code''
                        } else finishCodeRequest A phone i code
                      }
                      else if \<not> special \<and> \<not> developmentSMSFallbackEnabled A then do {
                        cleanupSMSCode i;
                        fail 503 ''SMS service is unavailable''
                      }
                      else finishCodeRequest A phone i code)
               })
          }))"

text \<open>The loop over the waiting invitations; \<open>Some\<close> is the early return with an error.\<close>

fun applyInvites :: "uuid \<Rightarrow> invite_row list \<Rightarrow> (world, (int \<times> string) option) state" where
  "applyInvites u [] = ret None"
| "applyInvites u (i # is) = do {
     lim \<leftarrow> ensureProjectMemberCapacity (i_project i) (i_phone i);
     (case lim of
        Some e \<Rightarrow> (case subscriptionHTTPError e of
            Some sm \<Rightarrow> applyInvites u is
          | None \<Rightarrow> ret (Some (500, ''failed to enforce subscription limits'')))
      | None \<Rightarrow> do {
          m \<leftarrow> stmt Tx (ins_member (i_project i) u (i_role i));
          if m = SqlErr then ret (Some (500, ''failed to apply project invitation''))
          else do {
            a \<leftarrow> exec Tx (upd_accept_invite (i_id i));
            if a = SqlErr then ret (Some (500, ''failed to complete project invitation''))
            else do {
              _ \<leftarrow> audit Tx u (Some (i_project i)) ''accept_invite'' ''project_member'' (Some u)
                [(''role'', i_role i), (''source'', ''sms_login'')];
              applyInvites u is
            }
          }
        })
   }"

definition completeLoginTx ::
  "app_state \<Rightarrow> externals \<Rightarrow> string \<Rightarrow> uuid \<Rightarrow> (world, login_payload resp) state" where
  "completeLoginTx A X phone cid = do {
     us \<leftarrow> insert_stmt Tx (upsert_user phone);
     (case us of
        NoRows \<Rightarrow> fail 500 ''failed to create user''
      | SqlErr \<Rightarrow> fail 500 ''failed to create user''
      | Row u \<Rightarrow> do {
          rows \<leftarrow> query Tx (sel_waiting_invites phone);
          (case rows of
             QueryErr \<Rightarrow> fail 500 ''failed to load project invitations''
           | ScanErr \<Rightarrow> fail 500 ''failed to read project invitation''
           | RowsErr \<Rightarrow> fail 500 ''failed to read project invitations''
           | Rows is \<Rightarrow> do {
               e \<leftarrow> applyInvites u is;
               (case e of
                  Some sm \<Rightarrow> fail (fst sm) (snd sm)
                | None \<Rightarrow> do {
                    c \<leftarrow> exec Tx (upd_consume_code cid);
                    if c = SqlErr then fail 500 ''failed to complete login code''
                    else do {
                      ok \<leftarrow> tx_commit;
                      if \<not> ok then fail 500 ''failed to complete login''
                      else do {
                        tok \<leftarrow> signAccessToken A X u;
                        (case tok of
                           None \<Rightarrow> fail 500 ''failed to sign token''
                         | Some a \<Rightarrow> reply 200 (Verified a (st_token_ttl A div second) u))
                      }
                    }
                  })
             })
        })
   }"

definition wrongCodeTx :: "uuid \<Rightarrow> (world, 'p resp) state" where
  "wrongCodeTx cid = do {
     a \<leftarrow> exec Tx (upd_code_attempt cid);
     if a = SqlErr then fail 503 ''login service is temporarily unavailable''
     else do {
       c \<leftarrow> tx_commit;
       if \<not> c then fail 503 ''login service is temporarily unavailable''
       else fail 401 ''invalid or expired code''
     }
   }"

definition checkCodeTx ::
  "app_state \<Rightarrow> externals \<Rightarrow> string \<Rightarrow> string \<Rightarrow> (uuid \<Rightarrow> (world, 'p resp) state) \<Rightarrow> (world, 'p resp) state" where
  "checkCodeTx A X phone code onMatch = do {
     c \<leftarrow> sel Tx (\<lambda>t d. row_of (current_code d t phone));
     (case c of
        NoRows \<Rightarrow> fail 401 ''invalid or expired code''
      | SqlErr \<Rightarrow> fail 503 ''login service is temporarily unavailable''
      | Row c \<Rightarrow>
          if 5 \<le> c_attempts c then fail 429 ''too many attempts''
          else if hashLoginCode A X phone code \<noteq> c_hash c then wrongCodeTx (c_id c)
          else onMatch (c_id c))
   }"

text \<open>The frame that \<open>VerifySMSCode\<close> and \<open>VerifyAccountDeletionSMSCode\<close> have in common.\<close>

definition verifyCode ::
  "app_state \<Rightarrow> externals \<Rightarrow> (string \<Rightarrow> uuid \<Rightarrow> (world, 'p resp) state) \<Rightarrow> 'p handler" where
  "verifyCode A X onMatch r =
     (if rq_method r \<noteq> ''POST'' then methodNotAllowed
      else if \<not> st_db A then dbNotAvailable
      else (case decode_verify r of
        None \<Rightarrow> fail 400 ''invalid JSON body''
      | Some pc \<Rightarrow>
          let phone = normalizePhone (fst pc); code = trim_space (snd pc) in
          if \<not> phoneRe phone \<or> length code \<noteq> 6 then fail 400 ''invalid phone or code''
          else do {
            b \<leftarrow> tx_begin;
            if \<not> b then fail 503 ''login service is temporarily unavailable''
            else defer_rollback (checkCodeTx A X phone code (onMatch phone))
          }))"

definition VerifySMSCode :: "app_state \<Rightarrow> externals \<Rightarrow> login_payload handler" where
  "VerifySMSCode A X = verifyCode A X (completeLoginTx A X)"

section \<open>The bearer token check\<close>

definition requireActiveAccount :: "app_state \<Rightarrow> uuid \<Rightarrow> (world, (int \<times> string) option) state" where
  "requireActiveAccount A u =
     (if \<not> accountIDRe u then ret (Some (401, ''invalid token''))
      else if \<not> st_db A then ret (Some (503, ''authentication service is unavailable''))
      else do {
        ex \<leftarrow> sel Pool (\<lambda>t d. Row (user_by_id d u \<noteq> None));
        ret (case ex of
            NoRows \<Rightarrow> Some (503, ''authentication service is unavailable'')
          | SqlErr \<Rightarrow> Some (503, ''authentication service is unavailable'')
          | Row e \<Rightarrow> if e then None else Some (401, ''invalid token''))
      })"

definition requireAuth :: "app_state \<Rightarrow> externals \<Rightarrow> 'p handler \<Rightarrow> 'p handler" where
  "requireAuth A X nxt r =
     (let header = get_first (rq_headers r) ''Authorization'' in
      if \<not> has_prefix ''Bearer '' header then fail 401 ''missing bearer token''
      else do {
        t \<leftarrow> read_now;
        (case parseAccessToken A X t (trim_prefix ''Bearer '' header) of
           None \<Rightarrow> fail 401 ''invalid token''
         | Some u \<Rightarrow> do {
             bad \<leftarrow> requireActiveAccount A u;
             (case bad of
                Some sm \<Rightarrow> fail (fst sm) (snd sm)
              | None \<Rightarrow> nxt (withUserID r u))
           })
      })"

definition optionalAuth :: "app_state \<Rightarrow> externals \<Rightarrow> 'p handler \<Rightarrow> 'p handler" where
  "optionalAuth A X nxt r =
     (if trim_space (get_first (rq_headers r) ''Authorization'') = [] then nxt r
      else requireAuth A X nxt r)"

text \<open>
  The check for an empty account in \<open>requireSubscribed\<close> never fires: \<open>parseAccessToken\<close> does not
  accept an empty subject.
\<close>

definition requireSubscribed :: "app_state \<Rightarrow> externals \<Rightarrow> 'p handler \<Rightarrow> 'p handler" where
  "requireSubscribed A X nxt =
     requireAuth A X (\<lambda>r. do {
       bad \<leftarrow> requireCurrentSubscription A (userIDFromContext r);
       (case bad of
          Some sm \<Rightarrow> fail (fst sm) (snd sm)
        | None \<Rightarrow> nxt r)
     })"

end
