(* ===== verification/Netip.thy ===== *)
theory Netip
  imports Prelude
begin

text \<open>
  The parts of Go's \<open>net\<close> and \<open>net/netip\<close> that decide which client an SMS request is counted
  against: parsing of addresses and prefixes, their rendering, and \<open>SplitHostPort\<close>. An address is
  its numeric value, an IPv6 address also has a zone.
\<close>

datatype ip = IPv4 int | IPv6 int string

section \<open>Scanning strings\<close>

fun index_of :: "char \<Rightarrow> string \<Rightarrow> nat option" where
  "index_of d [] = None"
| "index_of d (c # cs) = (if c = d then Some 0 else map_option Suc (index_of d cs))"

definition last_index_of :: "char \<Rightarrow> string \<Rightarrow> nat option" where
  "last_index_of d s = map_option (\<lambda>i. length s - Suc i) (index_of d (rev s))"

definition digit_of :: "char \<Rightarrow> int" where
  "digit_of c = byte c - 48"

definition hex_val :: "char \<Rightarrow> int" where
  "hex_val c = (if is_digit c then digit_of c else if is_lower c then byte c - 87 else byte c - 55)"

definition dec_value :: "string \<Rightarrow> int" where
  "dec_value s = foldl (\<lambda>v c. v * 10 + digit_of c) 0 s"

definition hex_value :: "string \<Rightarrow> int" where
  "hex_value s = foldl (\<lambda>v c. v * 16 + hex_val c) 0 s"

section \<open>Parsing addresses\<close>

text \<open>One decimal field: digits without a leading zero, at most 255.\<close>

definition parse_octet :: "string \<Rightarrow> int option" where
  "parse_octet s = (if s \<noteq> [] \<and> list_all is_digit s \<and> (length s = 1 \<or> hd s \<noteq> CHR ''0'') \<and> dec_value s \<le> 255
     then Some (dec_value s) else None)"

definition parse_v4 :: "string \<Rightarrow> int option" where
  "parse_v4 s = (case map parse_octet (split_on CHR ''.'' s) of
     [Some a, Some b, Some c, Some d] \<Rightarrow> Some (((a * 256 + b) * 256 + c) * 256 + d)
   | _ \<Rightarrow> None)"

text \<open>
  The loop of \<open>parseIPv6\<close> over the groups: \<open>gs\<close> are the 16-bit groups read so far, \<open>e\<close> is the place
  of the ellipsis. The result has the groups and the ellipsis; eight groups at most.
\<close>

function v6_groups :: "int list \<Rightarrow> nat option \<Rightarrow> string \<Rightarrow> (int list \<times> nat option) option" where
  "v6_groups gs e s =
     (if 8 \<le> length gs then (if s = [] then Some (gs, e) else None)
      else let h = takeWhile is_hex s; rest = dropWhile is_hex s in
        if h = [] \<or> 4 < length h then None
        else if rest \<noteq> [] \<and> hd rest = CHR ''.'' then
          (if (e = None \<and> length gs \<noteq> 6) \<or> 6 < length gs then None
           else case parse_v4 s of None \<Rightarrow> None
             | Some v \<Rightarrow> Some (gs @ [v div 65536, v mod 65536], e))
        else let gs' = gs @ [hex_value h] in
          if rest = [] then Some (gs', e)
          else if hd rest \<noteq> CHR '':'' \<or> length rest = 1 then None
          else if hd (tl rest) = CHR '':'' then
            (if e \<noteq> None then None
             else if tl (tl rest) = [] then Some (gs', Some (length gs'))
             else v6_groups gs' (Some (length gs')) (tl (tl rest)))
          else v6_groups gs' e (tl rest))"
  by pat_completeness auto
termination
  by (relation "measure (\<lambda>(gs, e, s). 8 - length gs)") auto

declare v6_groups.simps [simp del]

text \<open>Expanding the ellipsis.\<close>

definition v6_expand :: "int list \<times> nat option \<Rightarrow> int list option" where
  "v6_expand ge = (case ge of (gs, e) \<Rightarrow>
     (if length gs < 8 then (case e of None \<Rightarrow> None
        | Some k \<Rightarrow> Some (take k gs @ replicate (8 - length gs) 0 @ drop k gs))
      else if e = None then Some gs else None))"

definition v6_number :: "int list \<Rightarrow> int" where
  "v6_number gs = foldl (\<lambda>v g. v * 65536 + g) 0 gs"

definition parse_v6 :: "string \<Rightarrow> ip option" where
  "parse_v6 s0 = (let
     sz = (case index_of CHR ''%'' s0 of None \<Rightarrow> Some (s0, [])
       | Some i \<Rightarrow> if drop (Suc i) s0 = [] then None else Some (take i s0, drop (Suc i) s0))
   in case sz of None \<Rightarrow> None
    | Some (s, zone) \<Rightarrow>
        if has_prefix ''::'' s \<and> drop 2 s = [] then Some (IPv6 0 zone)
        else map_option (\<lambda>gs. IPv6 (v6_number gs) zone) (Option.bind
          (if has_prefix ''::'' s then v6_groups [] (Some 0) (drop 2 s) else v6_groups [] None s) v6_expand))"

definition ParseAddr :: "string \<Rightarrow> ip option" where
  "ParseAddr s = (case find (\<lambda>c. c \<in> {CHR ''.'', CHR '':'', CHR ''%''}) s of
     None \<Rightarrow> None
   | Some c \<Rightarrow> if c = CHR ''.'' then map_option IPv4 (parse_v4 s)
       else if c = CHR '':'' then parse_v6 s else None)"

section \<open>Addresses\<close>

definition zone_of :: "ip \<Rightarrow> string" where
  "zone_of a = (case a of IPv4 n \<Rightarrow> [] | IPv6 n z \<Rightarrow> z)"

definition without_zone :: "ip \<Rightarrow> ip" where
  "without_zone a = (case a of IPv4 n \<Rightarrow> IPv4 n | IPv6 n z \<Rightarrow> IPv6 n [])"

text \<open>\<open>Unmap\<close>: an IPv4-mapped IPv6 address as the IPv4 address.\<close>

definition unmap :: "ip \<Rightarrow> ip" where
  "unmap a = (case a of IPv4 n \<Rightarrow> IPv4 n
   | IPv6 n z \<Rightarrow> if n div 2 ^ 32 = 0xFFFF then IPv4 (n mod 2 ^ 32) else IPv6 n z)"

definition show_byte :: "int \<Rightarrow> string" where
  "show_byte n = show_nat (nat (n mod 256))"

definition v4_string :: "int \<Rightarrow> string" where
  "v4_string n = show_byte (n div 2 ^ 24) @ ''.'' @ show_byte (n div 2 ^ 16) @ ''.''
     @ show_byte (n div 2 ^ 8) @ ''.'' @ show_byte n"

definition v6_of :: "int \<Rightarrow> int list" where
  "v6_of n = map (\<lambda>i. n div 2 ^ (16 * (7 - i)) mod 65536) [0..<8]"

definition hex_char :: "int \<Rightarrow> char" where
  "hex_char d = (if d < 10 then char_of (48 + d) else char_of (87 + d))"

definition hex_byte :: "nat \<Rightarrow> string" where
  "hex_byte b = [hex_char (int b div 16), hex_char (int b mod 16)]"

function show_hex :: "int \<Rightarrow> string" where
  "show_hex n = (if n < 16 then [hex_char n] else show_hex (n div 16) @ [hex_char (n mod 16)])"
  by pat_completeness auto
termination
  by (relation "measure nat") auto

declare show_hex.simps [simp del]

text \<open>The first longest run of at least two zero groups, as start and end.\<close>

definition zero_run :: "int list \<Rightarrow> nat \<times> nat" where
  "zero_run gs = foldl (\<lambda>(a, b) i. let l = length (takeWhile (\<lambda>g. g = 0) (drop i gs)) in
     if 2 \<le> l \<and> b - a < l then (i, i + l) else (a, b)) (255, 255) [0..<8]"

definition join_hex :: "int list \<Rightarrow> string" where
  "join_hex gs = (case map show_hex gs of [] \<Rightarrow> [] | h # hs \<Rightarrow> h @ concat (map (\<lambda>x. CHR '':'' # x) hs))"

definition v6_string :: "int \<Rightarrow> string" where
  "v6_string n = (let gs = v6_of n in case zero_run gs of (a, b) \<Rightarrow>
     if a = 255 then join_hex gs else join_hex (take a gs) @ ''::'' @ join_hex (drop b gs))"

definition addr_string :: "ip \<Rightarrow> string" where
  "addr_string a = (case a of IPv4 n \<Rightarrow> v4_string n
   | IPv6 n z \<Rightarrow> (if n div 2 ^ 32 = 0xFFFF then ''::ffff:'' @ v4_string (n mod 2 ^ 32) else v6_string n)
       @ (if z = [] then [] else CHR ''%'' # z))"

section \<open>Prefixes\<close>

definition bit_len :: "ip \<Rightarrow> int" where
  "bit_len a = (case a of IPv4 n \<Rightarrow> 32 | IPv6 n z \<Rightarrow> 128)"

definition ParsePrefix :: "string \<Rightarrow> (ip \<times> nat) option" where
  "ParsePrefix s = (case last_index_of CHR ''/'' s of None \<Rightarrow> None
   | Some i \<Rightarrow> (case ParseAddr (take i s) of None \<Rightarrow> None
     | Some a \<Rightarrow>
         if zone_of a \<noteq> [] then None
         else if 1 < length (drop (Suc i) s) \<and> (byte (s ! Suc i) < 49 \<or> 57 < byte (s ! Suc i)) then None
         else if drop (Suc i) s = [] \<or> \<not> list_all is_digit (drop (Suc i) s) \<or> bit_len a < dec_value (drop (Suc i) s)
         then None
         else Some (a, nat (dec_value (drop (Suc i) s)))))"

definition prefix_contains :: "ip \<times> nat \<Rightarrow> ip \<Rightarrow> bool" where
  "prefix_contains p a = (case (p, a) of
     ((IPv4 n, b), IPv4 m) \<Rightarrow> n div 2 ^ (32 - b) = m div 2 ^ (32 - b)
   | ((IPv6 n _, b), IPv6 m z) \<Rightarrow> z = [] \<and> n div 2 ^ (128 - b) = m div 2 ^ (128 - b)
   | _ \<Rightarrow> False)"

section \<open>Host and port\<close>

text \<open>\<open>SplitHostPort\<close>: the host, when the text has the form \<open>host:port\<close> or \<open>[host]:port\<close>.\<close>

definition split_host :: "string \<Rightarrow> string option" where
  "split_host s = (case last_index_of CHR '':'' s of None \<Rightarrow> None
   | Some i \<Rightarrow>
       if hd s = CHR ''['' then
         (case index_of CHR '']'' s of None \<Rightarrow> None
          | Some e \<Rightarrow> if Suc e \<noteq> i \<or> CHR ''['' \<in> set (drop 1 s) \<or> CHR '']'' \<in> set (drop (Suc e) s) then None
              else Some (drop 1 (take e s)))
       else if CHR '':'' \<in> set (take i s) \<or> CHR ''['' \<in> set s \<or> CHR '']'' \<in> set s then None
       else Some (take i s))"

section \<open>Printing and parsing IPv4 addresses\<close>

lemma split_on_no: "d \<notin> set s \<Longrightarrow> split_on d s = [s]"
  by (induction s) auto

lemma split_on_append: "d \<notin> set s \<Longrightarrow> split_on d (s @ d # t) = s # split_on d t"
  by (induction s) auto

lemma show_byte_digits: "c \<in> set (show_byte n) \<Longrightarrow> is_digit c"
  by (auto simp: show_byte_def dest: show_nat_digits)

lemma digit_of_char: "d < 10 \<Longrightarrow> digit_of (digit_char d) = int d"
  by (simp add: digit_of_def digit_char_def byte_def)

lemma dec_value_show: "dec_value (show_nat n) = int n"
proof (induction n rule: show_nat.induct)
  case (1 n)
  have "dec_value (s @ [c]) = dec_value s * 10 + digit_of c" for s c by (simp add: dec_value_def)
  moreover have "dec_value [digit_char n] = int n" if "n < 10"
    using digit_of_char [OF that] by (simp add: dec_value_def)
  moreover have "digit_of (digit_char (n mod 10)) = int (n mod 10)" by (rule digit_of_char) simp
  moreover have "int (n div 10) * 10 + int (n mod 10) = int n" by presburger
  ultimately show ?case using "1" by (cases "n < 10") (simp_all add: show_nat.simps [of n])
qed

lemma show_nat_lead: "length (show_nat n) = 1 \<or> hd (show_nat n) \<noteq> CHR ''0''"
proof (induction n rule: show_nat.induct)
  case (1 n)
  show ?case
  proof (cases "n < 10")
    case True
    then show ?thesis by (simp add: show_nat.simps [of n])
  next
    case False
    then have ih: "length (show_nat (n div 10)) = 1 \<or> hd (show_nat (n div 10)) \<noteq> CHR ''0''" using "1" by simp
    have ne: "show_nat (n div 10) \<noteq> []" by (simp add: show_nat.simps [of "n div 10"])
    have "hd (show_nat (n div 10)) \<noteq> CHR ''0''"
    proof (cases "n div 10 < 10")
      case True
      then have "digit_of (digit_char (n div 10)) \<noteq> digit_of CHR ''0''"
        using False digit_of_char [OF True] by (simp add: digit_of_def byte_def)
      then show ?thesis using True by (auto simp: show_nat.simps [of "n div 10"])
    next
      case False
      then have "length (show_nat (n div 10)) \<noteq> 1"
        using show_nat.simps [of "n div 10"] show_nat.simps [of "n div 10 div 10"] by simp
      with ih show ?thesis by simp
    qed
    then show ?thesis using False ne by (simp add: show_nat.simps [of n])
  qed
qed

lemma parse_octet_byte: "parse_octet (show_byte n) = Some (n mod 256)"
proof -
  have "show_byte n \<noteq> []" by (simp add: show_byte_def show_nat.simps [of "nat (n mod 256)"])
  moreover have "list_all is_digit (show_byte n)" using show_byte_digits by (simp add: list_all_iff)
  moreover have "dec_value (show_byte n) = n mod 256" by (simp add: show_byte_def dec_value_show)
  moreover have "n mod 256 < 256" by simp
  ultimately show ?thesis using show_nat_lead [of "nat (n mod 256)"]
    by (auto simp: parse_octet_def show_byte_def)
qed

lemma parse_v4_string:
  assumes "0 \<le> n" "n < 2 ^ 32" shows "parse_v4 (v4_string n) = Some n"
proof -
  have dot: "CHR ''.'' \<notin> set (show_byte m)" for m
    using show_byte_digits [of "CHR ''.''" m] by (auto simp: is_digit_def byte_def)
  have sum: "((z * 256 + b) * 256 + c) * 256 + d = n"
    if "y = z * 256 + b" "x = y * 256 + c" "n = x * 256 + d" for x y z b c d using that by simp
  have split: "m div k = (m div (k * 256)) * 256 + m div k mod 256" for m k :: int
    using div_mult_mod_eq [of "m div k" 256] by (simp add: zdiv_zmult2_eq)
  have p: "(2::int) ^ 16 * 256 = 2 ^ 24" "(2::int) ^ 8 * 256 = 2 ^ 16" "(1::int) * 256 = 2 ^ 8" by simp_all
  have "n div 2 ^ 24 < 256" using assms(2) by simp
  then have top: "n div 2 ^ 24 mod 256 = n div 2 ^ 24"
    using assms(1) by (intro mod_pos_pos_trivial) (simp_all add: pos_imp_zdiv_nonneg_iff)
  have e1: "n div 2 ^ 16 = (n div 2 ^ 24 mod 256) * 256 + n div 2 ^ 16 mod 256"
    using split [of n "2 ^ 16"] unfolding top p(1) .
  have e2: "n div 2 ^ 8 = (n div 2 ^ 16) * 256 + n div 2 ^ 8 mod 256"
    using split [of n "2 ^ 8"] unfolding p(2) .
  have e3: "n = (n div 2 ^ 8) * 256 + n mod 256"
    using split [of n 1] unfolding p(3) div_by_1 .
  have "(((n div 2 ^ 24 mod 256) * 256 + n div 2 ^ 16 mod 256) * 256 + n div 2 ^ 8 mod 256) * 256 + n mod 256 = n"
    by (rule sum [OF e1 e2 e3])
  moreover have sp: "split_on CHR ''.'' (v4_string n) = [show_byte (n div 2 ^ 24), show_byte (n div 2 ^ 16), show_byte (n div 2 ^ 8), show_byte n]"
    by (simp only: v4_string_def append.simps append_assoc split_on_append split_on_no dot not_False_eq_True)
  moreover have "parse_v4 (v4_string n) = Some ((((n div 2 ^ 24 mod 256) * 256 + n div 2 ^ 16 mod 256) * 256 + n div 2 ^ 8 mod 256) * 256 + n mod 256)"
    unfolding parse_v4_def sp by (simp only: list.map parse_octet_byte list.case option.case)
  ultimately show ?thesis by (simp only:)
qed

lemma ParseAddr_v4: "0 \<le> n \<Longrightarrow> n < 2 ^ 32 \<Longrightarrow> ParseAddr (v4_string n) = Some (IPv4 n)"
proof -
  assume n: "0 \<le> n" "n < 2 ^ 32"
  have "find (\<lambda>c. c \<in> {CHR ''.'', CHR '':'', CHR ''%''}) (show_byte m @ CHR ''.'' # t) = Some CHR ''.''" for m t
  proof -
    have "find (\<lambda>c. c \<in> {CHR ''.'', CHR '':'', CHR ''%''}) (show_byte m) = None"
      using show_byte_digits [of _ m] by (fastforce simp: find_None_iff is_digit_def byte_def)
    then show ?thesis by (simp add: find_append)
  qed
  then show ?thesis using parse_v4_string [OF n] by (simp add: ParseAddr_def v4_string_def)
qed

end
