(* ===== verification/Auth_Attempts.thy ===== *)
theory Auth_Attempts
  imports Login Netip
begin

text \<open>
  The rate limits in front of the SMS routes (\<open>internal/httpapi/auth_abuse.go\<close> and
  \<open>sms_rate_limit.go\<close>): the key of the client, the reservation of an attempt, the two wrappers,
  and the removal of old records.
\<close>

section \<open>Constants\<close>

definition verifyAttemptWindow :: time where "verifyAttemptWindow = 15 * minute"
definition maxVerifyAttemptsPhone :: int where "maxVerifyAttemptsPhone = 10"
definition maxVerifyAttemptsRemote :: int where "maxVerifyAttemptsRemote = 30"
definition authAttemptRetention :: time where "authAttemptRetention = 7 * 24 * hour"
definition smsCodeRetention :: time where "smsCodeRetention = 24 * hour"
definition authAttemptPruneEvery :: time where "authAttemptPruneEvery = 6 * hour"
definition authAttemptPruneRetry :: time where "authAttemptPruneRetry = 15 * minute"
definition authAttemptPruneBatch :: nat where "authAttemptPruneBatch = 5000"
definition smsRequestCooldown :: time where "smsRequestCooldown = 45 * second"
definition smsHourlyLimit :: int where "smsHourlyLimit = 6"
definition smsRequestRemoteHourlyLimit :: int where "smsRequestRemoteHourlyLimit = 30"

lemmas limit_defs = verifyAttemptWindow_def maxVerifyAttemptsPhone_def maxVerifyAttemptsRemote_def
  smsRequestCooldown_def smsHourlyLimit_def smsRequestRemoteHourlyLimit_def

section \<open>The key of the client\<close>

definition isTrustedProxy :: "app_state \<Rightarrow> ip \<Rightarrow> bool" where
  "isTrustedProxy A addr = list_ex (\<lambda>s. let v = trim_space s in
     (case ParsePrefix v of
        Some p \<Rightarrow> prefix_contains p addr
      | None \<Rightarrow> (case ParseAddr v of None \<Rightarrow> False | Some a \<Rightarrow> unmap a = addr))) (st_proxies A)"

definition parseRemoteAddress :: "string \<Rightarrow> ip option" where
  "parseRemoteAddress remoteAddr =
     (let v = trim_space remoteAddr;
          h = (case split_host v of None \<Rightarrow> v | Some h \<Rightarrow> h)
      in map_option (\<lambda>a. unmap (without_zone a)) (ParseAddr h))"

definition forwarded_addr :: "string \<Rightarrow> ip option" where
  "forwarded_addr s = (case ParseAddr (trim_space s) of None \<Rightarrow> None
     | Some a \<Rightarrow> if zone_of a \<noteq> [] then None else Some (unmap a))"

definition forwarded :: "request \<Rightarrow> ip list option" where
  "forwarded r = those (map forwarded_addr
     (concat (map (split_on CHR '','') (get_values (rq_headers r) ''X-Forwarded-For''))))"

definition requestRemoteKey :: "app_state \<Rightarrow> request \<Rightarrow> string option" where
  "requestRemoteKey A r = (case parseRemoteAddress (rq_remote r) of
     None \<Rightarrow> None
   | Some remote \<Rightarrow>
       if \<not> isTrustedProxy A remote then Some (addr_string remote)
       else (case forwarded r of
           None \<Rightarrow> None
         | Some fs \<Rightarrow> if fs = [] then None
             else map_option addr_string (find (\<lambda>a. \<not> isTrustedProxy A a) (rev (fs @ [remote])))))"

section \<open>Reserving an attempt\<close>

datatype reservation = Reserved nat | RetryAfter time | ReserveErr

text \<open>\<open>sort.Strings\<close> on the one or two lock keys.\<close>

fun str_less :: "string \<Rightarrow> string \<Rightarrow> bool" where
  "str_less s [] = False"
| "str_less [] (c # cs) = True"
| "str_less (c # cs) (d # ds) = (byte c < byte d \<or> (c = d \<and> str_less cs ds))"

definition lockKeys :: "string \<Rightarrow> string \<Rightarrow> string \<Rightarrow> string list" where
  "lockKeys action phone remote =
     (let rk = ''auth-attempt:'' @ action @ '':remote:'' @ remote;
          pk = ''auth-attempt:'' @ action @ '':phone:'' @ phone
      in if phone = [] then [rk] else if str_less pk rk then [pk, rk] else [rk, pk])"

text \<open>
  \<open>pg_advisory_xact_lock\<close>: two reservations that share a key do not run at the same time, which
  in this model is so for all handlers; the call itself can fail.
\<close>

fun lockAll :: "string list \<Rightarrow> (world, bool) state" where
  "lockAll [] = ret True"
| "lockAll (k # ks) = do {
     r \<leftarrow> exec Tx (\<lambda>t d. d);
     if r = SqlErr then ret False else lockAll ks
   }"

text \<open>\<open>phone IN (NULLIF($2, ''), '+' || NULLIF($2, ''))\<close>\<close>

definition attempt_phone :: "string \<Rightarrow> attempt_row \<Rightarrow> bool" where
  "attempt_phone p a \<longleftrightarrow> p \<noteq> [] \<and> (a_phone a = Some p \<or> a_phone a = Some (CHR ''+'' # p))"

definition recent_attempts :: "string \<Rightarrow> time \<Rightarrow> time \<Rightarrow> db \<Rightarrow> attempt_row list" where
  "recent_attempts action win t d =
     filter (\<lambda>a. a_action a = action \<and> t - win div second * second < a_created a) (attempts d)"

definition latest_of :: "time list \<Rightarrow> time" where
  "latest_of ts = (case ts of [] \<Rightarrow> 0 | t # us \<Rightarrow> foldl max t us)"

definition sel_attempts :: "string \<Rightarrow> string \<Rightarrow> string \<Rightarrow> time \<Rightarrow> time \<Rightarrow> db \<Rightarrow> nat \<times> nat \<times> time" where
  "sel_attempts remote phone action win t d =
     (let as = filter (\<lambda>a. a_remote a = remote \<or> attempt_phone phone a) (recent_attempts action win t d)
      in (count_where (\<lambda>a. a_remote a = remote) as, count_where (attempt_phone phone) as,
          latest_of (map a_created (filter (attempt_phone phone) as))))"

definition new_attempt :: "string \<Rightarrow> string \<Rightarrow> string \<Rightarrow> nat \<Rightarrow> time \<Rightarrow> attempt_row" where
  "new_attempt phone remote action i t = \<lparr>a_id = i, a_phone = (if phone = [] then None else Some phone),
     a_remote = remote, a_action = action, a_succeeded = False, a_created = t\<rparr>"

definition ins_attempt :: "string \<Rightarrow> string \<Rightarrow> string \<Rightarrow> nat sql" where
  "ins_attempt phone remote action t d = (Row (attempt_seq d),
     d\<lparr>attempts := attempts d @ [new_attempt phone remote action (attempt_seq d) t],
       attempt_seq := attempt_seq d + 1\<rparr>)"

definition reserveTx ::
  "string \<Rightarrow> string \<Rightarrow> string \<Rightarrow> time \<Rightarrow> int \<Rightarrow> int \<Rightarrow> time \<Rightarrow> (world, reservation) state" where
  "reserveTx action phone remote win phoneLimit remoteLimit cooldown = do {
     l \<leftarrow> lockAll (lockKeys action phone remote);
     if \<not> l then ret ReserveErr
     else do {
       c \<leftarrow> sel Tx (\<lambda>t d. Row (sel_attempts remote phone action win t d));
       (case c of
          NoRows \<Rightarrow> ret ReserveErr
        | SqlErr \<Rightarrow> ret ReserveErr
        | Row (remoteCount, phoneCount, latest) \<Rightarrow> do {
            t \<leftarrow> read_now;
            if 0 < cooldown \<and> phone \<noteq> [] \<and> 0 < latest div second \<and> 0 < latest + cooldown - t
            then ret (RetryAfter (latest + cooldown - t))
            else if 0 < remoteLimit \<and> remoteLimit \<le> int remoteCount then ret (RetryAfter win)
            else if 0 < phoneLimit \<and> phone \<noteq> [] \<and> phoneLimit \<le> int phoneCount then ret (RetryAfter win)
            else do {
              r \<leftarrow> stmt Tx (ins_attempt phone remote action);
              (case r of
                 NoRows \<Rightarrow> ret ReserveErr
               | SqlErr \<Rightarrow> ret ReserveErr
               | Row i \<Rightarrow> do {
                   ok \<leftarrow> tx_commit;
                   ret (if ok then Reserved i else ReserveErr)
                 })
            }
          })
     }
   }"

definition reserveAuthAttempt ::
  "string \<Rightarrow> string \<Rightarrow> string \<Rightarrow> time \<Rightarrow> int \<Rightarrow> int \<Rightarrow> time \<Rightarrow> (world, reservation) state" where
  "reserveAuthAttempt action phone remote win phoneLimit remoteLimit cooldown = do {
     b \<leftarrow> tx_begin;
     if \<not> b then ret ReserveErr
     else defer_rollback (reserveTx action phone remote win phoneLimit remoteLimit cooldown)
   }"

definition upd_attempt :: "nat \<Rightarrow> bool \<Rightarrow> time \<Rightarrow> db \<Rightarrow> db" where
  "upd_attempt i ok t d =
     d\<lparr>attempts := upd_where (\<lambda>a. a_id a = i) (\<lambda>a. a\<lparr>a_succeeded := ok\<rparr>) (attempts d)\<rparr>"

definition completeAuthAttempt :: "nat \<Rightarrow> bool \<Rightarrow> (world, unit) state" where
  "completeAuthAttempt i ok = do { _ \<leftarrow> exec Pool (upd_attempt i ok); ret () }"

section \<open>Removing old records\<close>

definition expired_attempts :: "time \<Rightarrow> nat \<Rightarrow> time \<Rightarrow> db \<Rightarrow> nat list" where
  "expired_attempts keep batch t d = take batch (map a_id
     (sort_key a_id (filter (\<lambda>a. a_created a < t - keep div second * second) (attempts d))))"

definition del_expired_attempts :: "time \<Rightarrow> nat \<Rightarrow> nat sql" where
  "del_expired_attempts keep batch t d = (let ids = expired_attempts keep batch t d in
     (Row (count_where (\<lambda>a. a_id a \<in> set ids) (attempts d)),
      d\<lparr>attempts := filter (\<lambda>a. a_id a \<notin> set ids) (attempts d)\<rparr>))"

definition expired_codes :: "time \<Rightarrow> nat \<Rightarrow> time \<Rightarrow> db \<Rightarrow> uuid list" where
  "expired_codes keep batch t d = take batch (map c_id
     (sort_key c_expires (filter (\<lambda>c. c_expires c < t - keep div second * second) (codes d))))"

definition del_expired_codes :: "time \<Rightarrow> nat \<Rightarrow> nat sql" where
  "del_expired_codes keep batch t d = (let ids = expired_codes keep batch t d in
     (Row (count_where (\<lambda>c. c_id c \<in> set ids) (codes d)),
      d\<lparr>codes := filter (\<lambda>c. c_id c \<notin> set ids) (codes d)\<rparr>))"

text \<open>
  The loop, with fuel: \<open>None\<close> when the fuel is used up, otherwise whether it ended without an
  error. \<open>pruneAuthHistory\<close> starts each loop with one unit more than its table has rows.
\<close>

fun deleteExpiredAuthRows :: "nat \<Rightarrow> nat sql \<Rightarrow> (world, bool option) state" where
  "deleteExpiredAuthRows 0 q = ret None"
| "deleteExpiredAuthRows (Suc n) q = do {
     r \<leftarrow> stmt Pool q;
     (case r of
        NoRows \<Rightarrow> ret (Some False)
      | SqlErr \<Rightarrow> ret (Some False)
      | Row k \<Rightarrow> if k < authAttemptPruneBatch then ret (Some True) else deleteExpiredAuthRows n q)
   }"

definition table_size :: "(db \<Rightarrow> 'a list) \<Rightarrow> (world, nat) state" where
  "table_size f = State (\<lambda>w. (length (f (db w)), w))"

definition pruneAuthHistory :: "(world, bool option) state" where
  "pruneAuthHistory = do {
     n \<leftarrow> table_size attempts;
     a \<leftarrow> deleteExpiredAuthRows (Suc n) (del_expired_attempts authAttemptRetention authAttemptPruneBatch);
     if a \<noteq> Some True then ret a
     else do {
       m \<leftarrow> table_size codes;
       deleteExpiredAuthRows (Suc m) (del_expired_codes smsCodeRetention authAttemptPruneBatch)
     }
   }"

definition prune_due :: "world \<Rightarrow> bool" where
  "prune_due w \<longleftrightarrow> \<not> prune_running w \<and>
     (case last_prune w of None \<Rightarrow> True | Some l \<Rightarrow> authAttemptPruneEvery \<le> now w - l)"

definition read_due :: "(world, bool) state" where
  "read_due = State (\<lambda>w. (prune_due w, w))"

definition pruneAuthHistoryIfDue :: "app_state \<Rightarrow> (world, unit) state" where
  "pruneAuthHistoryIfDue A =
     (if \<not> st_db A then ret ()
      else do {
        due \<leftarrow> read_due;
        if \<not> due then ret ()
        else do {
          modify (\<lambda>w. w\<lparr>prune_running := True\<rparr>);
          r \<leftarrow> pruneAuthHistory;
          modify (\<lambda>w. w\<lparr>prune_running := False, last_prune := (if r = Some True then Some (now w) else last_prune w)\<rparr>)
        }
      })"

section \<open>The wrappers\<close>

definition guarded :: "app_state \<Rightarrow> nat \<Rightarrow> 'p handler \<Rightarrow> 'p handler" where
  "guarded A i nxt r = do {
     pruneAuthHistoryIfDue A;
     resp \<leftarrow> nxt r;
     completeAuthAttempt i (200 \<le> status_of resp \<and> status_of resp < 300);
     ret resp
   }"

definition withSMSVerifyRateLimit :: "app_state \<Rightarrow> 'p handler \<Rightarrow> 'p handler" where
  "withSMSVerifyRateLimit A nxt r =
     (if rq_method r \<noteq> ''POST'' then nxt r
      else if \<not> st_db A then dbNotAvailable
      else (case Option.bind (unmarshal_body r) verify_fields of
        None \<Rightarrow> fail 400 ''invalid JSON body''
      | Some pc \<Rightarrow>
          let phone0 = normalizePhone (fst pc);
              phone = (if phoneRe phone0 then smsRateLimitPhone phone0 else [])
          in (case requestRemoteKey A r of
            None \<Rightarrow> fail 400 ''invalid client address''
          | Some remote \<Rightarrow> do {
              res \<leftarrow> reserveAuthAttempt ''sms_verify'' phone remote verifyAttemptWindow
                maxVerifyAttemptsPhone maxVerifyAttemptsRemote 0;
              (case res of
                 ReserveErr \<Rightarrow> fail 503 ''login service is temporarily unavailable''
               | RetryAfter n \<Rightarrow> do {
                   set_header ''Retry-After'' (show_nat (nat (n div second)));
                   fail 429 ''too many verification attempts''
                 }
               | Reserved i \<Rightarrow> guarded A i nxt r)
            })))"

definition withSMSRequestRateLimit :: "app_state \<Rightarrow> 'p handler \<Rightarrow> 'p handler" where
  "withSMSRequestRateLimit A nxt r =
     (if rq_method r \<noteq> ''POST'' then nxt r
      else if \<not> st_db A then dbNotAvailable
      else (case Option.bind (unmarshal_body r) (\<lambda>fs. str_field fs ''phone'') of
        None \<Rightarrow> fail 400 ''invalid JSON body''
      | Some raw \<Rightarrow>
          let phone0 = normalizePhone (trim_space raw) in
          if \<not> phoneRe phone0 then nxt r
          else (case requestRemoteKey A r of
            None \<Rightarrow> fail 400 ''invalid client address''
          | Some remote \<Rightarrow> do {
              res \<leftarrow> reserveAuthAttempt ''sms_request'' (smsRateLimitPhone phone0) remote hour
                smsHourlyLimit smsRequestRemoteHourlyLimit smsRequestCooldown;
              (case res of
                 ReserveErr \<Rightarrow> fail 503 ''login service is temporarily unavailable''
               | RetryAfter n \<Rightarrow> do {
                   set_header ''Retry-After'' (show_nat (nat (max 1 (n div second))));
                   fail 429 ''too many code requests''
                 }
               | Reserved i \<Rightarrow> guarded A i nxt r)
            })))"

end
