(* ===== verification/Login_Facts.thy ===== *)
theory Login_Facts
  imports Login
begin

text \<open>
  What a login does: the account upsert and the waiting invitations keep the integrity of the
  identity tables and give away only the invited roles; the check of the code is bounded; a request
  issues exactly one live code; the token check guards the handlers behind it.
\<close>

section \<open>Statements and the integrity of the identity tables\<close>

lemma user_by_phone_Some: "user_by_phone d ph = Some x \<Longrightarrow> x \<in> set (users d) \<and> u_phone x = Some ph"
  by (auto simp: user_by_phone_def find_Some_iff)

text \<open>A change of the users that keeps who has which phone, and perhaps adds an account.\<close>

lemma integrity_users:
  assumes "integrity d" "u_id ` set (users d) \<subseteq> u_id ` set us"
    "\<And>x. x \<in> set us \<Longrightarrow> valid_user x"
    "\<And>x p. x \<in> set us \<Longrightarrow> p \<in> set (projects d) \<Longrightarrow> u_id x = p_owner p \<Longrightarrow>
      \<exists>y\<in>set (users d). u_id y = u_id x \<and> u_phone y = u_phone x"
  shows "integrity (d\<lparr>users := us\<rparr>)"
proof -
  have "owner_phone_free (d\<lparr>users := us\<rparr>) i" if "owner_phone_free d i" for i
    using that assms(4) unfolding owner_phone_free_def by fastforce
  then have "valid_invite (d\<lparr>users := us\<rparr>) i" if "valid_invite d i" for i
    using that by (auto simp: valid_invite_def)
  moreover have "valid_project (d\<lparr>users := us\<rparr>) p" if "valid_project d p" for p
    using that assms(2) by (auto simp: valid_project_def owner_member_def member_of_def)
  moreover have "valid_member (d\<lparr>users := us\<rparr>) m" if "valid_member d m" for m
    using that assms(2) by (auto simp: valid_member_def)
  ultimately show ?thesis using assms(1,3) by (simp add: integrity_def)
qed

lemma integrity_touch_user:
  assumes "integrity d"
  shows "integrity (d\<lparr>users := upd_where q (\<lambda>x. x\<lparr>u_updated := t\<rparr>) (users d)\<rparr>)"
proof (rule integrity_users [OF assms])
  let ?us = "upd_where q (\<lambda>x. x\<lparr>u_updated := t\<rparr>) (users d)"
  have "map u_id ?us = map u_id (users d)" by (rule map_upd_where) simp
  then show "u_id ` set (users d) \<subseteq> u_id ` set ?us" by (metis list.set_map subset_refl)
  have old: "\<exists>y\<in>set (users d). u_id y = u_id x \<and> u_phone y = u_phone x" if "x \<in> set ?us" for x
    using that unfolding set_upd_where by auto
  then show "valid_user x" if "x \<in> set ?us" for x
    using that assms by (fastforce simp: integrity_def valid_user_def)
  show "\<exists>y\<in>set (users d). u_id y = u_id x \<and> u_phone y = u_phone x"
    if "x \<in> set ?us" "p \<in> set (projects d)" "u_id x = p_owner p" for x p
    using old that(1) .
qed

abbreviation identities :: "db \<Rightarrow> (uuid \<times> string option) list" where
  "identities d \<equiv> map (\<lambda>x. (u_id x, u_phone x)) (users d)"

lemma upsert_user_Row:
  assumes "upsert_user ph i t d = (r, d')" "r \<noteq> SqlErr"
  obtains u ns where "r = Row u" "\<exists>us. d' = d\<lparr>users := us\<rparr>"
    "identities d' = identities d @ ns" "set ns \<subseteq> {(u, Some ph)}"
    "(u, Some ph) \<in> set (identities d')"
    "integrity d \<Longrightarrow> phoneRe ph \<Longrightarrow> integrity d'"
proof (cases "user_by_phone d ph")
  case None
  then have d': "r = Row i" "d' = d\<lparr>users := users d @ [new_user ph i t]\<rparr>" "i \<notin> u_id ` set (users d)"
    using assms by (auto simp: upsert_user_def split: if_splits)
  have "integrity d'" if "integrity d" "phoneRe ph"
    unfolding d'(2)
  proof (rule integrity_users [OF that(1)])
    show "valid_user x" if "x \<in> set (users d @ [new_user ph i t])" for x
      using that \<open>integrity d\<close> \<open>phoneRe ph\<close> by (auto simp: integrity_def valid_user_def new_user_def)
    show "\<exists>y\<in>set (users d). u_id y = u_id x \<and> u_phone y = u_phone x"
      if "x \<in> set (users d @ [new_user ph i t])" "p \<in> set (projects d)" "u_id x = p_owner p" for x p
    proof -
      have "p_owner p \<in> u_id ` set (users d)"
        using \<open>integrity d\<close> that(2) by (simp add: integrity_def valid_project_def)
      then show ?thesis using that(1,3) d'(3) by (auto simp: new_user_def)
    qed
  qed auto
  then show ?thesis using that [of i "[(i, Some ph)]"] d' by (auto simp: new_user_def)
next
  case (Some x)
  then have d': "r = Row (u_id x)"
    "d' = d\<lparr>users := upd_where (\<lambda>x. u_phone x = Some ph) (\<lambda>x. x\<lparr>u_updated := t\<rparr>) (users d)\<rparr>"
    using assms by (auto simp: upsert_user_def)
  have "identities d' = identities d" by (simp add: d'(2) map_upd_where)
  moreover have "(u_id x, Some ph) \<in> set (identities d)"
    using user_by_phone_Some [OF Some] by (auto simp: image_iff)
  moreover have "integrity d'" if "integrity d" using integrity_touch_user [OF that] d'(2) by simp
  ultimately show ?thesis using that [of "u_id x" "[]"] d' by auto
qed

section \<open>The capacity check and row queries inside a transaction\<close>

text \<open>A transaction that can still commit differs from the earlier one in the subscriptions only.\<close>

definition same_but_subs :: "(db \<times> bool) option \<Rightarrow> (db \<times> bool) option \<Rightarrow> bool" where
  "same_but_subs t0 t1 \<longleftrightarrow> (\<forall>d. t1 = Some (d, False) \<longrightarrow>
     (\<exists>d0 ss. t0 = Some (d0, False) \<and> d = d0\<lparr>subscriptions := ss\<rparr>))"

lemma same_but_subs_refl: "same_but_subs t t"
proof -
  have "\<exists>ss. d = d\<lparr>subscriptions := ss\<rparr>" for d by (rule ex_subscriptions)
  then show ?thesis by (auto simp: same_but_subs_def)
qed

lemma same_but_subs_aborted: "(\<And>d. t1 \<noteq> Some (d, False)) \<Longrightarrow> same_but_subs t0 t1"
  by (simp add: same_but_subs_def)

lemma same_but_subs_ok: "same_but_subs (Some (d, False)) (Some (d\<lparr>subscriptions := ss\<rparr>, False))"
  by (auto simp: same_but_subs_def)

lemma same_but_subs_Some: "t0 = Some (d0, False) \<Longrightarrow> d = d0\<lparr>subscriptions := ss\<rparr> \<Longrightarrow>
    same_but_subs t0 (Some (d, False))"
  by (auto simp: same_but_subs_def)

lemma wp_ensureSubscription_frame:
  assumes "\<And>r fs t. same_but_subs (txn w) t \<Longrightarrow> Q r (w\<lparr>faults := fs, txn := t\<rparr>)"
  shows "wp (ensureSubscription Tx u lk) Q w"
proof -
  obtain ss where e: "\<And>d. ins_trial u (now w) d = d\<lparr>subscriptions := ss d\<rparr>"
    using ins_trial_frame [of u "now w"] by metis
  have a: "Q r (w\<lparr>faults := fs, txn := t\<rparr>)" if "\<And>d. t \<noteq> Some (d, False)" for r fs t
    by (rule assms) (rule same_but_subs_aborted, rule that)
  show ?thesis
    unfolding ensureSubscription_def
    by (intro wps) (auto simp: e upd_expire_def intro!: assms same_but_subs_Some intro: same_but_subs_aborted)
qed

lemma wp_capacity_frame:
  assumes "\<And>r fs t. same_but_subs (txn w) t \<Longrightarrow> Q r (w\<lparr>faults := fs, txn := t\<rparr>)"
  shows "wp (ensureProjectMemberCapacity pid phone) Q w"
proof -
  have a: "Q r (w\<lparr>faults := fs, txn := t\<rparr>)" if "\<And>d. t \<noteq> Some (d, False)" for r fs t
    by (rule assms) (rule same_but_subs_aborted, rule that)
  have b: "Q r (w\<lparr>faults := fs\<rparr>)" for r fs
    using assms [of "txn w" r fs] same_but_subs_refl by simp
  note wp_ensureSubscription_Tx [wps del] and wp_ensureSubscription_frame [wps]
  show ?thesis
    unfolding ensureProjectMemberCapacity_def
    apply (intro wps)
    apply (auto intro!: b assms intro: same_but_subs_aborted)
    done
qed

section \<open>The invitations that wait for the phone\<close>

definition applied :: "uuid \<Rightarrow> string \<Rightarrow> time \<Rightarrow> db \<Rightarrow> db \<Rightarrow> bool" where
  "applied u phone t d0 d \<longleftrightarrow> integrity d
     \<and> (\<exists>ss ms iv as. d = d0\<lparr>subscriptions := ss, members := ms, invites := iv, audits := as\<rparr>)
     \<and> (\<forall>p v m. member_of d0 p v = Some m \<longrightarrow> member_of d p v = Some m)
     \<and> (\<forall>p v m. member_of d p v = Some m \<longrightarrow> member_of d0 p v = Some m \<or>
          (v = u \<and> (\<exists>i\<in>set (invites d0). waiting_invite t phone i \<and> i_project i = p \<and> m_role m = i_role i)))"

lemma applied_refl: "integrity d \<Longrightarrow> applied u phone t d d"
proof -
  have "\<exists>ss ms iv as. d = d\<lparr>subscriptions := ss, members := ms, invites := iv, audits := as\<rparr>"
    by (rule exI [of _ "subscriptions d"], rule exI [of _ "members d"], rule exI [of _ "invites d"],
        rule exI [of _ "audits d"]) simp
  then show "integrity d \<Longrightarrow> ?thesis" by (simp add: applied_def)
qed

lemma applied_other:
  assumes "applied u phone t d0 d" "d' = d\<lparr>subscriptions := ss, audits := as\<rparr>"
  shows "applied u phone t d0 d'"
proof -
  obtain ss1 ms is1 as1 where "d = d0\<lparr>subscriptions := ss1, members := ms, invites := is1, audits := as1\<rparr>"
    using assms(1) by (auto simp: applied_def)
  then have "d' = d0\<lparr>subscriptions := ss, members := ms, invites := is1, audits := as\<rparr>"
    using assms(2) by simp
  moreover have "integrity d'" "\<And>p v. member_of d' p v = member_of d p v"
    using assms by (simp_all add: applied_def member_of_def)
  ultimately show ?thesis using assms(1) by (auto simp: applied_def)
qed

lemma applied_subs: "applied u phone t d0 d \<Longrightarrow> applied u phone t d0 (d\<lparr>subscriptions := ss\<rparr>)"
  by (rule applied_other [where ss = ss and as = "audits d"]) auto

lemma applied_audits: "applied u phone t d0 d \<Longrightarrow> applied u phone t d0 (d\<lparr>audits := as\<rparr>)"
  by (rule applied_other [where ss = "subscriptions d" and as = as]) auto

lemma applied_member:
  assumes "applied u phone t d0 d" "i \<in> set (invites d0)" "waiting_invite t phone i"
    "ins_member (i_project i) u (i_role i) t d = (r, d')" "r \<noteq> SqlErr"
  shows "applied u phone t d0 d'"
proof -
  have "integrity d'" using integrity_ins_member [OF assms(4)] assms(1) by (simp add: applied_def)
  moreover have "d' = d \<or> (member_of d (i_project i) u = None \<and> d' = d\<lparr>members := members d @
      [\<lparr>m_project = i_project i, m_user = u, m_role = i_role i, m_created = t\<rparr>]\<rparr>)"
    using assms(4,5) by (auto simp: ins_member_def split: if_splits)
  ultimately show ?thesis
  proof (elim disjE conjE)
    assume new: "integrity d'" "member_of d (i_project i) u = None" "d' = d\<lparr>members := members d @
      [\<lparr>m_project = i_project i, m_user = u, m_role = i_role i, m_created = t\<rparr>]\<rparr>"
    obtain ss ms iv as where d: "d = d0\<lparr>subscriptions := ss, members := ms, invites := iv, audits := as\<rparr>"
      using assms(1) by (auto simp: applied_def)
    have m: "member_of d' p v = (case member_of d p v of None \<Rightarrow> if i_project i = p \<and> u = v
        then Some \<lparr>m_project = i_project i, m_user = u, m_role = i_role i, m_created = t\<rparr> else None
      | Some x \<Rightarrow> Some x)" for p v
      unfolding new(3) by (auto simp: member_of_append split: option.splits)
    have "d' = d0\<lparr>subscriptions := ss, members := members d', invites := iv, audits := as\<rparr>"
      using new(3) d by simp
    then have "\<exists>ss ms iv as. d' = d0\<lparr>subscriptions := ss, members := ms, invites := iv, audits := as\<rparr>"
      by blast
    moreover have "member_of d' p v = Some n" if "member_of d0 p v = Some n" for p v n
      using assms(1) that unfolding applied_def m by auto
    moreover have "member_of d0 p v = Some n \<or> (v = u \<and> (\<exists>i\<in>set (invites d0). waiting_invite t phone i
        \<and> i_project i = p \<and> m_role n = i_role i))" if "member_of d' p v = Some n" for p v n
    proof (cases "member_of d p v")
      case None
      then have "i_project i = p" "v = u" "m_role n = i_role i" using that by (auto simp: m split: if_splits)
      then show ?thesis using assms(2,3) by blast
    next
      case (Some x)
      then have "member_of d p v = Some n" using that by (simp add: m)
      then show ?thesis using assms(1) unfolding applied_def by blast
    qed
    ultimately show ?thesis using new(1) unfolding applied_def by blast
  qed (use assms(1) in simp)
qed

lemma applied_accept:
  assumes "applied u phone t d0 d" shows "applied u phone t d0 (upd_accept_invite i t d)"
proof -
  obtain ss ms is1 as where "d = d0\<lparr>subscriptions := ss, members := ms, invites := is1, audits := as\<rparr>"
    using assms by (auto simp: applied_def)
  then have "upd_accept_invite i t d = d0\<lparr>subscriptions := ss, members := ms, invites := invites (upd_accept_invite i t d), audits := as\<rparr>"
    by (simp add: upd_accept_invite_def)
  then have "\<exists>ss ms iv as. upd_accept_invite i t d = d0\<lparr>subscriptions := ss, members := ms, invites := iv, audits := as\<rparr>"
    by blast
  moreover have "member_of (upd_accept_invite i t d) p v = member_of d p v" for p v
    by (simp add: upd_accept_invite_def member_of_def)
  ultimately show ?thesis using assms by (simp add: applied_def)
qed

lemma wp_applyInvites:
  assumes "\<And>d. txn w = Some (d, False) \<Longrightarrow> applied u phone (now w) d0 d"
    and "\<And>i. i \<in> set ivs \<Longrightarrow> i \<in> set (invites d0) \<and> waiting_invite (now w) phone i"
    and "\<And>e w'. db w' = db w \<Longrightarrow> now w' = now w \<Longrightarrow> (\<And>sm. e = Some sm \<Longrightarrow> fst sm = 500) \<Longrightarrow>
      (\<And>d. txn w' = Some (d, False) \<Longrightarrow> applied u phone (now w) d0 d) \<Longrightarrow> Q e w'"
  shows "wp (applyInvites u ivs) Q w"
  using assms
proof (induction ivs arbitrary: w)
  case Nil
  then show ?case by (auto intro!: wps)
next
  case (Cons i ivs)
  have w: "i \<in> set (invites d0)" "waiting_invite (now w) phone i" using Cons.prems(2) by auto
  have IH: "wp (applyInvites u ivs) Q w1" if "db w1 = db w" "now w1 = now w"
    "\<And>d. txn w1 = Some (d, False) \<Longrightarrow> applied u phone (now w) d0 d" for w1
    by (rule Cons.IH) (use that Cons.prems(2,3) in auto)
  have A: "applied u phone (now w) d0 d1" if "same_but_subs (txn w) (Some (d1, False))" for d1
    using that Cons.prems(1) by (auto simp: same_but_subs_def intro: applied_subs)
  have E: "Q (Some (500, m)) (w\<lparr>faults := fs, txn := t\<rparr>)" if "\<And>d. t = Some (d, False) \<Longrightarrow> applied u phone (now w) d0 d"
    for m fs t by (rule Cons.prems(3)) (use that in auto)
  note wp_ensureProjectMemberCapacity [wps del] and wp_capacity_frame [wps]
  show ?case
    unfolding applyInvites.simps
    apply (intro wps IH)
    apply (simp_all)
    apply (auto intro!: E intro: A applied_audits applied_accept applied_member [OF A w])
    done
qed

section \<open>The login transaction\<close>

definition logged_in :: "string \<Rightarrow> time \<Rightarrow> uuid \<Rightarrow> uuid \<Rightarrow> db \<Rightarrow> db \<Rightarrow> bool" where
  "logged_in phone t cid u d d' \<longleftrightarrow> (\<exists>us ns d2. identities (d\<lparr>users := us\<rparr>) = identities d @ ns
     \<and> set ns \<subseteq> {(u, Some phone)} \<and> (u, Some phone) \<in> set (identities (d\<lparr>users := us\<rparr>))
     \<and> applied u phone t (d\<lparr>users := us\<rparr>) d2 \<and> d' = upd_consume_code cid t d2)"

definition login_post ::
  "app_state \<Rightarrow> externals \<Rightarrow> world \<Rightarrow> string \<Rightarrow> uuid \<Rightarrow> db \<Rightarrow> login_payload resp \<Rightarrow> world \<Rightarrow> bool" where
  "login_post A X w phone cid d r w' \<longleftrightarrow> now w' = now w \<and> (case r of
     Error s m \<Rightarrow> s = 500 \<and> (db w' = db w \<or> (m = ''failed to sign token'' \<and> (\<exists>u. logged_in phone (now w) cid u d (db w'))))
   | Reply s p \<Rightarrow> s = 200 \<and> (\<exists>tok u. p = Verified tok (st_token_ttl A div second) u
       \<and> logged_in phone (now w) cid u d (db w') \<and> fst (run_state (signAccessToken A X u) w) = Some tok))"

lemma wp_completeLoginTx:
  assumes d: "\<And>d'. txn w = Some (d', False) \<Longrightarrow> d' = d" and i: "integrity d" and ph: "phoneRe phone"
  shows "wp (completeLoginTx A X phone cid) (login_post A X w phone cid d) w"
proof -
  have L: "logged_in phone (now w) cid u d (upd_consume_code cid (now w) d2)"
    if u: "upsert_user phone i (now w) d' = (Row u, d1)" "txn w = Some (d', False)"
      and a: "applied u phone (now w) d1 d2" for i u d1 d2 d'
  proof -
    have "d' = d" by (rule d [OF u(2)])
    from u(1) obtain ns us where "identities d1 = identities d @ ns" "set ns \<subseteq> {(u, Some phone)}"
      "(u, Some phone) \<in> set (identities d1)" "d1 = d\<lparr>users := us\<rparr>"
      unfolding \<open>d' = d\<close> by (rule upsert_user_Row) auto
    with a show ?thesis unfolding logged_in_def by blast
  qed
  have R: "applied u phone (now w) d1 d1"
    if u: "upsert_user phone i (now w) d' = (Row u, d1)" "txn w = Some (d', False)" for i u d1 d'
  proof -
    have "d' = d" by (rule d [OF u(2)])
    from u(1) have "integrity d1" unfolding \<open>d' = d\<close> by (rule upsert_user_Row) (use i ph in auto)
    then show ?thesis by (rule applied_refl)
  qed
  have F: "wp (do { c \<leftarrow> exec Tx (upd_consume_code cid);
        if c = SqlErr then fail 500 ''failed to complete login code''
        else do { ok \<leftarrow> tx_commit; if \<not> ok then fail 500 ''failed to complete login''
          else do { tok \<leftarrow> signAccessToken A X u; (case tok of None \<Rightarrow> fail 500 ''failed to sign token''
            | Some a \<Rightarrow> reply 200 (Verified a (st_token_ttl A div second) u)) }}})
      (login_post A X w phone cid d) w1"
    if "upsert_user phone i (now w) d' = (Row u, d1)" "txn w = Some (d', False)" "db w1 = db w" "now w1 = now w"
      "\<And>d2. txn w1 = Some (d2, False) \<Longrightarrow> applied u phone (now w) d1 d2" for i u d' d1 w1
    using that L [OF that(1,2)] by (intro wps) (auto simp: login_post_def signAccessToken_def)
  note wp_bind [wps del]
  have G: "wp (applyInvites u (sel_waiting_invites phone (now w) d1)) (\<lambda>e. wp (case e of
        None \<Rightarrow> do { c \<leftarrow> exec Tx (upd_consume_code cid);
        if c = SqlErr then fail 500 ''failed to complete login code''
        else do { ok \<leftarrow> tx_commit; if \<not> ok then fail 500 ''failed to complete login''
          else do { tok \<leftarrow> signAccessToken A X u; (case tok of None \<Rightarrow> fail 500 ''failed to sign token''
            | Some a \<Rightarrow> reply 200 (Verified a (st_token_ttl A div second) u)) }}}
      | Some sm \<Rightarrow> fail (fst sm) (snd sm)) (login_post A X w phone cid d))
      (w\<lparr>faults := fs, txn := Some (d1, False), uuids := us\<rparr>)"
    if "upsert_user phone i (now w) d' = (Row u, d1)" "txn w = Some (d', False)" for i u d' d1 fs us
    by (rule wp_applyInvites [where ?d0.0 = d1 and phone = phone])
      (auto intro!: R [OF that] wps F [OF that] simp: sel_waiting_invites_def login_post_def)
  show ?thesis
    unfolding completeLoginTx_def
    by (intro wps wp_bind) (auto simp: login_post_def intro: G)
qed

section \<open>Checking a code\<close>

definition code_fits :: "app_state \<Rightarrow> externals \<Rightarrow> string \<Rightarrow> string \<Rightarrow> code_row \<Rightarrow> bool" where
  "code_fits A X phone code c \<longleftrightarrow> c_attempts c < 5 \<and> c_hash c = hashLoginCode A X phone code"

lemma wp_verifyCode:
  assumes t: "txn w = None"
    and E: "\<And>s m fs. s \<in> {400, 405, 429, 503} \<Longrightarrow> Q (Error s m) (w\<lparr>faults := fs\<rparr>)"
    and N: "\<And>m fs pc. decode_verify r = Some pc \<Longrightarrow> current_code (db w) (now w) (normalizePhone (fst pc)) = None \<Longrightarrow>
      Q (Error 401 m) (w\<lparr>faults := fs\<rparr>)"
    and W: "\<And>m fs pc c. decode_verify r = Some pc \<Longrightarrow> current_code (db w) (now w) (normalizePhone (fst pc)) = Some c \<Longrightarrow>
      c_attempts c < 5 \<Longrightarrow> c_hash c \<noteq> hashLoginCode A X (normalizePhone (fst pc)) (trim_space (snd pc)) \<Longrightarrow>
      Q (Error 401 m) (w\<lparr>faults := fs, db := upd_code_attempt (c_id c) (now w) (db w)\<rparr>)"
    and M: "\<And>fs pc c. decode_verify r = Some pc \<Longrightarrow> phoneRe (normalizePhone (fst pc)) \<Longrightarrow>
      current_code (db w) (now w) (normalizePhone (fst pc)) = Some c \<Longrightarrow>
      code_fits A X (normalizePhone (fst pc)) (trim_space (snd pc)) c \<Longrightarrow>
      wp (onMatch (normalizePhone (fst pc)) (c_id c)) (\<lambda>x w'. Q x (w'\<lparr>txn := None\<rparr>))
        (w\<lparr>faults := fs, txn := Some (db w, False)\<rparr>)"
  shows "wp (verifyCode A X onMatch r) Q w"
proof -
  have s: "w\<lparr>faults := fs, txn := None\<rparr> = w\<lparr>faults := fs\<rparr>" for fs using t by (cases w) simp
  have s2: "w\<lparr>faults := fs, db := d, txn := None\<rparr> = w\<lparr>faults := fs, db := d\<rparr>" for fs d using t by (cases w) simp
  have e: "Q (Error n m) w" if "n \<in> {400, 405, 429, 503}" for n m
    using E [OF that, of m "faults w"] by (simp add: same_fields)
  have E': "Q (Error 400 m) (w\<lparr>faults := fs\<rparr>)" "Q (Error 405 m) (w\<lparr>faults := fs\<rparr>)"
    "Q (Error 429 m) (w\<lparr>faults := fs\<rparr>)" "Q (Error 503 m) (w\<lparr>faults := fs\<rparr>)" for m fs
    by (rule E, simp)+
  show ?thesis
    unfolding verifyCode_def checkCodeTx_def wrongCodeTx_def
    by (intro wps) (auto simp: s s2 row_of_def code_fits_def intro!: e E' N W M split: option.splits)
qed


section \<open>Properties of a login\<close>

lemma logged_in_effect:
  assumes "logged_in phone t cid u d d'"
  shows "integrity d'" "(u, Some phone) \<in> set (identities d')"
    "\<exists>ns. identities d' = identities d @ ns \<and> set ns \<subseteq> {(u, Some phone)}"
    "codes d' = codes (upd_consume_code cid t d)" "projects d' = projects d" "sessions d' = sessions d"
    "member_of d' p v = Some m \<Longrightarrow> member_of d p v = Some m \<or>
       (v = u \<and> (\<exists>i\<in>set (invites d). waiting_invite t phone i \<and> i_project i = p \<and> m_role m = i_role i))"
    "member_of d p v = Some m \<Longrightarrow> member_of d' p v = Some m"
proof -
  obtain us ns d2 where l: "identities (d\<lparr>users := us\<rparr>) = identities d @ ns" "set ns \<subseteq> {(u, Some phone)}"
    "(u, Some phone) \<in> set (identities (d\<lparr>users := us\<rparr>))" "applied u phone t (d\<lparr>users := us\<rparr>) d2"
    "d' = upd_consume_code cid t d2"
    using assms unfolding logged_in_def by blast
  obtain ss ms iv as where d2: "d2 = d\<lparr>users := us, subscriptions := ss, members := ms, invites := iv, audits := as\<rparr>"
    using l(4) by (auto simp: applied_def)
  show "integrity d'" using l(4,5) by (simp add: applied_def upd_consume_code_def)
  show "(u, Some phone) \<in> set (identities d')" "codes d' = codes (upd_consume_code cid t d)"
    "\<exists>ns. identities d' = identities d @ ns \<and> set ns \<subseteq> {(u, Some phone)}"
    "projects d' = projects d" "sessions d' = sessions d"
    using l by (auto simp: d2 upd_consume_code_def)
  have m: "member_of d' p v = member_of d2 p v" for p v by (simp add: l(5) upd_consume_code_def member_of_def)
  have n: "member_of (d\<lparr>users := us\<rparr>) p v = member_of d p v" for p v by (simp add: member_of_def)
  show "member_of d' p v = Some m \<Longrightarrow> member_of d p v = Some m \<or>
       (v = u \<and> (\<exists>i\<in>set (invites d). waiting_invite t phone i \<and> i_project i = p \<and> m_role m = i_role i))"
    "member_of d p v = Some m \<Longrightarrow> member_of d' p v = Some m"
    using l(4) unfolding applied_def m n by auto
qed

definition verify_post :: "app_state \<Rightarrow> externals \<Rightarrow> request \<Rightarrow> world \<Rightarrow> login_payload resp \<Rightarrow> world \<Rightarrow> bool" where
  "verify_post A X r w resp w' \<longleftrightarrow> txn w' = None \<and> (case resp of
     Error s m \<Rightarrow> (\<exists>cs. db w' = (db w)\<lparr>codes := cs\<rparr>) \<or>
       (m = ''failed to sign token'' \<and> (\<exists>phone cid u. logged_in phone (now w) cid u (db w) (db w')))
   | Reply s p \<Rightarrow> s = 200 \<and> (\<exists>pc c tok secs u. decode_verify r = Some pc \<and> p = Verified tok secs u
       \<and> current_code (db w) (now w) (normalizePhone (fst pc)) = Some c
       \<and> code_fits A X (normalizePhone (fst pc)) (trim_space (snd pc)) c
       \<and> logged_in (normalizePhone (fst pc)) (now w) (c_id c) u (db w) (db w')
       \<and> fst (run_state (signAccessToken A X u) w) = Some tok))"

lemma wp_VerifySMSCode:
  assumes i: "integrity (db w)" and t: "txn w = None"
  shows "wp (VerifySMSCode A X r) (verify_post A X r w) w"
proof -
  have same: "\<exists>cs. d = d\<lparr>codes := cs\<rparr>" for d :: db by (rule exI [of _ "codes d"]) simp
  show ?thesis
    unfolding VerifySMSCode_def
  proof (rule wp_verifyCode [OF t])
    fix fs c and pc :: "string \<times> string"
    let ?ph = "normalizePhone (fst pc)" let ?w = "w\<lparr>faults := fs, txn := Some (db w, False)\<rparr>"
    assume c: "decode_verify r = Some pc" "phoneRe ?ph" "current_code (db w) (now w) ?ph = Some c"
      "code_fits A X ?ph (trim_space (snd pc)) c"
    have "wp (completeLoginTx A X ?ph (c_id c)) (login_post A X ?w ?ph (c_id c) (db w)) ?w"
      by (rule wp_completeLoginTx) (use c(2) i in auto)
    then show "wp (completeLoginTx A X ?ph (c_id c)) (\<lambda>x w'. verify_post A X r w x (w'\<lparr>txn := None\<rparr>)) ?w"
      by (rule wp_mono) (use c same in \<open>auto simp: verify_post_def login_post_def signAccessToken_def split: resp.splits\<close>)
  qed (use t same in \<open>auto simp: verify_post_def upd_code_attempt_def\<close>)
qed

lemma current_code_live:
  "current_code d t phone = Some c \<Longrightarrow> c \<in> set (codes d) \<and> c_phone c = phone \<and> c_consumed c = None \<and> t < c_expires c"
proof -
  assume "current_code d t phone = Some c"
  then obtain cs where "sort_key (\<lambda>c. - c_created c) (filter (live_code t phone) (codes d)) = c # cs"
    by (auto simp: current_code_def split: list.splits)
  then have "c \<in> set (filter (live_code t phone) (codes d))" by (metis list.set_intros(1) set_sort)
  then show ?thesis by (simp add: live_code_def)
qed

text \<open>
  C19. A login succeeds only for the current code of the phone: not consumed, not expired, fewer
  than five wrong tries, and with the digest of the code in the request. It consumes the code,
  answers a token signed for the account that has this phone (an account is created only when there
  is none, and no other account changes its phone), and adds memberships only for this account, each
  from an invitation waiting for this phone with the role of the invitation. A failed request leaves
  accounts, projects and memberships alone, unless all is done and only the token cannot be signed.
\<close>

theorem VerifySMSCode_safe:
  assumes "integrity (db w)" "txn w = None"
  shows "case run_state (VerifySMSCode A X r) w of (resp, w') \<Rightarrow> integrity (db w') \<and> txn w' = None \<and> (case resp of
     Error s m \<Rightarrow> m = ''failed to sign token'' \<or> (\<exists>cs. db w' = (db w)\<lparr>codes := cs\<rparr>)
   | Reply s p \<Rightarrow> s = 200 \<and> (case (decode_verify r, p) of
       (Some pc, Verified tok secs u) \<Rightarrow> (let phone = normalizePhone (fst pc) in
          (case current_code (db w) (now w) phone of None \<Rightarrow> False | Some c \<Rightarrow>
             c \<in> set (codes (db w)) \<and> c_phone c = phone \<and> c_consumed c = None \<and> now w < c_expires c
             \<and> code_fits A X phone (trim_space (snd pc)) c \<and> codes (db w') = codes (upd_consume_code (c_id c) (now w) (db w)))
          \<and> (u, Some phone) \<in> set (identities (db w')) \<and> fst (run_state (signAccessToken A X u) w) = Some tok
          \<and> (\<exists>ns. identities (db w') = identities (db w) @ ns \<and> set ns \<subseteq> {(u, Some phone)})
          \<and> projects (db w') = projects (db w)
          \<and> (\<forall>p v m. member_of (db w) p v = Some m \<longrightarrow> member_of (db w') p v = Some m)
          \<and> (\<forall>p v m. member_of (db w') p v = Some m \<longrightarrow> member_of (db w) p v = Some m \<or>
               (v = u \<and> (\<exists>i\<in>set (invites (db w)). waiting_invite (now w) phone i \<and> i_project i = p \<and> m_role m = i_role i))))
     | _ \<Rightarrow> False))"
proof -
  have "integrity d'" if "\<exists>cs. d' = (db w)\<lparr>codes := cs\<rparr>" for d' using that assms(1) by auto
  moreover have "verify_post A X r w (fst (run_state (VerifySMSCode A X r) w)) (snd (run_state (VerifySMSCode A X r) w))"
    using wp_VerifySMSCode [OF assms, of A X r] by (simp add: wp_def split: prod.splits)
  ultimately show ?thesis
    using assms(1) by (auto simp: verify_post_def Let_def logged_in_effect dest: logged_in_effect(2) [simplified] current_code_live
        split: prod.splits resp.splits)
qed


definition s_verify :: "string \<Rightarrow> request" where
  "s_verify code = s_req ''POST'' ''/api/v1/auth/sms/verify'' (JObj [(''phone'', JStr s_phone2), (''code'', JStr code)])"

definition s_code_world :: world where
  "s_code_world = s_team\<lparr>db := s_team_db\<lparr>codes :=
     [new_code s_phone2 (hashLoginCode s_app s_ext s_phone2 ''123456'') (day + minute) ''c1'' day]\<rparr>\<rparr>"

theorem VerifySMSCode_safe_witness:
  "case run_state (VerifySMSCode s_app s_ext (s_verify '' 123456 '')) s_code_world of (resp, w') \<Rightarrow>
     is_reply resp \<and> integrity (db w') \<and> map_option m_role (member_of (db w') ''p1'' ''u2'') = Some ''worker''"
proof -
  have "integrity (db s_code_world)" "txn s_code_world = None"
    using s_team_integrity by (simp_all add: s_code_world_def s_team_def)
  moreover have "is_reply (fst (run_state (VerifySMSCode s_app s_ext (s_verify '' 123456 '')) s_code_world))"
    "map_option m_role (member_of (db (snd (run_state (VerifySMSCode s_app s_ext (s_verify '' 123456 '')) s_code_world))) ''p1'' ''u2'') = Some ''worker''"
    by code_simp+
  ultimately show ?thesis
    using VerifySMSCode_safe [where w = s_code_world and A = s_app and X = s_ext and r = "s_verify '' 123456 ''"]
    by (auto split: prod.splits)
qed

section \<open>Guessing a code\<close>

text \<open>A sequence of requests, each after some time has passed.\<close>

fun verifications :: "app_state \<Rightarrow> externals \<Rightarrow> (time \<times> request) list \<Rightarrow> world \<Rightarrow> login_payload resp list \<times> world" where
  "verifications A X [] w = ([], w)"
| "verifications A X ((dt, r) # rs) w =
     (case run_state (VerifySMSCode A X r) (w\<lparr>now := now w + dt\<rparr>) of (x, w1) \<Rightarrow>
        case verifications A X rs w1 of (xs, w2) \<Rightarrow> (x # xs, w2))"

definition guess_of :: "string \<Rightarrow> request \<Rightarrow> bool" where
  "guess_of phone r \<longleftrightarrow> (case decode_verify r of None \<Rightarrow> False | Some pc \<Rightarrow> normalizePhone (fst pc) = phone)"

text \<open>What an answer other than a match does to the current code.\<close>

definition guess_post :: "code_row \<Rightarrow> world \<Rightarrow> login_payload resp \<Rightarrow> world \<Rightarrow> bool" where
  "guess_post c w x w' \<longleftrightarrow> now w' = now w \<and> txn w' = None \<and> (status_of x \<notin> {200, 500} \<longrightarrow>
     (if status_of x = 401 then c_attempts c < 5 \<and> db w' = upd_code_attempt (c_id c) (now w) (db w)
      else db w' = db w))"

lemma wp_guess:
  assumes i: "integrity (db w)" and t: "txn w = None" and g: "guess_of phone r"
    and c: "current_code (db w) (now w) phone = Some c"
  shows "wp (VerifySMSCode A X r) (guess_post c w) w"
  unfolding VerifySMSCode_def
proof (rule wp_verifyCode [OF t])
  fix fs c' and pc :: "string \<times> string"
  let ?ph = "normalizePhone (fst pc)" let ?w = "w\<lparr>faults := fs, txn := Some (db w, False)\<rparr>"
  assume pc: "decode_verify r = Some pc" "phoneRe ?ph"
  have "wp (completeLoginTx A X ?ph (c_id c')) (login_post A X ?w ?ph (c_id c') (db w)) ?w"
    by (rule wp_completeLoginTx) (use pc(2) i in auto)
  then show "wp (completeLoginTx A X ?ph (c_id c')) (\<lambda>x w'. guess_post c w x (w'\<lparr>txn := None\<rparr>)) ?w"
    by (rule wp_mono) (auto simp: guess_post_def login_post_def split: resp.splits)
qed (use t g c in \<open>auto simp: guess_post_def guess_of_def\<close>)

lemma current_single: "filter (live_code t phone) (codes d) = [c] \<Longrightarrow> current_code d t phone = Some c"
  by (simp add: current_code_def)

lemma live_later:
  assumes "filter (live_code t phone) cs = [c]" "t \<le> t'" "t' < c_expires c"
  shows "filter (live_code t' phone) cs = [c]"
proof -
  have "filter (live_code t' phone) cs = filter (live_code t' phone) (filter (live_code t phone) cs)"
    unfolding filter_filter using assms(2) by (intro filter_cong) (auto simp: live_code_def)
  moreover have "live_code t phone c" using assms(1) by (metis filter_eq_ConsD)
  ultimately show ?thesis using assms by (simp add: live_code_def)
qed

lemma live_attempt:
  assumes "filter (live_code t phone) (codes d) = [c]"
  shows "filter (live_code t phone) (codes (upd_code_attempt (c_id c) t' d)) = [c\<lparr>c_attempts := c_attempts c + 1\<rparr>]"
proof -
  have "filter P (upd_where q f xs) = upd_where q f (filter P xs)" if "\<And>x. P (f x) = P x" for P q f and xs :: "code_row list"
    using that by (induction xs) (auto simp: upd_where_def)
  from this [of "live_code t phone"] show ?thesis
    using assms by (simp add: upd_code_attempt_def live_code_def upd_where_def)
qed

text \<open>
  C20. Guessing a code: in any sequence of login requests for a phone with one live code, spread over
  the life of the code and with any failures of the database, at most five wrong guesses are
  evaluated (answered 401) before one matches; from then on the code is out of use.
\<close>

theorem guesses_bounded:
  assumes "filter (live_code (now w) phone) (codes (db w)) = [c]" "integrity (db w)" "txn w = None"
    "\<forall>q\<in>set rs. 0 \<le> fst q \<and> guess_of phone (snd q)" "now w + sum_list (map fst rs) < c_expires c"
    "verifications A X rs w = (xs, w')" "\<forall>x\<in>set xs. status_of x \<notin> {200, 500}"
  shows "c_attempts c + count_where (\<lambda>x. status_of x = 401) xs \<le> max 5 (c_attempts c)"
  using assms
proof (induction rs arbitrary: w c xs)
  case (Cons q rs)
  obtain dt r where q: "q = (dt, r)" by fastforce
  let ?w = "w\<lparr>now := now w + dt\<rparr>"
  obtain x w1 where x: "run_state (VerifySMSCode A X r) ?w = (x, w1)" by fastforce
  obtain ys where ys: "verifications A X rs w1 = (ys, w')" "xs = x # ys"
    using Cons.prems(6) x q by (auto split: prod.splits)
  have sum: "0 \<le> sum_list (map fst rs)" using Cons.prems(4) by (intro sum_list_nonneg) auto
  have live: "filter (live_code (now ?w) phone) (codes (db ?w)) = [c]"
    using live_later [OF Cons.prems(1)] Cons.prems(4,5) sum q by simp
  have "wp (VerifySMSCode A X r) (guess_post c ?w) ?w"
    by (rule wp_guess [OF _ _ _ current_single [OF live]]) (use Cons.prems(2-4) q in auto)
  then have g: "guess_post c ?w x w1" using x by (simp add: wp_def)
  have nx: "status_of x \<notin> {200, 500}" using Cons.prems(7) ys by simp
  show ?case
  proof (cases "status_of x = 401")
    case True
    then have a: "c_attempts c < 5" "db w1 = upd_code_attempt (c_id c) (now ?w) (db w)" "now w1 = now ?w" "txn w1 = None"
      using g nx by (auto simp: guess_post_def)
    have "filter (live_code (now w1) phone) (codes (db w1)) = [c\<lparr>c_attempts := c_attempts c + 1\<rparr>]"
      using live_attempt [OF live] a(2,3) by simp
    then have "c_attempts (c\<lparr>c_attempts := c_attempts c + 1\<rparr>) + count_where (\<lambda>x. status_of x = 401) ys
        \<le> max 5 (c_attempts (c\<lparr>c_attempts := c_attempts c + 1\<rparr>))"
      by (rule Cons.IH) (use Cons.prems a ys q in \<open>auto simp: upd_code_attempt_def\<close>)
    then show ?thesis using a(1) True ys by simp
  next
    case False
    then have a: "db w1 = db w" "now w1 = now ?w" "txn w1 = None" using g nx by (auto simp: guess_post_def)
    have "c_attempts c + count_where (\<lambda>x. status_of x = 401) ys \<le> max 5 (c_attempts c)"
      by (rule Cons.IH) (use Cons.prems a ys q live in auto)
    then show ?thesis using False ys by simp
  qed
qed auto

theorem guesses_bounded_witness:
  "let xs = fst (verifications s_app s_ext (replicate 7 (second, s_verify ''000000'')) s_code_world) in
     map status_of xs = [401, 401, 401, 401, 401, 429, 429] \<and> count_where (\<lambda>x. status_of x = 401) xs \<le> 5"
proof -
  let ?rs = "replicate 7 (second, s_verify ''000000'')"
  let ?xs = "fst (verifications s_app s_ext ?rs s_code_world)"
  let ?c = "new_code s_phone2 (hashLoginCode s_app s_ext s_phone2 ''123456'') (day + minute) ''c1'' day"
  have v: "map status_of ?xs = [401, 401, 401, 401, 401, 429, 429]"
    and live: "filter (live_code (now s_code_world) s_phone2) (codes (db s_code_world)) = [?c]"
    and rs: "\<forall>q\<in>set ?rs. 0 \<le> fst q \<and> guess_of s_phone2 (snd q)"
      "now s_code_world + sum_list (map fst ?rs) < c_expires ?c" "c_attempts ?c = 0" by code_simp+
  have st: "\<forall>x\<in>set ?xs. status_of x \<notin> {200, 500}"
  proof
    fix x assume "x \<in> set ?xs"
    then have "status_of x \<in> set (map status_of ?xs)" by simp
    then show "status_of x \<notin> {200, 500}" unfolding v by auto
  qed
  have w: "integrity (db s_code_world)" "txn s_code_world = None"
    using s_team_integrity by (simp_all add: s_code_world_def s_team_def s_world_def)
  have "c_attempts ?c + count_where (\<lambda>x. status_of x = 401) ?xs \<le> max 5 (c_attempts ?c)"
    by (rule guesses_bounded [OF live w rs(1,2) prod.collapse [symmetric] st])
  then show ?thesis unfolding Let_def rs(3) using v by simp
qed

section \<open>Requesting a code\<close>

text \<open>What the code of a request may be.\<close>

definition issued :: "app_state \<Rightarrow> string \<Rightarrow> string \<Rightarrow> bool" where
  "issued A phone code \<longleftrightarrow>
     (if isReviewPhone A phone \<and> st_review_code A \<noteq> [] then code = st_review_code A
      else if isStagingTestPhone A phone \<and> st_staging_code A \<noteq> [] then code = st_staging_code A
      else if developmentSMSFallbackEnabled A then code = developmentSMSCode
      else length code = 6 \<and> list_all is_digit code)"

lemma issue_code:
  assumes "run_state (issueSMSCodeForPhone A phone) w = (Some code, w')"
  shows "issued A phone code" "\<exists>en. w' = w\<lparr>entropy := en\<rparr>"
proof -
  have g: "length (code_of_bytes bs) = 6 \<and> list_all is_digit (code_of_bytes bs)" for bs
    by (simp add: code_of_bytes_def pad_nat_length list_all_iff pad_nat_digits)
  have e: "\<exists>en. w = w\<lparr>entropy := en\<rparr>" by (rule exI [of _ "entropy w"]) simp
  show "issued A phone code" "\<exists>en. w' = w\<lparr>entropy := en\<rparr>"
    using assms g e by (auto simp: issueSMSCodeForPhone_def issueSMSCode_def generateSMSCode_def rand_read_def issued_def
        split: if_splits list.splits)
qed

lemma no_code_change:
  assumes "run_state (issueSMSCodeForPhone A phone) w = (c, w')"
  shows "db w' = db w" "faults w' = faults w" "now w' = now w" "sms_log w' = sms_log w" "uuids w' = uuids w"
  using assms by (auto simp: issueSMSCodeForPhone_def issueSMSCode_def generateSMSCode_def rand_read_def
        split: if_splits list.splits)

lemma del_new_code:
  "i \<notin> c_id ` set (codes d) \<Longrightarrow> del_code i t (d\<lparr>codes := codes d @ [new_code ph h e i t']\<rparr>) = d"
  by (cases d) (auto simp: del_code_def new_code_def intro!: filter_True)

lemma only_new_code:
  assumes "i \<notin> c_id ` set (codes d)" "t < e"
    "d' = upd_older_codes ph i t (d\<lparr>codes := codes d @ [new_code ph h e i t]\<rparr>)"
  shows "filter (live_code t ph) (codes d') = [new_code ph h e i t]"
    "filter (\<lambda>c. c_phone c \<noteq> ph) (codes d') = filter (\<lambda>c. c_phone c \<noteq> ph) (codes d)"
    "\<exists>cs. d' = d\<lparr>codes := cs\<rparr>"
proof -
  let ?q = "\<lambda>c. c_phone c = ph \<and> c_id c \<noteq> i \<and> c_consumed c = None"
  let ?f = "\<lambda>c. c\<lparr>c_consumed := Some t\<rparr>"
  have cs: "codes d' = upd_where ?q ?f (codes d) @ [new_code ph h e i t]"
    using assms(3) by (simp add: upd_older_codes_def upd_where_def new_code_def)
  have "filter (live_code t ph) (upd_where ?q ?f cs) = []" if "i \<notin> c_id ` set cs" for cs
    using that by (induction cs) (auto simp: upd_where_def live_code_def)
  then show "filter (live_code t ph) (codes d') = [new_code ph h e i t]"
    using assms(1,2) unfolding cs by (simp add: live_code_def new_code_def)
  have "filter (\<lambda>c. c_phone c \<noteq> ph) (upd_where ?q ?f cs) = filter (\<lambda>c. c_phone c \<noteq> ph) cs" for cs
    by (induction cs) (auto simp: upd_where_def)
  then show "filter (\<lambda>c. c_phone c \<noteq> ph) (codes d') = filter (\<lambda>c. c_phone c \<noteq> ph) (codes d)"
    unfolding cs by (simp add: new_code_def)
  show "\<exists>cs. d' = d\<lparr>codes := cs\<rparr>" using assms(3) by (auto simp: upd_older_codes_def)
qed

lemma run_cleanupSMSCode:
  "faults w = [] \<Longrightarrow> run_state (cleanupSMSCode i) w = ((), w\<lparr>db := del_code i (now w) (db w)\<rparr>)"
  by (simp add: cleanupSMSCode_def free_simps)

lemma run_finishCodeRequest:
  "faults w = [] \<Longrightarrow> run_state (finishCodeRequest A ph i code) w =
     (Reply 202 (CodeRequested (if developmentSMSFallbackEnabled A then Some code else None)),
      w\<lparr>db := upd_older_codes ph i (now w) (db w)\<rparr>)"
  by (simp add: finishCodeRequest_def invalidateOlderSMSCodes_def free_simps)

lemma run_sendLoginCode:
  "\<exists>ok ex. run_state (sendLoginCode ph code) w = (ok, w\<lparr>sms_log := sms_log w @ [(ph, code)], extern := ex\<rparr>)"
proof -
  have "w\<lparr>sms_log := l\<rparr> = w\<lparr>sms_log := l, extern := extern w\<rparr>" for l by (cases w) simp
  then have "\<exists>ex. w\<lparr>sms_log := l\<rparr> = w\<lparr>sms_log := l, extern := ex\<rparr>" for l by blast
  then show ?thesis
    by (cases "extern w") (simp_all add: sendLoginCode_def run_extern_ok, blast+)
qed

definition request_post :: "app_state \<Rightarrow> externals \<Rightarrow> string \<Rightarrow> world \<Rightarrow> login_payload resp \<Rightarrow> world \<Rightarrow> bool" where
  "request_post A X phone w resp w' \<longleftrightarrow> (case resp of
     Error s m \<Rightarrow> db w' = db w
   | Reply s p \<Rightarrow> s = 202 \<and> (\<exists>i code. issued A phone code
       \<and> p = CodeRequested (if developmentSMSFallbackEnabled A then Some code else None)
       \<and> i \<notin> c_id ` set (codes (db w))
       \<and> db w' = upd_older_codes phone i (now w)
           ((db w)\<lparr>codes := codes (db w) @ [new_code phone (hashLoginCode A X phone code) (now w + 5 * minute) i (now w)]\<rparr>)
       \<and> sms_log w' = (if st_sms_sender A \<and> \<not> isReviewPhone A phone \<and> \<not> isStagingTestPhone A phone
              then sms_log w @ [(phone, code)] else sms_log w)))"

lemma RequestSMSCode_post:
  assumes "faults w = []" "rq_method r = ''POST''" "st_db A" "decode_request_code r = Some raw" "phoneRe (normalizePhone raw)"
  shows "case run_state (RequestSMSCode A X r) w of (resp, w') \<Rightarrow> request_post A X (normalizePhone raw) w resp w'"
proof -
  let ?ph = "normalizePhone raw"
  obtain c w1 where c: "run_state (issueSMSCodeForPhone A ?ph) w = (c, w1)" by fastforce
  note same = no_code_change [OF c]
  show ?thesis
  proof (cases c)
    case None
    then show ?thesis using assms c same by (simp add: RequestSMSCode_def Let_def request_post_def)
  next
    case (Some code)
    note issued = issue_code(1) [OF c [unfolded Some]]
    show ?thesis
    proof (cases "uuids w")
      case Nil
      then show ?thesis using assms c same Some
        by (simp add: RequestSMSCode_def Let_def request_post_def run_insert_stmt free_simps)
    next
      case (Cons i us)
      let ?d = "(db w)\<lparr>codes := codes (db w) @ [new_code ?ph (hashLoginCode A X ?ph code) (now w + 5 * minute) i (now w)]\<rparr>"
      obtain ok ex where ok: "run_state (sendLoginCode ?ph code) (w1\<lparr>db := ?d, uuids := us\<rparr>) =
          (ok, w1\<lparr>db := ?d, uuids := us, sms_log := sms_log w1 @ [(?ph, code)], extern := ex\<rparr>)"
        using run_sendLoginCode [of ?ph code "w1\<lparr>db := ?d, uuids := us\<rparr>"] by auto
      show ?thesis using assms c same Some Cons issued ok
        by (auto simp: RequestSMSCode_def Let_def request_post_def run_insert_stmt free_simps ins_code_def
            run_cleanupSMSCode run_finishCodeRequest del_new_code)
    qed
  qed
qed

definition with_code :: "app_state \<Rightarrow> externals \<Rightarrow> string \<Rightarrow> string \<Rightarrow> uuid \<Rightarrow> time \<Rightarrow> db \<Rightarrow> db" where
  "with_code A X phone code i t d = d\<lparr>codes := codes d @ [new_code phone (hashLoginCode A X phone code) (t + 5 * minute) i t]\<rparr>"

lemma wp_issueSMSCodeForPhone [wps]:
  assumes "\<And>en. Q None (w\<lparr>entropy := en\<rparr>)" "\<And>code en. issued A phone code \<Longrightarrow> Q (Some code) (w\<lparr>entropy := en\<rparr>)"
  shows "wp (issueSMSCodeForPhone A phone) Q w"
proof (rule wpI)
  fix c w' assume r: "run_state (issueSMSCodeForPhone A phone) w = (c, w')"
  have "\<exists>en. w' = w\<lparr>entropy := en\<rparr>"
  proof -
    have "\<exists>en. w = w\<lparr>entropy := en\<rparr>" by (rule exI [of _ "entropy w"]) simp
    then show ?thesis using r by (auto simp: issueSMSCodeForPhone_def issueSMSCode_def generateSMSCode_def rand_read_def
        split: if_splits list.splits)
  qed
  then show "Q c w'" using assms issue_code(1) [of A phone w] r by (cases c) auto
qed

lemma wp_sendLoginCode:
  "(\<And>ok ex. Q ok (w\<lparr>sms_log := sms_log w @ [(ph, code)], extern := ex\<rparr>)) \<Longrightarrow> wp (sendLoginCode ph code) Q w"
  using run_sendLoginCode [of ph code w] by (auto simp: wp_def)

lemma wp_cleanupSMSCode:
  "(\<And>fs. Q () (w\<lparr>faults := fs\<rparr>)) \<Longrightarrow> (\<And>fs. Q () (w\<lparr>faults := fs, db := del_code i (now w) (db w)\<rparr>)) \<Longrightarrow> wp (cleanupSMSCode i) Q w"
  unfolding cleanupSMSCode_def by (intro wps)

lemma wp_finishCodeRequest:
  assumes "\<And>fs d. d \<in> {db w, upd_older_codes ph i (now w) (db w)} \<Longrightarrow>
     Q (Reply 202 (CodeRequested (if developmentSMSFallbackEnabled A then Some code else None))) (w\<lparr>faults := fs, db := d\<rparr>)"
  shows "wp (finishCodeRequest A ph i code) Q w"
  unfolding finishCodeRequest_def invalidateOlderSMSCodes_def 
  using assms [of "db w"] assms [of "upd_older_codes ph i (now w) (db w)"] by (intro wps) auto

lemma wp_RequestSMSCode:
  "wp (RequestSMSCode A X r) (\<lambda>resp w'. case resp of
     Error s m \<Rightarrow> db w' = db w \<or> (\<exists>raw code i. decode_request_code r = Some raw \<and> i \<notin> c_id ` set (codes (db w))
        \<and> db w' = with_code A X (normalizePhone raw) code i (now w) (db w))
   | Reply s p \<Rightarrow> s = 202 \<and> (\<exists>raw code i. decode_request_code r = Some raw \<and> phoneRe (normalizePhone raw)
        \<and> i \<notin> c_id ` set (codes (db w)) \<and> issued A (normalizePhone raw) code
        \<and> p = CodeRequested (if developmentSMSFallbackEnabled A then Some code else None)
        \<and> db w' \<in> {with_code A X (normalizePhone raw) code i (now w) (db w),
             upd_older_codes (normalizePhone raw) i (now w) (with_code A X (normalizePhone raw) code i (now w) (db w))}
        \<and> sms_log w' = (if st_sms_sender A \<and> \<not> isReviewPhone A (normalizePhone raw) \<and> \<not> isStagingTestPhone A (normalizePhone raw)
              then sms_log w @ [(normalizePhone raw, code)] else sms_log w))) w"
  unfolding RequestSMSCode_def Let_def
  by (intro wps wp_sendLoginCode wp_cleanupSMSCode wp_finishCodeRequest)
    (auto simp: ins_code_def with_code_def del_new_code split: if_splits)

text \<open>When no database call fails.\<close>

lemma RequestSMSCode_free:
  assumes "faults w = []"
  shows "case run_state (RequestSMSCode A X r) w of (resp, w') \<Rightarrow> (case resp of
     Error s m \<Rightarrow> db w' = db w
   | Reply s p \<Rightarrow> s = 202 \<and> (case (decode_request_code r, p) of
       (Some raw, CodeRequested shown) \<Rightarrow> (let phone = normalizePhone raw in
          phoneRe phone \<and> (\<exists>i code. issued A phone code
          \<and> filter (live_code (now w) phone) (codes (db w')) =
              [new_code phone (hashLoginCode A X phone code) (now w + 5 * minute) i (now w)]
          \<and> filter (\<lambda>c. c_phone c \<noteq> phone) (codes (db w')) = filter (\<lambda>c. c_phone c \<noteq> phone) (codes (db w))
          \<and> (\<exists>cs. db w' = (db w)\<lparr>codes := cs\<rparr>)
          \<and> sms_log w' = (if st_sms_sender A \<and> \<not> isReviewPhone A phone \<and> \<not> isStagingTestPhone A phone
              then sms_log w @ [(phone, code)] else sms_log w)
          \<and> shown = (if developmentSMSFallbackEnabled A then Some code else None)))
     | _ \<Rightarrow> False))"
proof (cases "rq_method r = ''POST'' \<and> st_db A \<and> (\<exists>raw. decode_request_code r = Some raw \<and> phoneRe (normalizePhone raw))")
  case False
  then show ?thesis by (auto simp: RequestSMSCode_def Let_def split: option.splits)
next
  case True
  then obtain raw where raw: "decode_request_code r = Some raw" "phoneRe (normalizePhone raw)" by blast
  obtain resp w' where run: "run_state (RequestSMSCode A X r) w = (resp, w')" by fastforce
  have P: "request_post A X (normalizePhone raw) w resp w'"
    using RequestSMSCode_post [OF assms _ _ raw, of A X] True run by simp
  show ?thesis
  proof (cases resp)
    case (Reply s p)
    then obtain i code where p: "s = 202" "issued A (normalizePhone raw) code"
      "p = CodeRequested (if developmentSMSFallbackEnabled A then Some code else None)"
      "i \<notin> c_id ` set (codes (db w))"
      "db w' = upd_older_codes (normalizePhone raw) i (now w) ((db w)\<lparr>codes := codes (db w) @
        [new_code (normalizePhone raw) (hashLoginCode A X (normalizePhone raw) code) (now w + 5 * minute) i (now w)]\<rparr>)"
      "sms_log w' = (if st_sms_sender A \<and> \<not> isReviewPhone A (normalizePhone raw) \<and> \<not> isStagingTestPhone A (normalizePhone raw)
              then sms_log w @ [(normalizePhone raw, code)] else sms_log w)"
      using P by (auto simp: request_post_def)
    have "now w < now w + 5 * minute" by (simp add: durations)
    note eff = only_new_code [OF p(4) this p(5)]
    show ?thesis
      unfolding run Reply prod.case resp.case raw(1) option.case p(3) login_payload.case Let_def
      by (intro conjI raw(2) p(1) exI [of _ i] exI [of _ code] p(2) eff p(6) refl)
  qed (use P run in \<open>simp add: request_post_def\<close>)
qed

lemma with_new_code:
  assumes "d' = with_code A X ph code i t d"
  shows "filter (live_code t ph) (codes d') = filter (live_code t ph) (codes d)
      @ [new_code ph (hashLoginCode A X ph code) (t + 5 * minute) i t]"
    "filter (\<lambda>c. c_phone c \<noteq> ph) (codes d') = filter (\<lambda>c. c_phone c \<noteq> ph) (codes d)"
    "\<exists>cs. d' = d\<lparr>codes := cs\<rparr>"
  using assms by (auto simp: with_code_def live_code_def new_code_def durations)

text \<open>
  C21. Requesting a code changes only the code table, and there only the codes of the asked phone. An answer of 202
  means that the phone has a new live code, for five minutes and without wrong tries: six random digits outside development
  (or the configured code of a test phone), handed to the provider unless the phone is a test phone, and shown in the answer only in the
  development fallback. When no database call fails it is the only live code of the phone, and a refused or undelivered request leaves
  no code behind; when one fails, older live codes of the phone may stay beside the new one, and the code of a
  refused request may stay, since the errors of both clean-up statements are ignored.
\<close>

theorem RequestSMSCode_issues:
  "case run_state (RequestSMSCode A X r) w of (resp, w') \<Rightarrow> (case resp of
     Error s m \<Rightarrow> db w' = db w \<or> (faults w \<noteq> [] \<and> (\<exists>raw code i. decode_request_code r = Some raw
        \<and> db w' = with_code A X (normalizePhone raw) code i (now w) (db w)))
   | Reply s p \<Rightarrow> s = 202 \<and> (case (decode_request_code r, p) of
       (Some raw, CodeRequested shown) \<Rightarrow> (let phone = normalizePhone raw in
          phoneRe phone \<and> (\<exists>i code. issued A phone code
          \<and> (let new = new_code phone (hashLoginCode A X phone code) (now w + 5 * minute) i (now w);
                 live = filter (live_code (now w) phone) in
               live (codes (db w')) = [new] \<or> (faults w \<noteq> [] \<and> live (codes (db w')) = live (codes (db w)) @ [new]))
          \<and> filter (\<lambda>c. c_phone c \<noteq> phone) (codes (db w')) = filter (\<lambda>c. c_phone c \<noteq> phone) (codes (db w))
          \<and> (\<exists>cs. db w' = (db w)\<lparr>codes := cs\<rparr>)
          \<and> sms_log w' = (if st_sms_sender A \<and> \<not> isReviewPhone A phone \<and> \<not> isStagingTestPhone A phone
              then sms_log w @ [(phone, code)] else sms_log w)
          \<and> shown = (if developmentSMSFallbackEnabled A then Some code else None)))
     | _ \<Rightarrow> False))"
proof -
  obtain resp w' where run: "run_state (RequestSMSCode A X r) w = (resp, w')" by fastforce
  note any = wpD [OF wp_RequestSMSCode run]
  show ?thesis
  proof (cases "faults w = []")
    case True
    show ?thesis using RequestSMSCode_free [OF True, of A X r] unfolding Let_def True simp_thms by blast
  next
    case False
    show ?thesis
    proof (cases resp)
      case (Reply s p)
      then obtain raw code i where p: "s = 202" "decode_request_code r = Some raw" "phoneRe (normalizePhone raw)"
        "i \<notin> c_id ` set (codes (db w))" "issued A (normalizePhone raw) code"
        "p = CodeRequested (if developmentSMSFallbackEnabled A then Some code else None)"
        "sms_log w' = (if st_sms_sender A \<and> \<not> isReviewPhone A (normalizePhone raw) \<and> \<not> isStagingTestPhone A (normalizePhone raw)
              then sms_log w @ [(normalizePhone raw, code)] else sms_log w)"
        and d: "db w' = with_code A X (normalizePhone raw) code i (now w) (db w)
          \<or> db w' = upd_older_codes (normalizePhone raw) i (now w) (with_code A X (normalizePhone raw) code i (now w) (db w))"
        using any by auto
      have later: "now w < now w + 5 * minute" by (simp add: durations)
      from d show ?thesis
      proof
        assume d: "db w' = with_code A X (normalizePhone raw) code i (now w) (db w)"
        show ?thesis
          unfolding run Reply prod.case resp.case p(2) option.case p(6) login_payload.case Let_def
          by (intro conjI p(1,3) exI [of _ i] exI [of _ code] p(5) disjI2 False with_new_code [OF d] p(7) refl)
      next
        assume d: "db w' = upd_older_codes (normalizePhone raw) i (now w) (with_code A X (normalizePhone raw) code i (now w) (db w))"
        note eff = only_new_code [OF p(4) later d [unfolded with_code_def]]
        show ?thesis
          unfolding run Reply prod.case resp.case p(2) option.case p(6) login_payload.case Let_def
          by (intro conjI p(1,3) exI [of _ i] exI [of _ code] p(5) disjI1 eff p(7) refl)
      qed
    qed (use any run False in auto)
  qed
qed

definition s_request_code :: request where
  "s_request_code = s_req ''POST'' ''/api/v1/auth/sms/request'' (JObj [(''phone'', JStr s_phone2)])"

theorem RequestSMSCode_issues_witness:
  "case run_state (RequestSMSCode s_app s_ext s_request_code) s_code_world of (resp, w') \<Rightarrow>
     resp = Reply 202 (CodeRequested (Some developmentSMSCode)) \<and> length (filter (live_code day s_phone2) (codes (db w'))) = 1"
proof -
  have e: "faults s_code_world = []" "now s_code_world = day" by (simp_all add: s_code_world_def sample_defs)
  have c: "fst (run_state (RequestSMSCode s_app s_ext s_request_code) s_code_world) = Reply 202 (CodeRequested (Some developmentSMSCode))"
    "map_option normalizePhone (decode_request_code s_request_code) = Some s_phone2" by code_simp+
  then show ?thesis
    using RequestSMSCode_issues [where A = s_app and X = s_ext and r = s_request_code and w = s_code_world] e
    by (auto simp: Let_def split: prod.splits option.splits)
qed

section \<open>The bearer token check\<close>

lemma wp_requireActiveAccount:
  assumes "\<And>s m fs. s \<in> {401, 503} \<Longrightarrow> Q (Some (s, m)) (w\<lparr>faults := fs\<rparr>)"
    "\<And>fs. accountIDRe u \<Longrightarrow> user_by_id (db w) u \<noteq> None \<Longrightarrow> Q None (w\<lparr>faults := fs\<rparr>)"
  shows "wp (requireActiveAccount A u) Q w"
proof -
  have "Q (Some (s, m)) w" if "s \<in> {401, 503}" for s m
    using assms(1) [OF that, of m "faults w"] by (simp add: same_fields)
  then show ?thesis
    unfolding requireActiveAccount_def by (intro wps) (auto intro!: assms)
qed

text \<open>
  C22. The handler behind the token check runs only for a request with a bearer token that verifies,
  on the tables as they are, as the account the token was issued to, and only if this account still
  exists; every other request is answered 401 or 503 and changes nothing.
\<close>

theorem requireAuth_guards:
  "case run_state (requireAuth A X nxt r) w of (resp, w') \<Rightarrow>
     (\<exists>s m fs. resp = Error s m \<and> s \<in> {401, 503} \<and> w' = w\<lparr>faults := fs\<rparr>)
     \<or> (\<exists>u fs. parseAccessToken A X (now w) (trim_prefix ''Bearer '' (get_first (rq_headers r) ''Authorization'')) = Some u
          \<and> has_prefix ''Bearer '' (get_first (rq_headers r) ''Authorization'')
          \<and> user_by_id (db w) u \<noteq> None
          \<and> run_state (nxt (withUserID r u)) (w\<lparr>faults := fs\<rparr>) = (resp, w'))"
proof -
  have e: "\<exists>fs. w = w\<lparr>faults := fs\<rparr>" by (rule exI [of _ "faults w"]) simp
  have "wp (requireAuth A X nxt r) (\<lambda>resp w'. 
     (\<exists>s m fs. resp = Error s m \<and> s \<in> {401, 503} \<and> w' = w\<lparr>faults := fs\<rparr>)
     \<or> (\<exists>u fs. parseAccessToken A X (now w) (trim_prefix ''Bearer '' (get_first (rq_headers r) ''Authorization'')) = Some u
          \<and> has_prefix ''Bearer '' (get_first (rq_headers r) ''Authorization'')
          \<and> user_by_id (db w) u \<noteq> None
          \<and> run_state (nxt (withUserID r u)) (w\<lparr>faults := fs\<rparr>) = (resp, w'))) w"
    unfolding requireAuth_def
    by (intro wps wp_requireActiveAccount) (use e in \<open>auto intro!: wpI\<close>)
  then show ?thesis by (simp add: wp_def)
qed

end
