(* ===== verification/Account.thy ===== *)
theory Account
  imports Login_Facts
begin

text \<open>
  Deleting an account: the SMS challenge and its narrow token (\<open>account_deletion_auth.go\<close>), and
  \<open>DeleteAccount\<close> (\<open>account.go\<close>) with the foreign-key policy and the storage trigger of the
  embedded migrations.
\<close>

datatype account_payload = DeletionVerified string time uuid | AccountDeleted

section \<open>The deletion token\<close>

definition deletionTx :: "app_state \<Rightarrow> externals \<Rightarrow> string \<Rightarrow> uuid \<Rightarrow> (world, account_payload resp) state" where
  "deletionTx A X phone cid = do {
     us \<leftarrow> sel Tx (\<lambda>t d. row_of (map_option u_id (user_by_phone d phone)));
     if us = SqlErr then fail 503 ''login service is temporarily unavailable''
     else do {
       c \<leftarrow> exec Tx (upd_consume_code cid);
       if c = SqlErr then fail 503 ''login service is temporarily unavailable''
       else do {
         ok \<leftarrow> tx_commit;
         if \<not> ok then fail 503 ''login service is temporarily unavailable''
         else (case us of
             NoRows \<Rightarrow> fail 404 ''account not found''
           | SqlErr \<Rightarrow> fail 404 ''account not found''
           | Row u \<Rightarrow> do {
               tok \<leftarrow> signAccountDeletionToken A X u;
               (case tok of
                  None \<Rightarrow> fail 500 ''failed to sign deletion token''
                | Some a \<Rightarrow> reply 200 (DeletionVerified a (accountDeletionTokenTTL div second) u))
             })
       }
     }
   }"

definition VerifyAccountDeletionSMSCode :: "app_state \<Rightarrow> externals \<Rightarrow> account_payload handler" where
  "VerifyAccountDeletionSMSCode A X = verifyCode A X (deletionTx A X)"

definition requireAccountDeletionAuth :: "app_state \<Rightarrow> externals \<Rightarrow> 'p handler \<Rightarrow> 'p handler" where
  "requireAccountDeletionAuth A X nxt r =
     (let header = get_first (rq_headers r) ''Authorization'' in
      if \<not> has_prefix ''Bearer '' header then fail 401 ''missing bearer token''
      else do {
        t \<leftarrow> read_now;
        let raw = trim_prefix ''Bearer '' header;
        (case (case parseAccountDeletionToken A X t raw of None \<Rightarrow> parseAccessToken A X t raw | Some u \<Rightarrow> Some u) of
           None \<Rightarrow> fail 401 ''invalid token''
         | Some u \<Rightarrow> do {
             bad \<leftarrow> requireActiveAccount A u;
             (case bad of
                Some sm \<Rightarrow> fail (fst sm) (snd sm)
              | None \<Rightarrow> nxt (withUserID r u))
           })
      })"

section \<open>Removing files and accounts\<close>

text \<open>\<open>queue_file_storage_deletion\<close>; the sequence of the table advances on a conflict too.\<close>

definition queue_path :: "time \<Rightarrow> db \<Rightarrow> file_row \<Rightarrow> db" where
  "queue_path t d f =
     d\<lparr>deletions := (if f_path f \<in> x_path ` set (deletions d) then deletions d
        else deletions d @ [\<lparr>x_id = deletion_seq d, x_path = f_path f, x_attempts = 0, x_available = t,
          x_locked = None, x_error = None, x_created = t\<rparr>]),
       deletion_seq := deletion_seq d + 1\<rparr>"

text \<open>\<open>DELETE FROM files WHERE p\<close>: the trigger fires, and receipts that pointed there become null.\<close>

definition remove_files :: "(file_row \<Rightarrow> bool) \<Rightarrow> time \<Rightarrow> db \<Rightarrow> db" where
  "remove_files p t d = (foldl (queue_path t) d (filter p (files d)))
     \<lparr>files := filter (\<lambda>f. \<not> p f) (files d),
      costs := upd_where (\<lambda>k. k_receipt k \<in> Some ` f_id ` set (filter p (files d))) (\<lambda>k. k\<lparr>k_receipt := None\<rparr>) (costs d)\<rparr>"

text \<open>\<open>ON DELETE SET NULL\<close> of \<open>uploaded_by\<close>, with the trigger.\<close>

definition orphan_files :: "uuid \<Rightarrow> time \<Rightarrow> db \<Rightarrow> db" where
  "orphan_files u t d = (foldl (queue_path t) d (filter (\<lambda>f. f_uploader f = Some u) (files d)))
     \<lparr>files := upd_where (\<lambda>f. f_uploader f = Some u) (\<lambda>f. f\<lparr>f_uploader := None\<rparr>) (files d)\<rparr>"

definition forget :: "uuid \<Rightarrow> uuid option \<Rightarrow> uuid option" where
  "forget u x = (if x = Some u then None else x)"

definition owned_projects :: "uuid \<Rightarrow> db \<Rightarrow> uuid set" where
  "owned_projects u d = p_id ` set (filter (\<lambda>p. p_owner p = u) (projects d))"

text \<open>The cascade of a deleted project.\<close>

definition cascade_projects :: "uuid set \<Rightarrow> time \<Rightarrow> db \<Rightarrow> db" where
  "cascade_projects ps t d = (remove_files (\<lambda>f. f_project f \<in> Some ` ps) t d)
     \<lparr>projects := filter (\<lambda>p. p_id p \<notin> ps) (projects d),
      members := filter (\<lambda>m. m_project m \<notin> ps) (members d),
      invites := filter (\<lambda>i. i_project i \<notin> ps) (invites d),
      tasks := filter (\<lambda>x. t_project x \<notin> ps) (tasks d),
      costs := filter (\<lambda>k. k_project k \<notin> ps) (costs (remove_files (\<lambda>f. f_project f \<in> Some ` ps) t d)),
      reports := filter (\<lambda>x. d_project x \<notin> ps) (reports d),
      audits := map (\<lambda>l. if l_project l \<in> Some ` ps then l\<lparr>l_project := None\<rparr> else l) (audits d)\<rparr>"

text \<open>The references to a deleted account: its own rows go, authorship of shared rows is cleared.\<close>

definition forget_user :: "uuid \<Rightarrow> time \<Rightarrow> db \<Rightarrow> db" where
  "forget_user u t d = (orphan_files u t d)
     \<lparr>users := filter (\<lambda>x. u_id x \<noteq> u) (users d),
      members := filter (\<lambda>m. m_user m \<noteq> u) (members d),
      invites := map (\<lambda>i. i\<lparr>i_by := forget u (i_by i)\<rparr>) (invites d),
      subscriptions := filter (\<lambda>s. s_user s \<noteq> u) (subscriptions d),
      sessions := filter (\<lambda>s. r_user s \<noteq> u) (sessions d),
      audits := map (\<lambda>l. l\<lparr>l_actor := forget u (l_actor l)\<rparr>) (audits d),
      tasks := map (\<lambda>x. x\<lparr>t_by := forget u (t_by x), t_assigned := forget u (t_assigned x)\<rparr>) (tasks d),
      costs := map (\<lambda>k. k\<lparr>k_by := forget u (k_by k)\<rparr>) (costs d),
      reports := map (\<lambda>x. x\<lparr>d_by := forget u (d_by x)\<rparr>) (reports d),
      push_tokens := filter (\<lambda>g. g_user g \<noteq> u) (push_tokens d),
      orders := filter (\<lambda>x. o_user x \<noteq> u) (orders d),
      tickets := filter (\<lambda>h. h_user h \<noteq> u) (tickets d)\<rparr>"

text \<open>The path check of the outbox table makes the statement fail when a file has no path.\<close>

definition del_user_files :: "uuid \<Rightarrow> unit sql" where
  "del_user_files u t d =
     (if \<exists>f\<in>set (files d). f_uploader f = Some u \<and> f_path f = [] then (SqlErr, d)
      else (Row (), remove_files (\<lambda>f. f_uploader f = Some u) t d))"

definition del_user :: "uuid \<Rightarrow> nat sql" where
  "del_user u t d =
     (if \<exists>f\<in>set (files d). (f_uploader f = Some u \<or> f_project f \<in> Some ` owned_projects u d) \<and> f_path f = []
      then (SqlErr, d)
      else if user_by_id d u = None then (Row 0, d)
      else (Row 1, forget_user u t (cascade_projects (owned_projects u d) t d)))"

text \<open>\<open>DeletionJournal.RecordAccountDeletion\<close>\<close>

definition recordAccountDeletion :: "uuid \<Rightarrow> (world, bool) state" where
  "recordAccountDeletion u = do {
     ok \<leftarrow> extern_ok;
     if ok then do { modify (\<lambda>w. w\<lparr>journal := journal w @ [u]\<rparr>); ret True } else ret False
   }"

definition deleteAccountTx :: "app_state \<Rightarrow> uuid \<Rightarrow> (world, account_payload resp) state" where
  "deleteAccountTx A u = do {
     lk \<leftarrow> sel Tx (\<lambda>t d. row_of (map_option u_id (user_by_id d u)));
     (case lk of
        NoRows \<Rightarrow> fail 404 ''account not found''
      | SqlErr \<Rightarrow> fail 500 ''failed to lock account for deletion''
      | Row locked \<Rightarrow> do {
          f \<leftarrow> stmt Tx (del_user_files u);
          if f = SqlErr then fail 500 ''failed to delete account files''
          else do {
            n \<leftarrow> stmt Tx (del_user u);
            (case n of
               SqlErr \<Rightarrow> fail 500 ''failed to delete account''
             | NoRows \<Rightarrow> fail 500 ''failed to delete account''
             | Row k \<Rightarrow>
                 if k = 0 then fail 404 ''account not found''
                 else do {
                   j \<leftarrow> (if st_journal A then recordAccountDeletion locked else ret True);
                   if \<not> j then fail 503 ''could not secure account deletion''
                   else do {
                     c \<leftarrow> tx_commit;
                     if \<not> c then fail 500 ''failed to complete account deletion''
                     else reply 200 AccountDeleted
                   }
                 })
          }
        })
   }"

definition DeleteAccount :: "app_state \<Rightarrow> account_payload handler" where
  "DeleteAccount A r =
     (if rq_method r \<noteq> ''DELETE'' then methodNotAllowed
      else if \<not> st_db A then dbNotAvailable
      else let u = userIDFromContext r in
        if u = [] then fail 401 ''authentication required''
        else if st_production_like A \<and> \<not> st_journal A then fail 503 ''account deletion protection is unavailable''
        else do {
          b \<leftarrow> tx_begin;
          if \<not> b then fail 500 ''failed to start account deletion''
          else defer_rollback (deleteAccountTx A u)
        })"

end
