(* ===== verification/Account_Facts.thy ===== *)
theory Account_Facts
  imports Account
begin

text \<open>
  What the deletion of an account removes and what it keeps, and that the challenge in front of it
  changes nothing but the codes.
\<close>

section \<open>The outbox\<close>

lemma queue_paths:
  "\<exists>ds n. foldl (queue_path t) d fs = d\<lparr>deletions := ds, deletion_seq := n\<rparr>
     \<and> x_path ` set ds = x_path ` set (deletions d) \<union> f_path ` set fs"
proof (induction fs arbitrary: d)
  case Nil
  have "d = d\<lparr>deletions := deletions d, deletion_seq := deletion_seq d\<rparr>" by simp
  then show ?case by (metis (no_types) Un_empty_right foldl_Nil image_empty list.set(1))
next
  case (Cons f fs)
  obtain ds n where "foldl (queue_path t) (queue_path t d f) fs = (queue_path t d f)\<lparr>deletions := ds, deletion_seq := n\<rparr>"
    "x_path ` set ds = x_path ` set (deletions (queue_path t d f)) \<union> f_path ` set fs"
    using Cons.IH [of "queue_path t d f"] by blast
  moreover have "x_path ` set (deletions (queue_path t d f)) = insert (f_path f) (x_path ` set (deletions d))"
    by (auto simp: queue_path_def)
  moreover have "(queue_path t d f)\<lparr>deletions := ds, deletion_seq := n\<rparr> = d\<lparr>deletions := ds, deletion_seq := n\<rparr>"
    by (simp add: queue_path_def)
  ultimately show ?case by (intro exI [of _ ds] exI [of _ n]) simp
qed

lemma remove_files_fields:
  obtains ds n where "remove_files p t d = d\<lparr>deletions := ds, deletion_seq := n, files := filter (\<lambda>f. \<not> p f) (files d),
      costs := upd_where (\<lambda>k. k_receipt k \<in> Some ` f_id ` set (filter p (files d))) (\<lambda>k. k\<lparr>k_receipt := None\<rparr>) (costs d)\<rparr>"
    "x_path ` set ds = x_path ` set (deletions d) \<union> f_path ` {f \<in> set (files d). p f}"
  using queue_paths [of t d "filter p (files d)"] by (auto simp: remove_files_def)

lemma orphan_files_fields:
  obtains ds n where "orphan_files u t d = d\<lparr>deletions := ds, deletion_seq := n,
      files := upd_where (\<lambda>f. f_uploader f = Some u) (\<lambda>f. f\<lparr>f_uploader := None\<rparr>) (files d)\<rparr>"
    "x_path ` set (deletions d) \<subseteq> x_path ` set ds"
  using queue_paths [of t d "filter (\<lambda>f. f_uploader f = Some u) (files d)"] by (auto simp: orphan_files_def)

lemma remove_files_frame [simp]:
  "users (remove_files p t d) = users d"
  "projects (remove_files p t d) = projects d"
  "members (remove_files p t d) = members d"
  "invites (remove_files p t d) = invites d"
  "subscriptions (remove_files p t d) = subscriptions d"
  "codes (remove_files p t d) = codes d"
  "sessions (remove_files p t d) = sessions d"
  "attempts (remove_files p t d) = attempts d"
  "audits (remove_files p t d) = audits d"
  "tasks (remove_files p t d) = tasks d"
  "reports (remove_files p t d) = reports d"
  "push_tokens (remove_files p t d) = push_tokens d"
  "orders (remove_files p t d) = orders d"
  "tickets (remove_files p t d) = tickets d"
  "files (remove_files p t d) = filter (\<lambda>f. \<not> p f) (files d)"
  "x_path ` set (deletions (remove_files p t d)) = x_path ` set (deletions d) \<union> f_path ` {f \<in> set (files d). p f}"
  by (rule remove_files_fields [of p t d], simp)+

lemma orphan_files_frame [simp]:
  "users (orphan_files u t d) = users d"
  "projects (orphan_files u t d) = projects d"
  "members (orphan_files u t d) = members d"
  "invites (orphan_files u t d) = invites d"
  "subscriptions (orphan_files u t d) = subscriptions d"
  "codes (orphan_files u t d) = codes d"
  "sessions (orphan_files u t d) = sessions d"
  "attempts (orphan_files u t d) = attempts d"
  "audits (orphan_files u t d) = audits d"
  "tasks (orphan_files u t d) = tasks d"
  "reports (orphan_files u t d) = reports d"
  "push_tokens (orphan_files u t d) = push_tokens d"
  "orders (orphan_files u t d) = orders d"
  "tickets (orphan_files u t d) = tickets d"
  "costs (orphan_files u t d) = costs d"
  "files (orphan_files u t d) = upd_where (\<lambda>f. f_uploader f = Some u) (\<lambda>f. f\<lparr>f_uploader := None\<rparr>) (files d)"
  by (rule orphan_files_fields [of u t d], simp)+


section \<open>What is left of an account\<close>



lemma forget_neq [simp]: "forget u x \<noteq> Some u" "Some u \<noteq> forget u x"
  by (auto simp: forget_def)





lemma remove_files_costs [simp]: "costs (remove_files p t d) =
    upd_where (\<lambda>k. k_receipt k \<in> Some ` f_id ` set (filter p (files d))) (\<lambda>k. k\<lparr>k_receipt := None\<rparr>) (costs d)"
  "attempt_seq (remove_files p t d) = attempt_seq d"
  by (rule remove_files_fields [of p t d], simp)+

lemma orphan_files_seq [simp]: "attempt_seq (orphan_files u t d) = attempt_seq d"
  by (rule orphan_files_fields [of u t d], simp)











section \<open>The deletion handler\<close>

lemma wp_record [wps]:
  assumes "\<And>ex. Q False (w\<lparr>extern := ex\<rparr>)" "\<And>ex. Q True (w\<lparr>extern := ex, journal := journal w @ [u]\<rparr>)"
  shows "wp (recordAccountDeletion u) Q w"
  unfolding recordAccountDeletion_def
  by (intro wps) (use assms in auto)







section \<open>The deletion challenge\<close>

definition challenge_post :: "app_state \<Rightarrow> externals \<Rightarrow> request \<Rightarrow> world \<Rightarrow> account_payload resp \<Rightarrow> world \<Rightarrow> bool" where
  "challenge_post A X r w resp w' \<longleftrightarrow> now w' = now w \<and> txn w' = None \<and> (\<exists>cs. db w' = (db w)\<lparr>codes := cs\<rparr>)
     \<and> (\<forall>s p. resp = Reply s p \<longrightarrow> s = 200 \<and> (\<exists>pc c x tok. decode_verify r = Some pc
       \<and> current_code (db w) (now w) (normalizePhone (fst pc)) = Some c
       \<and> code_fits A X (normalizePhone (fst pc)) (trim_space (snd pc)) c
       \<and> codes (db w') = codes (upd_consume_code (c_id c) (now w) (db w))
       \<and> user_by_phone (db w) (normalizePhone (fst pc)) = Some x
       \<and> p = DeletionVerified tok 600 (u_id x)
       \<and> fst (run_state (signAccountDeletionToken A X (u_id x)) w) = Some tok))"

lemma wp_VerifyAccountDeletion:
  assumes t: "txn w = None"
  shows "wp (VerifyAccountDeletionSMSCode A X r) (challenge_post A X r w) w"
proof -
  have same: "\<exists>cs. d = d\<lparr>codes := cs\<rparr>" for d :: db by (rule exI [of _ "codes d"]) simp
  have ttl: "accountDeletionTokenTTL div second = 600" by (simp add: accountDeletionTokenTTL_def durations)
  show ?thesis
    unfolding VerifyAccountDeletionSMSCode_def
  proof (rule wp_verifyCode [OF t])
    fix fs c and pc :: "string \<times> string"
    let ?ph = "normalizePhone (fst pc)" let ?w = "w\<lparr>faults := fs, txn := Some (db w, False)\<rparr>"
    assume c: "decode_verify r = Some pc" "phoneRe ?ph" "current_code (db w) (now w) ?ph = Some c"
      "code_fits A X ?ph (trim_space (snd pc)) c"
    show "wp (deletionTx A X ?ph (c_id c)) (\<lambda>x w'. challenge_post A X r w x (w'\<lparr>txn := None\<rparr>)) ?w"
      unfolding deletionTx_def
      by (intro wps) (use c same in \<open>auto simp: challenge_post_def upd_consume_code_def row_of_def ttl signAccountDeletionToken_def
          split: option.splits\<close>)
  qed (use t same in \<open>auto simp: challenge_post_def upd_code_attempt_def\<close>)
qed

text \<open>
  C24. The deletion challenge never creates or changes an account and accepts no invitation: only the
  code table changes. It succeeds only with the current code of the phone of an existing account,
  consumes it, and answers a deletion token for this account that lasts ten minutes.
\<close>

theorem VerifyAccountDeletion_narrow:
  assumes "txn w = None"
  shows "case run_state (VerifyAccountDeletionSMSCode A X r) w of (resp, w') \<Rightarrow>
     (\<exists>cs. db w' = (db w)\<lparr>codes := cs\<rparr>) \<and> txn w' = None \<and> (case resp of Error s m \<Rightarrow> True
   | Reply s p \<Rightarrow> s = 200 \<and> (case (decode_verify r, p) of
       (Some pc, DeletionVerified tok secs u) \<Rightarrow> (let phone = normalizePhone (fst pc) in
         (case current_code (db w) (now w) phone of None \<Rightarrow> False | Some c \<Rightarrow>
             code_fits A X phone (trim_space (snd pc)) c \<and> codes (db w') = codes (upd_consume_code (c_id c) (now w) (db w)))
         \<and> map_option u_id (user_by_phone (db w) phone) = Some u \<and> secs = 600
         \<and> fst (run_state (signAccountDeletionToken A X u) w) = Some tok)
     | _ \<Rightarrow> False))"
  using wp_VerifyAccountDeletion [OF assms, of A X r]
  by (auto simp: wp_def challenge_post_def Let_def split: prod.splits resp.splits)

theorem VerifyAccountDeletion_narrow_witness:
  "case run_state (VerifyAccountDeletionSMSCode s_app s_ext (s_verify ''123456'')) s_code_world of (resp, w') \<Rightarrow>
     is_reply resp \<and> users (db w') = users (db s_code_world) \<and> members (db w') = members (db s_code_world)"
proof -
  have "is_reply (fst (run_state (VerifyAccountDeletionSMSCode s_app s_ext (s_verify ''123456'')) s_code_world))" by code_simp
  moreover have "txn s_code_world = None" by (simp add: s_code_world_def s_team_def s_world_def)
  ultimately show ?thesis
    using VerifyAccountDeletion_narrow [where w = s_code_world and A = s_app and X = s_ext and r = "s_verify ''123456''"]
    by (auto split: prod.splits)
qed

text \<open>
  The deletion handler runs only as the existing account of a valid deletion token or access
  token; every other request is answered 401 or 503 and changes nothing.
\<close>

theorem deletion_auth_guards:
  "case run_state (requireAccountDeletionAuth A X nxt r) w of (resp, w') \<Rightarrow>
     (\<exists>s m fs. resp = Error s m \<and> s \<in> {401, 503} \<and> w' = w\<lparr>faults := fs\<rparr>)
     \<or> (\<exists>u fs. has_prefix ''Bearer '' (get_first (rq_headers r) ''Authorization'')
          \<and> (let raw = trim_prefix ''Bearer '' (get_first (rq_headers r) ''Authorization'') in
               Some u \<in> {parseAccountDeletionToken A X (now w) raw, parseAccessToken A X (now w) raw})
          \<and> user_by_id (db w) u \<noteq> None
          \<and> run_state (nxt (withUserID r u)) (w\<lparr>faults := fs\<rparr>) = (resp, w'))"
proof -
  have e: "\<exists>fs. w = w\<lparr>faults := fs\<rparr>" by (rule exI [of _ "faults w"]) simp
  have "wp (requireAccountDeletionAuth A X nxt r) (\<lambda>resp w'.
     (\<exists>s m fs. resp = Error s m \<and> s \<in> {401, 503} \<and> w' = w\<lparr>faults := fs\<rparr>)
     \<or> (\<exists>u fs. has_prefix ''Bearer '' (get_first (rq_headers r) ''Authorization'')
          \<and> (let raw = trim_prefix ''Bearer '' (get_first (rq_headers r) ''Authorization'') in
               Some u \<in> {parseAccountDeletionToken A X (now w) raw, parseAccessToken A X (now w) raw})
          \<and> user_by_id (db w) u \<noteq> None
          \<and> run_state (nxt (withUserID r u)) (w\<lparr>faults := fs\<rparr>) = (resp, w'))) w"
    unfolding requireAccountDeletionAuth_def
    by (intro wps wp_requireActiveAccount)
      (use e in \<open>auto intro!: wpI split: option.splits\<close>)
  then show ?thesis by (simp add: wp_def)
qed

end
