(* ===== verification/Attempt_Facts.thy ===== *)
theory Attempt_Facts
  imports Auth_Attempts Account_Facts
begin

text \<open>
  The rate limits as invariants of the table of attempts: sliding windows, the wrappers as contracts
  over the handlers behind them, the blocked request, the pruning loops, and the key of the client.
\<close>

section \<open>Sliding windows\<close>

definition in_window :: "string \<Rightarrow> (attempt_row \<Rightarrow> bool) \<Rightarrow> time \<Rightarrow> time \<Rightarrow> db \<Rightarrow> nat" where
  "in_window action P win t d =
     count_where (\<lambda>a. a_action a = action \<and> P a \<and> t - win < a_created a \<and> a_created a \<le> t) (attempts d)"

text \<open>In no interval of length \<open>win\<close> are there more than \<open>k\<close> attempts of the kind \<open>P\<close>.\<close>

definition limited :: "string \<Rightarrow> (attempt_row \<Rightarrow> bool) \<Rightarrow> time \<Rightarrow> nat \<Rightarrow> db \<Rightarrow> bool" where
  "limited action P win k d \<longleftrightarrow> (\<forall>t. in_window action P win t d \<le> k)"

definition attempts_ok :: "time \<Rightarrow> db \<Rightarrow> bool" where
  "attempts_ok t d \<longleftrightarrow> (\<forall>a\<in>set (attempts d). second \<le> a_created a \<and> a_created a \<le> t)"

lemma limited_filter: "limited action P win k d \<Longrightarrow> limited action P win k (d\<lparr>attempts := filter q (attempts d)\<rparr>)"
proof -
  have "in_window action P win t (d\<lparr>attempts := filter q (attempts d)\<rparr>) \<le> in_window action P win t d" for t
    unfolding in_window_def by (simp add: count_where_filter) (rule count_where_mono, simp)
  then show "limited action P win k d \<Longrightarrow> ?thesis" unfolding limited_def using le_trans by blast
qed

lemma limited_upd_attempt:
  assumes "\<And>a ok. P (a\<lparr>a_succeeded := ok\<rparr>) = P a"
  shows "limited action P win k (upd_attempt i ok t d) = limited action P win k d"
  using assms by (simp add: limited_def in_window_def upd_attempt_def count_where_upd_where)

lemma limited_insert:
  assumes "limited action P win k d" "attempts_ok t d" "a_created a = t"
    "a_action a = action \<Longrightarrow> P a \<Longrightarrow> in_window action P win t d < k"
  shows "limited action P win k (d\<lparr>attempts := attempts d @ [a], attempt_seq := n\<rparr>)"
  unfolding limited_def
proof
  fix t'
  let ?d = "d\<lparr>attempts := attempts d @ [a], attempt_seq := n\<rparr>"
  have old: "in_window action P win t' d \<le> k" using assms(1) by (simp add: limited_def)
  have "in_window action P win t' d \<le> in_window action P win t d" if "t \<le> t'"
    unfolding in_window_def using assms(2) that by (intro count_where_mono) (auto simp: attempts_ok_def)
  then show "in_window action P win t' ?d \<le> k"
    using old assms(3,4) by (cases "a_action a = action \<and> P a \<and> t' - win < t \<and> t \<le> t'") (auto simp: in_window_def)
qed

definition sms_ok :: "time \<Rightarrow> db \<Rightarrow> bool" where
  "sms_ok t d \<longleftrightarrow> attempts_ok t d
     \<and> (\<forall>ph. limited ''sms_verify'' (attempt_phone ph) (15 * minute) 10 d)
     \<and> (\<forall>rk. limited ''sms_verify'' (\<lambda>a. a_remote a = rk) (15 * minute) 30 d)
     \<and> (\<forall>ph. limited ''sms_request'' (attempt_phone ph) hour 6 d)
     \<and> (\<forall>rk. limited ''sms_request'' (\<lambda>a. a_remote a = rk) hour 30 d)
     \<and> (\<forall>ph. limited ''sms_request'' (attempt_phone ph) (45 * second) 1 d)"

lemma sms_ok_filter: "sms_ok t d \<Longrightarrow> sms_ok t (d\<lparr>attempts := filter q (attempts d)\<rparr>)"
  by (simp add: sms_ok_def limited_filter attempts_ok_def)

lemma sms_ok_upd_attempt: "sms_ok t d \<Longrightarrow> sms_ok t (upd_attempt i ok t' d)"
proof -
  have "limited action (attempt_phone ph) win k (upd_attempt i ok t' d) = limited action (attempt_phone ph) win k d"
    "limited action (\<lambda>a. a_remote a = rk) win k (upd_attempt i ok t' d) = limited action (\<lambda>a. a_remote a = rk) win k d"
    for action ph rk win k
    by (rule limited_upd_attempt, simp add: attempt_phone_def)+
  then show "sms_ok t d \<Longrightarrow> ?thesis"
    by (auto simp: sms_ok_def attempts_ok_def upd_attempt_def set_upd_where)
qed

lemma sms_ok_later: "sms_ok t d \<Longrightarrow> t \<le> t' \<Longrightarrow> sms_ok t' d"
  by (auto simp: sms_ok_def attempts_ok_def)

lemma sms_ok_cong: "attempts d' = attempts d \<Longrightarrow> sms_ok t d' = sms_ok t d"
  by (simp add: sms_ok_def attempts_ok_def limited_def in_window_def)

lemma sms_ok_prune: "sql_inv (sms_ok t) (del_expired_attempts keep batch)" "sql_inv (sms_ok t) (del_expired_codes keep batch)"
proof -
  have "sms_ok t (d\<lparr>codes := cs\<rparr>) = sms_ok t d" for d cs by (rule sms_ok_cong) simp
  then show "sql_inv (sms_ok t) (del_expired_attempts keep batch)" "sql_inv (sms_ok t) (del_expired_codes keep batch)"
    by (auto simp: sql_inv_def del_expired_attempts_def del_expired_codes_def Let_def sms_ok_filter)
qed

lemma preserves_delete [pres]: "sql_inv I q \<Longrightarrow> preserves (db_inv I) (deleteExpiredAuthRows n q)"
  by (induction n) (auto intro!: pres)

lemma now_delete [pres]: "preserves (\<lambda>w. now w = t) (deleteExpiredAuthRows n q)"
  by (induction n) (auto intro!: pres)

lemma preserves_table_size [pres]: "preserves P (table_size f)" "preserves P read_due"
  by (simp_all add: preserves_def table_size_def read_due_def)

lemma preserves_prune [pres]: "preserves (db_inv (sms_ok t)) (pruneAuthHistoryIfDue A)"
  unfolding pruneAuthHistoryIfDue_def pruneAuthHistory_def
  by (intro pres sms_ok_prune) simp_all

lemma now_prune [pres]: "preserves (\<lambda>w. now w = t) (pruneAuthHistoryIfDue A)"
  unfolding pruneAuthHistoryIfDue_def pruneAuthHistory_def by (intro pres) simp_all


section \<open>What a reservation finds\<close>

lemma wp_lockAll:
  assumes "\<And>fs t. (\<And>d. t \<noteq> Some (d, False)) \<Longrightarrow> Q False (w\<lparr>faults := fs, txn := t\<rparr>)"
    and "\<And>fs. Q True (w\<lparr>faults := fs\<rparr>)"
  shows "wp (lockAll ks) Q w"
  using assms
proof (induction ks arbitrary: w)
  case Nil
  then have "Q True w" using Nil(2) [of "faults w"] by (simp add: same_fields)
  then show ?case by (auto intro!: wps)
next
  case (Cons k ks)
  show ?case
    unfolding lockAll.simps
  proof (intro wps)
    fix fs d0 assume t: "txn w = Some (d0, False)"
    have "w\<lparr>faults := fs, txn := Some (d0, False)\<rparr> = w\<lparr>faults := fs\<rparr>" for fs using t by (cases w) simp
    then show "wp (lockAll ks) Q (w\<lparr>faults := fs, txn := Some (d0, False)\<rparr>)"
      using Cons.prems by (intro Cons.IH) auto
  qed (use Cons.prems in auto)
qed

lemma wp_reserve:
  assumes E: "\<And>x fs. x = ReserveErr \<or> x = RetryAfter win \<or> (0 < cooldown \<and> (\<exists>n>0. x = RetryAfter n)) \<Longrightarrow>
      Q x (w\<lparr>faults := fs, txn := None\<rparr>)"
    and B: "\<And>fs. Q ReserveErr (w\<lparr>faults := fs\<rparr>)"
    and S: "\<And>fs rc pc latest. sel_attempts remote phone action win (now w) (db w) = (rc, pc, latest) \<Longrightarrow>
      (0 < cooldown \<and> phone \<noteq> [] \<and> 0 < latest div second \<Longrightarrow> latest + cooldown \<le> now w) \<Longrightarrow>
      (0 < rl \<Longrightarrow> int rc < rl) \<Longrightarrow> (0 < pl \<Longrightarrow> phone \<noteq> [] \<Longrightarrow> int pc < pl) \<Longrightarrow>
      Q (Reserved (attempt_seq (db w)))
        (w\<lparr>faults := fs, db := snd (ins_attempt phone remote action (now w) (db w)), txn := None\<rparr>)"
  shows "wp (reserveAuthAttempt action phone remote win pl rl cooldown) Q w"
  unfolding reserveAuthAttempt_def reserveTx_def
proof (intro wps wp_lockAll)
  show "Q ReserveErr (w\<lparr>faults := fs\<rparr>)" for fs by (rule B)
qed (use E S in \<open>auto simp: ins_attempt_def\<close>)

lemma latest_of_ge: "x \<in> set ts \<Longrightarrow> x \<le> latest_of ts"
proof -
  have "y \<le> foldl max y us \<and> (\<forall>u\<in>set us. u \<le> foldl max y us)" for y and us :: "time list"
  proof (induction us arbitrary: y)
    case (Cons u us)
    have "max y u \<le> foldl max (max y u) us" using Cons.IH [of "max y u"] by (rule conjunct1)
    then have "y \<le> foldl max (max y u) us" "u \<le> foldl max (max y u) us" by simp_all
    then show ?case using Cons.IH [of "max y u"] by simp
  qed simp
  then show "x \<in> set ts \<Longrightarrow> ?thesis" by (auto simp: latest_of_def split: list.splits)
qed

lemma sel_attempts_counts:
  assumes "sel_attempts remote phone action win t d = (rc, pc, latest)" "win = n * second"
  shows "in_window action (\<lambda>a. a_remote a = remote) win t d \<le> rc"
    "in_window action (attempt_phone phone) win t d \<le> pc"
    "0 < cd \<Longrightarrow> cd \<le> win \<Longrightarrow> attempts_ok t d \<Longrightarrow> (0 < latest div second \<Longrightarrow> latest + cd \<le> t) \<Longrightarrow>
      in_window action (attempt_phone phone) cd t d = 0"
proof -
  have w: "win div second * second = win" using assms(2) by (simp add: second_def)
  let ?P = "\<lambda>a. a_action a = action \<and> t - win < a_created a"
  have rc: "rc = count_where (\<lambda>a. ?P a \<and> (a_remote a = remote \<or> attempt_phone phone a) \<and> a_remote a = remote) (attempts d)"
    and pc: "pc = count_where (\<lambda>a. ?P a \<and> (a_remote a = remote \<or> attempt_phone phone a) \<and> attempt_phone phone a) (attempts d)"
    and latest: "latest = latest_of (map a_created (filter (\<lambda>a. ?P a \<and> attempt_phone phone a) (attempts d)))"
    using assms(1) by (auto simp: sel_attempts_def recent_attempts_def w count_where_filter conj_ac
        intro!: arg_cong [of _ _ latest_of] arg_cong [of _ _ "map a_created"] filter_cong)
  show "in_window action (\<lambda>a. a_remote a = remote) win t d \<le> rc"
    "in_window action (attempt_phone phone) win t d \<le> pc"
    unfolding in_window_def rc pc by (rule count_where_mono, simp)+
  assume cd: "0 < cd" "cd \<le> win" "attempts_ok t d" "0 < latest div second \<Longrightarrow> latest + cd \<le> t"
  have "\<not> (a_action a = action \<and> attempt_phone phone a \<and> t - cd < a_created a \<and> a_created a \<le> t)"
    if "a \<in> set (attempts d)" for a
  proof
    assume a: "a_action a = action \<and> attempt_phone phone a \<and> t - cd < a_created a \<and> a_created a \<le> t"
    then have "a_created a \<le> latest" unfolding latest using that cd(2) by (intro latest_of_ge) auto
    moreover have "second \<le> a_created a" using cd(3) that by (simp add: attempts_ok_def)
    ultimately have "0 < latest div second" by (simp add: second_def)
    then show False using cd(4) a \<open>a_created a \<le> latest\<close> by simp
  qed
  then show "in_window action (attempt_phone phone) cd t d = 0"
    unfolding in_window_def by (simp add: count_where_zero)
qed

lemma reserve_ok:
  assumes I: "db_inv (sms_ok (now w)) w" and t: "second \<le> now w"
    and pl: "(action, pl, rl, win, cd) = (''sms_verify'', 10, 30, 15 * minute, 0) \<or>
      (action, pl, rl, win, cd) = (''sms_request'', 6, 30, hour, 45 * second)"
    and ph: "phone = [] \<or> hd phone \<noteq> CHR ''+''"
  shows "wp (reserveAuthAttempt action phone remote win pl rl cd) (\<lambda>x w'. now w' = now w \<and> db_inv (sms_ok (now w)) w') w"
proof (rule wp_reserve)
  fix fs rc pc latest
  assume s: "sel_attempts remote phone action win (now w) (db w) = (rc, pc, latest)"
    and c: "0 < cd \<and> phone \<noteq> [] \<and> 0 < latest div second \<Longrightarrow> latest + cd \<le> now w"
    and r: "0 < rl \<Longrightarrow> int rc < rl" and p: "0 < pl \<Longrightarrow> phone \<noteq> [] \<Longrightarrow> int pc < pl"
  let ?a = "new_attempt phone remote action (attempt_seq (db w)) (now w)"
  let ?d = "db w\<lparr>attempts := attempts (db w) @ [?a], attempt_seq := attempt_seq (db w) + 1\<rparr>"
  have d: "sms_ok (now w) (db w)" "attempts_ok (now w) (db w)" using I by (simp_all add: db_inv_def sms_ok_def)
  have win: "win = (win div second) * second" "cd \<le> win" "0 < pl" "0 < rl" using pl by (auto simp: durations)
  note cnt = sel_attempts_counts [OF s win(1)]
  have new: "a_action ?a = action" "a_remote ?a = remote" "a_created ?a = now w"
    and same: "attempt_phone q ?a \<longleftrightarrow> q = phone \<and> phone \<noteq> []" for q
    using ph by (auto simp: new_attempt_def attempt_phone_def)
  have R: "in_window action (\<lambda>a. a_remote a = remote) win (now w) (db w) < nat rl" using cnt(1) r win(4) by linarith
  have P: "in_window action (attempt_phone phone) win (now w) (db w) < nat pl" if "phone \<noteq> []"
    using cnt(2) p that win(3) by linarith
  have C: "in_window action (attempt_phone phone) cd (now w) (db w) = 0" if "0 < cd" "phone \<noteq> []"
    using cnt(3) [OF that(1) win(2) d(2)] c that by simp
  have "sms_ok (now w) ?d"
    unfolding sms_ok_def
  proof (intro conjI allI)
    show "attempts_ok (now w) ?d" using d(2) t new by (auto simp: attempts_ok_def)
    show "limited ''sms_verify'' (attempt_phone q) (15 * minute) 10 ?d" for q
      by (rule limited_insert [OF _ d(2) new(3)]) (use d(1) pl P same new in \<open>auto simp: sms_ok_def\<close>)
    show "limited ''sms_request'' (attempt_phone q) hour 6 ?d" for q
      by (rule limited_insert [OF _ d(2) new(3)]) (use d(1) pl P same new in \<open>auto simp: sms_ok_def\<close>)
    show "limited ''sms_request'' (attempt_phone q) (45 * second) 1 ?d" for q
      by (rule limited_insert [OF _ d(2) new(3)]) (use d(1) pl C same new in \<open>auto simp: sms_ok_def second_def\<close>)
    show "limited ''sms_verify'' (\<lambda>a. a_remote a = rk) (15 * minute) 30 ?d" for rk
      by (rule limited_insert [OF _ d(2) new(3)]) (use d(1) pl R new in \<open>auto simp: sms_ok_def\<close>)
    show "limited ''sms_request'' (\<lambda>a. a_remote a = rk) hour 30 ?d" for rk
      by (rule limited_insert [OF _ d(2) new(3)]) (use d(1) pl R new in \<open>auto simp: sms_ok_def\<close>)
  qed
  then show "now (w\<lparr>faults := fs, db := snd (ins_attempt phone remote action (now w) (db w)), txn := None\<rparr>) = now w \<and>
      db_inv (sms_ok (now w)) (w\<lparr>faults := fs, db := snd (ins_attempt phone remote action (now w) (db w)), txn := None\<rparr>)"
    by (simp add: ins_attempt_def db_inv_def)
qed (use I in \<open>auto simp: db_inv_def\<close>)

section \<open>The login handlers do not touch the attempts\<close>

locale attempts_invariant =
  fixes I :: "db \<Rightarrow> bool"
  assumes frame: "attempts d' = attempts d \<Longrightarrow> I d' = I d"
begin

lemma sqlI: "(\<And>t d. attempts (snd (q t d)) = attempts d) \<Longrightarrow> sql_inv I q"
  unfolding sql_inv_def by (metis frame)

lemma execI: "(\<And>t d. attempts (f t d) = attempts d) \<Longrightarrow> preserves (db_inv I) (exec c f)"
  by (rule preserves_exec) (metis frame)

lemma audits [pres]: "preserves (db_inv I) (audit c ac p a e en m)"
  unfolding audit_def
  by (intro preserves_insert_stmt sqlI) (auto simp: ins_audit_def split: option.splits)

lemma capacity [pres]: "preserves (db_inv I) (ensureProjectMemberCapacity pid phone)"
proof (rule preserves_ensureSubscription(3))
  show "I d \<Longrightarrow> I (ins_trial u t d)" for u t d using ins_trial_frame [of u t d] frame [of "ins_trial u t d" d] by auto
  show "I d \<Longrightarrow> I (upd_expire u t d)" for u t d using frame [of "upd_expire u t d" d] by (simp add: upd_expire_def)
qed

lemma invites [pres]: "preserves (db_inv I) (applyInvites u ivs)"
proof (induction ivs)
  case (Cons i ivs)
  note preserves_exec [pres del] and execI [pres] and sqlI [pres]
  show ?case
    unfolding applyInvites.simps
    by (intro pres Cons.IH) (auto simp: ins_member_def upd_accept_invite_def)
qed (simp add: pres)

lemma signing [pres]: "preserves P (signAccessToken A X u)" "preserves P (signAccountDeletionToken A X u)"
  unfolding signAccessToken_def signAccountDeletionToken_def by (simp_all add: preserves_def)

lemma verify [pres]:
  assumes "\<And>ph c. preserves (db_inv I) (onMatch ph c)" shows "preserves (db_inv I) (verifyCode A X onMatch r)"
proof -
  note preserves_exec [pres del] and execI [pres]
  show ?thesis
    unfolding verifyCode_def checkCodeTx_def wrongCodeTx_def
    by (intro pres assms) (simp_all add: upd_code_attempt_def)
qed

lemma login [pres]: "preserves (db_inv I) (VerifySMSCode A X r)"
proof -
  note preserves_exec [pres del] and execI [pres] and sqlI [pres]
  show ?thesis
    unfolding VerifySMSCode_def completeLoginTx_def
    by (intro pres) (auto simp: upsert_user_def upd_consume_code_def split: option.splits)
qed

lemma issue [pres]: "preserves (db_inv I) (issueSMSCodeForPhone A ph)"
  unfolding issueSMSCodeForPhone_def issueSMSCode_def generateSMSCode_def by (intro pres)

lemma request [pres]: "preserves (db_inv I) (RequestSMSCode A X r)"
proof -
  note preserves_exec [pres del] and execI [pres] and sqlI [pres]
  show ?thesis
    unfolding RequestSMSCode_def cleanupSMSCode_def finishCodeRequest_def invalidateOlderSMSCodes_def sendLoginCode_def
    by (intro pres) (auto simp: ins_code_def del_code_def upd_older_codes_def)
qed

end

interpretation sms: attempts_invariant "sms_ok t" for t
  by unfold_locales (rule sms_ok_cong)

lemma now_login [pres]:
  "preserves (\<lambda>w. now w = t) (audit c ac p a e en m)"
  "preserves (\<lambda>w. now w = t) (ensureSubscription c u lk)"
  "preserves (\<lambda>w. now w = t) (ensureProjectMemberCapacity pid phone)"
  "preserves (\<lambda>w. now w = t) (signAccessToken A X u)"
  "preserves (\<lambda>w. now w = t) (issueSMSCodeForPhone A ph)"
  unfolding audit_def ensureSubscription_def ensureProjectMemberCapacity_def signAccessToken_def
    issueSMSCodeForPhone_def issueSMSCode_def generateSMSCode_def
  by (intro pres)+

lemma now_applyInvites [pres]: "preserves (\<lambda>w. now w = t) (applyInvites u ivs)"
  by (induction ivs) (auto intro!: pres)

lemma now_verifyCode [pres]:
  "(\<And>ph c. preserves (\<lambda>w. now w = t) (onMatch ph c)) \<Longrightarrow> preserves (\<lambda>w. now w = t) (verifyCode A X onMatch r)"
  unfolding verifyCode_def checkCodeTx_def wrongCodeTx_def by (intro pres)

lemma now_routes [pres]:
  "preserves (\<lambda>w. now w = t) (VerifySMSCode A X r)" "preserves (\<lambda>w. now w = t) (RequestSMSCode A X r)"
  unfolding VerifySMSCode_def completeLoginTx_def RequestSMSCode_def cleanupSMSCode_def finishCodeRequest_def
    invalidateOlderSMSCodes_def sendLoginCode_def
  by (intro pres; simp)+

section \<open>The wrappers keep the limits\<close>

lemma wp_case_reservation:
  "(\<And>i. r = Reserved i \<Longrightarrow> wp (f i) Q w) \<Longrightarrow> (\<And>n. r = RetryAfter n \<Longrightarrow> wp (g n) Q w) \<Longrightarrow>
   (r = ReserveErr \<Longrightarrow> wp m Q w) \<Longrightarrow> wp (case r of Reserved i \<Rightarrow> f i | RetryAfter n \<Rightarrow> g n | ReserveErr \<Rightarrow> m) Q w"
  by (cases r) simp_all

lemma rate_phone: "phoneRe ph \<Longrightarrow> hd (smsRateLimitPhone ph) \<noteq> CHR ''+''"
proof -
  assume p: "phoneRe ph"
  then have "list_all is_digit (smsRateLimitPhone ph)" "smsRateLimitPhone ph \<noteq> []"
    by (auto simp: smsRateLimitPhone_def normalizePhone_id phoneRe_def Let_def trim_prefix_def split: if_splits)
  then show ?thesis by (cases "smsRateLimitPhone ph") (auto simp: is_digit_def byte_def)
qed

text \<open>What the wrappers need of the handler behind them.\<close>

locale limited_route =
  fixes nxt :: "request \<Rightarrow> (world, 'p resp) state"
  assumes clock: "preserves (\<lambda>w. now w = t) (nxt r)"
    and attempts: "preserves (db_inv (sms_ok t)) (nxt r)"
begin

lemma behind: "now w = t \<Longrightarrow> db_inv (sms_ok t) w \<Longrightarrow> wp (nxt r) (\<lambda>x w'. now w' = t \<and> db_inv (sms_ok t) w') w"
  by (rule wpI) (metis preservesD [OF clock] preservesD [OF attempts])

lemma guarded:
  assumes "now w = t" "db_inv (sms_ok t) w"
  shows "wp (guarded A i nxt r) (\<lambda>x w'. now w' = t \<and> db_inv (sms_ok t) w') w"
proof -
  have "preserves (\<lambda>w. now w = t) (guarded A i nxt r)"
    unfolding guarded_def completeAuthAttempt_def by (intro pres clock)
  moreover have "preserves (db_inv (sms_ok t)) (guarded A i nxt r)"
    unfolding guarded_def completeAuthAttempt_def by (intro pres attempts sms_ok_upd_attempt)
  ultimately show ?thesis using assms by (auto intro!: wpI dest: preservesD)
qed

lemma verify:
  assumes "db_inv (sms_ok (now w)) w" "second \<le> now w"
  shows "wp (withSMSVerifyRateLimit A nxt r) (\<lambda>x w'. now w' = now w \<and> db_inv (sms_ok (now w)) w') w"
  unfolding withSMSVerifyRateLimit_def limit_defs
  by (intro wps wp_case_reservation behind guarded wp_mono [OF reserve_ok [OF assms]])
    (use assms rate_phone in auto)

lemma request:
  assumes "db_inv (sms_ok (now w)) w" "second \<le> now w"
  shows "wp (withSMSRequestRateLimit A nxt r) (\<lambda>x w'. now w' = now w \<and> db_inv (sms_ok (now w)) w') w"
  unfolding withSMSRequestRateLimit_def limit_defs
  by (intro wps wp_case_reservation behind guarded wp_mono [OF reserve_ok [OF assms]])
    (use assms rate_phone in auto)

end

interpretation request_route: limited_route "RequestSMSCode A X" for A X
  by unfold_locales (rule now_routes sms.request)+

interpretation verify_route: limited_route "VerifySMSCode A X" for A X
  by unfold_locales (rule now_routes sms.login)+

section \<open>The routes\<close>

lemma deletion_quiet:
  "preserves (\<lambda>w. now w = t) (VerifyAccountDeletionSMSCode A X r)"
  "preserves (db_inv (sms_ok t)) (VerifyAccountDeletionSMSCode A X r)"
proof -
  have n: "preserves (\<lambda>w. now w = t) (signAccountDeletionToken A X u)" for u
    unfolding signAccountDeletionToken_def by (intro pres)
  show "preserves (\<lambda>w. now w = t) (VerifyAccountDeletionSMSCode A X r)"
    unfolding VerifyAccountDeletionSMSCode_def deletionTx_def by (intro pres n)
  note preserves_exec [pres del] and sms.execI [pres]
  show "preserves (db_inv (sms_ok t)) (VerifyAccountDeletionSMSCode A X r)"
    unfolding VerifyAccountDeletionSMSCode_def deletionTx_def
    by (intro pres sms.verify) (simp add: upd_consume_code_def)
qed

interpretation deletion_route: limited_route "VerifyAccountDeletionSMSCode A X" for A X
  by unfold_locales (rule deletion_quiet)+

text \<open>The three SMS routes, the background pruner, and what goes on around them.\<close>

inductive sms_step :: "app_state \<Rightarrow> externals \<Rightarrow> world \<Rightarrow> world \<Rightarrow> bool" for A X where
  request: "run_state (withSMSRequestRateLimit A (RequestSMSCode A X) r) w = (x, w') \<Longrightarrow> sms_step A X w w'"
| verify: "run_state (withSMSVerifyRateLimit A (VerifySMSCode A X) r) w = (x, w') \<Longrightarrow> sms_step A X w w'"
| deletion: "run_state (withSMSVerifyRateLimit A (VerifyAccountDeletionSMSCode A X) r) w = (y, w') \<Longrightarrow> sms_step A X w w'"
| prune: "run_state (pruneAuthHistoryIfDue A) w = (z, w') \<Longrightarrow> sms_step A X w w'"
| tick: "0 \<le> dt \<Longrightarrow> sms_step A X w (w\<lparr>now := now w + dt\<rparr>)"
| env: "sms_step A X w (w\<lparr>faults := fs, extern := ex, uuids := us, entropy := en\<rparr>)"

inductive_cases sms_stepE: "sms_step A X w w'"

definition sms_inv :: "world \<Rightarrow> bool" where
  "sms_inv w \<longleftrightarrow> second \<le> now w \<and> db_inv (sms_ok (now w)) w"

lemma sms_step_inv: "sms_step A X w w' \<Longrightarrow> sms_inv w \<Longrightarrow> sms_inv w'"
proof (induction rule: sms_step.induct)
  case (request r w x w')
  then show ?case
    using wpD [OF request_route.request request.hyps(1)] by (auto simp: sms_inv_def)
next
  case (verify r w x w')
  then show ?case
    using wpD [OF verify_route.verify verify.hyps(1)] by (auto simp: sms_inv_def)
next
  case (deletion r w y w')
  then show ?case
    using wpD [OF deletion_route.verify deletion.hyps(1)] by (auto simp: sms_inv_def)
next
  case (prune w z w')
  then show ?case
    using preservesD [OF preserves_prune [of "now w" A] _ prune.hyps(1)] preservesD [OF now_prune [of "now w" A] refl prune.hyps(1)]
    by (simp add: sms_inv_def)
next
  case (tick dt w)
  then show ?case by (auto simp: sms_inv_def db_inv_def intro: sms_ok_later)
qed (auto simp: sms_inv_def)

text \<open>
  C26. Whatever requests, failures and pruning happen on the SMS routes: in no interval of fifteen
  minutes are there more than ten verification attempts for a phone or thirty from a client, in no
  hour more than six code requests for a phone or thirty from a client, and in no 45 seconds more
  than one code request for a phone. (Reachable from any state in which this is so, such as an
  empty table.)
\<close>

theorem sms_limits_hold:
  assumes "(sms_step A X)\<^sup>*\<^sup>* w w'" "second \<le> now w" "db_inv (sms_ok (now w)) w"
  shows "in_window ''sms_verify'' (attempt_phone ph) (15 * minute) t (db w') \<le> 10
    \<and> in_window ''sms_verify'' (\<lambda>a. a_remote a = client) (15 * minute) t (db w') \<le> 30
    \<and> in_window ''sms_request'' (attempt_phone ph) hour t (db w') \<le> 6
    \<and> in_window ''sms_request'' (\<lambda>a. a_remote a = client) hour t (db w') \<le> 30
    \<and> in_window ''sms_request'' (attempt_phone ph) (45 * second) t (db w') \<le> 1"
proof -
  have "sms_inv w'"
    using assms(1)
  proof (induction rule: rtranclp_induct)
    case base
    then show ?case using assms(2,3) by (simp add: sms_inv_def)
  qed (rule sms_step_inv)
  then show ?thesis by (simp add: sms_inv_def db_inv_def sms_ok_def limited_def)
qed


definition s_ask :: "world \<Rightarrow> world" where
  "s_ask w = snd (run_state (withSMSRequestRateLimit s_app (RequestSMSCode s_app s_ext) s_request_code) w)"

theorem sms_limits_hold_witness:
  "status_of (fst (run_state (withSMSRequestRateLimit s_app (RequestSMSCode s_app s_ext) s_request_code) (s_ask s_team))) = 429
   \<and> in_window ''sms_request'' (attempt_phone ''996700333444'') (45 * second) day (db (s_ask s_team)) = 1
   \<and> in_window ''sms_request'' (attempt_phone ''996700333444'') (45 * second) day (db (s_ask s_team)) \<le> 1"
proof -
  have "sms_step s_app s_ext s_team (s_ask s_team)"
    unfolding s_ask_def by (rule sms_step.request) (rule prod.collapse [symmetric])
  then have r: "(sms_step s_app s_ext)\<^sup>*\<^sup>* s_team (s_ask s_team)" by (rule r_into_rtranclp)
  have w: "second \<le> now s_team" by (simp add: s_team_def s_world_def durations)
  have i: "db_inv (sms_ok (now s_team)) s_team"
    by (simp add: db_inv_def s_team_def s_world_def sms_ok_def attempts_ok_def limited_def in_window_def s_team_db_def empty_db_def)
  have "status_of (fst (run_state (withSMSRequestRateLimit s_app (RequestSMSCode s_app s_ext) s_request_code) (s_ask s_team))) = 429"
    "in_window ''sms_request'' (attempt_phone ''996700333444'') (45 * second) day (db (s_ask s_team)) = 1" by code_simp+
  then show ?thesis using sms_limits_hold [OF r w i] by simp
qed

section \<open>A limit that is reached\<close>

lemma rate_phone_nonempty: "phoneRe ph \<Longrightarrow> smsRateLimitPhone ph \<noteq> []"
  by (auto simp: smsRateLimitPhone_def normalizePhone_id phoneRe_def Let_def trim_prefix_def split: if_splits)

lemma run_lockAll_free:
  "faults w = [] \<Longrightarrow> txn w = Some (d, False) \<Longrightarrow> run_state (lockAll ks) w = (True, w)"
proof (induction ks)
  case (Cons k ks)
  have w: "w\<lparr>txn := Some (d, False)\<rparr> = w" using Cons.prems(2) by (cases w) simp
  have "run_state (exec Tx (\<lambda>t d. d)) w = (Row (), w)" using Cons.prems by (simp add: exec_Tx_free w)
  then show ?case using Cons by simp
qed simp

lemma reserve_blocked:
  assumes "faults w = []" "sel_attempts remote ph action win (now w) (db w) = (rc, pn, latest)"
    "0 < rl \<and> rl \<le> int rc \<or> 0 < pl \<and> ph \<noteq> [] \<and> pl \<le> int pn"
  shows "fst (run_state (reserveAuthAttempt action ph remote win pl rl 0) w) = RetryAfter win"
  using assms
  by (auto simp: reserveAuthAttempt_def reserveTx_def free_simps run_lockAll_free)

text \<open>
  C27. When a phone has ten verification attempts in the last fifteen minutes, or a client thirty,
  the next verification is answered 429 with the time to wait, or 503 where database calls may fail (\<open>faults w \<noteq> []\<close>). Either way
  the handler behind the limit does not run: no table changes and no attempt is recorded.
\<close>

theorem verify_limit_blocks:
  assumes "rq_method r = ''POST''" "st_db A" "txn w = None" "requestRemoteKey A r = Some client"
    "Option.bind (unmarshal_body r) verify_fields = Some pc"
    "(phoneRe (normalizePhone (fst pc)) \<and>
        10 \<le> in_window ''sms_verify'' (attempt_phone (smsRateLimitPhone (normalizePhone (fst pc)))) (15 * minute) (now w) (db w))
     \<or> 30 \<le> in_window ''sms_verify'' (\<lambda>a. a_remote a = client) (15 * minute) (now w) (db w)"
  shows "case run_state (withSMSVerifyRateLimit A nxt r) w of (resp, w') \<Rightarrow>
     db w' = db w \<and> sms_log w' = sms_log w \<and> txn w' = None \<and>
     (faults w \<noteq> [] \<and> resp = Error 503 ''login service is temporarily unavailable'' \<or>
      resp = Error 429 ''too many verification attempts'' \<and> map_of (headers w') ''Retry-After'' = Some ''900'')"
proof -
  let ?raw = "normalizePhone (fst pc)"
  let ?ph = "if phoneRe ?raw then smsRateLimitPhone ?raw else []"
  have hdr: "wp (set_header k v) Q w1"
    if "Q () (w1\<lparr>headers := (k, v) # filter (\<lambda>(k', _). k' \<noteq> k) (headers w1)\<rparr>)" for k v Q w1
    using that by (simp add: wp_def)
  note wp_set_header [wps del] and hdr [wps]
  have s: "w\<lparr>faults := fs, txn := None\<rparr> = w\<lparr>faults := fs\<rparr>" for fs using assms(3) by (cases w) simp
  have win: "15 * minute = 900 * second" by (simp add: durations)
  have n9: "show_nat 900 = ''900''" by code_simp
  have m: "nat (15 * minute div second) = 900" by (simp add: durations)
  obtain rc pn latest where sel: "sel_attempts client ?ph ''sms_verify'' (15 * minute) (now w) (db w) = (rc, pn, latest)"
    by (metis prod_cases3)
  have full: "(30::int) \<le> int rc \<or> ?ph \<noteq> [] \<and> (10::int) \<le> int pn"
    using assms(6) sel_attempts_counts(1,2) [OF sel win] rate_phone_nonempty [of ?raw] by auto
  have "wp (reserveAuthAttempt ''sms_verify'' ?ph client (15 * minute) 10 30 0)
      (\<lambda>x w'. (x = ReserveErr \<or> x = RetryAfter (15 * minute)) \<and> (\<exists>fs. w' = w\<lparr>faults := fs\<rparr>)) w"
    by (rule wp_reserve) (use s sel full in auto)
  moreover have "fst (run_state (reserveAuthAttempt ''sms_verify'' ?ph client (15 * minute) 10 30 0) w) = RetryAfter (15 * minute)"
    if "faults w = []"
    by (rule reserve_blocked [OF that sel]) (use full in auto)
  ultimately have "wp (reserveAuthAttempt ''sms_verify'' ?ph client (15 * minute) 10 30 0)
      (\<lambda>x w'. (faults w \<noteq> [] \<and> x = ReserveErr \<or> x = RetryAfter (15 * minute)) \<and> (\<exists>fs. w' = w\<lparr>faults := fs\<rparr>)) w"
    by (cases "faults w = []") (auto simp: wp_def split: prod.splits)
  moreover have "wp (withSMSVerifyRateLimit A nxt r) (\<lambda>resp w'. db w' = db w \<and> sms_log w' = sms_log w \<and> txn w' = None \<and>
     (faults w \<noteq> [] \<and> resp = Error 503 ''login service is temporarily unavailable'' \<or>
      resp = Error 429 ''too many verification attempts'' \<and> map_of (headers w') ''Retry-After'' = Some ''900'')) w"
    if "wp (reserveAuthAttempt ''sms_verify'' ?ph client (15 * minute) 10 30 0)
      (\<lambda>x w'. (faults w \<noteq> [] \<and> x = ReserveErr \<or> x = RetryAfter (15 * minute)) \<and> (\<exists>fs. w' = w\<lparr>faults := fs\<rparr>)) w"
    unfolding withSMSVerifyRateLimit_def limit_defs
    using assms(1-5) by (simp add: Let_def split del: if_split) (intro wps wp_case_reservation wp_mono [OF that], auto simp: wp_def m n9 assms(3))
  ultimately show ?thesis by (simp add: wp_def)
qed

definition s_verify_route :: "world \<Rightarrow> login_payload resp \<times> world" where
  "s_verify_route w = run_state (withSMSVerifyRateLimit s_app (VerifySMSCode s_app s_ext) (s_verify ''000000'')) w"

definition s_busy :: world where
  "s_busy = s_code_world\<lparr>db := s_team_db\<lparr>attempts :=
     map (\<lambda>i. new_attempt ''996700333444'' ''192.0.2.7'' ''sms_verify'' i day) [0..<10], attempt_seq := 10\<rparr>\<rparr>"

theorem verify_limit_blocks_witness:
  "fst (s_verify_route s_busy) = Error 429 ''too many verification attempts'' \<and> db (snd (s_verify_route s_busy)) = db s_busy"
proof -
  have e: "rq_method (s_verify ''000000'') = ''POST''" "st_db s_app" "requestRemoteKey s_app (s_verify ''000000'') = Some ''192.0.2.1''"
    "Option.bind (unmarshal_body (s_verify ''000000'')) verify_fields = Some (s_phone2, ''000000'')"
    "phoneRe (normalizePhone (fst (s_phone2, ''000000'')))"
    "10 \<le> in_window ''sms_verify'' (attempt_phone (smsRateLimitPhone (normalizePhone (fst (s_phone2, ''000000''))))) (15 * minute) (now s_busy) (db s_busy)"
    "fst (s_verify_route s_busy) = Error 429 ''too many verification attempts''" by code_simp+
  have t: "txn s_busy = None" by (simp add: s_busy_def s_code_world_def s_team_def s_world_def)
  show ?thesis
    using verify_limit_blocks [OF e(1,2) t e(3,4) disjI1 [OF conjI [OF e(5,6)]], of "VerifySMSCode s_app s_ext"] e(7)
    by (simp add: s_verify_route_def split: prod.splits)
qed

section \<open>The pruning loops\<close>


text \<open>
  What the two \<open>DELETE\<close> statements have in common: a table, the key they select by, an order and
  the rows that are expired.
\<close>

locale expiry =
  fixes get :: "db \<Rightarrow> 'r list" and put :: "'r list \<Rightarrow> db \<Rightarrow> db" and key :: "'r \<Rightarrow> 'k"
    and rank :: "'r \<Rightarrow> 'o::linorder" and expired :: "time \<Rightarrow> 'r \<Rightarrow> bool" and q :: "nat sql"
  assumes stmt: "q t d = (let ids = take authAttemptPruneBatch (map key (sort_key rank (filter (expired t) (get d)))) in
      (Row (count_where (\<lambda>x. key x \<in> set ids) (get d)), put (filter (\<lambda>x. key x \<notin> set ids) (get d)) d))"
    and get_put: "get (put xs d) = xs" and put_put: "put xs (put ys d) = put xs d" and put_get: "put (get d) d = d"
begin

definition fresh :: "time \<Rightarrow> db \<Rightarrow> 'r list" where
  "fresh t d = filter (\<lambda>x. \<not> expired t x) (get d)"

text \<open>Some expired rows were removed, nothing else happened.\<close>

definition pruned :: "time \<Rightarrow> db \<Rightarrow> db \<Rightarrow> bool" where
  "pruned t d d' \<longleftrightarrow> d' = put (get d') d \<and> fresh t d' = fresh t d \<and> distinct (map key (get d'))"

lemma pruned_refl: "distinct (map key (get d)) \<Longrightarrow> pruned t d d"
  by (simp add: pruned_def put_get)

lemma pruned_trans: "pruned t d d1 \<Longrightarrow> pruned t d1 d2 \<Longrightarrow> pruned t d d2"
  unfolding pruned_def by (metis put_put)

lemma batch:
  assumes "distinct (map key (get d))" "q t d = (Row k, d')"
  shows "pruned t d d'" "length (get d') + k = length (get d)"
    "k < authAttemptPruneBatch \<Longrightarrow> get d' = fresh t d"
proof -
  let ?old = "map key (sort_key rank (filter (expired t) (get d)))"
  let ?ids = "take authAttemptPruneBatch ?old"
  have d': "d' = put (filter (\<lambda>x. key x \<notin> set ?ids) (get d)) d" and k: "k = count_where (\<lambda>x. key x \<in> set ?ids) (get d)"
    using assms(2) by (auto simp: stmt Let_def)
  have ids: "set ?ids \<subseteq> key ` {x \<in> set (get d). expired t x}"
    using set_take_subset [of authAttemptPruneBatch ?old] by auto
  have exp: "expired t x" if x: "x \<in> set (get d)" "key x \<in> set ?ids" for x
  proof -
    obtain y where "y \<in> set (get d)" "expired t y" "key y = key x" using ids x(2) by auto
    moreover from this have "y = x" using assms(1) x(1) by (metis distinct_map inj_onD)
    ultimately show ?thesis by simp
  qed
  have g: "get d' = filter (\<lambda>x. key x \<notin> set ?ids) (get d)" by (simp add: d' get_put)
  have "fresh t d' = fresh t d"
    unfolding fresh_def g filter_filter by (rule filter_cong [OF refl]) (blast dest: exp)
  then show "pruned t d d'" using assms(1) unfolding pruned_def g by (simp add: d' get_put distinct_map_filter)
  show "length (get d') + k = length (get d)"
    unfolding g k count_where_def using sum_length_filter_compl [of "\<lambda>x. key x \<in> set ?ids" "get d"] by simp
  assume less: "k < authAttemptPruneBatch"
  have dist: "distinct ?old" using assms(1) by (auto simp: distinct_map inj_on_def)
  have "k = length ?ids"
  proof -
    have "key ` set (filter (\<lambda>x. key x \<in> set ?ids) (get d)) = set ?ids" using ids by auto
    moreover have "distinct (map key (filter (\<lambda>x. key x \<in> set ?ids) (get d)))" using assms(1) by (rule distinct_map_filter)
    ultimately show ?thesis using dist unfolding k count_where_def
      by (metis distinct_card distinct_take length_map set_map)
  qed
  then have "?ids = ?old" using less by simp
  then have "key x \<in> set ?ids \<longleftrightarrow> expired t x" if "x \<in> set (get d)" for x
    using exp [OF that] that by auto
  then show "get d' = fresh t d" unfolding g fresh_def by (intro filter_cong [OF refl]) simp
qed

lemma loop:
  assumes "distinct (map key (get (db w)))" "length (get (db w)) < n"
  shows "wp (deleteExpiredAuthRows n q) (\<lambda>res w'. now w' = now w \<and> (\<exists>d fs. w' = w\<lparr>db := d, faults := fs\<rparr>)
     \<and> pruned (now w) (db w) (db w') \<and> (faults w = [] \<longrightarrow> faults w' = [] \<and> res = Some True)
     \<and> (case res of None \<Rightarrow> False | Some ok \<Rightarrow> ok \<longrightarrow> get (db w') = fresh (now w) (db w))) w"
  using assms
proof (induction n arbitrary: w)
  case (Suc n)
  let ?Q = "\<lambda>res w'. now w' = now w \<and> (\<exists>d fs. w' = w\<lparr>db := d, faults := fs\<rparr>)
     \<and> pruned (now w) (db w) (db w') \<and> (faults w = [] \<longrightarrow> faults w' = [] \<and> res = Some True)
     \<and> (case res of None \<Rightarrow> False | Some ok \<Rightarrow> ok \<longrightarrow> get (db w') = fresh (now w) (db w))"
  have same: "\<exists>d fs'. w\<lparr>faults := fs\<rparr> = w\<lparr>db := d, faults := fs'\<rparr>" for fs
    by (rule exI [of _ "db w"], rule exI [of _ fs]) simp
  show ?case
    unfolding deleteExpiredAuthRows.simps
  proof (intro wp_bind wp_stmt_Pool_tl)
    assume "faults w \<noteq> [] \<or> fst (q (now w) (db w)) = SqlErr"
    then have "faults w \<noteq> []" by (auto simp: stmt Let_def)
    then show "wp (case SqlErr of Row k \<Rightarrow> if k < authAttemptPruneBatch then ret (Some True) else deleteExpiredAuthRows n q
        | NoRows \<Rightarrow> ret (Some False) | SqlErr \<Rightarrow> ret (Some False)) ?Q (w\<lparr>faults := tl (faults w)\<rparr>)"
      using same pruned_refl [OF Suc.prems(1)] by (auto intro!: wps)
  next
    fix r d assume r: "q (now w) (db w) = (r, d)" "r \<noteq> SqlErr"
    then obtain k where k: "r = Row k" by (auto simp: stmt Let_def)
    note b = batch [OF Suc.prems(1) r(1) [unfolded k]]
    let ?w = "w\<lparr>faults := tl (faults w), db := d\<rparr>"
    have "wp (deleteExpiredAuthRows n q) ?Q ?w" if big: "\<not> k < authAttemptPruneBatch"
    proof (rule wp_mono [OF Suc.IH [of ?w]])
      show "distinct (map key (get (db ?w)))" using b(1) by (simp add: pruned_def)
      show "length (get (db ?w)) < n" using b(2) Suc.prems(2) big by (simp add: authAttemptPruneBatch_def)
      fix res w' assume *: "now w' = now ?w \<and> (\<exists>d fs. w' = ?w\<lparr>db := d, faults := fs\<rparr>)
       \<and> pruned (now ?w) (db ?w) (db w') \<and> (faults ?w = [] \<longrightarrow> faults w' = [] \<and> res = Some True)
       \<and> (case res of None \<Rightarrow> False | Some ok \<Rightarrow> ok \<longrightarrow> get (db w') = fresh (now ?w) (db ?w))"
      moreover have "fresh (now w) d = fresh (now w) (db w)" using b(1) by (simp add: pruned_def)
      ultimately show "?Q res w'" using pruned_trans [OF b(1)] by (auto split: option.splits)
    qed
    moreover have "?Q (Some True) ?w" if "k < authAttemptPruneBatch" using b(1,3) that by auto
    ultimately show "wp (case r of Row k \<Rightarrow> if k < authAttemptPruneBatch then ret (Some True) else deleteExpiredAuthRows n q
        | NoRows \<Rightarrow> ret (Some False) | SqlErr \<Rightarrow> ret (Some False)) ?Q ?w"
      unfolding k by (auto intro!: wps)
  qed
qed simp

end


definition old_attempt :: "time \<Rightarrow> attempt_row \<Rightarrow> bool" where
  "old_attempt t a \<longleftrightarrow> a_created a < t - 7 * day"

definition old_code :: "time \<Rightarrow> code_row \<Rightarrow> bool" where
  "old_code t c \<longleftrightarrow> c_expires c < t - day"

lemma retention: "authAttemptRetention div second * second = 7 * day" "smsCodeRetention div second * second = day"
  by (simp_all add: authAttemptRetention_def smsCodeRetention_def durations)

lemma old_attempts_stmt:
  "del_expired_attempts authAttemptRetention authAttemptPruneBatch t d =
     (let ids = take authAttemptPruneBatch (map a_id (sort_key a_id (filter (old_attempt t) (attempts d)))) in
      (Row (count_where (\<lambda>x. a_id x \<in> set ids) (attempts d)), d\<lparr>attempts := filter (\<lambda>x. a_id x \<notin> set ids) (attempts d)\<rparr>))"
  unfolding del_expired_attempts_def expired_attempts_def retention old_attempt_def [abs_def] ..

lemma old_codes_stmt:
  "del_expired_codes smsCodeRetention authAttemptPruneBatch t d =
     (let ids = take authAttemptPruneBatch (map c_id (sort_key c_expires (filter (old_code t) (codes d)))) in
      (Row (count_where (\<lambda>x. c_id x \<in> set ids) (codes d)), d\<lparr>codes := filter (\<lambda>x. c_id x \<notin> set ids) (codes d)\<rparr>))"
  unfolding del_expired_codes_def expired_codes_def retention old_code_def [abs_def] ..

interpretation pa: expiry attempts "\<lambda>xs d. d\<lparr>attempts := xs\<rparr>" a_id a_id old_attempt
    "del_expired_attempts authAttemptRetention authAttemptPruneBatch"
  by unfold_locales (rule old_attempts_stmt, simp_all)

interpretation pc: expiry codes "\<lambda>xs d. d\<lparr>codes := xs\<rparr>" c_id c_expires old_code
    "del_expired_codes smsCodeRetention authAttemptPruneBatch"
  by unfold_locales (rule old_codes_stmt, simp_all)

lemma pa_pruned:
  assumes "pa.pruned t d d'"
  shows "codes d' = codes d" "d' = d\<lparr>attempts := attempts d'\<rparr>" "pa.fresh t d' = pa.fresh t d"
proof -
  show e: "d' = d\<lparr>attempts := attempts d'\<rparr>" and "pa.fresh t d' = pa.fresh t d" using assms by (auto simp: pa.pruned_def)
  show "codes d' = codes d" by (subst e) simp
qed

lemma pc_pruned:
  assumes "pc.pruned t d d'"
  shows "attempts d' = attempts d" "d' = d\<lparr>codes := codes d'\<rparr>" "pc.fresh t d' = pc.fresh t d"
proof -
  show e: "d' = d\<lparr>codes := codes d'\<rparr>" and "pc.fresh t d' = pc.fresh t d" using assms by (auto simp: pc.pruned_def)
  show "attempts d' = attempts d" by (subst e) simp
qed

lemma both_pruned:
  assumes "pa.pruned t d d1" "pc.pruned t d1 d2"
  shows "d2 = d\<lparr>attempts := attempts d2, codes := codes d2\<rparr>" "pa.fresh t d2 = pa.fresh t d" "pc.fresh t d2 = pc.fresh t d"
    "attempts d2 = attempts d1"
proof -
  show a: "attempts d2 = attempts d1" by (rule pc_pruned(1) [OF assms(2)])
  have "d2 = d1\<lparr>codes := codes d2\<rparr>" by (rule pc_pruned(2) [OF assms(2)])
  also have "\<dots> = d\<lparr>attempts := attempts d1\<rparr>\<lparr>codes := codes d2\<rparr>" by (subst pa_pruned(2) [OF assms(1)]) simp
  finally show "d2 = d\<lparr>attempts := attempts d2, codes := codes d2\<rparr>" by (simp add: a)
  show "pa.fresh t d2 = pa.fresh t d" using pa_pruned(3) [OF assms(1)] a by (simp add: pa.fresh_def)
  show "pc.fresh t d2 = pc.fresh t d"
    using pc_pruned(3) [OF assms(2)] pa_pruned(1) [OF assms(1)] by (simp add: pc.fresh_def)
qed

text \<open>
  C28. The pruner always ends within its fuel, whatever the database answers. It removes only
  attempts older than seven days and codes that expired more than a day ago, nothing else in the
  database changes, and when no call fails exactly the recent rows remain.
\<close>

theorem pruneAuthHistory_ends:
  assumes "distinct (map a_id (attempts (db w)))" "distinct (map c_id (codes (db w)))"
  shows "case run_state pruneAuthHistory w of (res, w') \<Rightarrow> res \<noteq> None
     \<and> db w' = (db w)\<lparr>attempts := attempts (db w'), codes := codes (db w')\<rparr>
     \<and> filter (\<lambda>a. \<not> old_attempt (now w) a) (attempts (db w')) = filter (\<lambda>a. \<not> old_attempt (now w) a) (attempts (db w))
     \<and> filter (\<lambda>c. \<not> old_code (now w) c) (codes (db w')) = filter (\<lambda>c. \<not> old_code (now w) c) (codes (db w))
     \<and> (if res = Some True then list_all (\<lambda>a. \<not> old_attempt (now w) a) (attempts (db w'))
          \<and> list_all (\<lambda>c. \<not> old_code (now w) c) (codes (db w')) else faults w \<noteq> [])"
proof -
  have size: "wp (table_size f) Q w" if "Q (length (f (db w))) w" for f Q and w :: world
    using that by (simp add: wp_def table_size_def)
  let ?Q = "\<lambda>res w'. res \<noteq> None
     \<and> db w' = (db w)\<lparr>attempts := attempts (db w'), codes := codes (db w')\<rparr>
     \<and> pa.fresh (now w) (db w') = pa.fresh (now w) (db w) \<and> pc.fresh (now w) (db w') = pc.fresh (now w) (db w)
     \<and> (if res = Some True then attempts (db w') = pa.fresh (now w) (db w) \<and> codes (db w') = pc.fresh (now w) (db w)
        else faults w \<noteq> [])"
  have "wp pruneAuthHistory ?Q w"
    unfolding pruneAuthHistory_def
  proof (intro wp_bind size wp_if wp_mono [OF pa.loop] wp_mono [OF pc.loop])
    fix r w1
    assume 1: "now w1 = now w \<and> (\<exists>d fs. w1 = w\<lparr>db := d, faults := fs\<rparr>) \<and> pa.pruned (now w) (db w) (db w1)
      \<and> (faults w = [] \<longrightarrow> faults w1 = [] \<and> r = Some True)
      \<and> (case r of None \<Rightarrow> False | Some ok \<Rightarrow> ok \<longrightarrow> attempts (db w1) = pa.fresh (now w) (db w))"
    then have p: "pa.pruned (now w) (db w) (db w1)" and n: "now w1 = now w" by simp_all
    have c: "codes (db w1) = codes (db w)" by (rule pa_pruned(1) [OF p])
    show "wp (ret r) ?Q w1" if "r \<noteq> Some True"
    proof -
      have "db w1 = (db w)\<lparr>attempts := attempts (db w1), codes := codes (db w1)\<rparr>"
        unfolding c by (subst pa_pruned(2) [OF p]) simp
      then show ?thesis using 1 that pa_pruned(3) [OF p] c by (auto intro!: wps simp: pc.fresh_def split: option.splits)
    qed
    show "distinct (map c_id (codes (db w1)))" using assms(2) c by simp
    show "length (codes (db w1)) < Suc (length (codes (db w1)))" by simp
    fix r2 w2
    assume r: "\<not> r \<noteq> Some True" and 2: "now w2 = now w1 \<and> (\<exists>d fs. w2 = w1\<lparr>db := d, faults := fs\<rparr>) \<and> pc.pruned (now w1) (db w1) (db w2)
      \<and> (faults w1 = [] \<longrightarrow> faults w2 = [] \<and> r2 = Some True)
      \<and> (case r2 of None \<Rightarrow> False | Some ok \<Rightarrow> ok \<longrightarrow> codes (db w2) = pc.fresh (now w1) (db w1))"
    then have p2: "pc.pruned (now w) (db w1) (db w2)" using n by simp
    note b = both_pruned [OF p p2]
    have "pc.fresh (now w) (db w1) = pc.fresh (now w) (db w)" by (simp add: pc.fresh_def c)
    then show "?Q r2 w2" using 1 2 r n b by (auto split: option.splits)
  qed (use assms in auto)
  then show ?thesis
    by (auto simp: wp_def pa.fresh_def pc.fresh_def list_all_iff split: prod.splits if_splits)
qed

definition s_stale :: world where
  "s_stale = s_busy\<lparr>now := 8 * day + second\<rparr>"

theorem pruneAuthHistory_ends_witness:
  "attempts (db s_stale) \<noteq> [] \<and> fst (run_state pruneAuthHistory s_stale) = Some True
   \<and> list_all (\<lambda>a. \<not> old_attempt (now s_stale) a) (attempts (db (snd (run_state pruneAuthHistory s_stale))))"
proof -
  have d: "distinct (map a_id (attempts (db s_stale)))" "distinct (map c_id (codes (db s_stale)))"
    "attempts (db s_stale) \<noteq> []" "faults s_stale = []" by code_simp+
  show ?thesis using pruneAuthHistory_ends [OF d(1,2)] d(3,4) by (auto split: prod.splits if_splits)
qed

section \<open>The key of the client\<close>

definition addr_ok :: "ip \<Rightarrow> bool" where
  "addr_ok a \<longleftrightarrow> (case a of IPv4 n \<Rightarrow> 0 \<le> n \<and> n < 2 ^ 32 | IPv6 _ _ \<Rightarrow> True)"

lemma dec_value_nonneg: "list_all is_digit s \<Longrightarrow> 0 \<le> dec_value s"
proof -
  have "0 \<le> v \<Longrightarrow> list_all is_digit s \<Longrightarrow> 0 \<le> foldl (\<lambda>v c. v * 10 + digit_of c) v s" for v
    by (induction s arbitrary: v) (auto simp: is_digit_def digit_of_def)
  then show "list_all is_digit s \<Longrightarrow> ?thesis" by (simp add: dec_value_def)
qed

lemma parse_octet_range: "parse_octet s = Some n \<Longrightarrow> 0 \<le> n \<and> n \<le> 255"
  using dec_value_nonneg [of s] by (auto simp: parse_octet_def split: if_splits)

lemma parse_v4_range: "parse_v4 s = Some n \<Longrightarrow> 0 \<le> n \<and> n < 2 ^ 32"
proof -
  assume "parse_v4 s = Some n"
  then obtain a b c d where o: "map parse_octet (split_on CHR ''.'' s) = [Some a, Some b, Some c, Some d]"
    and n: "n = ((a * 256 + b) * 256 + c) * 256 + d"
    by (auto simp: parse_v4_def split: list.splits option.splits)
  then have "0 \<le> a \<and> a \<le> 255" "0 \<le> b \<and> b \<le> 255" "0 \<le> c \<and> c \<le> 255" "0 \<le> d \<and> d \<le> 255"
    by (auto simp: map_eq_Cons_conv dest!: parse_octet_range)
  then show ?thesis unfolding n by simp
qed

lemma ParseAddr_ok: "ParseAddr s = Some a \<Longrightarrow> addr_ok a"
  by (auto simp: ParseAddr_def parse_v6_def Let_def addr_ok_def split: option.splits if_splits dest!: parse_v4_range)

lemma unmap_ok: "addr_ok a \<Longrightarrow> addr_ok (unmap a)"
  by (auto simp: addr_ok_def unmap_def split: ip.splits)

lemma without_zone_ok: "addr_ok a \<Longrightarrow> addr_ok (without_zone a)"
  by (auto simp: addr_ok_def without_zone_def split: ip.splits)

lemma forwarded_ok: "forwarded r = Some fs \<Longrightarrow> a \<in> set fs \<Longrightarrow> addr_ok a"
proof -
  have "those (map forwarded_addr xs) = Some fs \<Longrightarrow> a \<in> set fs \<Longrightarrow> addr_ok a" for xs fs
    by (induction xs arbitrary: fs)
      (auto simp: forwarded_addr_def split: option.splits if_splits dest!: ParseAddr_ok intro: unmap_ok)
  then show "forwarded r = Some fs \<Longrightarrow> a \<in> set fs \<Longrightarrow> addr_ok a" by (auto simp: forwarded_def)
qed

text \<open>
  C29. Which client an SMS request counts for: a peer that is not a trusted proxy counts as itself,
  whatever headers it sends, none or malformed ones included; behind a trusted proxy the client is the last address in the chain that
  is not a trusted proxy, so what a client writes into the header before its proxy appended the
  client's address cannot change the key, and a chain that is malformed, missing or names only proxies is refused. For an IPv4 client
  the key parses back to its address, so different clients have different keys.
\<close>

theorem remote_key_unforgeable:
  assumes "parseRemoteAddress (rq_remote r) = Some peer"
  shows "let counts_as = (\<lambda>r' who. requestRemoteKey A r' = Some (addr_string who)
        \<and> (case who of IPv4 n \<Rightarrow> ParseAddr (addr_string who) = Some who | IPv6 _ _ \<Rightarrow> True))
    in if \<not> isTrustedProxy A peer then \<forall>hs. counts_as (r\<lparr>rq_headers := hs\<rparr>) peer
       else (case forwarded r of
           None \<Rightarrow> requestRemoteKey A r = None
         | Some chain \<Rightarrow> (case dropWhile (isTrustedProxy A) (rev chain) of
               [] \<Rightarrow> requestRemoteKey A r = None
             | client # written \<Rightarrow> counts_as r client))"
proof -
  have parses: "case who of IPv4 n \<Rightarrow> ParseAddr (addr_string who) = Some who | IPv6 _ _ \<Rightarrow> True" if "addr_ok who" for who
    using that by (auto simp: addr_ok_def addr_string_def ParseAddr_v4 split: ip.splits if_splits)
  have peer: "addr_ok peer"
    using assms by (auto simp: parseRemoteAddress_def Let_def intro: unmap_ok without_zone_ok ParseAddr_ok)
  show ?thesis
  proof (cases "isTrustedProxy A peer")
    case False
    then show ?thesis using assms parses [OF peer] by (simp add: requestRemoteKey_def Let_def)
  next
    case True
    have last: "find (\<lambda>a. \<not> isTrustedProxy A a) xs = (case dropWhile (isTrustedProxy A) xs of [] \<Rightarrow> None | a # _ \<Rightarrow> Some a)" for xs
      by (induction xs) auto
    have key: "requestRemoteKey A r = (case forwarded r of None \<Rightarrow> None
        | Some chain \<Rightarrow> map_option addr_string (find (\<lambda>a. \<not> isTrustedProxy A a) (rev chain)))"
      using assms True by (auto simp: requestRemoteKey_def split: option.splits)
    have "addr_ok a" if "forwarded r = Some chain" "dropWhile (isTrustedProxy A) (rev chain) = a # as" for chain a as
    proof -
      have "a \<in> set (dropWhile (isTrustedProxy A) (rev chain))" using that(2) by simp
      then have "a \<in> set chain" using set_dropWhileD by fastforce
      then show ?thesis using forwarded_ok [OF that(1)] by simp
    qed
    note ok = this
    show ?thesis
    proof (cases "forwarded r")
      case (Some chain)
      then show ?thesis using True parses ok [OF Some]
        by (cases "dropWhile (isTrustedProxy A) (rev chain)") (simp_all add: key last Let_def del: dropWhile_eq_Nil_conv)
    qed (simp add: True key Let_def)
  qed
qed

definition s_proxied :: request where
  "s_proxied = (s_verify ''000000'')\<lparr>rq_headers := [(''X-Forwarded-For'', ''1.2.3.4, 198.51.100.9'')], rq_remote := ''10.0.0.5:80''\<rparr>"

definition s_proxy_app :: app_state where
  "s_proxy_app = s_app\<lparr>st_proxies := ['' 10.0.0.0/8'']\<rparr>"

theorem remote_key_unforgeable_witness:
  "requestRemoteKey s_proxy_app s_proxied = Some ''198.51.100.9'' \<and> ParseAddr ''198.51.100.9'' = Some (IPv4 3325256713)
   \<and> requestRemoteKey s_app (s_proxied\<lparr>rq_headers := [(''X-Forwarded-For'', ''nonsense'')]\<rparr>) = Some ''10.0.0.5''"
proof -
  have f: "parseRemoteAddress (rq_remote s_proxied) = Some (IPv4 167772165)"
    "forwarded s_proxied = Some [IPv4 16909060, IPv4 3325256713]"
    "dropWhile (isTrustedProxy s_proxy_app) (rev [IPv4 16909060, IPv4 3325256713]) = [IPv4 3325256713, IPv4 16909060]"
    "isTrustedProxy s_proxy_app (IPv4 167772165)" "\<not> isTrustedProxy s_app (IPv4 167772165)"
    "addr_string (IPv4 3325256713) = ''198.51.100.9''" "addr_string (IPv4 167772165) = ''10.0.0.5''" by code_simp+
  show ?thesis
    using remote_key_unforgeable [OF f(1), of s_proxy_app] remote_key_unforgeable [OF f(1), of s_app] f(2-) by (simp add: Let_def)
qed

end
