(* ===== verification/Calendar.thy ===== *)
theory Calendar
  imports World
begin

text \<open>
  The civil calendar as Go's \<open>time\<close> package has it (proleptic Gregorian, UTC): \<open>Time.Date\<close> and
  \<open>time.Date\<close> with its normalisation of months past December and of day 0, and the billing period
  arithmetic of \<open>subscription_checkout.go\<close> on top of them.
\<close>

section \<open>Days and dates\<close>

definition leap_year :: "int \<Rightarrow> bool" where
  "leap_year y \<longleftrightarrow> y mod 4 = 0 \<and> (y mod 100 \<noteq> 0 \<or> y mod 400 = 0)"

text \<open>Days from 1 January 1970 to 1 January of a year.\<close>

definition jan1 :: "int \<Rightarrow> int" where
  "jan1 y = 365 * (y - 1970) + (y - 1) div 4 - (y - 1) div 100 + (y - 1) div 400 - 477"

definition month_start :: "int \<Rightarrow> int \<Rightarrow> int" where
  "month_start y m = (if m \<le> 1 then 0 else if m = 2 then 31 else
     (if leap_year y then 1 else 0) +
     (if m = 3 then 59 else if m = 4 then 90 else if m = 5 then 120 else if m = 6 then 151
      else if m = 7 then 181 else if m = 8 then 212 else if m = 9 then 243 else if m = 10 then 273
      else if m = 11 then 304 else if m = 12 then 334 else 365))"

definition month_days :: "int \<Rightarrow> int \<Rightarrow> int" where
  "month_days y m = month_start y (m + 1) - month_start y m"

definition year_of :: "int \<Rightarrow> int" where
  "year_of n = (let y = 1970 + (n * 400) div 146097 in
     if n < jan1 y then y - 1 else if n < jan1 (y + 1) then y else y + 1)"

definition month_of :: "int \<Rightarrow> int \<Rightarrow> int" where
  "month_of y k = (case find (\<lambda>m. k < month_start y (m + 1)) [1, 2, 3, 4, 5, 6, 7, 8, 9, 10, 11] of
     None \<Rightarrow> 12 | Some m \<Rightarrow> m)"

text \<open>\<open>Time.Date()\<close> of day \<open>n\<close>.\<close>

definition civil :: "int \<Rightarrow> int \<times> int \<times> int" where
  "civil n = (let y = year_of n; k = n - jan1 y; m = month_of y k in (y, m, k - month_start y m + 1))"

text \<open>\<open>time.Date(y, m, d, ...)\<close>: any month and any day.\<close>

definition date_days :: "int \<Rightarrow> int \<Rightarrow> int \<Rightarrow> int" where
  "date_days y m d = (let y' = y + (m - 1) div 12; m' = (m - 1) mod 12 + 1 in jan1 y' + month_start y' m' + d - 1)"

definition day_of :: "int \<times> int \<times> int \<Rightarrow> int" where
  "day_of c = snd (snd c)"

section \<open>The billing period\<close>

definition addSubscriptionPeriod :: "time \<Rightarrow> string \<Rightarrow> time" where
  "addSubscriptionPeriod start period = (case civil (start div day) of (year, month, d) \<Rightarrow>
     let clock = start mod day in
     if period = ''year'' then
       (let targetYear = year + 1;
            lastDay = day_of (civil (date_days targetYear (month + 1) 0));
            d = (if lastDay < d then lastDay else d)
        in date_days targetYear month d * day + clock)
     else
       (let targetMonth0 = month + 1;
            targetMonth = (if 12 < targetMonth0 then 1 else targetMonth0);
            targetYear = (if 12 < targetMonth0 then year + 1 else year);
            lastDay = day_of (civil (date_days targetYear (targetMonth + 1) 0));
            d = (if lastDay < d then lastDay else d)
        in date_days targetYear targetMonth d * day + clock))"

section \<open>Dates and days are inverse\<close>

lemma div_bounds:
  assumes "0 < (c::int)" shows "c * (a div c) \<le> a" "a - (c - 1) \<le> c * (a div c)"
  using mult_div_mod_eq [of c a] pos_mod_sign [OF assms, of a] pos_mod_bound [OF assms, of a] by linarith+

lemma div_pred:
  assumes "0 < (c::int)" shows "y div c = (y - 1) div c + (if y mod c = 0 then 1 else 0)"
proof (cases "y mod c = 0")
  case True
  then have "c * (y div c) = y" using mult_div_mod_eq [of c y] by simp
  then have "y - 1 = c * (y div c - 1) + (c - 1)" by (simp add: right_diff_distrib)
  then have "(y - 1) div c = y div c - 1" by (rule int_div_pos_eq) (use assms in auto)
  then show ?thesis using True by simp
next
  case False
  then have "y - 1 = c * (y div c) + (y mod c - 1)" by simp
  moreover have "0 \<le> y mod c - 1" "y mod c - 1 < c"
    using False pos_mod_sign [OF assms, of y] pos_mod_bound [OF assms, of y] by linarith+
  ultimately have "(y - 1) div c = y div c" by (rule int_div_pos_eq)
  then show ?thesis using False by simp
qed

lemma jan1_Suc: "jan1 (y + 1) = jan1 y + (if leap_year y then 366 else 365)"
proof -
  have m: "y mod 400 = 0 \<Longrightarrow> y mod 100 = 0" "y mod 100 = 0 \<Longrightarrow> y mod 4 = 0"
    using mod_mod_cancel [of 100 400 y] mod_mod_cancel [of 4 100 y] by auto
  have "jan1 (y + 1) = jan1 y + 365 + (y div 4 - (y - 1) div 4) - (y div 100 - (y - 1) div 100)
      + (y div 400 - (y - 1) div 400)"
    by (simp add: jan1_def)
  also have "y div 4 - (y - 1) div 4 = (if y mod 4 = 0 then 1 else 0)" by (subst div_pred [of 4 y]) simp_all
  also have "y div 100 - (y - 1) div 100 = (if y mod 100 = 0 then 1 else 0)" by (subst div_pred [of 100 y]) simp_all
  also have "y div 400 - (y - 1) div 400 = (if y mod 400 = 0 then 1 else 0)" by (subst div_pred [of 400 y]) simp_all
  finally show ?thesis using m unfolding leap_year_def
    by (cases "y mod 4 = 0"; cases "y mod 100 = 0"; cases "y mod 400 = 0") simp_all
qed

lemma jan1_mono: "y \<le> z \<Longrightarrow> jan1 y + 365 * (z - y) \<le> jan1 z"
proof (induction z rule: int_ge_induct)
  case (step z)
  then show ?case using jan1_Suc [of z] by (auto split: if_splits)
qed simp

lemma jan1_bounds: "400 * jan1 y \<le> 146097 * (y - 1970) + 739" "146097 * (y - 1970) - 1739 \<le> 400 * jan1 y"
proof -
  define a where "a = y - 1"
  define p where "p = a div 4"
  define q where "q = a div 100"
  define r where "r = a div 400"
  have b: "4 * p \<le> a" "a - 3 \<le> 4 * p" "100 * q \<le> a" "a - 99 \<le> 100 * q" "400 * r \<le> a" "a - 399 \<le> 400 * r"
    using div_bounds [of 4 a] div_bounds [of 100 a] div_bounds [of 400 a] by (simp_all add: p_def q_def r_def)
  have j: "jan1 y = 365 * a - 365 * 1969 + p - q + r - 477" by (simp add: jan1_def p_def q_def r_def a_def)
  have y: "y = a + 1" by (simp add: a_def)
  show "400 * jan1 y \<le> 146097 * (y - 1970) + 739" "146097 * (y - 1970) - 1739 \<le> 400 * jan1 y"
    unfolding j using b by (simp_all add: y)
qed

lemma year_of_bounds: "jan1 (year_of n) \<le> n \<and> n < jan1 (year_of n + 1)"
proof -
  define k where "k = (n * 400) div 146097"
  have k: "146097 * k \<le> n * 400" "n * 400 - 146096 \<le> 146097 * k"
    unfolding k_def using div_bounds [of 146097 "n * 400"] by simp_all
  have "jan1 (1970 + k - 1) \<le> n" using k jan1_bounds(1) [of "1970 + k - 1"] by simp
  moreover have "n < jan1 (1970 + k + 2)" using k jan1_bounds(2) [of "1970 + k + 2"] by simp
  ultimately show ?thesis by (auto simp: year_of_def k_def [symmetric] Let_def algebra_simps)
qed

lemma year_of_eq: "jan1 y \<le> n \<Longrightarrow> n < jan1 (y + 1) \<Longrightarrow> year_of n = y"
proof (rule ccontr)
  assume a: "jan1 y \<le> n" "n < jan1 (y + 1)" "year_of n \<noteq> y"
  then consider "year_of n + 1 \<le> y" | "y + 1 \<le> year_of n" by linarith
  then show False
    by cases (use a year_of_bounds [of n] jan1_mono [of "year_of n + 1" y] jan1_mono [of "y + 1" "year_of n"] in auto)
qed

lemma month_cases:
  assumes "1 \<le> m" "m \<le> (12::int)"
  obtains "m = 1" | "m = 2" | "m = 3" | "m = 4" | "m = 5" | "m = 6" | "m = 7" | "m = 8" | "m = 9"
    | "m = 10" | "m = 11" | "m = 12"
proof -
  have "m \<in> {1..12}" using assms by simp
  also have "{1..12::int} = {1, 2, 3, 4, 5, 6, 7, 8, 9, 10, 11, 12}" by (simp add: atLeastAtMost_insertL [symmetric] set_eq_iff) presburger
  finally show ?thesis using that by blast
qed

lemma month_of_eq:
  assumes "1 \<le> m" "m \<le> 12" "month_start y m \<le> k" "k < month_start y (m + 1)"
  shows "month_of y k = m"
  using assms(1,2)
  by (rule month_cases) (use assms(3,4) in \<open>auto simp: month_of_def month_start_def split: if_splits\<close>)

lemma month_start_13: "month_start y 13 = (if leap_year y then 366 else 365)"
  by (simp add: month_start_def)

lemma month_start_mono: "1 \<le> m \<Longrightarrow> m \<le> 12 \<Longrightarrow> 0 \<le> month_start y m \<and> month_start y (m + 1) \<le> (if leap_year y then 366 else 365)"
  by (erule (1) month_cases) (simp_all add: month_start_def)

lemma month_days_bounds: "1 \<le> m \<Longrightarrow> m \<le> 12 \<Longrightarrow> 28 \<le> month_days y m \<and> month_days y m \<le> 31"
  by (erule (1) month_cases) (simp_all add: month_days_def month_start_def)

theorem civil_date_days:
  assumes "1 \<le> m" "m \<le> 12" "1 \<le> d" "d \<le> month_days y m"
  shows "civil (date_days y m d) = (y, m, d)"
proof -
  have n: "date_days y m d = jan1 y + month_start y m + d - 1" using assms by (simp add: date_days_def)
  then have "year_of (date_days y m d) = y"
    by (intro year_of_eq)
      (use assms month_start_mono [OF assms(1,2), of y] jan1_Suc [of y] in \<open>auto simp: month_days_def\<close>)
  moreover have "month_of y (date_days y m d - jan1 y) = m"
    using assms n by (intro month_of_eq) (auto simp: month_days_def)
  ultimately show ?thesis by (simp add: civil_def Let_def) (simp add: n)
qed

lemma month_of_bounds:
  assumes "0 \<le> k" "k < (if leap_year y then 366 else 365)"
  shows "1 \<le> month_of y k \<and> month_of y k \<le> 12 \<and> month_start y (month_of y k) \<le> k \<and> k < month_start y (month_of y k + 1)"
proof -
  have "\<exists>m. 1 \<le> m \<and> m \<le> 12 \<and> month_start y m \<le> k \<and> k < month_start y (m + 1)"
  proof (rule ccontr)
    assume "\<nexists>m. 1 \<le> m \<and> m \<le> 12 \<and> month_start y m \<le> k \<and> k < month_start y (m + 1)"
    then have step: "month_start y m \<le> k \<Longrightarrow> month_start y (m + 1) \<le> k" if "1 \<le> m" "m \<le> 12" for m
      using that not_le by blast
    have "month_start y 1 \<le> k" using assms by (simp add: month_start_def)
    from step [OF _ _ this] have "month_start y 2 \<le> k" by simp
    from step [OF _ _ this] have "month_start y 3 \<le> k" by simp
    from step [OF _ _ this] have "month_start y 4 \<le> k" by simp
    from step [OF _ _ this] have "month_start y 5 \<le> k" by simp
    from step [OF _ _ this] have "month_start y 6 \<le> k" by simp
    from step [OF _ _ this] have "month_start y 7 \<le> k" by simp
    from step [OF _ _ this] have "month_start y 8 \<le> k" by simp
    from step [OF _ _ this] have "month_start y 9 \<le> k" by simp
    from step [OF _ _ this] have "month_start y 10 \<le> k" by simp
    from step [OF _ _ this] have "month_start y 11 \<le> k" by simp
    from step [OF _ _ this] have "month_start y 12 \<le> k" by simp
    from step [OF _ _ this] have "month_start y 13 \<le> k" by simp
    then show False using assms month_start_13 [of y] by simp
  qed
  then show ?thesis using month_of_eq by metis
qed

theorem date_days_civil:
  assumes "civil n = (y, m, d)"
  shows "date_days y m d = n \<and> 1 \<le> m \<and> m \<le> 12 \<and> 1 \<le> d \<and> d \<le> month_days y m"
proof -
  define k where "k = n - jan1 y"
  have y: "y = year_of n" and m: "m = month_of y k" and d: "d = k - month_start y m + 1"
    using assms by (auto simp: civil_def k_def Let_def)
  have "0 \<le> k" "k < (if leap_year y then 366 else 365)"
    using year_of_bounds [of n] jan1_Suc [of y] by (auto simp: k_def y)
  from month_of_bounds [OF this] show ?thesis
    unfolding m [symmetric] by (simp add: d date_days_def month_days_def k_def)
qed

lemma last_day:
  assumes "1 \<le> m" "m \<le> 12"
  shows "day_of (civil (date_days y (m + 1) 0)) = month_days y m"
proof -
  have "date_days y (m + 1) 0 = date_days y m (month_days y m)"
  proof (cases "m = 12")
    case True
    then show ?thesis
      using jan1_Suc [of y] by (simp add: date_days_def month_days_def month_start_13) (simp add: month_start_def)
  next
    case False
    then show ?thesis using assms by (simp add: date_days_def month_days_def)
  qed
  moreover have "civil (date_days y m (month_days y m)) = (y, m, month_days y m)"
    using assms month_days_bounds [OF assms, of y] by (intro civil_date_days) auto
  ultimately show ?thesis by (simp add: day_of_def)
qed

section \<open>The end of a billing period\<close>

text \<open>The month and year one period later.\<close>

definition next_month :: "string \<Rightarrow> int \<Rightarrow> int \<Rightarrow> int \<times> int" where
  "next_month period y m = (if period = ''year'' then (y + 1, m) else if m = 12 then (y + 1, 1) else (y, m + 1))"

lemma next_month_range:
  assumes "1 \<le> m" "m \<le> 12" "next_month period y m = (y', m')"
  shows "1 \<le> m' \<and> m' \<le> 12"
  using assms by (auto simp: next_month_def split: if_splits)

lemma addSubscriptionPeriod_eq:
  assumes "civil (start div day) = (y, m, d)" "next_month period y m = (y', m')"
  shows "addSubscriptionPeriod start period = date_days y' m' (min d (month_days y' m')) * day + start mod day"
proof -
  have m: "1 \<le> m" "m \<le> 12" using date_days_civil [OF assms(1)] by auto
  note r = next_month_range [OF m assms(2)]
  show ?thesis
    using assms(2) r m last_day [of m "y + 1"] last_day [of "m + 1" y] last_day [of 1 "y + 1"]
    by (auto simp: addSubscriptionPeriod_def assms(1) Let_def next_month_def min_def split: if_splits)
qed

lemma period_days:
  assumes "1 \<le> m" "m \<le> 12" "1 \<le> d" "d \<le> month_days y m" "next_month period y m = (y', m')"
  shows "(if period = ''year'' then 365 else 28) \<le> date_days y' m' (min d (month_days y' m')) - date_days y m d
    \<and> date_days y' m' (min d (month_days y' m')) - date_days y m d \<le> (if period = ''year'' then 366 else 31)"
proof (cases "period = ''year''")
  case True
  have e: "y' = y + 1" "m' = m" using assms(5) True by (simp_all add: next_month_def)
  have l: "\<not> (leap_year y \<and> leap_year (y + 1))"
  proof -
    have "\<not> (y mod 4 = 0 \<and> (y + 1) mod 4 = 0)" by presburger
    moreover have "leap_year z \<Longrightarrow> z mod 4 = 0" for z by (simp add: leap_year_def)
    ultimately show ?thesis by metis
  qed
  show ?thesis
    using assms(1,2) l jan1_Suc [of y] assms(3,4) unfolding e
    by - (erule (1) month_cases; auto simp: True date_days_def month_days_def month_start_def split: if_splits)
next
  case False
  have "date_days y' m' 1 = date_days y m 1 + month_days y m"
  proof (cases "m = 12")
    case True
    then show ?thesis using assms(5) False jan1_Suc [of y]
      by (simp add: next_month_def date_days_def month_days_def month_start_13) (simp add: month_start_def)
  next
    case m: False
    then show ?thesis using assms False by (auto simp: next_month_def date_days_def month_days_def)
  qed
  moreover have "date_days a b c = date_days a b 1 + c - 1" for a b c by (simp add: date_days_def Let_def)
  ultimately have "date_days y' m' (min d (month_days y' m')) - date_days y m d
      = month_days y m - d + min d (month_days y' m')"
    by (metis (no_types, opaque_lifting) add.commute add_diff_cancel_right diff_add_eq diff_diff_eq2 add.assoc)
  moreover have "28 \<le> month_days y m" "month_days y m \<le> 31" "28 \<le> month_days y' m'" "month_days y' m' \<le> 31"
    using month_days_bounds assms(1,2) next_month_range [OF assms(1,2,5)] by auto
  ultimately show ?thesis using False assms(3,4) by (auto simp: min_def)
qed

text \<open>
  C30. The end of a billing period: one calendar month (or year) later at the same time of the day, on
  the same day of the month or on the last day of a shorter month; so a month is 28 to 31 days and
  a year 365 or 366.
\<close>

theorem addSubscriptionPeriod_calendar:
  "case civil (start div day) of (y, m, d) \<Rightarrow> case next_month period y m of (y', m') \<Rightarrow>
     (let e = addSubscriptionPeriod start period in
        civil (e div day) = (y', m', min d (month_days y' m')) \<and> e mod day = start mod day
        \<and> (if period = ''year'' then 365 * day \<le> e - start \<and> e - start \<le> 366 * day
            else 28 * day \<le> e - start \<and> e - start \<le> 31 * day))"
proof -
  obtain y m d where c: "civil (start div day) = (y, m, d)" by (metis prod_cases3)
  obtain y' m' where n: "next_month period y m = (y', m')" by (metis surj_pair)
  note r = date_days_civil [OF c]
  then have m: "1 \<le> m" "m \<le> 12" "1 \<le> d" "d \<le> month_days y m" and s: "date_days y m d = start div day" by auto
  let ?d = "min d (month_days y' m')"
  let ?e = "addSubscriptionPeriod start period"
  have e: "?e = date_days y' m' ?d * day + start mod day" by (rule addSubscriptionPeriod_eq [OF c n])
  have pos: "0 < day" by (simp add: durations)
  then have b: "0 \<le> start mod day" "start mod day < day" by simp_all
  then have "?e div day = date_days y' m' ?d" "?e mod day = start mod day" unfolding e by simp_all
  moreover have "civil (date_days y' m' ?d) = (y', m', ?d)"
    using next_month_range [OF m(1,2) n] m(3) month_days_bounds [of m' y'] by (intro civil_date_days) auto
  moreover have "?e - start = (date_days y' m' ?d - date_days y m d) * day"
  proof -
    have "start = start div day * day + start mod day" by simp
    then show ?thesis unfolding e s left_diff_distrib by linarith
  qed
  then have "if period = ''year'' then 365 * day \<le> ?e - start \<and> ?e - start \<le> 366 * day
      else 28 * day \<le> ?e - start \<and> ?e - start \<le> 31 * day"
    using period_days [OF m n] pos by (cases "period = ''year''") (simp_all add: mult_right_mono)
  ultimately show ?thesis by (simp only: c n Let_def prod.case)
qed

end
