(* ===== verification/Url.thy ===== *)
theory Url
  imports Netip
begin

text \<open>
  The part of Go's \<open>net/url\<close> that the bank client and the configuration rest on: \<open>url.Parse\<close>, the
  host name and port of a parsed URL and \<open>ParseQuery\<close>. A URL has a scheme, an opaque part, user
  information (only whether it is there), a host, a path, the raw query and a fragment.
\<close>

record url =
  url_scheme :: string
  url_opaque :: string
  url_user :: bool
  url_host :: string
  url_path :: string
  url_query :: string
  url_force :: bool
  url_fragment :: string

section \<open>Percent-encoding\<close>

text \<open>\<open>strings.Cut(s, string(d))\<close>\<close>

definition cut :: "char \<Rightarrow> string \<Rightarrow> string \<times> string" where
  "cut d s = (takeWhile (\<lambda>c. c \<noteq> d) s, drop 1 (dropWhile (\<lambda>c. c \<noteq> d) s))"

datatype url_part = InPath | InHost | InZone | InQuery | InFragment | InUser

definition host_char :: "char \<Rightarrow> bool" where
  "host_char c \<longleftrightarrow> 128 \<le> byte c \<or> is_alpha c \<or> is_digit c
     \<or> c \<in> set (''-_.~!$&()*+,;=:[]<>'' @ [CHR 0x27, CHR 0x22])"

text \<open>
  \<open>unescape\<close>: in a host only non-ASCII bytes and the percent sign may be escaped, a zone may also
  have an escaped blank or character of a host; \<open>+\<close> is a blank in a query.
\<close>

fun unescape :: "url_part \<Rightarrow> string \<Rightarrow> string option" where
  "unescape p [] = Some []"
| "unescape p (c # cs) =
     (if c = CHR ''%'' then
        (case cs of
           a # b # rest \<Rightarrow>
             if is_hex a \<and> is_hex b then
               (let v = char_of (hex_val a * 16 + hex_val b) in
                if p = InHost \<and> hex_val a < 8 \<and> v \<noteq> CHR ''%'' then None
                else if p = InZone \<and> v \<noteq> CHR ''%'' \<and> v \<noteq> CHR '' '' \<and> \<not> (host_char v \<and> byte v < 128) then None
                else map_option ((#) v) (unescape p rest))
             else None
         | _ \<Rightarrow> None)
      else if p = InHost \<or> p = InZone then
        (if host_char c then map_option ((#) c) (unescape p cs) else None)
      else if c = CHR ''+'' \<and> p = InQuery then map_option ((#) CHR '' '') (unescape p cs)
      else map_option ((#) c) (unescape p cs))"

section \<open>Authority\<close>

definition validOptionalPort :: "string \<Rightarrow> bool" where
  "validOptionalPort p \<longleftrightarrow> p = [] \<or> (hd p = CHR '':'' \<and> list_all is_digit (tl p))"

definition validUserinfo :: "string \<Rightarrow> bool" where
  "validUserinfo s \<longleftrightarrow> list_all (\<lambda>c. is_alpha c \<or> is_digit c \<or> c \<in> set (''-._:~!$&()*+,;=%@'' @ [CHR 0x27])) s"

text \<open>The first place of \<open>%25\<close>, which starts the zone of an address.\<close>

fun zone_index :: "string \<Rightarrow> nat option" where
  "zone_index [] = None"
| "zone_index (c # cs) = (if has_prefix ''%25'' (c # cs) then Some 0 else map_option Suc (zone_index cs))"

definition parse_literal :: "string \<Rightarrow> string option" where
  "parse_literal h = (case zone_index h of
     None \<Rightarrow> unescape InHost h
   | Some i \<Rightarrow> Option.bind (unescape InHost (take i h)) (\<lambda>a. map_option ((@) a) (unescape InZone (drop i h))))"

text \<open>\<open>parseHost\<close>: an IPv6 literal in brackets, or a name with at most one colon, before the port.\<close>

definition parseHost :: "string \<Rightarrow> string option" where
  "parseHost h = (case last_index_of CHR ''['' h of
     Some (Suc i) \<Rightarrow> None
   | Some 0 \<Rightarrow> (case last_index_of CHR '']'' h of
         None \<Rightarrow> None
       | Some i \<Rightarrow>
           if \<not> validOptionalPort (drop (Suc i) h) then None
           else (case parse_literal (drop 1 (take i h)) of
               None \<Rightarrow> None
             | Some lit \<Rightarrow> (case ParseAddr lit of
                   Some (IPv6 n z) \<Rightarrow> Some (''['' @ lit @ '']'' @ drop (Suc i) h)
                 | _ \<Rightarrow> None)))
   | None \<Rightarrow> (case index_of CHR '':'' h of
         None \<Rightarrow> unescape InHost h
       | Some i \<Rightarrow> if validOptionalPort (drop i h) then unescape InHost h else None))"

text \<open>\<open>parseAuthority\<close>: is there user information, and the host.\<close>

definition parseAuthority :: "string \<Rightarrow> (bool \<times> string) option" where
  "parseAuthority a = (case last_index_of CHR ''@'' a of
     None \<Rightarrow> map_option (Pair False) (parseHost a)
   | Some i \<Rightarrow> (case parseHost (drop (Suc i) a) of
         None \<Rightarrow> None
       | Some h \<Rightarrow> if validUserinfo (take i a) \<and> unescape InUser (take i a) \<noteq> None then Some (True, h) else None))"

section \<open>URLs\<close>

text \<open>\<open>getScheme\<close>: the scheme (empty when there is none) and the rest, \<open>None\<close> for a leading colon.\<close>

definition getScheme :: "string \<Rightarrow> (string \<times> string) option" where
  "getScheme s =
     (let pre = takeWhile (\<lambda>c. is_alpha c \<or> is_digit c \<or> c \<in> set ''+-.'') s; rest = drop (length pre) s in
      if rest = [] \<or> hd rest \<noteq> CHR '':'' then Some ([], s)
      else if pre = [] then None
      else if \<not> is_alpha (hd pre) then Some ([], s)
      else Some (pre, tl rest))"

definition parse_rest :: "string \<Rightarrow> string \<Rightarrow> string \<Rightarrow> bool \<Rightarrow> url option" where
  "parse_rest scheme rest q force =
     (let mk = (\<lambda>user host path. \<lparr>url_scheme = scheme, url_opaque = [], url_user = user, url_host = host,
           url_path = path, url_query = q, url_force = force, url_fragment = []\<rparr>) in
      if \<not> has_prefix ''/'' rest \<and> scheme \<noteq> [] then
        Some (mk False [] [] \<lparr>url_opaque := rest\<rparr>)
      else if \<not> has_prefix ''/'' rest \<and> CHR '':'' \<in> set (fst (cut CHR ''/'' rest)) then None
      else if (scheme \<noteq> [] \<or> \<not> has_prefix ''///'' rest) \<and> has_prefix ''//'' rest then
        (let authority = takeWhile (\<lambda>c. c \<noteq> CHR ''/'') (drop 2 rest) in
         case (parseAuthority authority, unescape InPath (drop (2 + length authority) rest)) of
           (Some (user, host), Some path) \<Rightarrow> Some (mk user host path)
         | _ \<Rightarrow> None)
      else map_option (mk False []) (unescape InPath rest))"

text \<open>\<open>url.Parse\<close>\<close>

definition url_parse :: "string \<Rightarrow> url option" where
  "url_parse raw =
     (case cut CHR ''#'' raw of (u, frag) \<Rightarrow>
        if list_ex (\<lambda>c. byte c < 32 \<or> byte c = 127) u then None
        else if u = ''*'' then map_option (\<lambda>f. \<lparr>url_scheme = [], url_opaque = [], url_user = False, url_host = [],
             url_path = ''*'', url_query = [], url_force = False, url_fragment = f\<rparr>) (unescape InFragment frag)
        else case getScheme u of
            None \<Rightarrow> None
          | Some (scheme, rest) \<Rightarrow>
              let force = (has_suffix ''?'' rest \<and> count_where (\<lambda>c. c = CHR ''?'') rest = 1);
                  rq = (if force then (butlast rest, []) else cut CHR ''?'' rest)
              in Option.bind (parse_rest (to_lower scheme) (fst rq) (snd rq) force)
                   (\<lambda>url. map_option (\<lambda>f. url\<lparr>url_fragment := f\<rparr>) (unescape InFragment frag)))"

text \<open>\<open>Hostname()\<close> and \<open>Port()\<close>\<close>

definition split_port :: "string \<Rightarrow> string \<times> string" where
  "split_port h = (case last_index_of CHR '':'' h of
     None \<Rightarrow> (h, [])
   | Some i \<Rightarrow> if validOptionalPort (drop i h) then (take i h, drop (Suc i) h) else (h, []))"

definition url_hostname :: "url \<Rightarrow> string" where
  "url_hostname u = (let h = fst (split_port (url_host u)) in
     if has_prefix ''['' h \<and> has_suffix '']'' h then butlast (tl h) else h)"

definition url_port :: "url \<Rightarrow> string" where
  "url_port u = snd (split_port (url_host u))"

text \<open>\<open>Query()\<close>: the pairs that parse.\<close>

definition query_pair :: "string \<Rightarrow> (string \<times> string) option" where
  "query_pair s = (if CHR '';'' \<in> set s \<or> s = [] then None
     else case cut CHR ''='' s of (k, v) \<Rightarrow>
       (case (unescape InQuery k, unescape InQuery v) of (Some k', Some v') \<Rightarrow> Some (k', v') | _ \<Rightarrow> None))"

definition url_pairs :: "url \<Rightarrow> (string \<times> string) list" where
  "url_pairs u = List.map_filter query_pair (split_on CHR ''&'' (url_query u))"

section \<open>What a parsed host can be\<close>

lemma url_parse_example:
  "url_parse ''https://user@pay.dengi.kg:443/a%20b?x=1&y=a+b#top'' =
     Some \<lparr>url_scheme = ''https'', url_opaque = [], url_user = True, url_host = ''pay.dengi.kg:443'',
       url_path = ''/a b'', url_query = ''x=1&y=a+b'', url_force = False, url_fragment = ''top''\<rparr>"
  by code_simp

end
