(* ===== verification/Obank.thy ===== *)
theory Obank
  imports Http Url
begin

text \<open>
  The O!Dengi client of \<open>internal/payment/obank/client.go\<close>: what it accepts as the answer to
  \<open>createInvoice\<close> and \<open>statusPayment\<close>, the check of payment links, and \<open>VerifyResult\<close>, which
  authenticates the bank's callback. A JSON document keeps the text of its numbers here, because the
  signature is over that text. The transport and HMAC-MD5 are the parameter \<open>bank\<close>.
\<close>

datatype raw = RNull | RBool bool | RNum string | RStr string | RArr "raw list" | RObj "(string \<times> raw) list"

record invoice_request =
  ir_order :: string
  ir_desc :: string
  ir_amount :: int
  ir_currency :: string
  ir_test :: int
  ir_date_life :: string

datatype bank_request = CreateInvoiceReq invoice_request | StatusPaymentReq string string

text \<open>
  \<open>bk_hmac secret message\<close> is the hexadecimal HMAC-MD5; \<open>bk_call cfg t q\<close> is the JSON document the
  API at \<open>ob_api_url\<close> answers with, \<open>None\<close> when the call fails, the status is not 2xx, the answer is
  longer than 64 KiB or is not JSON.
\<close>

record bank =
  bk_hmac :: "string \<Rightarrow> string \<Rightarrow> string"
  bk_call :: "obank_config \<Rightarrow> time \<Rightarrow> bank_request \<Rightarrow> raw option"

section \<open>Decoding into structs\<close>

definition raw_pairs :: "raw \<Rightarrow> (string \<times> raw) list option" where
  "raw_pairs j = (case j of RObj fs \<Rightarrow> Some fs | RNull \<Rightarrow> Some [] | _ \<Rightarrow> None)"

definition raw_values :: "(string \<times> raw) list \<Rightarrow> string \<Rightarrow> raw list" where
  "raw_values fs n = map snd (filter (\<lambda>(k, _). fold_key k = fold_key n) fs)"

text \<open>A \<open>json.RawMessage\<close> field: the last value, also when it is null.\<close>

definition raw_field :: "(string \<times> raw) list \<Rightarrow> string \<Rightarrow> raw option" where
  "raw_field fs n = (let vs = raw_values fs n in if vs = [] then None else Some (last vs))"

definition raw_str :: "(string \<times> raw) list \<Rightarrow> string \<Rightarrow> string option" where
  "raw_str fs n = (let vs = filter (\<lambda>v. v \<noteq> RNull) (raw_values fs n) in
     if list_all (\<lambda>v. case v of RStr _ \<Rightarrow> True | _ \<Rightarrow> False) vs
     then Some (last_or [] (List.map_filter (\<lambda>v. case v of RStr s \<Rightarrow> Some s | _ \<Rightarrow> None) vs)) else None)"

definition scalar :: "raw option \<Rightarrow> string option" where
  "scalar v = (case v of Some (RStr s) \<Rightarrow> Some s | Some (RNum t) \<Rightarrow> Some t | _ \<Rightarrow> None)"

text \<open>\<open>json.Unmarshal(response.Data, ...)\<close>: an error when there is no \<open>data\<close>.\<close>

definition response_data :: "raw \<Rightarrow> (string \<times> raw) list option" where
  "response_data j = Option.bind (raw_pairs j) (\<lambda>fs. Option.bind (raw_field fs ''data'') raw_pairs)"

text \<open>\<open>strconv.ParseInt(s, 10, 64)\<close> and \<open>strconv.Atoi\<close>: an optional sign and digits, 64 bits.\<close>

definition parse_int64 :: "string \<Rightarrow> int option" where
  "parse_int64 s =
     (let neg = has_prefix ''-'' s; digits = (if neg \<or> has_prefix ''+'' s then tl s else s);
          n = (if neg then - dec_value digits else dec_value digits) in
      if digits \<noteq> [] \<and> list_all is_digit digits \<and> - (2 ^ 63) \<le> n \<and> n < 2 ^ 63 then Some n else None)"

definition testFlag :: "bool \<Rightarrow> int" where
  "testFlag t = (if t then 1 else 0)"

section \<open>Payment links\<close>

definition validatePaymentURL :: "string \<Rightarrow> bool" where
  "validatePaymentURL v = (case url_parse v of
     None \<Rightarrow> False
   | Some u \<Rightarrow> url_scheme u = ''https'' \<and> url_host u \<noteq> [] \<and> \<not> url_user u
       \<and> (let host = to_lower (url_hostname u) in host = ''dengi.kg'' \<or> has_suffix ''.dengi.kg'' host))"

definition validateAppLink :: "string \<Rightarrow> string \<Rightarrow> bool" where
  "validateAppLink v invoice = (case url_parse v of
     None \<Rightarrow> False
   | Some u \<Rightarrow> url_scheme u = ''https'' \<and> url_host u = ''o.kg'' \<and> url_path u = ''/l/a'' \<and> \<not> url_user u
       \<and> url_fragment u = [] \<and> get_first (url_pairs u) ''t'' = ''wl_unpbill'' \<and> invoice \<noteq> []
       \<and> get_first (url_pairs u) ''id'' = invoice)"

section \<open>Invoices\<close>

record invoice =
  inv_id :: string
  inv_url :: string
  inv_app_link :: string

definition invoice_of :: "(string \<times> raw) list \<Rightarrow> invoice option" where
  "invoice_of fs = (case (raw_str fs ''paylink_url'', raw_str fs ''site_pay'', raw_str fs ''link_app'') of
     (Some paylink, Some site, Some app) \<Rightarrow>
       (case scalar (raw_field fs ''invoice_id'') of
          None \<Rightarrow> None
        | Some i \<Rightarrow>
            if i = [] then None
            else let pay = (if trim_space paylink = [] then trim_space site else trim_space paylink);
                     link = (if validateAppLink app i then app else []) in
              if pay = [] \<and> link = [] then None
              else if pay \<noteq> [] \<and> \<not> validatePaymentURL pay then None
              else Some \<lparr>inv_id = i, inv_url = pay, inv_app_link = link\<rparr>)
   | _ \<Rightarrow> None)"

definition CreateInvoice :: "bank \<Rightarrow> obank_config \<Rightarrow> time \<Rightarrow> invoice_request \<Rightarrow> invoice option" where
  "CreateInvoice B cfg t q =
     Option.bind (bk_call B cfg t (CreateInvoiceReq q)) (\<lambda>j. Option.bind (response_data j) invoice_of)"

section \<open>Payment status\<close>

record payment_status =
  ps_status :: string
  ps_transaction :: string
  ps_amount :: int

record status_payment =
  sp_transaction :: string
  sp_amount :: string
  sp_status :: string
  sp_order :: string
  sp_test :: string

definition status_payment_of :: "raw \<Rightarrow> status_payment option" where
  "status_payment_of j = Option.bind (raw_pairs j) (\<lambda>fs.
     case (raw_str fs ''trans_id'', raw_str fs ''amount'', raw_str fs ''status'', raw_str fs ''order_id'',
           raw_str fs ''test'') of
       (Some t, Some a, Some s, Some oid, Some test) \<Rightarrow>
         Some \<lparr>sp_transaction = t, sp_amount = a, sp_status = s, sp_order = oid, sp_test = test\<rparr>
     | _ \<Rightarrow> None)"

text \<open>The \<open>payments\<close> array (one key; null is the empty list).\<close>

definition payments_of :: "(string \<times> raw) list \<Rightarrow> status_payment list option" where
  "payments_of fs = (case filter (\<lambda>v. v \<noteq> RNull) (raw_values fs ''payments'') of
     [] \<Rightarrow> Some []
   | vs \<Rightarrow> (case last vs of RArr js \<Rightarrow> those (map status_payment_of js) | _ \<Rightarrow> None))"

fun scan_payments :: "string \<Rightarrow> string \<Rightarrow> string \<Rightarrow> status_payment list \<Rightarrow> payment_status option" where
  "scan_payments oid test st [] = Some \<lparr>ps_status = st, ps_transaction = [], ps_amount = 0\<rparr>"
| "scan_payments oid test st (p # ps) =
     (if sp_order p \<noteq> oid \<or> sp_test p \<noteq> test then scan_payments oid test st ps
      else let s = to_lower (trim_space (sp_status p)) in
        if s = ''approved'' then
          (case parse_int64 (trim_space (sp_amount p)) of
             None \<Rightarrow> None
           | Some n \<Rightarrow> if sp_transaction p = [] then None
               else Some \<lparr>ps_status = s, ps_transaction = sp_transaction p, ps_amount = n\<rparr>)
        else if s = ''processing'' then scan_payments oid test s ps
        else if s = ''canceled'' \<and> st = [] then scan_payments oid test s ps
        else scan_payments oid test st ps)"

definition GetStatus :: "bank \<Rightarrow> obank_config \<Rightarrow> time \<Rightarrow> string \<Rightarrow> string \<Rightarrow> payment_status option" where
  "GetStatus B cfg t invoice oid =
     Option.bind (bk_call B cfg t (StatusPaymentReq invoice oid)) (\<lambda>j.
     Option.bind (response_data j) (\<lambda>fs.
       case (raw_str fs ''status'', payments_of fs) of
         (Some st, Some ps) \<Rightarrow>
           scan_payments oid (if ob_test cfg then ''1'' else ''0'') (to_lower (trim_space st)) ps
       | _ \<Rightarrow> None))"

section \<open>The callback\<close>

record bank_result =
  br_transaction :: string
  br_status :: int
  br_site :: string
  br_order :: string
  br_amount :: int
  br_currency :: string
  br_test :: int
  br_invoice :: string

definition signed_fields :: "string list" where
  "signed_fields = [''trans_id'', ''status_pay'', ''site_id'', ''order_id'', ''amount'', ''currency'', ''mktime'', ''test'']"

definition signed_values :: "(string \<times> raw) list \<Rightarrow> string list option" where
  "signed_values fs = those (map (\<lambda>n. case scalar (raw_field fs n) of
     None \<Rightarrow> None | Some v \<Rightarrow> if v = [] then None else Some v) signed_fields)"

text \<open>\<open>VerifyResult\<close> on the first JSON value of the body (\<open>None\<close> when there is none).\<close>

definition VerifyResult :: "bank \<Rightarrow> raw option \<Rightarrow> string \<Rightarrow> bank_result option" where
  "VerifyResult B body secret =
     (case Option.bind body raw_pairs of
        None \<Rightarrow> None
      | Some fs \<Rightarrow>
          (case (signed_values fs, scalar (raw_field fs ''hash'')) of
             (Some vs, Some h) \<Rightarrow>
               if h = [] then None
               else if to_lower h \<noteq> bk_hmac B secret (join_with '':::'' vs) then None
               else (case (parse_int64 (vs ! 1), parse_int64 (vs ! 4), parse_int64 (vs ! 7)) of
                   (Some status, Some amount, Some test) \<Rightarrow>
                     Some \<lparr>br_transaction = vs ! 0, br_status = status, br_site = vs ! 2, br_order = vs ! 3,
                       br_amount = amount, br_currency = vs ! 5, br_test = test,
                       br_invoice = (case scalar (raw_field fs ''invoice_id'') of None \<Rightarrow> [] | Some i \<Rightarrow> i)\<rparr>
                 | _ \<Rightarrow> None)
           | _ \<Rightarrow> None))"

end
