(* ===== verification/Checkout.thy ===== *)
theory Checkout
  imports Integrity Calendar Obank
begin

text \<open>
  Paying for a plan: \<open>subscription_checkout.go\<close>, \<open>obank_sandbox.go\<close> and \<open>ListPlans\<close> of
  \<open>subscriptions.go\<close>. A payment order is a row of \<open>subscription_payment_orders\<close>; the bank answers
  through \<open>bank\<close>, its callback is the JSON body of \<open>OBankResult\<close>. Times the driver returns are read
  in UTC, the zone of the container.
\<close>

section \<open>Who may pay\<close>

definition productionOBankSandboxMode :: "app_state \<Rightarrow> bool" where
  "productionOBankSandboxMode A \<longleftrightarrow> st_production A \<and> ob_enabled (st_obank A) \<and> ob_test (st_obank A)"

definition isAllowedProductionOBankTestUser :: "app_state \<Rightarrow> uuid \<Rightarrow> (world, bool) state" where
  "isAllowedProductionOBankTestUser A u =
     (if \<not> productionOBankSandboxMode A then ret True
      else if u = [] \<or> ob_test_phone (st_obank A) = [] \<or> \<not> st_db A then ret False
      else do {
        r \<leftarrow> sel Pool (\<lambda>t d. row_of (map_option (\<lambda>x. or_empty (u_phone x)) (user_by_id d u)));
        ret (case r of Row phone \<Rightarrow> normalizePhone phone = ob_test_phone (st_obank A) | NoRows \<Rightarrow> False | SqlErr \<Rightarrow> False)
      })"

abbreviation denyNonTestOBankAccount :: "(world, 'p resp) state" where
  "denyNonTestOBankAccount \<equiv> fail 403 ''sandbox checkout is restricted to the configured test account''"

definition configuredOBankTestFlag :: "app_state \<Rightarrow> int" where
  "configuredOBankTestFlag A = testFlag (ob_test (st_obank A))"

section \<open>The list of plans\<close>

record plan_dto =
  pp_plan :: subscriptionPlan
  pp_price :: int
  pp_annual :: int
  pp_discount :: int
  pp_options :: "(string \<times> int \<times> int) list"

datatype plans_payload = Plans "plan_dto list" "(bool \<times> int option) option"

definition plan_item :: "app_state \<Rightarrow> bool \<Rightarrow> subscriptionPlan \<Rightarrow> plan_dto" where
  "plan_item A sandbox plan =
     (let price = (\<lambda>period. case planPrice A plan period of None \<Rightarrow> 0 | Some n \<Rightarrow> n);
          paid = (pl_id plan \<noteq> ''trial'');
          test = ob_test_price (st_obank A);
          staging = (stagingTestPriceOverrideEnabled A \<and> paid);
          discount0 = (if st_staging A \<and> 0 < st_price_override A \<and> paid then 0 else pl_discount plan);
          monthly = (if staging then st_staging_price A else if sandbox then test else price ''month'');
          annual = (if sandbox then test else price ''year'');
          discount = (if staging \<or> sandbox then 0 else discount0)
      in \<lparr>pp_plan = plan, pp_price = monthly, pp_annual = annual, pp_discount = discount,
          pp_options = (if sandbox then [(''month'', test, 0)]
            else [(''month'', monthly, 0), (''year'', annual, discount)])\<rparr>)"

definition ListPlans :: "app_state \<Rightarrow> plans_payload handler" where
  "ListPlans A r =
     (if rq_method r \<noteq> ''GET'' then methodNotAllowed
      else do {
        let sandbox = productionOBankSandboxMode A;
        allowed \<leftarrow> (if \<not> sandbox then ret True else isAllowedProductionOBankTestUser A (userIDFromContext r));
        let plans = map (plan_item A (sandbox \<and> allowed))
          (filter (\<lambda>p. \<not> (sandbox \<and> allowed \<and> pl_id p \<noteq> ''standard'')) subscriptionPlans);
        reply 200 (Plans plans
          (if sandbox then Some (allowed, if allowed then Some (ob_test_price (st_obank A)) else None) else None))
      })"

section \<open>Payment orders\<close>

datatype pay_error = CheckoutExists | CheckoutState | PaymentMissing | PaymentInvalid | PayOther

record payment_order =
  po_id :: string
  po_user :: uuid
  po_key :: string
  po_plan :: string
  po_period :: string
  po_kgs :: int
  po_kopecks :: int
  po_currency :: string
  po_status :: string
  po_invoice :: string
  po_transaction :: string
  po_url :: string
  po_app_link :: string
  po_created :: time
  po_paid :: "time option"

text \<open>\<open>scanSubscriptionPayment\<close> of a row, with the \<open>COALESCE(x, '')\<close> of the queries.\<close>

definition scan_order :: "order_row \<Rightarrow> payment_order" where
  "scan_order o1 = \<lparr>po_id = o_id o1, po_user = o_user o1, po_key = o_key o1, po_plan = o_plan o1,
     po_period = o_period o1, po_kgs = o_kgs o1, po_kopecks = o_kopecks o1, po_currency = o_currency o1,
     po_status = o_status o1, po_invoice = or_empty (o_invoice o1),
     po_transaction = or_empty (o_transaction o1), po_url = or_empty (o_url o1),
     po_app_link = or_empty (o_app_link o1), po_created = o_created o1, po_paid = o_paid o1\<rparr>"

definition open_status :: "string \<Rightarrow> bool" where
  "open_status s \<longleftrightarrow> s = ''pending'' \<or> s = ''processing''"

definition order_by_id :: "db \<Rightarrow> string \<Rightarrow> order_row option" where
  "order_by_id d i = find (\<lambda>x. o_id x = i) (orders d)"

definition sel_order :: "string \<Rightarrow> time \<Rightarrow> db \<Rightarrow> payment_order sqlres" where
  "sel_order i t d = row_of (map_option scan_order (order_by_id d i))"

definition sel_user_order :: "uuid \<Rightarrow> string \<Rightarrow> time \<Rightarrow> db \<Rightarrow> payment_order sqlres" where
  "sel_user_order u i t d = row_of (map_option scan_order (find (\<lambda>x. o_user x = u \<and> o_id x = i) (orders d)))"

definition sel_keyed_order :: "uuid \<Rightarrow> string \<Rightarrow> time \<Rightarrow> db \<Rightarrow> payment_order sqlres" where
  "sel_keyed_order u key t d = row_of (map_option scan_order (find (\<lambda>x. o_user x = u \<and> o_key x = key) (orders d)))"

definition sel_open_order :: "uuid \<Rightarrow> time \<Rightarrow> db \<Rightarrow> payment_order sqlres" where
  "sel_open_order u t d =
     (case sort_key (\<lambda>x. - o_created x)
        (filter (\<lambda>x. o_user x = u \<and> open_status (o_status x) \<and> t - 24 * hour < o_created x) (orders d)) of
        [] \<Rightarrow> NoRows | x # _ \<Rightarrow> Row (scan_order x))"

text \<open>The unique indexes on the invoice and the transaction, where they are not null.\<close>

definition order_keys_ok :: "order_row list \<Rightarrow> bool" where
  "order_keys_ok xs \<longleftrightarrow> distinct (List.map_filter o_invoice xs) \<and> distinct (List.map_filter o_transaction xs)"

text \<open>\<open>UPDATE subscription_payment_orders SET f WHERE p\<close>: the number of rows, or a violated index.\<close>

definition upd_orders :: "(order_row \<Rightarrow> bool) \<Rightarrow> (order_row \<Rightarrow> order_row) \<Rightarrow> nat sql" where
  "upd_orders p f t d = (let xs = upd_where p f (orders d) in
     if order_keys_ok xs then (Row (count_where p (orders d)), d\<lparr>orders := xs\<rparr>) else (SqlErr, d))"

text \<open>The constraints of the table: key, idempotency key, account, plan, period and amounts.\<close>

definition ins_order :: "string \<Rightarrow> uuid \<Rightarrow> string \<Rightarrow> string \<Rightarrow> string \<Rightarrow> int \<Rightarrow> unit sql" where
  "ins_order i u key plan period kgs t d =
     (if i \<in> o_id ` set (orders d) \<or> (u, key) \<in> (\<lambda>x. (o_user x, o_key x)) ` set (orders d)
         \<or> user_by_id d u = None \<or> \<not> (plan = ''standard'' \<or> plan = ''max'')
         \<or> \<not> (period = ''month'' \<or> period = ''year'') \<or> kgs \<le> 0 \<or> 2 ^ 31 \<le> kgs * 100
      then (SqlErr, d)
      else (Row (), d\<lparr>orders := orders d @ [\<lparr>o_id = i, o_user = u, o_key = key, o_plan = plan,
        o_period = period, o_kgs = kgs, o_kopecks = kgs * 100, o_currency = ''KGS'',
        o_status = ''pending'', o_invoice = None, o_transaction = None, o_url = None, o_app_link = None,
        o_checked = None, o_created = t, o_updated = t, o_paid = None\<rparr>]\<rparr>))"

text \<open>\<open>COALESCE(NULLIF(column, ''), NULLIF(value, ''))\<close>\<close>

definition keep_or :: "string option \<Rightarrow> string \<Rightarrow> string option" where
  "keep_or old new = (if or_empty old = [] then null_if_empty new else old)"

definition upd_claim :: "string \<Rightarrow> nat sql" where
  "upd_claim i t = upd_orders (\<lambda>x. o_id x = i \<and> open_status (o_status x)
       \<and> (case o_checked x of None \<Rightarrow> True | Some c \<Rightarrow> c < t - 5 * second))
     (\<lambda>x. x\<lparr>o_checked := Some t\<rparr>) t"

definition upd_invoice :: "string \<Rightarrow> invoice \<Rightarrow> nat sql" where
  "upd_invoice i v t = upd_orders (\<lambda>x. o_id x = i \<and> open_status (o_status x))
     (\<lambda>x. x\<lparr>o_invoice := Some (inv_id v), o_url := Some (inv_url v), o_app_link := Some (inv_app_link v),
       o_updated := t\<rparr>) t"

definition upd_result :: "string \<Rightarrow> string \<Rightarrow> string \<Rightarrow> string \<Rightarrow> nat sql" where
  "upd_result i st iv tn t = upd_orders (\<lambda>x. o_id x = i)
     (\<lambda>x. x\<lparr>o_status := st, o_invoice := keep_or (o_invoice x) iv, o_transaction := keep_or (o_transaction x) tn,
       o_updated := t\<rparr>) t"

definition upd_paid :: "string \<Rightarrow> string \<Rightarrow> string \<Rightarrow> nat sql" where
  "upd_paid i iv tn t = upd_orders (\<lambda>x. o_id x = i \<and> open_status (o_status x))
     (\<lambda>x. x\<lparr>o_status := ''paid'', o_invoice := keep_or (o_invoice x) iv, o_transaction := Some tn,
       o_paid := Some t, o_updated := t\<rparr>) t"

definition upd_order_status :: "string \<Rightarrow> string \<Rightarrow> nat sql" where
  "upd_order_status i st t = upd_orders (\<lambda>x. o_id x = i \<and> open_status (o_status x))
     (\<lambda>x. x\<lparr>o_status := st, o_updated := t\<rparr>) t"

definition upd_activate :: "uuid \<Rightarrow> string \<Rightarrow> string \<Rightarrow> time \<Rightarrow> time \<Rightarrow> time \<Rightarrow> db \<Rightarrow> db" where
  "upd_activate u plan period start fin t d = d\<lparr>subscriptions :=
     upd_where (\<lambda>s. s_user s = u) (\<lambda>s. s\<lparr>s_plan := plan, s_status := ''active'', s_period := period,
       s_started := start, s_period_end := Some fin, s_updated := t\<rparr>) (subscriptions d)\<rparr>"

section \<open>Reserving an order\<close>

definition safeIdempotencyKey :: "string \<Rightarrow> bool" where
  "safeIdempotencyKey s \<longleftrightarrow> list_all (\<lambda>c. is_alpha c \<or> is_digit c \<or> c = CHR ''-'' \<or> c = CHR ''_'') s"

definition newOBankOrderID :: "(world, string option) state" where
  "newOBankOrderID = do {
     bs \<leftarrow> rand_read 16;
     ret (map_option (\<lambda>b. ''stroy_'' @ concat (map hex_byte b)) bs)
   }"

record checkout_request =
  cr_plan :: string
  cr_period :: string
  cr_key :: string

definition same_purchase :: "checkout_request \<Rightarrow> int \<Rightarrow> payment_order \<Rightarrow> bool" where
  "same_purchase q kgs po \<longleftrightarrow> \<not> (po_plan po \<noteq> cr_plan q \<or> po_period po \<noteq> cr_period q \<or> po_kgs po \<noteq> kgs)"

definition commit_order :: "payment_order \<Rightarrow> (world, pay_error + payment_order) state" where
  "commit_order po = do { ok \<leftarrow> tx_commit; ret (if ok then Inr po else Inl PayOther) }"

definition newOrderTx :: "uuid \<Rightarrow> checkout_request \<Rightarrow> int \<Rightarrow> (world, pay_error + payment_order) state" where
  "newOrderTx u q kgs = do {
     oid \<leftarrow> newOBankOrderID;
     (case oid of
        None \<Rightarrow> ret (Inl PayOther)
      | Some i \<Rightarrow> do {
          r \<leftarrow> stmt Tx (ins_order i u (cr_key q) (cr_plan q) (cr_period q) kgs);
          if r = SqlErr then ret (Inl PayOther)
          else do {
            t \<leftarrow> read_now;
            commit_order \<lparr>po_id = i, po_user = u, po_key = cr_key q, po_plan = cr_plan q, po_period = cr_period q,
              po_kgs = kgs, po_kopecks = kgs * 100, po_currency = ''KGS'', po_status = ''pending'', po_invoice = [],
              po_transaction = [], po_url = [], po_app_link = [], po_created = t, po_paid = None\<rparr>
          }
        })
   }"

definition reserveOrderTx :: "uuid \<Rightarrow> checkout_request \<Rightarrow> int \<Rightarrow> (world, pay_error + payment_order) state" where
  "reserveOrderTx u q kgs = do {
     s \<leftarrow> ensureSubscription Tx u True;
     (case s of
        Inl e \<Rightarrow> ret (Inl PayOther)
      | Inr st \<Rightarrow> do {
          k \<leftarrow> sel Tx (sel_keyed_order u (cr_key q));
          (case k of
             SqlErr \<Rightarrow> ret (Inl PayOther)
           | Row po \<Rightarrow>
               if \<not> same_purchase q kgs po then ret (Inl CheckoutState)
               else do {
                 t \<leftarrow> read_now;
                 if po_status po = ''canceled'' \<or> (po_status po \<noteq> ''paid'' \<and> po_created po < t - 24 * hour)
                 then ret (Inl CheckoutState) else commit_order po
               }
           | NoRows \<Rightarrow> do {
               f \<leftarrow> sel Tx (sel_open_order u);
               (case f of
                  SqlErr \<Rightarrow> ret (Inl PayOther)
                | Row po \<Rightarrow> if \<not> same_purchase q kgs po then ret (Inl CheckoutExists) else commit_order po
                | NoRows \<Rightarrow> newOrderTx u q kgs)
             })
        })
   }"

definition reserveSubscriptionCheckout ::
  "uuid \<Rightarrow> checkout_request \<Rightarrow> int \<Rightarrow> (world, pay_error + payment_order) state" where
  "reserveSubscriptionCheckout u q kgs = do {
     b \<leftarrow> tx_begin;
     if \<not> b then ret (Inl PayOther) else defer_rollback (reserveOrderTx u q kgs)
   }"

section \<open>The bank's answer\<close>

definition activateSubscriptionFromPayment ::
  "payment_order \<Rightarrow> string \<Rightarrow> string \<Rightarrow> (world, pay_error option) state" where
  "activateSubscriptionFromPayment po tn iv = do {
     s \<leftarrow> ensureSubscription Tx (po_user po) True;
     (case s of
        Inl e \<Rightarrow> ret (Some PayOther)
      | Inr st \<Rightarrow> do {
          t \<leftarrow> read_now;
          let periodStart = (if ss_status st = ''active''
            then (case ss_period_end st of None \<Rightarrow> t | Some e \<Rightarrow> if t < e then e else t) else t);
          let periodEnd = addSubscriptionPeriod periodStart (po_period po);
          a \<leftarrow> exec Tx (upd_activate (po_user po) (po_plan po) (po_period po) periodStart periodEnd);
          if a = SqlErr then ret (Some PayOther)
          else do {
            n \<leftarrow> stmt Tx (upd_paid (po_id po) iv tn);
            ret (case n of Row k \<Rightarrow> if k \<noteq> 1 then Some CheckoutState else None
                 | NoRows \<Rightarrow> Some PayOther | SqlErr \<Rightarrow> Some PayOther)
          }
        })
   }"

definition result_matches :: "bank_result \<Rightarrow> payment_order \<Rightarrow> bool" where
  "result_matches b po \<longleftrightarrow> \<not> (br_amount b \<noteq> po_kopecks po \<or> br_currency b \<noteq> po_currency po
     \<or> (br_invoice b \<noteq> [] \<and> po_invoice po \<noteq> [] \<and> br_invoice b \<noteq> po_invoice po))
     \<and> \<not> (po_transaction po \<noteq> [] \<and> po_transaction po \<noteq> br_transaction b)"

definition commit_result :: "(world, pay_error option) state" where
  "commit_result = do { ok \<leftarrow> tx_commit; ret (if ok then None else Some PayOther) }"

definition applyTx :: "app_state \<Rightarrow> bank_result \<Rightarrow> (world, pay_error option) state" where
  "applyTx A b = do {
     r \<leftarrow> sel Tx (sel_order (br_order b));
     (case r of
        NoRows \<Rightarrow> ret (Some PaymentMissing)
      | SqlErr \<Rightarrow> ret (Some PayOther)
      | Row po \<Rightarrow> do {
          allowed \<leftarrow> isAllowedProductionOBankTestUser A (po_user po);
          if \<not> allowed then ret (Some PaymentInvalid)
          else if \<not> result_matches b po then ret (Some PaymentInvalid)
          else if po_status po = ''paid'' then commit_result
          else if po_status po = ''canceled'' \<and> br_status b \<noteq> 2 then ret (Some CheckoutState)
          else if br_status b = 1 \<or> br_status b = 2 then do {
            n \<leftarrow> stmt Tx (upd_result (br_order b) (if br_status b = 1 then ''processing'' else ''canceled'')
              (br_invoice b) (br_transaction b));
            if n = SqlErr then ret (Some PayOther) else commit_result
          }
          else if br_status b = 3 then do {
            e \<leftarrow> activateSubscriptionFromPayment po (br_transaction b) (br_invoice b);
            if e \<noteq> None then ret e else commit_result
          }
          else ret (Some PaymentInvalid)
        })
   }"

definition applyOBankResult :: "app_state \<Rightarrow> bank_result \<Rightarrow> (world, pay_error option) state" where
  "applyOBankResult A b =
     (if br_order b = [] \<or> br_transaction b = [] \<or> br_amount b \<le> 0 \<or> br_currency b \<noteq> ''KGS''
      then ret (Some PaymentInvalid)
      else do {
        ok \<leftarrow> tx_begin;
        if \<not> ok then ret (Some PayOther) else defer_rollback (applyTx A b)
      })"

definition markSubscriptionPaymentPaid ::
  "app_state \<Rightarrow> string \<Rightarrow> string \<Rightarrow> int \<Rightarrow> string \<Rightarrow> (world, pay_error option) state" where
  "markSubscriptionPaymentPaid A i tn amount iv =
     applyOBankResult A \<lparr>br_transaction = tn, br_status = 3, br_site = ob_sid (st_obank A), br_order = i,
       br_amount = amount, br_currency = ''KGS'', br_test = configuredOBankTestFlag A, br_invoice = iv\<rparr>"

definition updateSubscriptionPaymentStatus :: "string \<Rightarrow> string \<Rightarrow> (world, pay_error option) state" where
  "updateSubscriptionPaymentStatus i st =
     (if st \<noteq> ''processing'' \<and> st \<noteq> ''canceled'' then ret (Some CheckoutState)
      else do {
        r \<leftarrow> stmt Pool (upd_order_status i st);
        ret (if r = SqlErr then Some PayOther else None)
      })"

datatype callback_payload = ResultOk

text \<open>
  \<open>OBankResult\<close>: \<open>body\<close> is \<open>None\<close> when the body cannot be read, else the first JSON value of it, if any.
\<close>

definition OBankResult :: "app_state \<Rightarrow> bank \<Rightarrow> raw option option \<Rightarrow> callback_payload handler" where
  "OBankResult A B body r =
     (if rq_method r \<noteq> ''POST'' then methodNotAllowed
      else if \<not> ob_enabled (st_obank A) \<or> ob_password (st_obank A) = []
      then fail 503 ''O!Dengi result processing is not configured''
      else if \<not> st_db A then dbNotAvailable
      else (case body of
         None \<Rightarrow> fail 400 ''invalid O!Dengi result payload''
       | Some j \<Rightarrow> (case VerifyResult B j (ob_password (st_obank A)) of
             None \<Rightarrow> fail 401 ''invalid O!Dengi result''
           | Some b \<Rightarrow>
               if br_site b \<noteq> ob_sid (st_obank A) \<or> br_test b \<noteq> configuredOBankTestFlag A
               then fail 401 ''O!Dengi result does not match merchant configuration''
               else do {
                 e \<leftarrow> applyOBankResult A b;
                 (case e of
                    None \<Rightarrow> reply 200 ResultOk
                  | Some x \<Rightarrow>
                      if x = PaymentMissing then fail 404 ''payment order not found''
                      else if x = PaymentInvalid then fail 422 ''O!Dengi result does not match payment order''
                      else fail 503 ''could not process O!Dengi result'')
               })))"

section \<open>Invoices\<close>

definition billingPeriodRussian :: "string \<Rightarrow> string" where
  "billingPeriodRussian period = (if period = ''year''
     then [CHR 0x31, CHR 0x20, CHR 0xD0, CHR 0xB3, CHR 0xD0, CHR 0xBE, CHR 0xD0, CHR 0xB4]
     else [CHR 0x31, CHR 0x20, CHR 0xD0, CHR 0xBC, CHR 0xD0, CHR 0xB5, CHR 0xD1, CHR 0x81, CHR 0xD1, CHR 0x8F, CHR 0xD1, CHR 0x86])"

text \<open>\<open>Format("2006-01-02 15:04:05")\<close>\<close>

definition format_datetime :: "time \<Rightarrow> string" where
  "format_datetime t = (case civil (t div day) of (y, m, d) \<Rightarrow>
     pad_nat 4 (nat y) @ ''-'' @ pad_nat 2 (nat m) @ ''-'' @ pad_nat 2 (nat d) @ '' ''
     @ pad_nat 2 (nat (t mod day div hour)) @ '':'' @ pad_nat 2 (nat (t mod hour div minute)) @ '':''
     @ pad_nat 2 (nat (t mod minute div second)))"

text \<open>
  \<open>createOBankInvoice\<close>. Of the request the model keeps the fields that depend on the order and the
  clock; the return URLs only matter in that an unusable base URL is an error.
\<close>

definition createOBankInvoice :: "app_state \<Rightarrow> bank \<Rightarrow> payment_order \<Rightarrow> (world, invoice option) state" where
  "createOBankInvoice A B po = do {
     t \<leftarrow> read_now;
     ret (case planByCode (po_plan po) of
        None \<Rightarrow> None
      | Some plan \<Rightarrow>
          if url_parse (ob_return_url (st_obank A)) = None then None
          else CreateInvoice B (st_obank A) t
            \<lparr>ir_order = po_id po, ir_desc = ''STROY: '' @ pl_name plan @ '', '' @ billingPeriodRussian (po_period po),
             ir_amount = po_kopecks po, ir_currency = po_currency po, ir_test = configuredOBankTestFlag A,
             ir_date_life = format_datetime (t + 24 * hour + 6 * hour)\<rparr>)
   }"

definition saveOBankInvoice :: "string \<Rightarrow> invoice \<Rightarrow> (world, pay_error option) state" where
  "saveOBankInvoice i v = do {
     r \<leftarrow> stmt Pool (upd_invoice i v);
     ret (case r of Row n \<Rightarrow> if n \<noteq> 1 then Some CheckoutState else None
          | NoRows \<Rightarrow> Some PayOther | SqlErr \<Rightarrow> Some PayOther)
   }"

section \<open>Handlers\<close>

record checkout_dto =
  cd_order :: string
  cd_status :: string
  cd_plan :: string
  cd_period :: string
  cd_kgs :: int
  cd_currency :: string
  cd_url :: string
  cd_app_link :: string
  cd_created :: time
  cd_paid :: "time option"

datatype checkout_payload = Checkout checkout_dto

definition checkout_response :: "payment_order \<Rightarrow> checkout_payload" where
  "checkout_response po = Checkout \<lparr>cd_order = po_id po, cd_status = po_status po, cd_plan = po_plan po,
     cd_period = po_period po, cd_kgs = po_kgs po, cd_currency = po_currency po, cd_url = po_url po,
     cd_app_link = (if po_status po = ''pending'' \<or> po_status po = ''processing'' then po_app_link po else []),
     cd_created = po_created po, cd_paid = po_paid po\<rparr>"

definition claimOBankStatusCheck :: "string \<Rightarrow> (world, bool) state" where
  "claimOBankStatusCheck i = do {
     r \<leftarrow> stmt Pool (upd_claim i);
     ret (r = Row 1)
   }"

text \<open>The reconciliation of an open order with the bank inside \<open>getSubscriptionCheckout\<close>.\<close>

definition reconcile :: "app_state \<Rightarrow> bank \<Rightarrow> payment_order \<Rightarrow> (world, unit) state" where
  "reconcile A B po = do {
     t \<leftarrow> read_now;
     (case GetStatus B (st_obank A) t (po_invoice po) (po_id po) of
        None \<Rightarrow> ret ()
      | Some st \<Rightarrow>
          if ps_status st = ''approved'' then
            (if ps_amount st = po_kopecks po \<and> ps_transaction st \<noteq> [] then do {
               e \<leftarrow> markSubscriptionPaymentPaid A (po_id po) (ps_transaction st) (ps_amount st) (po_invoice po);
               ret ()
             } else ret ())
          else if ps_status st = ''processing'' then do {
            e \<leftarrow> updateSubscriptionPaymentStatus (po_id po) ''processing''; ret () }
          else if ps_status st = ''canceled'' \<or> ps_status st = ''cancelled'' then do {
            e \<leftarrow> updateSubscriptionPaymentStatus (po_id po) ''canceled''; ret () }
          else ret ())
   }"

definition getSubscriptionCheckout :: "app_state \<Rightarrow> bank \<Rightarrow> checkout_payload handler" where
  "getSubscriptionCheckout A B r =
     (if \<not> ob_enabled (st_obank A) then fail 503 ''O!Dengi checkout is not configured''
      else if \<not> st_db A then dbNotAvailable
      else do {
        let u = userIDFromContext r;
        allowed \<leftarrow> isAllowedProductionOBankTestUser A u;
        if \<not> allowed then denyNonTestOBankAccount
        else let i = trim_space (get_first (rq_query r) ''order_id'') in
          if i = [] \<or> 64 < length i then fail 400 ''invalid order ID''
          else do {
            o1 \<leftarrow> sel Pool (sel_user_order u i);
            (case o1 of
               NoRows \<Rightarrow> fail 404 ''payment order not found''
             | SqlErr \<Rightarrow> fail 503 ''could not load payment status''
             | Row po \<Rightarrow> do {
                 c \<leftarrow> (if open_status (po_status po) \<and> po_invoice po \<noteq> [] then claimOBankStatusCheck (po_id po) else ret False);
                 x \<leftarrow> (if c then reconcile A B po else ret ());
                 o2 \<leftarrow> sel Pool (sel_user_order u i);
                 (case o2 of
                    NoRows \<Rightarrow> fail 503 ''could not load payment status''
                  | SqlErr \<Rightarrow> fail 503 ''could not load payment status''
                  | Row po' \<Rightarrow> reply 200 (checkout_response po'))
               })
          }
      })"

text \<open>\<open>DisallowUnknownFields\<close>: every key has to be one of the fields.\<close>

definition decode_checkout :: "request \<Rightarrow> checkout_request option" where
  "decode_checkout r = Option.bind (decode_body r) (\<lambda>fs.
     if list_all (\<lambda>(k, _). fold_key k \<in> {''plan_id'', ''billing_period'', ''idempotency_key''}) fs then
       (case (str_field fs ''plan_id'', str_field fs ''billing_period'', str_field fs ''idempotency_key'') of
          (Some p, Some b, Some k) \<Rightarrow>
            Some \<lparr>cr_plan = trim_space p, cr_period = trim_space b, cr_key = trim_space k\<rparr>
        | _ \<Rightarrow> None)
     else None)"

definition checkout_with_order :: "app_state \<Rightarrow> bank \<Rightarrow> payment_order \<Rightarrow> (world, checkout_payload resp) state" where
  "checkout_with_order A B po =
     (if po_status po = ''paid'' then reply 200 (checkout_response po)
      else if po_status po = ''canceled'' then fail 409 ''this checkout was canceled; start a new checkout''
      else if po_url po = [] then do {
        v \<leftarrow> createOBankInvoice A B po;
        (case v of
           None \<Rightarrow> fail 502 ''the bank could not create a payment invoice; retry this checkout''
         | Some iv \<Rightarrow> do {
             e \<leftarrow> saveOBankInvoice (po_id po) iv;
             if e \<noteq> None then fail 503 ''the payment invoice could not be saved''
             else reply 201 (checkout_response
               (po\<lparr>po_invoice := inv_id iv, po_url := inv_url iv, po_app_link := inv_app_link iv\<rparr>))
           })
      }
      else reply 201 (checkout_response po))"

definition postSubscriptionCheckout :: "app_state \<Rightarrow> bank \<Rightarrow> checkout_payload handler" where
  "postSubscriptionCheckout A B r =
     (if \<not> ob_enabled (st_obank A) then fail 503 ''O!Dengi checkout is not configured''
      else if \<not> st_db A then dbNotAvailable
      else do {
        let u = userIDFromContext r;
        allowed \<leftarrow> isAllowedProductionOBankTestUser A u;
        if \<not> allowed then denyNonTestOBankAccount
        else (case decode_checkout r of
           None \<Rightarrow> fail 400 ''invalid checkout request''
         | Some q \<Rightarrow>
             if length (cr_key q) < 16 \<or> 64 < length (cr_key q) \<or> \<not> safeIdempotencyKey (cr_key q)
             then fail 400 ''invalid idempotency key''
             else (case planByCode (cr_plan q) of
                None \<Rightarrow> fail 400 ''select a paid subscription plan''
              | Some plan \<Rightarrow>
                  if pl_id plan = ''trial'' then fail 400 ''select a paid subscription plan''
                  else if productionOBankSandboxMode A \<and> (pl_id plan \<noteq> ''standard'' \<or> cr_period q \<noteq> ''month'')
                  then fail 400 ''production sandbox checkout is limited to the standard monthly plan''
                  else (case planPrice A plan (cr_period q) of
                     None \<Rightarrow> fail 400 ''invalid subscription price''
                   | Some price \<Rightarrow>
                       if price \<le> 0 \<or> (2 ^ 63 - 1) div 100 < price then fail 400 ''invalid subscription price''
                       else do {
                         let kgs = (if productionOBankSandboxMode A then ob_test_price (st_obank A) else price);
                         o1 \<leftarrow> reserveSubscriptionCheckout u q kgs;
                         (case o1 of
                            Inl e \<Rightarrow>
                              if e = CheckoutExists
                              then fail 409 ''finish or wait for the existing payment before selecting another plan''
                              else if e = CheckoutState
                              then fail 409 ''this checkout is no longer payable; start a new checkout''
                              else fail 500 ''could not start checkout''
                          | Inr po \<Rightarrow> checkout_with_order A B po)
                       })))
      })"

definition SubscriptionCheckout :: "app_state \<Rightarrow> bank \<Rightarrow> checkout_payload handler" where
  "SubscriptionCheckout A B r =
     (if rq_method r = ''GET'' then getSubscriptionCheckout A B r
      else if rq_method r \<noteq> ''POST'' then methodNotAllowed
      else postSubscriptionCheckout A B r)"

end
