(* ===== verification/Checkout_Facts.thy ===== *)
theory Checkout_Facts
  imports Checkout
begin

text \<open>
  The payment orders as an abstract ledger: what was ordered never changes, the phase of an order
  moves along a small automaton, and a plan is granted only together with a move to \<open>Paid\<close>. Every
  operation of \<open>Checkout\<close> refines it.
\<close>

section \<open>The ledger\<close>

record purchase =
  pu_user :: uuid
  pu_plan :: string
  pu_period :: string
  pu_amount :: int

datatype phase = Pending | Processing | Paid | Canceled

definition phase_of :: "string \<Rightarrow> phase" where
  "phase_of s = (if s = ''paid'' then Paid else if s = ''processing'' then Processing
     else if s = ''canceled'' then Canceled else Pending)"

type_synonym ledger_map = "string \<Rightarrow> (purchase \<times> phase) option"

fun may_become :: "phase \<Rightarrow> phase \<Rightarrow> bool" where
  "may_become Pending s = (s \<noteq> Pending)"
| "may_become Processing s = (s \<noteq> Pending)"
| "may_become Canceled s = (s = Canceled)"
| "may_become Paid s = False"

inductive ledger_step :: "ledger_map \<Rightarrow> ledger_map \<Rightarrow> bool" where
  stay: "ledger_step L L"
| create: "L i = None \<Longrightarrow> 0 < pu_amount p \<Longrightarrow> ledger_step L (L(i \<mapsto> (p, Pending)))"
| move: "L i = Some (p, s) \<Longrightarrow> may_become s s' \<Longrightarrow> ledger_step L (L(i \<mapsto> (p, s')))"

definition purchase_of :: "order_row \<Rightarrow> purchase" where
  "purchase_of x = \<lparr>pu_user = o_user x, pu_plan = o_plan x, pu_period = o_period x, pu_amount = o_kopecks x\<rparr>"

definition ledger :: "db \<Rightarrow> ledger_map" where
  "ledger d i = map_option (\<lambda>x. (purchase_of x, phase_of (o_status x))) (order_by_id d i)"

lemma ledger_step_keeps:
  assumes "ledger_step L L'" "L i = Some (p, s)"
  shows "\<exists>s'. L' i = Some (p, s') \<and> (s' = s \<or> may_become s s')"
  using assms by (cases rule: ledger_step.cases) (auto split: if_splits)

lemma ledger_steps_keep:
  assumes "ledger_step\<^sup>*\<^sup>* L L'" "L i = Some (p, s)"
  shows "\<exists>s'. L' i = Some (p, s') \<and> (s' = s \<or> may_become s s')"
  using assms
proof (induction rule: rtranclp_induct)
  case (step M M')
  then obtain s1 where s1: "M i = Some (p, s1)" "s1 = s \<or> may_become s s1" by auto
  obtain s2 where "M' i = Some (p, s2)" "s2 = s1 \<or> may_become s1 s2"
    using ledger_step_keeps [OF step.hyps(2) s1(1)] by auto
  then show ?case using s1(2) by (cases s; cases s1; cases s2) auto
qed simp

section \<open>Consistent orders\<close>

text \<open>The links shown to a payer lead to the bank; an app link is for the stored invoice.\<close>

definition links_ok :: "order_row \<Rightarrow> bool" where
  "links_ok x \<longleftrightarrow> (or_empty (o_url x) = [] \<or> validatePaymentURL (or_empty (o_url x)))
     \<and> (or_empty (o_app_link x) = [] \<or> validateAppLink (or_empty (o_app_link x)) (or_empty (o_invoice x)))"

definition valid_order :: "order_row \<Rightarrow> bool" where
  "valid_order x \<longleftrightarrow> (o_plan x = ''standard'' \<or> o_plan x = ''max'') \<and> (o_period x = ''month'' \<or> o_period x = ''year'')
     \<and> 0 < o_kgs x \<and> o_kopecks x = o_kgs x * 100 \<and> o_currency x = ''KGS''
     \<and> o_status x \<in> {''pending'', ''processing'', ''paid'', ''canceled''}
     \<and> (o_status x = ''paid'' \<longleftrightarrow> o_paid x \<noteq> None) \<and> (o_status x = ''paid'' \<longrightarrow> or_empty (o_transaction x) \<noteq> []) \<and> links_ok x"

lemma links_ok_keep:
  "links_ok x \<Longrightarrow> links_ok (x\<lparr>o_status := st, o_invoice := keep_or (o_invoice x) iv, o_transaction := tn, o_updated := t\<rparr>)"
  "links_ok x \<Longrightarrow> links_ok (x\<lparr>o_status := st, o_invoice := keep_or (o_invoice x) iv, o_transaction := tn, o_paid := p, o_updated := t\<rparr>)"
  by (auto simp: links_ok_def keep_or_def validateAppLink_def split: option.splits)

lemma links_ok_frame [simp]:
  "links_ok (x\<lparr>o_checked := c\<rparr>) = links_ok x" "links_ok (x\<lparr>o_status := st, o_updated := t\<rparr>) = links_ok x"
  by (simp_all add: links_ok_def)

definition orders_ok :: "db \<Rightarrow> bool" where
  "orders_ok d \<longleftrightarrow> distinct (map o_id (orders d)) \<and> distinct (map (\<lambda>x. (o_user x, o_key x)) (orders d))
     \<and> order_keys_ok (orders d) \<and> (\<forall>x\<in>set (orders d). valid_order x)"

definition entitlement :: "db \<Rightarrow> uuid \<Rightarrow> (string \<times> time option) option" where
  "entitlement d u = map_option (\<lambda>s. (s_plan s, s_period_end s)) (subscription_of d u)"

text \<open>When the paid period of an account starts: at the end of a running paid period, else now.\<close>

definition period_start :: "time \<Rightarrow> db \<Rightarrow> uuid \<Rightarrow> time" where
  "period_start t d u = (case subscription_of d u of
     Some s \<Rightarrow> (if s_status s = ''active'' then (case s_period_end s of Some e \<Rightarrow> max t e | None \<Rightarrow> t) else t)
   | None \<Rightarrow> t)"

text \<open>
  Plans change hands only so: a new trial, or the order that becomes paid in this very step grants
  its plan to its account until one period after the start above.
\<close>

definition granted :: "time \<Rightarrow> db \<Rightarrow> db \<Rightarrow> bool" where
  "granted t d d' \<longleftrightarrow> (\<forall>u. entitlement d' u \<noteq> entitlement d u \<longrightarrow>
     (entitlement d u = None \<and> entitlement d' u = Some (''trial'', None))
     \<or> (\<exists>i p s. ledger d i = Some (p, s) \<and> s \<noteq> Paid \<and> s \<noteq> Canceled \<and> ledger d' i = Some (p, Paid) \<and> pu_user p = u
          \<and> entitlement d' u = Some (pu_plan p, Some (addSubscriptionPeriod (period_start t d u) (pu_period p)))))"

text \<open>The open orders of an account that are younger than a day.\<close>

definition open_order :: "time \<Rightarrow> uuid \<Rightarrow> order_row \<Rightarrow> bool" where
  "open_order t u x \<longleftrightarrow> o_user x = u \<and> open_status (o_status x) \<and> t - 24 * hour < o_created x"

definition open_count :: "time \<Rightarrow> db \<Rightarrow> uuid \<Rightarrow> nat" where
  "open_count t d u = count_where (open_order t u) (orders d)"

definition pay_change :: "time \<Rightarrow> db \<Rightarrow> db \<Rightarrow> bool" where
  "pay_change t d d' \<longleftrightarrow> d' = d\<lparr>orders := orders d', subscriptions := subscriptions d'\<rparr> \<and> orders_ok d'
     \<and> ledger_step (ledger d) (ledger d') \<and> granted t d d'
     \<and> (\<forall>u. open_count t d' u \<le> max 1 (open_count t d u))"

text \<open>A change that the ledger does not see.\<close>

definition quiet :: "db \<Rightarrow> db \<Rightarrow> bool" where
  "quiet d d' \<longleftrightarrow> d' = d\<lparr>orders := orders d'\<rparr> \<and> orders_ok d' \<and> ledger d' = ledger d
     \<and> (\<forall>t. open_count t d' = open_count t d)"

lemma quiet_refl: "orders_ok d \<Longrightarrow> quiet d d" by (simp add: quiet_def)

lemma quiet_subscriptions: "quiet d d' \<Longrightarrow> subscriptions d' = subscriptions d"
  unfolding quiet_def by (metis (no_types, lifting) db.ext_inject db.surjective db.update_convs(18))

lemma quiet_frame:
  assumes "quiet d d'" shows "entitlement d' = entitlement d" "period_start t d' = period_start t d"
  using quiet_subscriptions [OF assms]
  by (auto simp: entitlement_def period_start_def subscription_of_def fun_eq_iff)

lemma quiet_change: "quiet d d' \<Longrightarrow> pay_change t d d'"
  using quiet_subscriptions [of d d'] quiet_frame(1) [of d d']
  by (auto simp: pay_change_def quiet_def granted_def intro: ledger_step.stay)

lemma change_after_quiet:
  assumes "quiet d d1" "pay_change t d1 d2" shows "pay_change t d d2"
proof -
  have d1: "d1 = d\<lparr>orders := orders d1\<rparr>" using assms(1) by (simp add: quiet_def)
  have d2: "d2 = d1\<lparr>orders := orders d2, subscriptions := subscriptions d2\<rparr>"
    using assms(2) unfolding pay_change_def by (rule conjunct1)
  have "d2 = d\<lparr>orders := orders d2, subscriptions := subscriptions d2\<rparr>"
    by (subst d2, subst d1) simp
  moreover have "ledger d1 = ledger d" using assms(1) by (simp add: quiet_def)
  moreover have "open_count t d1 = open_count t d" using assms(1) by (simp add: quiet_def)
  ultimately show ?thesis
    using assms(2) quiet_frame [OF assms(1)] by (simp add: pay_change_def granted_def)
qed

lemma quiet_after_change:
  assumes "pay_change t d d1" "quiet d1 d2" shows "pay_change t d d2"
proof -
  have d1: "d1 = d\<lparr>orders := orders d1, subscriptions := subscriptions d1\<rparr>"
    using assms(1) unfolding pay_change_def by (rule conjunct1)
  have d2: "d2 = d1\<lparr>orders := orders d2\<rparr>" using assms(2) unfolding quiet_def by (rule conjunct1)
  have "d2 = d\<lparr>orders := orders d2, subscriptions := subscriptions d1\<rparr>"
    by (subst d2, subst d1) simp
  then have "d2 = d\<lparr>orders := orders d2, subscriptions := subscriptions d2\<rparr>"
    using quiet_subscriptions [OF assms(2)] by simp
  moreover have "ledger d2 = ledger d1" "orders_ok d2" "open_count t d2 = open_count t d1"
    using assms(2) by (simp_all add: quiet_def)
  ultimately show ?thesis
    using assms(1) quiet_frame [OF assms(2)] by (simp add: pay_change_def granted_def)
qed

section \<open>Statements\<close>

lemma order_by_id_Some: "order_by_id d i = Some x \<Longrightarrow> x \<in> set (orders d) \<and> o_id x = i"
  by (auto simp: order_by_id_def find_Some_iff)

lemma order_by_id_mem:
  assumes "orders_ok d" "x \<in> set (orders d)" shows "order_by_id d (o_id x) = Some x"
proof -
  have "distinct (map o_id xs) \<Longrightarrow> x \<in> set xs \<Longrightarrow> find (\<lambda>y. o_id y = o_id x) xs = Some x" for xs
    by (induction xs) auto
  then show ?thesis using assms by (auto simp: order_by_id_def orders_ok_def)
qed

lemma upd_orders_Row:
  assumes "upd_orders p f t d = (r, d')" "r \<noteq> SqlErr"
  shows "r = Row (count_where p (orders d))" "d' = d\<lparr>orders := upd_where p f (orders d)\<rparr>"
    "order_keys_ok (upd_where p f (orders d))"
  using assms by (auto simp: upd_orders_def Let_def split: if_splits)

text \<open>An update that keeps what was ordered.\<close>

definition keeps_purchase :: "(order_row \<Rightarrow> order_row) \<Rightarrow> bool" where
  "keeps_purchase f \<longleftrightarrow> (\<forall>x. o_id (f x) = o_id x \<and> o_key (f x) = o_key x \<and> o_created (f x) = o_created x \<and> purchase_of (f x) = purchase_of x)"

lemma keeps_purchase_user: "keeps_purchase f \<Longrightarrow> o_user (f x) = o_user x"
  unfolding keeps_purchase_def purchase_of_def by (metis purchase.ext_inject)

lemma upd_orders_ok:
  assumes "orders_ok d" "upd_orders p f t d = (r, d')" "r \<noteq> SqlErr" "keeps_purchase f"
    and valid: "\<And>x. x \<in> set (orders d) \<Longrightarrow> p x \<Longrightarrow> valid_order x \<Longrightarrow> valid_order (f x)"
  shows "orders_ok d'"
proof -
  note u = upd_orders_Row [OF assms(2,3)]
  have "map o_id (orders d') = map o_id (orders d)" "map (\<lambda>x. (o_user x, o_key x)) (orders d') = map (\<lambda>x. (o_user x, o_key x)) (orders d)"
    unfolding u(2) using assms(4) keeps_purchase_user [OF assms(4)]
    by (auto simp: upd_where_def keeps_purchase_def)
  then show ?thesis
    using assms(1) u(3) valid unfolding orders_ok_def by (auto simp: u(2) set_upd_where)
qed

lemma order_by_id_upd:
  assumes "upd_orders p f t d = (r, d')" "r \<noteq> SqlErr" "keeps_purchase f"
  shows "order_by_id d' i = map_option (\<lambda>x. if p x then f x else x) (order_by_id d i)"
  using upd_orders_Row(2) [OF assms(1,2)] assms(3)
  by (simp add: order_by_id_def find_upd_where keeps_purchase_def)

lemma upd_orders_quiet:
  assumes "orders_ok d" "upd_orders p f t d = (r, d')" "r \<noteq> SqlErr" "keeps_purchase f"
    and same: "\<And>x. o_status (f x) = o_status x" "\<And>x. valid_order x \<Longrightarrow> valid_order (f x)"
  shows "quiet d d'"
proof -
  have "ledger d' = ledger d"
    using assms(4) by (auto simp: fun_eq_iff ledger_def order_by_id_upd [OF assms(2-4)] same keeps_purchase_def option.map_comp
        intro!: map_option_cong)
  moreover have "orders_ok d'" by (rule upd_orders_ok [OF assms(1-4)]) (simp add: same)
  moreover have "open_count t d' u = open_count t d u" for t u
    unfolding open_count_def upd_orders_Row(2) [OF assms(2,3)] using assms(4) keeps_purchase_user [OF assms(4)]
    by (auto simp: count_where_upd_where open_order_def same keeps_purchase_def intro!: count_where_cong)
  ultimately show ?thesis by (simp add: quiet_def upd_orders_Row(2) [OF assms(2,3)] fun_eq_iff)
qed

lemma upd_orders_open_count:
  assumes "upd_orders p f t d = (r, d')" "r \<noteq> SqlErr" "keeps_purchase f"
    and "\<And>x. x \<in> set (orders d) \<Longrightarrow> p x \<Longrightarrow> open_status (o_status (f x)) \<Longrightarrow> open_status (o_status x)"
  shows "open_count t' d' u \<le> open_count t' d u"
  unfolding open_count_def upd_orders_Row(2) [OF assms(1,2)] using assms(3,4) keeps_purchase_user [OF assms(3)]
  by (auto simp: open_order_def keeps_purchase_def intro!: count_where_upd_mono)

text \<open>A change of the phase of one order.\<close>

lemma upd_orders_phase:
  assumes "orders_ok d" "upd_orders p f t d = (r, d')" "r \<noteq> SqlErr" "keeps_purchase f"
    and one: "\<And>x. x \<in> set (orders d) \<Longrightarrow> p x \<Longrightarrow> o_id x = i \<and> may_become (phase_of (o_status x)) s"
    and st: "\<And>x. phase_of (o_status (f x)) = s"
  shows "ledger_step (ledger d) (ledger d')"
    "\<And>x. order_by_id d i = Some x \<Longrightarrow> p x \<Longrightarrow> ledger d' = (ledger d)(i \<mapsto> (purchase_of x, s))"
proof -
  have other: "ledger d' j = ledger d j" if "\<forall>x. order_by_id d j = Some x \<longrightarrow> \<not> p x" for j
    using that by (auto simp: ledger_def order_by_id_upd [OF assms(2-4)] option.map_comp intro!: map_option_cong)
  show moved: "ledger d' = (ledger d)(i \<mapsto> (purchase_of x, s))" if "order_by_id d i = Some x" "p x" for x
  proof
    fix j
    show "ledger d' j = ((ledger d)(i \<mapsto> (purchase_of x, s))) j"
    proof (cases "j = i")
      case True
      then show ?thesis using that assms(4)
        by (simp add: ledger_def order_by_id_upd [OF assms(2-4)] st keeps_purchase_def)
    next
      case False
      have "\<not> p y" if "order_by_id d j = Some y" for y
        using that one [of y] order_by_id_Some [of d j y] False by auto
      then show ?thesis using False by (simp add: other)
    qed
  qed
  show "ledger_step (ledger d) (ledger d')"
  proof (cases "\<exists>x. order_by_id d i = Some x \<and> p x")
    case True
    then obtain x where x: "order_by_id d i = Some x" "p x" by blast
    then have "ledger d i = Some (purchase_of x, phase_of (o_status x))" by (simp add: ledger_def)
    then show ?thesis unfolding moved [OF x] using one [of x] x order_by_id_Some [of d i x]
      by (intro ledger_step.move) auto
  next
    case False
    have "ledger d' j = ledger d j" for j
      using False one order_by_id_Some by (metis other)
    then have "ledger d' = ledger d" by (simp add: fun_eq_iff)
    then show ?thesis by (simp add: ledger_step.stay)
  qed
qed

section \<open>Granting a plan\<close>

lemma subscription_of_upd_activate:
  "subscription_of (upd_activate u plan period start fin t d) v =
     map_option (\<lambda>s. if s_user s = u then s\<lparr>s_plan := plan, s_status := ''active'', s_period := period,
       s_started := start, s_period_end := Some fin, s_updated := t\<rparr> else s) (subscription_of d v)"
  by (simp add: subscription_of_def upd_activate_def find_upd_where)

lemma subscription_of_user: "subscription_of d u = Some s \<Longrightarrow> s_user s = u"
  by (auto simp: subscription_of_def find_Some_iff)

lemma subscription_of_ins_trial:
  "subscription_of (ins_trial u t d) v = (case subscription_of d v of Some s \<Rightarrow> Some s | None \<Rightarrow>
     if v = u then (case user_by_id d u of None \<Rightarrow> None | Some x \<Rightarrow>
       Some \<lparr>s_user = u, s_plan = ''trial'', s_status = ''trialing'', s_period = ''month'',
            s_started = u_created x, s_trial_ends = u_created x + 30 * day,
            s_period_end = None, s_updated = t\<rparr>) else None)"
  by (cases "subscription_of d u"; cases "user_by_id d u"; cases "v = u")
    (auto simp: ins_trial_def subscription_of_def find_append split: option.splits)

lemma sub_ensure_entitlement:
  assumes "sub_ensure t u d = Some (s, d1)"
  shows "orders d1 = orders d" "users d1 = users d"
    "\<And>v. entitlement d1 v \<noteq> entitlement d v \<Longrightarrow> entitlement d v = None \<and> entitlement d1 v = Some (''trial'', None)"
proof -
  have d1: "d1 = ins_trial u t d \<or> d1 = upd_expire u t (ins_trial u t d)"
    using assms by (auto simp: sub_ensure_def Let_def split: option.splits if_splits)
  obtain ss where "d1 = d\<lparr>subscriptions := ss\<rparr>" using sub_ensure_frame [OF assms] by blast
  then show "orders d1 = orders d" "users d1 = users d" by simp_all
  have e: "entitlement (upd_expire u t d0) v = entitlement d0 v" for d0 v
    by (auto simp: entitlement_def subscription_of_upd_expire option.map_comp intro!: map_option_cong)
  show "entitlement d1 v \<noteq> entitlement d v \<Longrightarrow> entitlement d v = None \<and> entitlement d1 v = Some (''trial'', None)" for v
    using d1 by (auto simp: e) (auto simp: entitlement_def subscription_of_ins_trial split: option.splits if_splits)
qed

lemma ledger_cong: "orders d1 = orders d \<Longrightarrow> ledger d1 = ledger d"
  by (simp add: fun_eq_iff ledger_def order_by_id_def)

lemma open_count_cong: "orders d1 = orders d \<Longrightarrow> open_count t d1 = open_count t d"
  by (simp add: fun_eq_iff open_count_def)

lemma orders_ok_cong: "orders d1 = orders d \<Longrightarrow> orders_ok d1 = orders_ok d"
  by (simp add: orders_ok_def)

lemma ensure_change:
  assumes "orders_ok d" "sub_ensure t u d = Some (s, d1)" shows "pay_change t d d1"
proof -
  obtain ss where "d1 = d\<lparr>subscriptions := ss\<rparr>" using sub_ensure_frame [OF assms(2)] by blast
  then have "d1 = d\<lparr>orders := orders d1, subscriptions := subscriptions d1\<rparr>" by simp
  then show ?thesis
    using sub_ensure_entitlement [OF assms(2)] assms(1) ledger_cong [of d1 d] orders_ok_cong [of d1 d] open_count_cong [of d1 d t]
    unfolding pay_change_def granted_def by (auto intro: ledger_step.stay)
qed

lemma period_start_ensure:
  assumes "sub_ensure t u d = Some (s, d1)"
  shows "(if ss_status s = ''active'' then (case ss_period_end s of None \<Rightarrow> t | Some e \<Rightarrow> if t < e then e else t) else t)
    = period_start t d u"
proof -
  let ?d = "ins_trial u t d"
  have p: "period_start t ?d u = period_start t d u"
    by (auto simp: period_start_def subscription_of_ins_trial split: option.splits)
  obtain r p where r: "subscription_of ?d u = Some r" "planByCode (s_plan r) = Some p"
    using assms by (auto simp: sub_ensure_def Let_def split: option.splits)
  have s: "s = (if sub_is_expired t r then (state_of_row p r)\<lparr>ss_status := ''expired''\<rparr> else state_of_row p r)"
    using assms r by (auto simp: sub_ensure_def Let_def split: if_splits)
  show ?thesis unfolding p [symmetric]
    by (auto simp: s r(1) state_of_row_def period_start_def sub_is_expired_def max_def split: option.splits)
qed

definition pays :: "time \<Rightarrow> db \<Rightarrow> db \<Rightarrow> order_row \<Rightarrow> bool" where
  "pays t d d' x \<longleftrightarrow> map_option (\<lambda>s. (s_plan s, s_status s, s_period s, s_period_end s)) (subscription_of d' (o_user x))
     = Some (o_plan x, ''active'', o_period x, Some (addSubscriptionPeriod (period_start t d (o_user x)) (o_period x)))"

lemma entitlement_upd_activate:
  "entitlement (upd_activate u plan period start fin t d) v =
     (if v = u \<and> subscription_of d u \<noteq> None then Some (plan, Some fin) else entitlement d v)"
  using subscription_of_user [of d v]
  by (cases "subscription_of d v") (auto simp: entitlement_def subscription_of_upd_activate)

lemma entitlement_cong: "subscriptions d' = subscriptions d \<Longrightarrow> entitlement d' = entitlement d"
  by (simp add: fun_eq_iff entitlement_def subscription_of_def)

lemma upd_paid_Row1:
  assumes "orders_ok d" "upd_paid i iv tn t d = (Row 1, d')"
  obtains x where "order_by_id d i = Some x" "open_status (o_status x)"
    "order_by_id d' i = Some (x\<lparr>o_status := ''paid'', o_invoice := keep_or (o_invoice x) iv, o_transaction := Some tn,
       o_paid := Some t, o_updated := t\<rparr>)"
    "ledger d' = (ledger d)(i \<mapsto> (purchase_of x, Paid))" "ledger_step (ledger d) (ledger d')"
    "subscriptions d' = subscriptions d" "d' = d\<lparr>orders := orders d'\<rparr>" "\<And>t u. open_count t d' u \<le> open_count t d u"
proof -
  let ?p = "\<lambda>x. o_id x = i \<and> open_status (o_status x)"
  let ?f = "\<lambda>x. x\<lparr>o_status := ''paid'', o_invoice := keep_or (o_invoice x) iv, o_transaction := Some tn,
       o_paid := Some t, o_updated := t\<rparr>"
  have u: "upd_orders ?p ?f t d = (Row 1, d')" using assms(2) by (simp add: upd_paid_def)
  have k: "keeps_purchase ?f" by (simp add: keeps_purchase_def purchase_of_def)
  have "count_where ?p (orders d) \<noteq> 0" using upd_orders_Row(1) [OF u] by simp
  then obtain x where x: "x \<in> set (orders d)" "?p x" unfolding count_where_zero by blast
  then have xi: "order_by_id d i = Some x" using order_by_id_mem [OF assms(1)] by blast
  have one: "o_id y = i \<and> may_become (phase_of (o_status y)) Paid" if "?p y" for y
    using that by (auto simp: open_status_def phase_of_def)
  have l: "ledger_step (ledger d) (ledger d')"
    by (rule upd_orders_phase(1) [OF assms(1) u _ k one]) (simp_all add: phase_of_def)
  have l2: "ledger d' = (ledger d)(i \<mapsto> (purchase_of x, Paid))"
    by (rule upd_orders_phase(2) [OF assms(1) u _ k one _ xi x(2)]) (simp_all add: phase_of_def)
  have cnt: "open_count t' d' v \<le> open_count t' d v" for t' v
    by (rule upd_orders_open_count [OF u _ k]) (simp_all add: open_status_def)
  show ?thesis
  proof (rule that [OF xi])
    show "order_by_id d' i = Some (?f x)" using order_by_id_upd [OF u _ k, of i] xi x(2) by simp
  qed (use x l l2 cnt upd_orders_Row(2) [OF u] in auto)
qed

lemma activate_change:
  assumes "orders_ok d" "order_by_id d i = Some x" "sub_ensure t (o_user x) d = Some (s, d1)"
    and u: "upd_paid i iv tn t (upd_activate (o_user x) (o_plan x) (o_period x) start
        (addSubscriptionPeriod (period_start t d (o_user x)) (o_period x)) t d1) = (Row 1, d')" and tn: "tn \<noteq> []"
  shows "pay_change t d d' \<and> pays t d d' x \<and> open_status (o_status x)
    \<and> (\<exists>x'. order_by_id d' i = Some x' \<and> o_status x' = ''paid'' \<and> o_transaction x' = Some tn \<and> o_paid x' = Some t
         \<and> purchase_of x' = purchase_of x)"
proof -
  let ?fin = "addSubscriptionPeriod (period_start t d (o_user x)) (o_period x)"
  let ?d2 = "upd_activate (o_user x) (o_plan x) (o_period x) start ?fin t d1"
  note e = sub_ensure_entitlement [OF assms(3)]
  have o2: "orders ?d2 = orders d" by (simp add: upd_activate_def e(1))
  have ok2: "orders_ok ?d2" using orders_ok_cong [OF o2] assms(1) by simp
  have l2: "ledger ?d2 = ledger d" "order_by_id ?d2 i = Some x"
    using ledger_cong [OF o2] assms(2) by (simp_all add: order_by_id_def o2)
  obtain y where y: "order_by_id ?d2 i = Some y" "open_status (o_status y)"
    "order_by_id d' i = Some (y\<lparr>o_status := ''paid'', o_invoice := keep_or (o_invoice y) iv, o_transaction := Some tn,
       o_paid := Some t, o_updated := t\<rparr>)"
    "ledger d' = (ledger ?d2)(i \<mapsto> (purchase_of y, Paid))" "ledger_step (ledger ?d2) (ledger d')"
    "subscriptions d' = subscriptions ?d2" "d' = ?d2\<lparr>orders := orders d'\<rparr>" "\<And>t u. open_count t d' u \<le> open_count t ?d2 u"
    using upd_paid_Row1 [OF ok2 u] by blast
  have yx: "y = x" using y(1) l2 by simp
  obtain r where r: "subscription_of d1 (o_user x) = Some r" using assms(3) by (rule sub_ensure_row)
  have ent: "entitlement d' v = (if v = o_user x then Some (o_plan x, Some ?fin) else entitlement d1 v)" for v
    using r by (simp add: entitlement_cong [OF y(6)] entitlement_upd_activate)
  have "subscription_of d' (o_user x) = subscription_of ?d2 (o_user x)" by (simp add: subscription_of_def y(6))
  then have paid: "pays t d d' x"
    using r subscription_of_user [OF r] by (simp add: pays_def subscription_of_upd_activate)
  have L: "ledger d i = Some (purchase_of x, phase_of (o_status x))" using assms(2) by (simp add: ledger_def)
  have L': "ledger d' i = Some (purchase_of x, Paid)" using y(4) yx by simp
  have ph: "phase_of (o_status x) \<noteq> Paid" "phase_of (o_status x) \<noteq> Canceled"
    using y(2) yx by (auto simp: open_status_def phase_of_def)
  have g: "granted t d d'"
    unfolding granted_def
  proof (intro allI impI)
    fix v assume ne: "entitlement d' v \<noteq> entitlement d v"
    show "(entitlement d v = None \<and> entitlement d' v = Some (''trial'', None))
       \<or> (\<exists>i p s. ledger d i = Some (p, s) \<and> s \<noteq> Paid \<and> s \<noteq> Canceled \<and> ledger d' i = Some (p, Paid) \<and> pu_user p = v
          \<and> entitlement d' v = Some (pu_plan p, Some (addSubscriptionPeriod (period_start t d v) (pu_period p))))"
    proof (cases "v = o_user x")
      case True
      then show ?thesis using L L' ph ent by (intro disjI2 exI [of _ i] exI) (auto simp: purchase_of_def)
    next
      case False
      then show ?thesis using ne e(3) [of v] ent by simp
    qed
  qed
  have ok: "orders_ok d'"
  proof (rule upd_orders_ok [OF ok2 u [unfolded upd_paid_def]])
    show "keeps_purchase (\<lambda>x. x\<lparr>o_status := ''paid'', o_invoice := keep_or (o_invoice x) iv, o_transaction := Some tn,
        o_paid := Some t, o_updated := t\<rparr>)"
      by (simp add: keeps_purchase_def purchase_of_def)
  qed (use links_ok_keep(2) in \<open>auto simp: valid_order_def tn or_empty_def\<close>)
  obtain ss where "d1 = d\<lparr>subscriptions := ss\<rparr>" using sub_ensure_frame [OF assms(3)] by blast
  then obtain ss2 where "?d2 = d\<lparr>subscriptions := ss2\<rparr>" by (simp add: upd_activate_def)
  then have d': "d' = d\<lparr>subscriptions := ss2, orders := orders d'\<rparr>" "subscriptions d' = ss2"
    using y(6,7) by simp_all
  have "d' = d\<lparr>orders := orders d', subscriptions := subscriptions d'\<rparr>"
    unfolding d'(2) by (rule trans [OF d'(1)]) simp
  then have "pay_change t d d'"
    using ok g y(5) y(8) [of t] l2(1) open_count_cong [OF o2, of t] by (simp add: pay_change_def le_max_iff_disj)
  then show ?thesis using paid y(2,3) yx by (auto simp: purchase_of_def)
qed

section \<open>Applying a result\<close>

text \<open>What a result that is accepted does: nothing to a paid order, else exactly one move.\<close>

definition sandbox_user :: "app_state \<Rightarrow> db \<Rightarrow> uuid \<Rightarrow> bool" where
  "sandbox_user A d u \<longleftrightarrow> (if productionOBankSandboxMode A then (case user_by_id d u of None \<Rightarrow> False
     | Some x \<Rightarrow> normalizePhone (or_empty (u_phone x)) = ob_test_phone (st_obank A)) else True)"

definition result_applied :: "app_state \<Rightarrow> bank_result \<Rightarrow> time \<Rightarrow> db \<Rightarrow> db \<Rightarrow> bool" where
  "result_applied A b t d d' \<longleftrightarrow> (\<exists>x. order_by_id d (br_order b) = Some x \<and> result_matches b (scan_order x) \<and> sandbox_user A d (o_user x) \<and>
     (if o_status x = ''paid'' then d' = d
      else pay_change t d d' \<and> (\<exists>x'. order_by_id d' (br_order b) = Some x' \<and> purchase_of x' = purchase_of x
          \<and> o_transaction x' = Some (br_transaction b)
          \<and> ((br_status b = 1 \<and> o_status x \<noteq> ''canceled'' \<and> o_status x' = ''processing'' \<and> subscriptions d' = subscriptions d)
            \<or> (br_status b = 2 \<and> o_status x' = ''canceled'' \<and> subscriptions d' = subscriptions d)
            \<or> (br_status b = 3 \<and> open_status (o_status x) \<and> o_status x' = ''paid'' \<and> o_paid x' = Some t \<and> pays t d d' x)))))"

lemma scan_order_simps [simp]:
  "po_id (scan_order x) = o_id x" "po_user (scan_order x) = o_user x" "po_plan (scan_order x) = o_plan x"
  "po_period (scan_order x) = o_period x" "po_status (scan_order x) = o_status x"
  "po_kopecks (scan_order x) = o_kopecks x" "po_kgs (scan_order x) = o_kgs x" "po_key (scan_order x) = o_key x"
  "po_transaction (scan_order x) = or_empty (o_transaction x)" "po_invoice (scan_order x) = or_empty (o_invoice x)"
  "po_created (scan_order x) = o_created x" "po_url (scan_order x) = or_empty (o_url x)"
  "po_app_link (scan_order x) = or_empty (o_app_link x)" "po_currency (scan_order x) = o_currency x"
  "po_paid (scan_order x) = o_paid x"
  by (simp_all add: scan_order_def)

lemma sel_order_Row: "sel_order i t d = Row po \<Longrightarrow> \<exists>x. order_by_id d i = Some x \<and> po = scan_order x"
  by (auto simp: sel_order_def row_of_def split: option.splits)

lemma result_change:
  assumes "orders_ok d" "order_by_id d (br_order b) = Some x" "result_matches b (scan_order x)"
    "o_status x \<noteq> ''paid''" "br_transaction b \<noteq> []"
    and u: "upd_result (br_order b) st (br_invoice b) (br_transaction b) t d = (r, d')" "r \<noteq> SqlErr"
    and st: "st = ''processing'' \<and> o_status x \<noteq> ''canceled'' \<or> st = ''canceled''"
  shows "pay_change t d d' \<and> subscriptions d' = subscriptions d
    \<and> (\<exists>x'. order_by_id d' (br_order b) = Some x' \<and> purchase_of x' = purchase_of x
         \<and> o_transaction x' = Some (br_transaction b) \<and> o_status x' = st)"
proof -
  let ?i = "br_order b"
  let ?f = "\<lambda>x. x\<lparr>o_status := st, o_invoice := keep_or (o_invoice x) (br_invoice b),
     o_transaction := keep_or (o_transaction x) (br_transaction b), o_updated := t\<rparr>"
  have v: "upd_orders (\<lambda>x. o_id x = ?i) ?f t d = (r, d')" using u(1) by (simp add: upd_result_def)
  have k: "keeps_purchase ?f" by (simp add: keeps_purchase_def purchase_of_def)
  have x: "y = x" if "y \<in> set (orders d)" "o_id y = ?i" for y
    using order_by_id_mem [OF assms(1) that(1)] that(2) assms(2) by simp
  have xi: "x \<in> set (orders d)" "o_id x = ?i" using order_by_id_Some [OF assms(2)] by auto
  have val: "valid_order x" using assms(1) xi by (simp add: orders_ok_def)
  have ok: "orders_ok d'"
  proof (rule upd_orders_ok [OF assms(1) v u(2) k])
    fix y assume y: "y \<in> set (orders d)" "o_id y = ?i" "valid_order y"
    then show "valid_order (?f y)" using x [OF y(1,2)] assms(4) st links_ok_keep(1) [of y]
      by (auto simp: valid_order_def)
  qed
  have l: "ledger_step (ledger d) (ledger d')"
  proof (rule upd_orders_phase(1) [OF assms(1) v u(2) k])
    fix y assume y: "y \<in> set (orders d)" "o_id y = ?i"
    then show "o_id y = ?i \<and> may_become (phase_of (o_status y)) (phase_of st)"
      using x [OF y] assms(4) st by (auto simp: phase_of_def)
  qed simp
  have d': "d' = d\<lparr>orders := orders d'\<rparr>" using upd_orders_Row(2) [OF v u(2)] by simp
  then have sub: "subscriptions d' = subscriptions d" by (metis db.select_convs(5) db.surjective db.update_convs(18))
  moreover have "open_count t d' v \<le> open_count t d v" for v
  proof (rule upd_orders_open_count [OF v u(2) k])
    fix y assume y: "y \<in> set (orders d)" "o_id y = ?i" "open_status (o_status (?f y))"
    then show "open_status (o_status y)"
      using x [OF y(1,2)] assms(4) st val by (auto simp: open_status_def valid_order_def)
  qed
  ultimately have "pay_change t d d'"
    using ok l d' entitlement_cong [OF sub] by (simp add: pay_change_def granted_def le_max_iff_disj)
  moreover have "keep_or (o_transaction x) (br_transaction b) = Some (br_transaction b)"
    using assms(3,5) by (auto simp: keep_or_def result_matches_def null_if_empty_def or_empty_def split: option.splits)
  ultimately show ?thesis
    using order_by_id_upd [OF v u(2) k, of ?i] assms(2) xi sub by (auto simp: purchase_of_def)
qed

lemma wp_allowed [wps]:
  assumes "\<And>fs b. (b \<Longrightarrow> sandbox_user A (db w) u) \<Longrightarrow> Q b (w\<lparr>faults := fs\<rparr>)"
  shows "wp (isAllowedProductionOBankTestUser A u) Q w"
proof -
  have same: "Q b w" if "b \<Longrightarrow> sandbox_user A (db w) u" for b
    using assms [of b "faults w"] that by simp
  show ?thesis
    unfolding isAllowedProductionOBankTestUser_def
    by (intro wps) (auto simp: row_of_def sandbox_user_def intro!: assms same split: option.splits)
qed

lemma wp_activate [wps]:
  assumes E: "\<And>fs t e. Q (Some e) (w\<lparr>faults := fs, txn := t\<rparr>)"
    and S: "\<And>fs d0 d1 s start d. txn w = Some (d0, False) \<Longrightarrow> sub_ensure (now w) (po_user po) d0 = Some (s, d1) \<Longrightarrow>
      upd_paid (po_id po) iv tn (now w) (upd_activate (po_user po) (po_plan po) (po_period po) start
        (addSubscriptionPeriod (period_start (now w) d0 (po_user po)) (po_period po)) (now w) d1) = (Row 1, d) \<Longrightarrow>
      Q None (w\<lparr>faults := fs, txn := Some (d, False)\<rparr>)"
  shows "wp (activateSubscriptionFromPayment po tn iv) Q w"
  unfolding activateSubscriptionFromPayment_def
  by (intro wps) (use E in \<open>auto simp: period_start_ensure intro: S split: sqlres.splits\<close>)

lemma applied_paid:
  "order_by_id d (br_order b) = Some x \<Longrightarrow> result_matches b (scan_order x) \<Longrightarrow> sandbox_user A d (o_user x) \<Longrightarrow>
   o_status x = ''paid'' \<Longrightarrow> result_applied A b t d d"
  by (simp add: result_applied_def)

lemma applied_status:
  assumes "orders_ok d" "order_by_id d (br_order b) = Some x" "result_matches b (scan_order x)" "sandbox_user A d (o_user x)"
    "o_status x \<noteq> ''paid''" "br_transaction b \<noteq> []"
    and u: "upd_result (br_order b) st (br_invoice b) (br_transaction b) t d = (r, d')" "r \<noteq> SqlErr"
    and st: "br_status b = 1 \<and> st = ''processing'' \<and> o_status x \<noteq> ''canceled'' \<or> br_status b = 2 \<and> st = ''canceled''"
  shows "result_applied A b t d d'"
proof -
  note c = result_change [OF assms(1-3,5,6) u]
  show ?thesis using c st assms(2-5) by (auto simp: result_applied_def)
qed

lemma applied_activated:
  assumes "orders_ok d" "order_by_id d (br_order b) = Some x" "result_matches b (scan_order x)" "sandbox_user A d (o_user x)"
    "br_transaction b \<noteq> []" "br_status b = 3" "sub_ensure t (o_user x) d = Some (s, d1)"
    and u: "upd_paid (o_id x) (br_invoice b) (br_transaction b) t (upd_activate (o_user x) (o_plan x) (o_period x) start
        (addSubscriptionPeriod (period_start t d (o_user x)) (o_period x)) t d1) = (Row (Suc 0), d')"
  shows "result_applied A b t d d'"
proof -
  have i: "o_id x = br_order b" using order_by_id_Some [OF assms(2)] by simp
  note c = activate_change [OF assms(1,2,7) _ assms(5), of "br_invoice b" start d']
  show ?thesis using c u assms(2-6) by (auto simp: result_applied_def i open_status_def)
qed

lemma wp_applyTx:
  assumes ok: "orders_ok (db w)" and tx: "txn w = Some (db w, False)" and tn: "br_transaction b \<noteq> []"
    and E: "\<And>fs t e. Q (Some e) (w\<lparr>faults := fs, txn := t\<rparr>)"
    and S: "\<And>fs d. result_applied A b (now w) (db w) d \<Longrightarrow> Q None (w\<lparr>faults := fs, db := d, txn := None\<rparr>)"
  shows "wp (applyTx A b) Q w"
proof -
  have E0: "Q (Some e) (w\<lparr>faults := fs\<rparr>)" for fs e using E [where t = "txn w" and fs = fs and e = e] by simp
  have P: "Q None (w\<lparr>faults := fs, txn := None\<rparr>)" if "result_applied A b (now w) (db w) (db w)" for fs
    using S [OF that, of fs] by simp
  show ?thesis
    unfolding applyTx_def commit_result_def
    by (intro wps) (auto simp: tx tn intro: E E0 applied_paid applied_status [OF ok] applied_activated [OF ok] intro!: P S
        dest!: sel_order_Row split: if_splits)
qed

lemma wp_applyOBankResult [wps]:
  assumes ok: "orders_ok (db w)" and tx: "txn w = None"
    and E: "\<And>fs e. Q (Some e) (w\<lparr>faults := fs\<rparr>)"
    and S: "\<And>fs d. result_applied A b (now w) (db w) d \<Longrightarrow> br_transaction b \<noteq> [] \<Longrightarrow> 0 < br_amount b \<Longrightarrow>
      br_currency b = ''KGS'' \<Longrightarrow> Q None (w\<lparr>faults := fs, db := d\<rparr>)"
  shows "wp (applyOBankResult A b) Q w"
proof -
  have e: "w\<lparr>faults := fs, txn := None\<rparr> = w\<lparr>faults := fs\<rparr>" for fs using tx by simp
  have e2: "w\<lparr>faults := fs, db := d, txn := None\<rparr> = w\<lparr>faults := fs, db := d\<rparr>" for fs d using tx by simp
  have E0: "Q (Some x) w" for x using E [where fs = "faults w"] by simp
  show ?thesis
    unfolding applyOBankResult_def
    by (intro wps wp_applyTx) (auto simp: ok e e2 intro: E E0 S)
qed

end
