(* ===== verification/Payment_Facts.thy ===== *)
theory Payment_Facts
  imports Checkout_Facts Samples
begin

text \<open>
  The handlers of the checkout and of the bank's callback over the ledger of \<open>Checkout_Facts\<close>, and the
  properties of payments.
\<close>

section \<open>The other operations\<close>

lemma claim_quiet:
  assumes "orders_ok d" "upd_claim i t d = (r, d')" "r \<noteq> SqlErr" shows "quiet d d'"
  by (rule upd_orders_quiet [OF assms(1) assms(2) [unfolded upd_claim_def] assms(3)])
    (auto simp: keeps_purchase_def purchase_of_def valid_order_def)


text \<open>An invoice that passed the checks of \<open>CreateInvoice\<close>.\<close>

definition invoice_ok :: "invoice \<Rightarrow> bool" where
  "invoice_ok v \<longleftrightarrow> inv_id v \<noteq> [] \<and> (inv_url v \<noteq> [] \<or> inv_app_link v \<noteq> [])
     \<and> (inv_url v = [] \<or> validatePaymentURL (inv_url v))
     \<and> (inv_app_link v = [] \<or> validateAppLink (inv_app_link v) (inv_id v))"

lemma invoice_of_ok: "invoice_of fs = Some v \<Longrightarrow> invoice_ok v"
  by (auto simp: invoice_of_def invoice_ok_def Let_def split: option.splits if_splits)

lemma CreateInvoice_ok: "CreateInvoice B cfg t rq = Some v \<Longrightarrow> invoice_ok v"
  by (auto simp: CreateInvoice_def bind_eq_Some_conv dest!: invoice_of_ok)

lemma wp_createInvoice [wps]:
  assumes "Q None w" "\<And>v. invoice_ok v \<Longrightarrow> Q (Some v) w"
  shows "wp (createOBankInvoice A B po) Q w"
proof -
  have "Q (CreateInvoice B cfg t rq) w" for cfg t rq
    by (cases "CreateInvoice B cfg t rq") (simp_all add: assms CreateInvoice_ok)
  then show ?thesis
    unfolding createOBankInvoice_def by (intro wps) (use assms in \<open>auto split: option.splits\<close>)
qed

lemma invoice_quiet:
  assumes "orders_ok d" "upd_invoice i v t d = (r, d')" "r \<noteq> SqlErr" "invoice_ok v" shows "quiet d d'"
  by (rule upd_orders_quiet [OF assms(1) assms(2) [unfolded upd_invoice_def] assms(3)])
    (use assms(4) in \<open>auto simp: keeps_purchase_def purchase_of_def valid_order_def links_ok_def invoice_ok_def or_empty_def\<close>)

lemma status_change:
  assumes "orders_ok d" "upd_order_status i st t d = (r, d')" "r \<noteq> SqlErr" "st = ''processing'' \<or> st = ''canceled''"
  shows "pay_change t d d'"
proof -
  let ?p = "\<lambda>x. o_id x = i \<and> open_status (o_status x)" and ?f = "\<lambda>x. x\<lparr>o_status := st, o_updated := t\<rparr>"
  have u: "upd_orders ?p ?f t d = (r, d')" using assms(2) by (simp add: upd_order_status_def)
  have k: "keeps_purchase ?f" by (simp add: keeps_purchase_def purchase_of_def)
  have "orders_ok d'"
    by (rule upd_orders_ok [OF assms(1) u assms(3) k]) (use assms(4) in \<open>auto simp: valid_order_def open_status_def\<close>)
  moreover have "ledger_step (ledger d) (ledger d')"
    by (rule upd_orders_phase(1) [OF assms(1) u assms(3) k, of i "phase_of st"])
      (use assms(4) in \<open>auto simp: open_status_def phase_of_def\<close>)
  moreover have "open_count t d' v \<le> open_count t d v" for v
    by (rule upd_orders_open_count [OF u assms(3) k]) simp
  moreover have d': "d' = d\<lparr>orders := orders d'\<rparr>" using upd_orders_Row(2) [OF u assms(3)] by simp
  moreover have "entitlement d' = entitlement d"
    by (rule entitlement_cong) (metis d' db.select_convs(5) db.surjective db.update_convs(18))
  ultimately show ?thesis by (simp add: pay_change_def granted_def le_max_iff_disj)
qed

lemma applied_change: "orders_ok d \<Longrightarrow> result_applied A b t d d' \<Longrightarrow> pay_change t d d'"
  by (auto simp: result_applied_def intro: quiet_change quiet_refl split: if_splits)

lemma wp_status [wps]:
  assumes "orders_ok (db w)"
    and E: "\<And>fs e. Q (Some e) (w\<lparr>faults := fs\<rparr>)"
    and S: "\<And>fs d. pay_change (now w) (db w) d \<Longrightarrow> Q None (w\<lparr>faults := fs, db := d\<rparr>)"
  shows "wp (updateSubscriptionPaymentStatus i st) Q w"
proof -
  have "Q (Some e) w" for e using E [where fs = "faults w"] by simp
  then show ?thesis
    unfolding updateSubscriptionPaymentStatus_def
    by (intro wps) (use E S status_change [OF assms(1)] in auto)
qed

definition fresh_key :: "uuid \<Rightarrow> string \<Rightarrow> db \<Rightarrow> bool" where
  "fresh_key u key d \<longleftrightarrow> (\<forall>y\<in>set (orders d). o_user y = u \<longrightarrow> o_key y \<noteq> key)"

lemma find_SomeD: "find P xs = Some x \<Longrightarrow> x \<in> set xs \<and> P x"
  by (auto simp: find_Some_iff)

definition reserved :: "time \<Rightarrow> uuid \<Rightarrow> checkout_request \<Rightarrow> int \<Rightarrow> db \<Rightarrow> db \<Rightarrow> payment_order \<Rightarrow> bool" where
  "reserved t u q kgs d d' po \<longleftrightarrow> pay_change t d d' \<and> (\<exists>x. order_by_id d' (po_id po) = Some x \<and> po = scan_order x
     \<and> o_user x = u \<and> same_purchase q kgs po \<and> o_status x \<noteq> ''canceled''
     \<and> (o_status x = ''paid'' \<or> open_status (o_status x) \<and> t - 24 * hour \<le> o_created x)
     \<and> (if o_key x \<noteq> cr_key q then open_order t u x \<and> fresh_key u (cr_key q) d else True)
     \<and> (orders d' = orders d \<or> orders d' = orders d @ [x] \<and> o_key x = cr_key q \<and> open_count t d u = 0 \<and> o_status x = ''pending''
          \<and> fresh_key u (cr_key q) d))"

lemma sel_keyed_Row: "sel_keyed_order u key t d = Row po \<Longrightarrow>
    \<exists>x. x \<in> set (orders d) \<and> o_user x = u \<and> o_key x = key \<and> po = scan_order x"
  by (auto simp: sel_keyed_order_def row_of_def dest!: find_SomeD split: option.splits)

lemma sel_keyed_NoRows: "sel_keyed_order u key t d = NoRows \<longleftrightarrow> fresh_key u key d"
  by (auto simp: sel_keyed_order_def row_of_def find_None_iff fresh_key_def dest!: find_SomeD split: option.splits)

lemma sel_open_cases:
  "sel_open_order u t d = (case sort_key (\<lambda>x. - o_created x) (filter (open_order t u) (orders d)) of
     [] \<Rightarrow> NoRows | x # _ \<Rightarrow> Row (scan_order x))"
  by (simp add: sel_open_order_def open_order_def [abs_def])

lemma sel_open_Row:
  assumes "sel_open_order u t d = Row po" shows "\<exists>x. x \<in> set (orders d) \<and> open_order t u x \<and> po = scan_order x"
proof -
  obtain x xs where s: "sort_key (\<lambda>x. - o_created x) (filter (open_order t u) (orders d)) = x # xs" "po = scan_order x"
    using assms by (auto simp: sel_open_cases split: list.splits)
  then have "x \<in> set (sort_key (\<lambda>x. - o_created x) (filter (open_order t u) (orders d)))" by simp
  then show ?thesis using s(2) by auto
qed

lemma sel_open_NoRows:
  assumes "sel_open_order u t d = NoRows" shows "open_count t d u = 0"
proof -
  have "sort_key (\<lambda>x. - o_created x) (filter (open_order t u) (orders d)) = []"
    using assms by (auto simp: sel_open_cases split: list.splits)
  then have "length (filter (open_order t u) (orders d)) = 0" by (metis length_sort list.size(3))
  then show ?thesis by (simp add: open_count_def count_where_def)
qed

lemma reservedI:
  assumes "pay_change t d d'" "order_by_id d' (o_id x) = Some x" "o_user x = u" "same_purchase q kgs (scan_order x)"
    "o_status x = ''paid'' \<or> open_status (o_status x) \<and> t - 24 * hour \<le> o_created x" "o_status x \<noteq> ''canceled''"
    "o_key x \<noteq> cr_key q \<Longrightarrow> open_order t u x \<and> fresh_key u (cr_key q) d"
    "orders d' = orders d \<or> orders d' = orders d @ [x] \<and> o_key x = cr_key q \<and> open_count t d u = 0 \<and> o_status x = ''pending''
          \<and> fresh_key u (cr_key q) d"
  shows "reserved t u q kgs d d' (scan_order x)"
  unfolding reserved_def using assms by (intro conjI exI [of _ x]) simp_all

lemma reserved_keyed:
  assumes "orders_ok d" "sub_ensure t u d = Some (s, d1)" "sel_keyed_order u (cr_key q) t d1 = Row po"
    "same_purchase q kgs po" "po_status po \<noteq> ''canceled''" "po_status po = ''paid'' \<or> t - 24 * hour \<le> po_created po"
  shows "reserved t u q kgs d d1 po"
proof -
  have e: "orders d1 = orders d" using sub_ensure_entitlement [OF assms(2)] by simp
  have ok: "orders_ok d1" using assms(1) orders_ok_cong [OF e] by simp
  obtain x where x: "x \<in> set (orders d1)" "o_user x = u" "o_key x = cr_key q" "po = scan_order x"
    using sel_keyed_Row [OF assms(3)] by blast
  have "valid_order x" using ok x(1) by (simp add: orders_ok_def)
  then have st: "o_status x = ''paid'' \<or> open_status (o_status x)"
    using assms(5) x(4) by (auto simp: valid_order_def open_status_def)
  show ?thesis unfolding x(4)
  proof (rule reservedI [OF ensure_change [OF assms(1,2)] order_by_id_mem [OF ok x(1)] x(2)])
    show "o_status x = ''paid'' \<or> open_status (o_status x) \<and> t - 24 * hour \<le> o_created x" using st assms(6) x(4) by auto
    show "same_purchase q kgs (scan_order x)" "o_status x \<noteq> ''canceled''" using assms(4,5) x(4) by simp_all
  qed (simp_all add: x(3) e)
qed

lemma reserved_recent:
  assumes "orders_ok d" "sub_ensure t u d = Some (s, d1)" "sel_keyed_order u (cr_key q) t d1 = Row po"
    "same_purchase q kgs po" "po_status po \<noteq> ''canceled''" "\<not> po_created po < t - 24 * hour"
  shows "reserved t u q kgs d d1 po"
  using reserved_keyed [OF assms(1-5)] assms(6) by simp

lemma reserved_open:
  assumes "orders_ok d" "sub_ensure t u d = Some (s, d1)" "sel_open_order u t d1 = Row po"
    "sel_keyed_order u (cr_key q) t d1 = NoRows" "same_purchase q kgs po"
  shows "reserved t u q kgs d d1 po"
proof -
  have e: "orders d1 = orders d" using sub_ensure_entitlement [OF assms(2)] by simp
  have ok: "orders_ok d1" using assms(1) orders_ok_cong [OF e] by simp
  obtain x where x: "x \<in> set (orders d1)" "open_order t u x" "po = scan_order x"
    using sel_open_Row [OF assms(3)] by blast
  have f: "fresh_key u (cr_key q) d" using assms(4) e by (simp add: sel_keyed_NoRows fresh_key_def)
  show ?thesis unfolding x(3)
  proof (rule reservedI [OF ensure_change [OF assms(1,2)] order_by_id_mem [OF ok x(1)]])
    show "o_status x = ''paid'' \<or> open_status (o_status x) \<and> t - 24 * hour \<le> o_created x" "o_user x = u"
      "o_status x \<noteq> ''canceled''"
      using x(2) by (auto simp: open_order_def open_status_def)
    show "same_purchase q kgs (scan_order x)" using assms(5) x(3) by simp
  qed (simp_all add: x(2) f e)
qed

definition new_order :: "string \<Rightarrow> uuid \<Rightarrow> checkout_request \<Rightarrow> int \<Rightarrow> time \<Rightarrow> order_row" where
  "new_order i u q kgs t = \<lparr>o_id = i, o_user = u, o_key = cr_key q, o_plan = cr_plan q,
        o_period = cr_period q, o_kgs = kgs, o_kopecks = kgs * 100, o_currency = ''KGS'',
        o_status = ''pending'', o_invoice = None, o_transaction = None, o_url = None, o_app_link = None,
        o_checked = None, o_created = t, o_updated = t, o_paid = None\<rparr>"

lemma ins_order_Row:
  fixes q :: checkout_request
  assumes "ins_order i u (cr_key q) (cr_plan q) (cr_period q) kgs t d = (r, d')" "r \<noteq> SqlErr"
  shows "d' = d\<lparr>orders := orders d @ [new_order i u q kgs t]\<rparr>" "i \<notin> o_id ` set (orders d)"
    "(u, cr_key q) \<notin> (\<lambda>x. (o_user x, o_key x)) ` set (orders d)" "valid_order (new_order i u q kgs t)"
  using assms by (auto simp: ins_order_def new_order_def valid_order_def links_ok_def or_empty_def split: if_splits)

lemma find_None_id: "i \<notin> o_id ` set xs \<Longrightarrow> find (\<lambda>x. o_id x = i) xs = None"
  by (auto simp: find_None_iff)

lemma insert_change:
  fixes q :: checkout_request
  assumes "orders_ok d1" "ins_order i u (cr_key q) (cr_plan q) (cr_period q) kgs t d1 = (r, d')" "r \<noteq> SqlErr"
    and c: "pay_change t d d1" "ledger d1 = ledger d" "open_count t d1 u = 0"
  shows "pay_change t d d'"
proof -
  note n = ins_order_Row [OF assms(2,3)]
  let ?x = "new_order i u q kgs t"
  have ok: "orders_ok d'"
    using assms(1) n by (auto simp: orders_ok_def order_keys_ok_def map_filter_def new_order_def)
  have none: "order_by_id d1 i = None" using n(2) by (simp add: order_by_id_def find_None_id)
  have "ledger d' = (ledger d1)(i \<mapsto> (purchase_of ?x, Pending))"
    using none by (auto simp: fun_eq_iff ledger_def order_by_id_def n(1) find_append new_order_def phase_of_def split: option.splits)
  moreover have "ledger d1 i = None" "0 < pu_amount (purchase_of ?x)"
    using none n(4) by (auto simp: ledger_def valid_order_def purchase_of_def)
  ultimately have l: "ledger_step (ledger d) (ledger d')" by (simp add: c(2) [symmetric] ledger_step.create)
  have l2: "ledger d' j = ledger d j \<or> ledger d j = None" for j
    using \<open>ledger d' = _\<close> \<open>ledger d1 i = None\<close> c(2) by auto
  have "open_count t d' v \<le> max 1 (open_count t d1 v)" for v
    using c(3) by (auto simp: open_count_def n(1) new_order_def open_order_def)
  then have cnt: "open_count t d' v \<le> max 1 (open_count t d v)" for v
    using c(1) unfolding pay_change_def by (metis (no_types, lifting) max.coboundedI1 max.left_idem max.mono order.trans order_refl)
  have sub: "subscriptions d' = subscriptions d1" using n(1) by simp
  have g: "granted t d d'"
  proof -
    have "granted t d d1" using c(1) by (simp add: pay_change_def)
    then show ?thesis
      unfolding granted_def entitlement_cong [OF sub] c(2) using l2 by (metis option.distinct(1))
  qed
  have d1: "d1 = d\<lparr>orders := orders d1, subscriptions := subscriptions d1\<rparr>"
    using c(1) unfolding pay_change_def by (rule conjunct1)
  have d': "d' = d1\<lparr>orders := orders d'\<rparr>" using n(1) by simp
  have "d' = d\<lparr>orders := orders d', subscriptions := subscriptions d1\<rparr>" by (subst d', subst d1) simp
  then show ?thesis using ok l g cnt sub by (simp add: pay_change_def)
qed

lemma reserved_new:
  assumes "orders_ok d" "sub_ensure t u d = Some (s, d1)" "sel_open_order u t d1 = NoRows"
    "sel_keyed_order u (cr_key q) t d1 = NoRows"
    and i: "ins_order i u (cr_key q) (cr_plan q) (cr_period q) kgs t d1 = (r, d')" "r \<noteq> SqlErr"
  shows "reserved t u q kgs d d' (scan_order (new_order i u q kgs t))"
proof -
  have e: "orders d1 = orders d" using sub_ensure_entitlement [OF assms(2)] by simp
  have ok: "orders_ok d1" using assms(1) orders_ok_cong [OF e] by simp
  have z: "open_count t d1 u = 0" using sel_open_NoRows [OF assms(3)] .
  note n = ins_order_Row [OF i]
  have c: "pay_change t d d'"
    by (rule insert_change [OF ok i ensure_change [OF assms(1,2)] ledger_cong [OF e] z])
  have f: "fresh_key u (cr_key q) d" using assms(4) e by (simp add: sel_keyed_NoRows fresh_key_def)
  have "order_by_id d' i = Some (new_order i u q kgs t)"
    using n(2) by (simp add: order_by_id_def n(1) find_append find_None_id) (simp add: new_order_def)
  then show ?thesis
    using f n(1) z open_count_cong [OF e, of t]
    by (intro reservedI [OF c])
      (simp_all add: e new_order_def same_purchase_def scan_order_def open_status_def hour_def minute_def second_def)
qed

lemma scan_new_order:
  "scan_order (new_order i u q kgs t) = \<lparr>po_id = i, po_user = u, po_key = cr_key q, po_plan = cr_plan q, po_period = cr_period q,
     po_kgs = kgs, po_kopecks = kgs * 100, po_currency = ''KGS'', po_status = ''pending'', po_invoice = [],
     po_transaction = [], po_url = [], po_app_link = [], po_created = t, po_paid = None\<rparr>"
  by (simp add: scan_order_def new_order_def or_empty_def)

lemma wp_newOrder [wps]:
  assumes E: "\<And>fs en t e. Q (Inl e) (w\<lparr>faults := fs, txn := t, entropy := en\<rparr>)"
    and S: "\<And>fs en i d0 r d. txn w = Some (d0, False) \<Longrightarrow>
      ins_order i u (cr_key q) (cr_plan q) (cr_period q) kgs (now w) d0 = (r, d) \<Longrightarrow> r \<noteq> SqlErr \<Longrightarrow>
      Q (Inr (scan_order (new_order i u q kgs (now w)))) (w\<lparr>faults := fs, db := d, txn := None, entropy := en\<rparr>)"
  shows "wp (newOrderTx u q kgs) Q w"
proof -
  have E1: "Q (Inl e) (w\<lparr>faults := fs, entropy := en\<rparr>)" for fs en e using E [where t = "txn w"] by simp
  have E2: "Q (Inl e) (w\<lparr>entropy := en\<rparr>)" for en e using E1 [where fs = "faults w"] by simp
  show ?thesis
    unfolding newOrderTx_def newOBankOrderID_def commit_order_def
    by (intro wps) (use E in \<open>auto intro: E1 E2 S [unfolded scan_new_order]\<close>)
qed

lemma wp_reserveCheckout [wps]:
  assumes ok: "orders_ok (db w)" and tx: "txn w = None"
    and E: "\<And>fs en e. Q (Inl e) (w\<lparr>faults := fs, entropy := en\<rparr>)"
    and S: "\<And>fs en d po. reserved (now w) u q kgs (db w) d po \<Longrightarrow> Q (Inr po) (w\<lparr>faults := fs, db := d, entropy := en\<rparr>)"
  shows "wp (reserveSubscriptionCheckout u q kgs) Q w"
proof -
  have e: "w\<lparr>faults := fs, txn := None, entropy := en\<rparr> = w\<lparr>faults := fs, entropy := en\<rparr>"
    "w\<lparr>faults := fs, db := d, txn := None, entropy := en\<rparr> = w\<lparr>faults := fs, db := d, entropy := en\<rparr>"
    "w\<lparr>faults := fs, txn := None\<rparr> = w\<lparr>faults := fs\<rparr>"
    "w\<lparr>faults := fs, db := d, txn := None\<rparr> = w\<lparr>faults := fs, db := d\<rparr>" for fs en d
    using tx by simp_all
  have E1: "Q (Inl x) (w\<lparr>faults := fs\<rparr>)" for fs x using E [where en = "entropy w"] by simp
  have S1: "Q (Inr po) (w\<lparr>faults := fs, db := d\<rparr>)" if "reserved (now w) u q kgs (db w) d po" for fs d po
    using S [OF that, where en = "entropy w"] by simp
  show ?thesis
    unfolding reserveSubscriptionCheckout_def reserveOrderTx_def commit_order_def
    by (intro wps) (auto simp: ok e intro: E E1 S S1 reserved_keyed [OF ok] reserved_recent [OF ok] reserved_open [OF ok]
        reserved_new [OF ok])
qed

section \<open>The handlers\<close>

lemma reserved_change: "reserved t u q kgs d d' po \<Longrightarrow> pay_change t d d'"
  by (simp add: reserved_def)

lemma change_refl: "orders_ok d \<Longrightarrow> pay_change t d d"
  by (rule quiet_change [OF quiet_refl])

lemma change_ok: "pay_change t d d' \<Longrightarrow> orders_ok d'"
  by (simp add: pay_change_def)

lemma quiet_ok: "quiet d d' \<Longrightarrow> orders_ok d'"
  by (simp add: quiet_def)

lemma wp_OBankResult:
  assumes ok: "orders_ok (db w)" and tx: "txn w = None"
  shows "wp (OBankResult A B body r) (\<lambda>resp w'. txn w' = None \<and> now w' = now w \<and> (case resp of
     Error s m \<Rightarrow> db w' = db w
   | Reply s p \<Rightarrow> s = 200 \<and> (\<exists>b j. body = Some j \<and> VerifyResult B j (ob_password (st_obank A)) = Some b
       \<and> br_site b = ob_sid (st_obank A) \<and> br_test b = configuredOBankTestFlag A
       \<and> br_transaction b \<noteq> [] \<and> br_currency b = ''KGS'' \<and> result_applied A b (now w) (db w) (db w')))) w"
  unfolding OBankResult_def
  by (intro wps) (auto simp: ok tx split: option.splits)

lemma wp_claim [wps]:
  assumes "orders_ok (db w)"
    and S: "\<And>fs d b. quiet (db w) d \<Longrightarrow> Q b (w\<lparr>faults := fs, db := d\<rparr>)"
  shows "wp (claimOBankStatusCheck i) Q w"
proof -
  have N1: "Q False (w\<lparr>faults := fs\<rparr>)" for fs using S [OF quiet_refl [OF assms(1)], of False fs] by simp
  show ?thesis
    unfolding claimOBankStatusCheck_def
    by (intro wps) (auto simp: N1 intro: S claim_quiet [OF assms(1)] split: if_splits)
qed

lemma wp_reconcile [wps]:
  assumes ok: "orders_ok (db w)" and tx: "txn w = None"
    and S: "\<And>fs d. pay_change (now w) (db w) d \<Longrightarrow> Q () (w\<lparr>faults := fs, db := d\<rparr>)"
  shows "wp (reconcile A B po) Q w"
proof -
  have S1: "Q () (w\<lparr>faults := fs\<rparr>)" for fs using S [OF change_refl [OF ok], of fs] by simp
  have S2: "Q () w" using S1 [of "faults w"] by simp
  show ?thesis
    unfolding reconcile_def markSubscriptionPaymentPaid_def
    by (intro wps) (auto simp: ok tx S1 S2 intro: S applied_change [OF ok])
qed

lemma wp_getCheckout:
  assumes ok: "orders_ok (db w)" and tx: "txn w = None"
  shows "wp (getSubscriptionCheckout A B r) (\<lambda>resp w'. txn w' = None \<and> now w' = now w \<and> pay_change (now w) (db w) (db w')
     \<and> (case resp of Error s m \<Rightarrow> s \<in> {400, 403, 404, 503}
        | Reply s p \<Rightarrow> s = 200 \<and> sandbox_user A (db w) (userIDFromContext r)
            \<and> (\<exists>x\<in>set (orders (db w')). o_user x = userIDFromContext r \<and> p = checkout_response (scan_order x)))) w"
proof -
  have row: "sel_user_order u i t d = Row po \<Longrightarrow> \<exists>x\<in>set (orders d). o_user x = u \<and> po = scan_order x" for u i t d po
    by (auto simp: sel_user_order_def row_of_def dest!: find_SomeD split: option.splits)
  show ?thesis
    unfolding getSubscriptionCheckout_def
    by (intro wps) (auto simp: ok tx quiet_ok intro: change_refl [OF ok] quiet_change change_after_quiet dest!: row)
qed

text \<open>
  What became of the key of a request: a key used before names its order; a new key is
  stored with a new order, but not with an open order the caller already had.
\<close>

definition key_story :: "uuid \<Rightarrow> string \<Rightarrow> db \<Rightarrow> db \<Rightarrow> order_row \<Rightarrow> bool" where
  "key_story u key d0 d x \<longleftrightarrow>
     (if fresh_key u key d0
      then (if o_id x \<in> o_id ` set (orders d0) then o_key x \<noteq> key \<and> fresh_key u key d else o_key x = key)
      else o_key x = key \<and> o_id x \<in> o_id ` set (orders d0))"

lemma reserved_story:
  assumes "reserved t u q kgs d d' po" "order_by_id d' (po_id po) = Some x"
  shows "key_story u (cr_key q) d d' x"
proof -
  have r: "o_user x = u" "o_key x \<noteq> cr_key q \<Longrightarrow> fresh_key u (cr_key q) d"
    "orders d' = orders d \<or> orders d' = orders d @ [x] \<and> o_key x = cr_key q \<and> fresh_key u (cr_key q) d"
    "distinct (map o_id (orders d'))"
    using assms by (auto simp: reserved_def pay_change_def orders_ok_def split: if_splits)
  have x: "x \<in> set (orders d')" using order_by_id_Some [OF assms(2)] by simp
  from r(3) show ?thesis
  proof
    assume same: "orders d' = orders d"
    then have "o_id x \<in> o_id ` set (orders d)" "fresh_key u (cr_key q) d' = fresh_key u (cr_key q) d"
      using x by (simp_all add: fresh_key_def)
    moreover have "o_key x = cr_key q \<Longrightarrow> \<not> fresh_key u (cr_key q) d"
      using x same r(1) by (auto simp: fresh_key_def)
    ultimately show ?thesis using r(2) by (auto simp: key_story_def)
  next
    assume new: "orders d' = orders d @ [x] \<and> o_key x = cr_key q \<and> fresh_key u (cr_key q) d"
    then have "o_id x \<notin> o_id ` set (orders d)" using r(4) by auto
    then show ?thesis using new by (simp add: key_story_def)
  qed
qed

lemma key_story_saved:
  assumes "key_story u key d d1 x" "upd_invoice i v t d1 = (Row n, d2)" "o_id y = o_id x" "o_key y = o_key x"
  shows "key_story u key d d2 y"
proof -
  have "map (\<lambda>x. (o_user x, o_key x)) (orders d2) = map (\<lambda>x. (o_user x, o_key x)) (orders d1)"
    using assms(2) by (auto simp: upd_invoice_def upd_orders_def Let_def map_upd_where split: if_splits)
  then have "(\<lambda>x. (o_user x, o_key x)) ` set (orders d2) = (\<lambda>x. (o_user x, o_key x)) ` set (orders d1)"
    by (metis list.set_map)
  moreover have "fresh_key u key e \<longleftrightarrow> (u, key) \<notin> (\<lambda>x. (o_user x, o_key x)) ` set (orders e)" for e
    by (auto simp: fresh_key_def)
  ultimately have "fresh_key u key d2 \<longleftrightarrow> fresh_key u key d1" by simp
  then show ?thesis using assms(1,3,4) by (simp add: key_story_def)
qed

text \<open>The order a successful checkout answers with: a row of the caller for what was asked, paid or open.\<close>

definition checkout_answer :: "uuid \<Rightarrow> checkout_request \<Rightarrow> int \<Rightarrow> db \<Rightarrow> db \<Rightarrow> int \<Rightarrow> checkout_payload \<Rightarrow> bool" where
  "checkout_answer u q kgs d0 d s p \<longleftrightarrow> (\<exists>x\<in>set (orders d). o_user x = u \<and> key_story u (cr_key q) d0 d x
     \<and> same_purchase q kgs (scan_order x)
     \<and> p = checkout_response (scan_order x)
     \<and> (if s = 200 then o_status x = ''paid'' else s = 201 \<and> open_status (o_status x)
          \<and> (or_empty (o_url x) \<noteq> [] \<or> or_empty (o_app_link x) \<noteq> [])))"

lemma upd_invoice_Row1:
  assumes ok: "orders_ok d" and u: "upd_invoice i v t d = (Row (Suc 0), d')"
  obtains x where "order_by_id d i = Some x" "open_status (o_status x)"
    "order_by_id d' i = Some (x\<lparr>o_invoice := Some (inv_id v), o_url := Some (inv_url v), o_app_link := Some (inv_app_link v),
       o_updated := t\<rparr>)"
proof -
  let ?p = "\<lambda>x. o_id x = i \<and> open_status (o_status x)"
  let ?f = "\<lambda>x. x\<lparr>o_invoice := Some (inv_id v), o_url := Some (inv_url v), o_app_link := Some (inv_app_link v),
       o_updated := t\<rparr>"
  have v: "upd_orders ?p ?f t d = (Row (Suc 0), d')" using u by (simp add: upd_invoice_def)
  have k: "keeps_purchase ?f" by (simp add: keeps_purchase_def purchase_of_def)
  have "count_where ?p (orders d) \<noteq> 0" using upd_orders_Row(1) [OF v] by simp
  then obtain x where x: "x \<in> set (orders d)" "?p x" unfolding count_where_zero by blast
  then have xi: "order_by_id d i = Some x" using order_by_id_mem [OF ok] by blast
  show ?thesis using that [OF xi] x(2) order_by_id_upd [OF v _ k, of i] xi by simp
qed

lemma saved_answer:
  assumes r: "reserved t u q kgs d d1 po" and i: "invoice_ok v" and s: "upd_invoice (po_id po) v t d1 = (Row (Suc 0), d2)"
  shows "checkout_answer u q kgs d d2 201
    (checkout_response (po\<lparr>po_invoice := inv_id v, po_url := inv_url v, po_app_link := inv_app_link v\<rparr>))"
proof -
  have ok: "orders_ok d1" using r by (simp add: reserved_def pay_change_def)
  obtain x where x: "order_by_id d1 (po_id po) = Some x" "po = scan_order x" "o_user x = u" "same_purchase q kgs po"
    "key_story u (cr_key q) d d1 x"
    using r reserved_story [OF r] by (auto simp: reserved_def split: if_splits)
  let ?x = "x\<lparr>o_invoice := Some (inv_id v), o_url := Some (inv_url v), o_app_link := Some (inv_app_link v),
       o_updated := t\<rparr>"
  have "open_status (o_status x)" "order_by_id d2 (po_id po) = Some ?x"
    using upd_invoice_Row1 [OF ok s] x(1) by auto
  moreover have "key_story u (cr_key q) d d2 ?x" by (rule key_story_saved [OF x(5) s]) simp_all
  ultimately show ?thesis
    unfolding checkout_answer_def using x i order_by_id_Some [of d2 "po_id po" ?x]
    by (intro bexI [of _ ?x]) (auto simp: scan_order_def same_purchase_def or_empty_def invoice_ok_def)
qed

lemma direct_answer:
  assumes "reserved t u q kgs d d1 po" "if s = 200 then po_status po = ''paid'' else
      s = 201 \<and> po_status po \<noteq> ''paid'' \<and> po_url po \<noteq> []"
  shows "checkout_answer u q kgs d d1 s (checkout_response po)"
proof -
  obtain x where x: "order_by_id d1 (po_id po) = Some x" "po = scan_order x" "o_user x = u" "same_purchase q kgs po"
    "o_status x = ''paid'' \<or> open_status (o_status x)"
    using assms(1) by (auto simp: reserved_def)
  moreover have "key_story u (cr_key q) d d1 x" using reserved_story [OF assms(1) x(1)] .
  moreover have "x \<in> set (orders d1)" using order_by_id_Some [OF x(1)] by simp
  ultimately show ?thesis
    unfolding checkout_answer_def using assms(2) by (intro bexI [of _ x]) (auto split: if_splits)
qed

lemma wp_checkout_with_order:
  assumes r: "reserved (now w) u q kgs d (db w) po" and tx: "txn w = None"
  shows "wp (checkout_with_order A B po) (\<lambda>resp w'. txn w' = None \<and> now w' = now w \<and> pay_change (now w) d (db w')
     \<and> (case resp of Error s m \<Rightarrow> s \<in> {409, 502, 503} | Reply s p \<Rightarrow> checkout_answer u q kgs d (db w') s p)) w"
proof -
  note c = reserved_change [OF r]
  note ok = change_ok [OF c]
  show ?thesis
    unfolding checkout_with_order_def saveOBankInvoice_def
    by (intro wps) (auto simp: tx c intro: quiet_after_change [OF c] invoice_quiet [OF ok] saved_answer [OF r] direct_answer [OF r]
        split: sqlres.splits if_splits)
qed

text \<open>What the caller asked for and the price of it.\<close>

definition asked :: "app_state \<Rightarrow> request \<Rightarrow> checkout_request \<Rightarrow> int \<Rightarrow> bool" where
  "asked A r q kgs \<longleftrightarrow> decode_checkout r = Some q \<and> safeIdempotencyKey (cr_key q)
     \<and> 16 \<le> length (cr_key q) \<and> length (cr_key q) \<le> 64
     \<and> (\<exists>plan price. planByCode (cr_plan q) = Some plan \<and> pl_id plan \<noteq> ''trial'' \<and> planPrice A plan (cr_period q) = Some price
          \<and> 0 < price \<and> (if productionOBankSandboxMode A then kgs = ob_test_price (st_obank A) \<and> pl_id plan = ''standard''
               \<and> cr_period q = ''month'' else kgs = price))"

lemma wp_postCheckout:
  assumes ok: "orders_ok (db w)" and tx: "txn w = None"
  shows "wp (postSubscriptionCheckout A B r) (\<lambda>resp w'. txn w' = None \<and> now w' = now w \<and> pay_change (now w) (db w) (db w')
     \<and> (case resp of Error s m \<Rightarrow> s \<in> {400, 403, 409, 500, 502, 503}
        | Reply s p \<Rightarrow> sandbox_user A (db w) (userIDFromContext r)
            \<and> (\<exists>q kgs. asked A r q kgs \<and> checkout_answer (userIDFromContext r) q kgs (db w) (db w') s p))) w"
proof -
  note R = change_refl [OF ok]
  let ?u = "userIDFromContext r"
  have served: "wp (checkout_with_order A B po) (\<lambda>resp w'. txn w' = None \<and> now w' = now w \<and> pay_change (now w) (db w) (db w')
     \<and> (case resp of Error s m \<Rightarrow> s \<in> {400, 403, 409, 500, 502, 503}
        | Reply s p \<Rightarrow> sandbox_user A (db w) ?u
            \<and> (\<exists>q kgs. asked A r q kgs \<and> checkout_answer ?u q kgs (db w) (db w') s p)))
     (w\<lparr>faults := fs, db := d, entropy := en\<rparr>)"
    if "reserved (now w) ?u q kgs (db w) d po" "asked A r q kgs" "sandbox_user A (db w) ?u" for q kgs d po fs en
  proof (rule wp_mono [OF wp_checkout_with_order])
    show "reserved (now (w\<lparr>faults := fs, db := d, entropy := en\<rparr>)) ?u q kgs (db w)
        (db (w\<lparr>faults := fs, db := d, entropy := en\<rparr>)) po" "txn (w\<lparr>faults := fs, db := d, entropy := en\<rparr>) = None"
      using that(1) tx by simp_all
  qed (use that(2,3) in \<open>auto split: resp.splits\<close>)
  show ?thesis
    unfolding postSubscriptionCheckout_def
    by (intro wps) (auto simp: ok tx R asked_def not_less intro!: served)
qed

section \<open>The callback is authentic\<close>

lemma count_join:
  "vs \<noteq> [] \<Longrightarrow> count_where (\<lambda>c. c = CHR '':'') (join_with '':::'' vs)
     = sum_list (map (count_where (\<lambda>c. c = CHR '':'')) vs) + 3 * (length vs - 1)"
  by (induction "'':::''" vs rule: join_with.induct) auto

lemma no_colon: "count_where (\<lambda>c. c = CHR '':'') v = 0 \<longleftrightarrow> CHR '':'' \<notin> set v"
  by (auto simp: count_where_zero)

lemma append_colon:
  assumes "CHR '':'' \<notin> set v" "CHR '':'' \<notin> set w" "v @ '':::'' @ x = w @ '':::'' @ y"
  shows "v = w \<and> x = y"
proof -
  have t: "takeWhile (\<lambda>c. c \<noteq> CHR '':'') (u @ '':::'' @ z) = u" if "CHR '':'' \<notin> set u" for u z
    using that by (induction u) auto
  have "v = w" using t [OF assms(1), of x] t [OF assms(2), of y] assms(3) by simp
  then show ?thesis using assms(3) by simp
qed

lemma join_inj_clean:
  assumes "length vs = length ws" "\<forall>v\<in>set vs. CHR '':'' \<notin> set v" "\<forall>v\<in>set ws. CHR '':'' \<notin> set v"
    "join_with '':::'' vs = join_with '':::'' ws"
  shows "vs = ws"
  using assms
proof (induction vs ws rule: list_induct2)
  case (Cons v vs w ws)
  show ?case
  proof (cases vs)
    case Nil
    then show ?thesis using Cons by simp
  next
    case (Cons v' vs')
    then obtain w' ws' where ws: "ws = w' # ws'" using Cons.hyps by (cases ws) auto
    have "v @ '':::'' @ join_with '':::'' vs = w @ '':::'' @ join_with '':::'' ws"
      using Cons.prems(3) by (simp add: \<open>vs = v' # vs'\<close> ws)
    then have "v = w \<and> join_with '':::'' vs = join_with '':::'' ws"
      using Cons.prems by (intro append_colon) auto
    then show ?thesis using Cons.IH Cons.prems by auto
  qed
qed simp

lemma join_inj:
  assumes "length vs = length ws" "\<forall>v\<in>set ws. CHR '':'' \<notin> set v" "join_with '':::'' vs = join_with '':::'' ws"
  shows "vs = ws"
proof (cases "ws = []")
  case False
  then have "vs \<noteq> []" using assms(1) by auto
  let ?c = "count_where (\<lambda>c. c = CHR '':'')"
  have "sum_list (map ?c vs) = sum_list (map ?c ws)"
    using count_join [OF False] count_join [OF \<open>vs \<noteq> []\<close>] assms(1,3) by simp
  also have "sum_list (map ?c ws) = 0" using assms(2) by (auto simp: no_colon)
  finally have "sum_list (map ?c vs) = 0" .
  then have "\<forall>v\<in>set vs. CHR '':'' \<notin> set v" by (auto simp: no_colon)
  then show ?thesis using assms by (intro join_inj_clean)
qed (use assms in simp)

lemma those_length: "those xs = Some ys \<Longrightarrow> length ys = length xs"
  by (induction xs arbitrary: ys) (auto split: option.splits)

text \<open>The fields of a result as the texts the bank signed.\<close>

definition result_texts :: "bank_result \<Rightarrow> string list \<Rightarrow> bool" where
  "result_texts b vs \<longleftrightarrow> length vs = 8 \<and> br_transaction b = vs ! 0 \<and> parse_int64 (vs ! 1) = Some (br_status b)
     \<and> br_site b = vs ! 2 \<and> br_order b = vs ! 3 \<and> parse_int64 (vs ! 4) = Some (br_amount b)
     \<and> br_currency b = vs ! 5 \<and> parse_int64 (vs ! 7) = Some (br_test b)"

lemma VerifyResult_Some:
  assumes "VerifyResult B body k = Some b"
  obtains fs vs h where "Option.bind body raw_pairs = Some fs" "signed_values fs = Some vs"
    "scalar (raw_field fs ''hash'') = Some h" "to_lower h = bk_hmac B k (join_with '':::'' vs)" "result_texts b vs"
proof -
  obtain fs vs h where f: "Option.bind body raw_pairs = Some fs" "signed_values fs = Some vs"
    "scalar (raw_field fs ''hash'') = Some h" "to_lower h = bk_hmac B k (join_with '':::'' vs)"
    "br_transaction b = vs ! 0 \<and> parse_int64 (vs ! 1) = Some (br_status b)
     \<and> br_site b = vs ! 2 \<and> br_order b = vs ! 3 \<and> parse_int64 (vs ! 4) = Some (br_amount b)
     \<and> br_currency b = vs ! 5 \<and> parse_int64 (vs ! 7) = Some (br_test b)"
    using assms by (auto simp: VerifyResult_def split: option.splits if_splits)
  moreover have "length vs = 8" using those_length f(2) unfolding signed_values_def by (fastforce simp: signed_fields_def)
  ultimately show ?thesis using that by (simp add: result_texts_def)
qed

text \<open>
  C31. A callback is accepted only with the digest, under the merchant's password, of its eight
  signed fields. If the digest is one the bank made for eight texts without a colon, the accepted
  result has exactly the transaction, status, merchant, order, amount, currency and test flag of
  those texts: the \<open>:::\<close> separator cannot be used to shift a signature onto other fields. (The
  invoice number is not among the signed fields.)
\<close>

theorem VerifyResult_authentic:
  assumes "VerifyResult B body k = Some b"
  shows "\<exists>fs vs h. Option.bind body raw_pairs = Some fs \<and> signed_values fs = Some vs
    \<and> scalar (raw_field fs ''hash'') = Some h \<and> to_lower h = bk_hmac B k (join_with '':::'' vs) \<and> result_texts b vs
    \<and> (\<forall>ws. length ws = 8 \<longrightarrow> (\<forall>v\<in>set ws. CHR '':'' \<notin> set v) \<longrightarrow> join_with '':::'' ws = join_with '':::'' vs
         \<longrightarrow> result_texts b ws)"
proof -
  obtain fs vs h where f: "Option.bind body raw_pairs = Some fs" "signed_values fs = Some vs"
    "scalar (raw_field fs ''hash'') = Some h" "to_lower h = bk_hmac B k (join_with '':::'' vs)" "result_texts b vs"
    using assms by (rule VerifyResult_Some)
  have "result_texts b ws" if "length ws = 8" "\<forall>v\<in>set ws. CHR '':'' \<notin> set v" "join_with '':::'' ws = join_with '':::'' vs" for ws
    using join_inj [of vs ws] that f(5) by (simp add: result_texts_def)
  then show ?thesis using f by blast
qed

section \<open>A concrete shop\<close>

definition s_shop :: app_state where
  "s_shop = s_app\<lparr>st_obank := s_obank\<lparr>ob_enabled := True, ob_sid := ''shop'', ob_password := ''pw'',
     ob_return_url := ''https://stroy.kg/billing''\<rparr>\<rparr>"

definition s_bank :: bank where
  "s_bank = \<lparr>bk_hmac = (\<lambda>k m. to_lower (k @ ''/'' @ m)),
     bk_call = (\<lambda>cfg t q. case q of
        CreateInvoiceReq rq \<Rightarrow> Some (RObj [(''data'', RObj [(''invoice_id'', RNum ''77''),
          (''site_pay'', RStr ''https://pay.dengi.kg/i/77'')])])
      | StatusPaymentReq i oid \<Rightarrow> Some (RObj [(''data'', RObj [(''status'', RStr ''processing''), (''payments'', RArr [])])]))\<rparr>"

definition s_order :: order_row where
  "s_order = \<lparr>o_id = ''stroy_1'', o_user = ''u2'', o_key = ''0123456789abcdef'', o_plan = ''standard'', o_period = ''month'',
     o_kgs = 3000, o_kopecks = 300000, o_currency = ''KGS'', o_status = ''pending'', o_invoice = None, o_transaction = None,
     o_url = None, o_app_link = None, o_checked = None, o_created = 0, o_updated = 0, o_paid = None\<rparr>"

definition s_paying :: world where
  "s_paying = s_team\<lparr>db := s_team_db\<lparr>orders := [s_order]\<rparr>\<rparr>"

definition s_payment :: bank_result where
  "s_payment = \<lparr>br_transaction = ''T1'', br_status = 3, br_site = ''shop'', br_order = ''stroy_1'', br_amount = 300000,
     br_currency = ''KGS'', br_test = 0, br_invoice = ''77''\<rparr>"

definition s_result :: raw where
  "s_result = RObj [(''trans_id'', RStr ''T1''), (''status_pay'', RNum ''3''), (''site_id'', RStr ''shop''),
     (''order_id'', RStr ''stroy_1''), (''amount'', RNum ''300000''), (''currency'', RStr ''KGS''), (''mktime'', RNum ''1''),
     (''test'', RNum ''0''), (''invoice_id'', RNum ''77''),
     (''hash'', RStr ''pw/t1:::3:::shop:::stroy_1:::300000:::kgs:::1:::0'')]"

theorem VerifyResult_authentic_witness:
  "VerifyResult s_bank (Some s_result) ''pw'' = Some s_payment
   \<and> (\<exists>fs vs. raw_pairs s_result = Some fs \<and> signed_values fs = Some vs \<and> result_texts s_payment vs)"
proof -
  have v: "VerifyResult s_bank (Some s_result) ''pw'' = Some s_payment" by code_simp
  show ?thesis using VerifyResult_authentic [OF v] v by auto
qed

lemma s_paying_ok: "orders_ok (db s_paying)" "txn s_paying = None"
  by (simp_all add: s_paying_def s_team_def s_world_def s_team_db_def empty_db_def orders_ok_def order_keys_ok_def
      valid_order_def links_ok_def s_order_def or_empty_def map_filter_def)

section \<open>An approved payment is accepted\<close>

lemma run_ensure_Tx:
  assumes "faults w = []" "txn w = Some (d, False)"
  shows "run_state (ensureSubscription Tx u lk) w = (case sub_ensure (now w) u d of
      None \<Rightarrow> (Inl OtherError, w\<lparr>txn := Some (ins_trial u (now w) d, False)\<rparr>)
    | Some (s, d') \<Rightarrow> (Inr s, w\<lparr>txn := Some (d', False)\<rparr>))"
  using assms
  by (cases "subscription_of (ins_trial u (now w) d) u")
    (simp_all add: ensureSubscription_def free_simps sub_ensure_def Let_def sel_subscription_def
      row_of_def split: option.splits)

lemma fst_upd_orders: "orders d1 = orders d \<Longrightarrow> fst (upd_orders p f t d1) = fst (upd_orders p f t d)"
  by (simp add: upd_orders_def Let_def)

lemma run_approved:
  assumes "faults w = []" "txn w = None" "\<not> productionOBankSandboxMode A"
    "order_by_id (db w) (br_order b) = Some x" "result_matches b (scan_order x)" "open_status (o_status x)"
    "br_status b = 3" "br_order b \<noteq> []" "br_transaction b \<noteq> []" "0 < br_amount b" "br_currency b = ''KGS''"
    "sub_ensure (now w) (o_user x) (db w) = Some (s, d1)"
    "fst (upd_paid (br_order b) (br_invoice b) (br_transaction b) (now w) (db w)) = Row 1"
  shows "fst (run_state (applyOBankResult A b) w) = None"
proof -
  let ?t = "now w"
  have i: "o_id x = br_order b" using order_by_id_Some [OF assms(4)] by simp
  have s: "sel_order (br_order b) t (db w) = Row (scan_order x)" for t
    by (simp add: sel_order_def assms(4) row_of_def)
  have st: "o_status x \<noteq> ''paid''" "o_status x \<noteq> ''canceled''" using assms(6) by (auto simp: open_status_def)
  let ?d2 = "\<lambda>p q. upd_activate (o_user x) (o_plan x) (o_period x) p q ?t d1"
  have o2: "orders (?d2 p q) = orders (db w)" for p q
    by (simp add: upd_activate_def sub_ensure_entitlement(1) [OF assms(12)])
  have u: "fst (upd_paid (br_order b) (br_invoice b) (br_transaction b) ?t (?d2 p q)) = Row 1" for p q
    using assms(13) fst_upd_orders [OF o2] unfolding upd_paid_def by metis
  define D where "D = (\<lambda>p q. snd (upd_paid (br_order b) (br_invoice b) (br_transaction b) ?t (?d2 p q)))"
  have D: "upd_paid (br_order b) (br_invoice b) (br_transaction b) ?t (?d2 p q) = (Row 1, D p q)" for p q
    using u [of p q] by (simp add: prod_eq_iff D_def)
  let ?w1 = "w\<lparr>txn := Some (db w, False)\<rparr>"
  have act: "\<exists>p q. run_state (activateSubscriptionFromPayment (scan_order x) (br_transaction b) (br_invoice b)) ?w1
      = (None, w\<lparr>txn := Some (D p q, False)\<rparr>)"
    using assms(1) by (simp add: activateSubscriptionFromPayment_def run_ensure_Tx assms(12) free_simps i D Let_def) blast
  then obtain p q where a: "run_state (activateSubscriptionFromPayment (scan_order x) (br_transaction b) (br_invoice b)) ?w1
      = (None, w\<lparr>txn := Some (D p q, False)\<rparr>)" by blast
  have "fst (run_state (applyTx A b) ?w1) = None"
    using assms(1,3,5,7) st
    by (simp add: applyTx_def isAllowedProductionOBankTestUser_def commit_result_def free_simps s a)
  then show ?thesis
    using assms(1,2,8-11)
    by (auto simp: applyOBankResult_def free_simps run_defer_rollback split: prod.splits)
qed

lemma count_one:
  assumes "distinct (map f xs)" "x \<in> set xs" "P x"
  shows "count_where (\<lambda>y. f y = f x \<and> P y) xs = 1"
  using assms
proof (induction xs)
  case (Cons y ys)
  have "count_where (\<lambda>y. f y = f x \<and> P y) ys = 0" if "f y = f x"
    using Cons.prems(1) that by (auto simp: count_where_zero) (metis image_eqI)
  then show ?case using Cons by auto
qed simp

lemma upd_paid_one:
  assumes "orders_ok d" "order_by_id d i = Some x" "open_status (o_status x)" "fst (upd_paid i iv tn t d) \<noteq> SqlErr"
  shows "fst (upd_paid i iv tn t d) = Row 1"
proof -
  have x: "x \<in> set (orders d)" "o_id x = i" using order_by_id_Some [OF assms(2)] by auto
  have "count_where (\<lambda>y. o_id y = o_id x \<and> open_status (o_status y)) (orders d) = 1"
    by (rule count_one) (use assms(1,3) x in \<open>auto simp: orders_ok_def\<close>)
  then show ?thesis using assms(4) x(2) by (auto simp: upd_paid_def upd_orders_def Let_def split: if_splits)
qed

lemma s_payment_accepted: "fst (run_state (applyOBankResult s_shop s_payment) s_paying) = None"
proof -
  have "sub_ensure (now s_paying) (o_user s_order) (db s_paying) \<noteq> None" by code_simp
  then obtain s d1 where s: "sub_ensure (now s_paying) (o_user s_order) (db s_paying) = Some (s, d1)" by auto
  show ?thesis by (rule run_approved [OF _ _ _ _ _ _ _ _ _ _ _ s]) code_simp+
qed

lemma case_prod_mono: "(case p of (x, y) \<Rightarrow> P x y) \<Longrightarrow> (\<And>x y. P x y \<Longrightarrow> R x y) \<Longrightarrow> (case p of (x, y) \<Rightarrow> R x y)"
  by (cases p) simp

section \<open>Paid exactly once\<close>

text \<open>
  C32. Applying a result of the bank. When it is refused, nothing is stored. When it is accepted,
  the order exists, the amount is the ordered one in KGS, the transaction is the one stored or the
  first, and either the order was paid before and nothing changes, or it makes exactly one move: to
  processing, to canceled, or from an open phase to paid; in the last case, and only then, the plan
  ordered is granted to the account that ordered it, for one period from the end of a paid period
  that is still running, or from now.
\<close>

theorem applyOBankResult_exact:
  assumes "orders_ok (db w)" "txn w = None"
  shows "case run_state (applyOBankResult A b) w of (e, w') \<Rightarrow> txn w' = None \<and>
     (case e of Some x \<Rightarrow> db w' = db w
      | None \<Rightarrow> 0 < br_amount b \<and> br_currency b = ''KGS'' \<and> br_transaction b \<noteq> [] \<and> orders_ok (db w')
          \<and> result_applied A b (now w) (db w) (db w'))"
proof -
  have "wp (applyOBankResult A b) (\<lambda>e w'. txn w' = None \<and>
     (case e of Some x \<Rightarrow> db w' = db w
      | None \<Rightarrow> 0 < br_amount b \<and> br_currency b = ''KGS'' \<and> br_transaction b \<noteq> [] \<and> orders_ok (db w')
          \<and> result_applied A b (now w) (db w) (db w'))) w"
    by (intro wps) (auto simp: assms dest: applied_change [OF assms(1)] change_ok)
  then show ?thesis by (simp add: wp_def)
qed

theorem applyOBankResult_exact_witness:
  "fst (run_state (applyOBankResult s_shop s_payment) s_paying) = None
   \<and> result_applied s_shop s_payment (now s_paying) (db s_paying) (db (snd (run_state (applyOBankResult s_shop s_payment) s_paying)))"
proof -
  obtain e w' where r: "run_state (applyOBankResult s_shop s_payment) s_paying = (e, w')" by fastforce
  have "fst (run_state (applyOBankResult s_shop s_payment) s_paying) = None" by (rule s_payment_accepted)
  then have e: "e = None" by (simp only: r fst_conv)
  show ?thesis
    using applyOBankResult_exact [OF s_paying_ok, where A = s_shop and b = s_payment]
    unfolding r prod.case e option.case fst_conv snd_conv by blast
qed

lemma in_map_filter: "v \<in> set (List.map_filter f xs) \<longleftrightarrow> (\<exists>y\<in>set xs. f y = Some v)"
  by (force simp: map_filter_def)

lemma distinct_keys_upd:
  assumes "distinct (map o_id xs)" "distinct (List.map_filter f xs)" "\<And>y. y \<in> set xs \<Longrightarrow> p y \<Longrightarrow> o_id y = i"
    "\<And>y z. y \<in> set xs \<Longrightarrow> z \<in> set xs \<Longrightarrow> p z \<Longrightarrow> o_id y \<noteq> i \<Longrightarrow> f y = None \<or> f y \<noteq> f (g z)"
  shows "distinct (List.map_filter f (upd_where p g xs))"
  using assms
proof (induction xs)
  case (Cons x xs)
  have ih: "distinct (List.map_filter f (upd_where p g xs))"
    by (rule Cons.IH) (use Cons.prems in \<open>auto simp: List.map_filter_simps split: option.splits\<close>)
  show ?case
  proof (cases "p x")
    case True
    then have id: "o_id x = i" using Cons.prems(3) by simp
    have ne: "\<not> p y \<and> o_id y \<noteq> i" if y: "y \<in> set xs" for y
    proof -
      have "o_id y \<noteq> i" using Cons.prems(1) y id by (metis distinct.simps(2) image_eqI list.set_map list.simps(9))
      then show ?thesis using Cons.prems(3) [of y] y by auto
    qed
    then have "upd_where p g xs = xs" "\<And>y v. y \<in> set xs \<Longrightarrow> f y = Some v \<Longrightarrow> f (g x) \<noteq> Some v"
      using Cons.prems(4) [of _ x] True ne by (fastforce simp: upd_where_def intro: map_idI)+
    then show ?thesis using True ih Cons.prems(2)
      by (auto simp: upd_where_def List.map_filter_simps in_map_filter split: option.splits)
  next
    case False
    have "v \<notin> set (List.map_filter f (upd_where p g xs))" if v: "f x = Some v" for v
    proof
      assume "v \<in> set (List.map_filter f (upd_where p g xs))"
      then obtain y where y: "y \<in> set xs" "f (if p y then g y else y) = Some v"
        by (auto simp: in_map_filter upd_where_def)
      show False
      proof (cases "p y")
        case True
        then have "o_id y = i" using Cons.prems(3) [of y] y(1) by simp
        then have "o_id x \<noteq> i" using Cons.prems(1) y(1) by (metis distinct.simps(2) image_eqI list.set_map list.simps(9))
        then show False using Cons.prems(4) [of x y] True y v by auto
      next
        case False
        then have "v \<in> set (List.map_filter f xs)" using y by (auto simp: in_map_filter)
        then show False using Cons.prems(2) v by (simp add: List.map_filter_simps)
      qed
    qed
    then show ?thesis using False ih by (auto simp: upd_where_def List.map_filter_simps split: option.splits)
  qed
qed simp

lemma same_key:
  "distinct (List.map_filter f xs) \<Longrightarrow> y \<in> set xs \<Longrightarrow> z \<in> set xs \<Longrightarrow> f y = f z \<Longrightarrow> f y \<noteq> None \<Longrightarrow> y = z"
proof (induction xs)
  case (Cons x xs)
  have d: "distinct (List.map_filter f xs)" "\<And>v. f x = Some v \<Longrightarrow> v \<notin> set (List.map_filter f xs)"
    using Cons.prems(1) by (auto simp: List.map_filter_simps split: option.splits)
  have e: "f u \<noteq> f x" if u: "u \<in> set xs" "f x \<noteq> None" for u
  proof
    assume same: "f u = f x"
    obtain v where v: "f x = Some v" using u(2) by auto
    then have "v \<in> set (List.map_filter f xs)" using u(1) same by (auto simp: in_map_filter)
    then show False using d(2) [OF v] by blast
  qed
  show ?case using Cons.prems(2-) e [of y] e [of z] Cons.IH [OF d(1)] by auto
qed simp

lemma upd_paid_free:
  assumes "orders_ok d" "order_by_id d i = Some x"
    "\<And>y. y \<in> set (orders d) \<Longrightarrow> o_id y \<noteq> i \<Longrightarrow> o_transaction y \<noteq> Some tn \<and> (iv = [] \<or> o_invoice y \<noteq> Some iv)"
  shows "fst (upd_paid i iv tn t d) \<noteq> SqlErr"
proof -
  let ?p = "\<lambda>x. o_id x = i \<and> open_status (o_status x)"
  let ?f = "\<lambda>x. x\<lparr>o_status := ''paid'', o_invoice := keep_or (o_invoice x) iv, o_transaction := Some tn,
     o_paid := Some t, o_updated := t\<rparr>"
  have k: "order_keys_ok (orders d)" "distinct (map o_id (orders d))" using assms(1) by (simp_all add: orders_ok_def)
  have one: "y = z" if "y \<in> set (orders d)" "z \<in> set (orders d)" "o_id y = o_id z" for y z
    using k(2) that by (metis distinct_map inj_onD)
  have inv: "o_invoice y \<noteq> o_invoice z" if "y \<in> set (orders d)" "z \<in> set (orders d)" "o_id y \<noteq> o_id z" "o_invoice y \<noteq> None" for y z
    using same_key [of o_invoice "orders d" y z] k(1) that by (auto simp: order_keys_ok_def)
  have inv2: "o_invoice y = None \<or> o_invoice y \<noteq> keep_or (o_invoice z) iv"
    if "y \<in> set (orders d)" "z \<in> set (orders d)" "?p z" "o_id y \<noteq> i" for y z
    using inv [of y z] assms(3) [of y] that by (auto simp: keep_or_def null_if_empty_def)
  have "order_keys_ok (upd_where ?p ?f (orders d))"
    unfolding order_keys_ok_def
    using k assms(3) inv2
    by (intro conjI; intro distinct_keys_upd [where i = i]) (auto simp: order_keys_ok_def)
  then show ?thesis by (simp add: upd_paid_def upd_orders_def Let_def)
qed
lemma sub_ensure_known:
  assumes "user_by_id d u \<noteq> None" "\<And>s. subscription_of d u = Some s \<Longrightarrow> planByCode (s_plan s) \<noteq> None"
  shows "sub_ensure t u d \<noteq> None"
proof -
  have "planByCode ''trial'' \<noteq> None" by code_simp
  then show ?thesis
    using assms by (auto simp: sub_ensure_def Let_def subscription_of_ins_trial split: option.splits)
qed

text \<open>
  C34. A payment is not lost: an approved result (status 3) whose amount, currency, invoice and transaction agree with its
  open order is accepted; the order is paid with this transaction and the account has its plan, active, until the end of the new
  period. This is outside the production sandbox mode, when no database call fails, the account exists with no
  subscription or one to a known plan, and no other order holds the transaction or the invoice of the result.
\<close>

theorem payment_accepted:
  assumes "orders_ok (db w)" "faults w = []" "txn w = None" "\<not> productionOBankSandboxMode A"
    "order_by_id (db w) (br_order b) = Some x" "result_matches b (scan_order x)" "open_status (o_status x)"
    "br_status b = 3" "br_transaction b \<noteq> []" "br_order b \<noteq> []"
    "user_by_id (db w) (o_user x) \<noteq> None"
    "\<And>s. subscription_of (db w) (o_user x) = Some s \<Longrightarrow> planByCode (s_plan s) \<noteq> None"
    "\<And>y. y \<in> set (orders (db w)) \<Longrightarrow> o_id y \<noteq> br_order b \<Longrightarrow>
      o_transaction y \<noteq> Some (br_transaction b) \<and> (br_invoice b = [] \<or> o_invoice y \<noteq> Some (br_invoice b))"
  shows "case run_state (applyOBankResult A b) w of (e, w') \<Rightarrow> e = None
     \<and> (\<exists>x'. order_by_id (db w') (br_order b) = Some x' \<and> o_status x' = ''paid'' \<and> o_transaction x' = Some (br_transaction b))
     \<and> pays (now w) (db w) (db w') x"
proof -
  note x = order_by_id_Some [OF assms(5)]
  have v: "valid_order x" using assms(1) x by (simp add: orders_ok_def)
  then have k: "0 < br_amount b" "br_currency b = ''KGS''"
    using assms(6) by (auto simp: result_matches_def valid_order_def)
  have "sub_ensure (now w) (o_user x) (db w) \<noteq> None" using assms(11,12) by (rule sub_ensure_known)
  then obtain s d1 where s: "sub_ensure (now w) (o_user x) (db w) = Some (s, d1)" by auto
  have "fst (upd_paid (br_order b) (br_invoice b) (br_transaction b) (now w) (db w)) \<noteq> SqlErr"
    using assms(1,5,13) by (rule upd_paid_free)
  then have "fst (upd_paid (br_order b) (br_invoice b) (br_transaction b) (now w) (db w)) = Row 1"
    by (rule upd_paid_one [OF assms(1,5,7)])
  then have n: "fst (run_state (applyOBankResult A b) w) = None"
    by (intro run_approved [OF assms(2-8) assms(10,9) k s])
  have "wp (applyOBankResult A b) (\<lambda>e w'. e = None \<longrightarrow> result_applied A b (now w) (db w) (db w')) w"
    by (intro wps) (auto simp: assms(1,3))
  then show ?thesis
    using n assms(5,7,8) by (auto simp: wp_def result_applied_def open_status_def split: prod.splits)
qed

theorem payment_accepted_witness:
  "case run_state (applyOBankResult s_shop s_payment) s_paying of (e, w') \<Rightarrow> e = None \<and> pays (now s_paying) (db s_paying) (db w') s_order"
proof -
  have c: "faults s_paying = []" "order_by_id (db s_paying) (br_order s_payment) = Some s_order"
    "\<not> productionOBankSandboxMode s_shop" "result_matches s_payment (scan_order s_order)" "open_status (o_status s_order)"
    "br_status s_payment = 3" "br_transaction s_payment \<noteq> []" "br_order s_payment \<noteq> []"
    "user_by_id (db s_paying) (o_user s_order) \<noteq> None" "subscription_of (db s_paying) (o_user s_order) = None"
    "orders (db s_paying) = [s_order]" "o_id s_order = br_order s_payment"
    by code_simp+
  have r: "case run_state (applyOBankResult s_shop s_payment) s_paying of (e, w') \<Rightarrow> e = None
     \<and> (\<exists>x'. order_by_id (db w') (br_order s_payment) = Some x' \<and> o_status x' = ''paid'' \<and> o_transaction x' = Some (br_transaction s_payment))
     \<and> pays (now s_paying) (db s_paying) (db w') s_order"
    by (rule payment_accepted [OF s_paying_ok(1) c(1) s_paying_ok(2) c(3,2,4-9)]) (use c(10-12) in auto)
  show ?thesis by (rule case_prod_mono [OF r]) simp
qed

section \<open>Every payment request refines the ledger\<close>

text \<open>One payment request of the process, a callback of the bank, or the passing of time.\<close>

inductive pay_step :: "app_state \<Rightarrow> bank \<Rightarrow> world \<Rightarrow> world \<Rightarrow> bool" where
  checkout: "run_state (SubscriptionCheckout A B r) w = (resp, w') \<Longrightarrow> pay_step A B w w'"
| callback: "run_state (OBankResult A B body r) w = (resp, w') \<Longrightarrow> pay_step A B w w'"
| tick: "now w \<le> t \<Longrightarrow> pay_step A B w (w\<lparr>now := t\<rparr>)"

lemma wp_SubscriptionCheckout:
  assumes ok: "orders_ok (db w)" and tx: "txn w = None"
  shows "wp (SubscriptionCheckout A B r) (\<lambda>resp w'. txn w' = None \<and> now w' = now w \<and> pay_change (now w) (db w) (db w')) w"
  unfolding SubscriptionCheckout_def
  by (intro wps wp_mono [OF wp_getCheckout [OF ok tx]] wp_mono [OF wp_postCheckout [OF ok tx]])
    (auto simp: tx intro: change_refl [OF ok])

lemma wp_callback:
  assumes ok: "orders_ok (db w)" and tx: "txn w = None"
  shows "wp (OBankResult A B body r) (\<lambda>resp w'. txn w' = None \<and> now w' = now w \<and> pay_change (now w) (db w) (db w')) w"
  by (rule wp_mono [OF wp_OBankResult [OF ok tx]])
    (auto split: resp.splits intro: change_refl [OF ok] applied_change [OF ok])

lemma pay_step_change:
  assumes "pay_step A B w w'" "orders_ok (db w)" "txn w = None"
  shows "txn w' = None \<and> now w \<le> now w' \<and> pay_change (now w) (db w) (db w')"
  using assms(1)
proof cases
  case (checkout r resp)
  show ?thesis using wpD [OF wp_SubscriptionCheckout [OF assms(2,3)] checkout] by simp
next
  case (callback body r resp)
  show ?thesis using wpD [OF wp_callback [OF assms(2,3)] callback] by simp
next
  case (tick t)
  then show ?thesis using assms(2,3) change_refl by simp
qed

lemma open_count_antimono: "t \<le> t' \<Longrightarrow> open_count t' d u \<le> open_count t d u"
  unfolding open_count_def by (rule count_where_mono) (auto simp: open_order_def)

text \<open>
  C33. Every sequence of checkout requests and callbacks, whatever their bodies and whatever fails,
  is a run of the abstract ledger: an order is created once with its account, plan, period and
  amount, which never change, and moves only from pending to processing, paid or canceled and from
  processing to paid or canceled; a paid order stays paid. The consistency of the orders (unique
  keys, invoices and transactions, amounts in kopecks, paid exactly with a payment time and a
  transaction, links of the bank only) holds in every reachable state, and an account has at most
  one open order of the last day unless it had more before.
\<close>

theorem payments_refine_ledger:
  assumes "(pay_step A B)\<^sup>*\<^sup>* w w'" "orders_ok (db w)" "txn w = None"
  shows "ledger_step\<^sup>*\<^sup>* (ledger (db w)) (ledger (db w')) \<and> orders_ok (db w') \<and> txn w' = None
    \<and> (\<forall>i p s. ledger (db w) i = Some (p, s) \<longrightarrow> (\<exists>s'. ledger (db w') i = Some (p, s') \<and> (s' = s \<or> may_become s s')))
    \<and> (\<forall>u. open_count (now w') (db w') u \<le> max 1 (open_count (now w) (db w) u))"
proof -
  have "ledger_step\<^sup>*\<^sup>* (ledger (db w)) (ledger (db w')) \<and> orders_ok (db w') \<and> txn w' = None
    \<and> (\<forall>u. open_count (now w') (db w') u \<le> max 1 (open_count (now w) (db w) u))"
    using assms(1)
  proof (induction rule: rtranclp_induct)
    case (step y z)
    then have y: "orders_ok (db y)" "txn y = None" by auto
    note c = pay_step_change [OF step.hyps(2) y]
    then have p: "ledger_step (ledger (db y)) (ledger (db z))" "orders_ok (db z)"
      "\<And>u. open_count (now y) (db z) u \<le> max 1 (open_count (now y) (db y) u)"
      by (auto simp: pay_change_def)
    have "open_count (now z) (db z) u \<le> max 1 (open_count (now w) (db w) u)" for u
      using open_count_antimono [of "now y" "now z" "db z" u] c p(3) [of u] step.IH
      by (meson le_max_iff_disj max.bounded_iff order.trans order_refl)
    then show ?case using c p step.IH by (auto intro: rtranclp.rtrancl_into_rtrancl)
  qed (use assms(2,3) in auto)
  then show ?thesis using ledger_steps_keep by blast
qed

section \<open>An invoice without a payment page\<close>

text \<open>
  \<open>CreateInvoice\<close> accepts an invoice that has only an app link, but the checkout looks at the payment
  page to see whether there is an invoice: repeating such a checkout makes a second invoice, and the
  result of the first one is refused from then on.
\<close>

lemma run_createInvoice:
  assumes "planByCode (po_plan po) \<noteq> None" "url_parse (ob_return_url (st_obank A)) \<noteq> None"
    "\<And>rq. CreateInvoice B (st_obank A) (now w) rq = Some v"
  shows "run_state (createOBankInvoice A B po) w = (Some v, w)"
  using assms by (auto simp: createOBankInvoice_def split: option.splits)

lemma paid_plans: "planByCode ''standard'' = Some standardPlan" "planByCode ''max'' = Some maxPlan"
  by code_simp+

lemma app_link_only_reissued:
  assumes "orders_ok (db w)" "faults w = []" "order_by_id (db w) i = Some x" "open_status (o_status x)"
    "o_invoice x = Some old" "old \<noteq> []" "or_empty (o_url x) = []" "or_empty (o_app_link x) \<noteq> []"
    "url_parse (ob_return_url (st_obank A)) \<noteq> None" "\<And>rq. CreateInvoice B (st_obank A) (now w) rq = Some v"
    "inv_id v \<noteq> old" "fst (upd_invoice i v (now w) (db w)) = Row 1"
  shows "case run_state (checkout_with_order A B (scan_order x)) w of (resp, w') \<Rightarrow> status_of resp = 201
     \<and> (\<exists>x'. order_by_id (db w') i = Some x' \<and> o_invoice x' = Some (inv_id v)
          \<and> (\<forall>b. br_invoice b = old \<longrightarrow> \<not> result_matches b (scan_order x')))"
proof -
  have i: "o_id x = i" using order_by_id_Some [OF assms(3)] by simp
  obtain d where u: "upd_invoice i v (now w) (db w) = (Row 1, d)" using assms(12) by (metis prod.collapse)
  then have u1: "upd_invoice i v (now w) (db w) = (Row (Suc 0), d)" by simp
  obtain x' where x': "order_by_id d i = Some x'" "o_invoice x' = Some (inv_id v)"
    by (rule upd_invoice_Row1 [OF assms(1) u1]) simp
  have v: "inv_id v \<noteq> []" using CreateInvoice_ok [OF assms(10)] by (simp add: invoice_ok_def)
  have "valid_order x" using assms(1) order_by_id_Some [OF assms(3)] by (simp add: orders_ok_def)
  then have "o_plan x = ''standard'' \<or> o_plan x = ''max''" by (simp add: valid_order_def)
  then have "planByCode (o_plan x) \<noteq> None" using paid_plans by (elim disjE) simp_all
  then have "run_state (createOBankInvoice A B (scan_order x)) w = (Some v, w)"
    by (intro run_createInvoice [OF _ assms(9,10)]) simp
  moreover have "o_status x \<noteq> ''paid''" "o_status x \<noteq> ''canceled''" using assms(4) by (auto simp: open_status_def)
  ultimately show ?thesis
    using x' v assms(2,6,7,11)
    by (simp add: checkout_with_order_def saveOBankInvoice_def free_simps i u) (auto simp: result_matches_def or_empty_def)
qed

definition s_buy :: request where
  "s_buy = s_as ''u2'' (s_req ''POST'' ''/api/v1/subscription/checkout'' (JObj [(''plan_id'', JStr ''standard''),
     (''billing_period'', JStr ''month''), (''idempotency_key'', JStr ''0123456789abcdef'')]))"

lemma s_bank_invoice: "CreateInvoice s_bank cfg t rq = Some \<lparr>inv_id = ''77'', inv_url = ''https://pay.dengi.kg/i/77'', inv_app_link = []\<rparr>"
proof -
  let ?fs = "[(''invoice_id'', RNum ''77''), (''site_pay'', RStr ''https://pay.dengi.kg/i/77'')]"
  have "response_data (RObj [(''data'', RObj ?fs)]) = Some ?fs"
    "invoice_of ?fs = Some \<lparr>inv_id = ''77'', inv_url = ''https://pay.dengi.kg/i/77'', inv_app_link = []\<rparr>" by code_simp+
  then show ?thesis by (simp add: CreateInvoice_def s_bank_def)
qed

lemma s_buy_reply: "status_of (fst (run_state (SubscriptionCheckout s_shop s_bank s_buy) s_paying)) = 201"
proof -
  have c: "rq_method s_buy = ''POST''" "ob_enabled (st_obank s_shop)" "st_db s_shop" "\<not> productionOBankSandboxMode s_shop"
    "decode_checkout s_buy = Some \<lparr>cr_plan = ''standard'', cr_period = ''month'', cr_key = ''0123456789abcdef''\<rparr>"
    "safeIdempotencyKey ''0123456789abcdef''" "planByCode ''standard'' = Some standardPlan"
    "planPrice s_shop standardPlan ''month'' = Some 3000" "userIDFromContext s_buy = ''u2''" "pl_id standardPlan = ''standard''"
    "url_parse (ob_return_url (st_obank s_shop)) \<noteq> None" by code_simp+
  have f: "faults s_paying = []" by code_simp
  have k: "sel_keyed_order ''u2'' ''0123456789abcdef'' (now s_paying) (db s_paying) = Row (scan_order s_order)" by code_simp
  have "sub_ensure (now s_paying) ''u2'' (db s_paying) \<noteq> None" by code_simp
  then obtain s d1 where s: "sub_ensure (now s_paying) ''u2'' (db s_paying) = Some (s, d1)" by auto
  note o = sub_ensure_entitlement(1) [OF s]
  have k1: "sel_keyed_order ''u2'' ''0123456789abcdef'' (now s_paying) d1 = Row (scan_order s_order)"
    using k by (simp add: sel_keyed_order_def o)
  let ?v = "\<lparr>inv_id = ''77'', inv_url = ''https://pay.dengi.kg/i/77'', inv_app_link = []\<rparr>"
  have "fst (upd_invoice ''stroy_1'' ?v (now s_paying) (db s_paying)) = Row 1" by code_simp
  then have "fst (upd_invoice ''stroy_1'' ?v (now s_paying) d1) = Row 1"
    using fst_upd_orders [OF o] by (simp add: upd_invoice_def)
  then obtain d2 where u: "upd_invoice ''stroy_1'' ?v (now s_paying) d1 = (Row 1, d2)" by (metis prod.collapse)
  have q: "same_purchase \<lparr>cr_plan = ''standard'', cr_period = ''month'', cr_key = ''0123456789abcdef''\<rparr> 3000 (scan_order s_order)"
    "po_status (scan_order s_order) = ''pending''" "po_plan (scan_order s_order) = ''standard''"
    "\<not> po_created (scan_order s_order) < now s_paying - 24 * hour" "po_url (scan_order s_order) = []" "po_id (scan_order s_order) = ''stroy_1''"
    by code_simp+
  have r: "run_state (reserveSubscriptionCheckout ''u2'' \<lparr>cr_plan = ''standard'', cr_period = ''month'', cr_key = ''0123456789abcdef''\<rparr> 3000) s_paying
     = (Inr (scan_order s_order), s_paying\<lparr>db := d1\<rparr>)"
    using f s_paying_ok(2)
    by (simp add: reserveSubscriptionCheckout_def reserveOrderTx_def commit_order_def free_simps run_ensure_Tx s k1 q run_defer_rollback
        del: scan_order_simps)
  have i: "run_state (createOBankInvoice s_shop s_bank (scan_order s_order)) (s_paying\<lparr>db := d1\<rparr>) = (Some ?v, s_paying\<lparr>db := d1\<rparr>)"
    using c(11) q(3) paid_plans by (intro run_createInvoice) (simp_all add: s_bank_invoice)
  show ?thesis
    using f by (simp add: SubscriptionCheckout_def postSubscriptionCheckout_def isAllowedProductionOBankTestUser_def c r
        checkout_with_order_def saveOBankInvoice_def i q u free_simps del: scan_order_simps)
qed

theorem payments_refine_ledger_witness:
  "ledger_step\<^sup>*\<^sup>* (ledger (db s_paying)) (ledger (db (snd (run_state (SubscriptionCheckout s_shop s_bank s_buy) s_paying))))
   \<and> orders_ok (db (snd (run_state (SubscriptionCheckout s_shop s_bank s_buy) s_paying)))"
proof -
  obtain resp w' where r: "run_state (SubscriptionCheckout s_shop s_bank s_buy) s_paying = (resp, w')" by fastforce
  have "(pay_step s_shop s_bank)\<^sup>*\<^sup>* s_paying w'" using pay_step.checkout [OF r] by (rule r_into_rtranclp)
  from payments_refine_ledger [OF this s_paying_ok] show ?thesis unfolding r snd_conv by blast
qed

section \<open>What a checkout answers\<close>

text \<open>
  C35. A checkout request succeeds only for an account that may pay (in the production sandbox only
  the test account), with a well-formed idempotency key and a paid plan at its price; the answer is
  an order of the caller for exactly that plan, period and price: with 200 a paid one, with 201 an
  open one that has a link to pay. A key recorded with an order before gives that order. A key not recorded yet gives a new order, which
  records it, or an open order the caller already has; the key then stays unrecorded, so that it is as good as new
  once this order is paid. A status request answers an order of the caller. Refused requests answer one of the listed errors.
\<close>

theorem SubscriptionCheckout_answers:
  assumes "orders_ok (db w)" "txn w = None"
  shows "case run_state (SubscriptionCheckout A B r) w of (resp, w') \<Rightarrow>
    (case resp of Error s m \<Rightarrow> s \<in> {400, 403, 404, 405, 409, 500, 502, 503}
     | Reply s p \<Rightarrow> sandbox_user A (db w) (userIDFromContext r) \<and>
         (if rq_method r = ''GET'' then s = 200 \<and>
            (\<exists>x\<in>set (orders (db w')). o_user x = userIDFromContext r \<and> p = checkout_response (scan_order x))
          else rq_method r = ''POST'' \<and>
            (\<exists>q kgs. asked A r q kgs \<and> checkout_answer (userIDFromContext r) q kgs (db w) (db w') s p)))"
proof -
  have "wp (SubscriptionCheckout A B r) (\<lambda>resp w'.
    (case resp of Error s m \<Rightarrow> s \<in> {400, 403, 404, 405, 409, 500, 502, 503}
     | Reply s p \<Rightarrow> sandbox_user A (db w) (userIDFromContext r) \<and>
         (if rq_method r = ''GET'' then s = 200 \<and>
            (\<exists>x\<in>set (orders (db w')). o_user x = userIDFromContext r \<and> p = checkout_response (scan_order x))
          else rq_method r = ''POST'' \<and>
            (\<exists>q kgs. asked A r q kgs \<and> checkout_answer (userIDFromContext r) q kgs (db w) (db w') s p)))) w"
    unfolding SubscriptionCheckout_def
    by (intro wps wp_mono [OF wp_getCheckout [OF assms]] wp_mono [OF wp_postCheckout [OF assms]])
      (auto split: resp.splits)
  then show ?thesis by (simp add: wp_def)
qed

theorem SubscriptionCheckout_answers_witness:
  "case run_state (SubscriptionCheckout s_shop s_bank s_buy) s_paying of (resp, w') \<Rightarrow> status_of resp = 201
     \<and> (\<exists>q p. asked s_shop s_buy q 3000 \<and> resp = Reply 201 p \<and> checkout_answer ''u2'' q 3000 (db s_paying) (db w') 201 p)"
proof -
  obtain resp w' where r: "run_state (SubscriptionCheckout s_shop s_bank s_buy) s_paying = (resp, w')" by fastforce
  have s: "status_of resp = 201" using s_buy_reply unfolding r fst_conv .
  have m: "rq_method s_buy = ''POST''" "userIDFromContext s_buy = ''u2''" by code_simp+
  have p: "kgs = 3000" if "asked s_shop s_buy q kgs" for q kgs
  proof -
    have "decode_checkout s_buy = Some \<lparr>cr_plan = ''standard'', cr_period = ''month'', cr_key = ''0123456789abcdef''\<rparr>"
      "planPrice s_shop standardPlan ''month'' = Some 3000" "\<not> productionOBankSandboxMode s_shop" by code_simp+
    then show ?thesis using that paid_plans by (auto simp: asked_def)
  qed
  have "case resp of Error s m \<Rightarrow> s \<in> {400, 403, 404, 405, 409, 500, 502, 503}
     | Reply s p \<Rightarrow> \<exists>q kgs. asked s_shop s_buy q kgs \<and> checkout_answer ''u2'' q kgs (db s_paying) (db w') s p"
    using SubscriptionCheckout_answers [OF s_paying_ok, where A = s_shop and B = s_bank and r = s_buy]
    by (cases resp) (simp_all add: r m)
  then show ?thesis using s p by (cases resp) (auto simp: r)
qed

end
