(* ===== verification/Storage_Keys.thy ===== *)
theory Storage_Keys
  imports Http
begin

text \<open>
  Keys of stored files (\<open>internal/storage/key.go\<close>), the storage path checks of \<open>httpapi/files.go\<close>
  and the path functions of Go's \<open>path\<close> and \<open>path/filepath\<close> (Unix) they use. \<open>path_clean\<close> is the
  lexical algorithm of \<open>path.Clean\<close>: the segments are read left to right onto a stack.
\<close>

section \<open>path.Clean, path.Join, path.Base\<close>

text \<open>The stack holds the segments kept so far, the last one first.\<close>

fun clean_segs :: "bool \<Rightarrow> string list \<Rightarrow> string list \<Rightarrow> string list" where
  "clean_segs rooted acc [] = rev acc"
| "clean_segs rooted acc (s # ss) =
     (if s = [] \<or> s = ''.'' then clean_segs rooted acc ss
      else if s = ''..'' then
        (case acc of
           [] \<Rightarrow> clean_segs rooted (if rooted then [] else [s]) ss
         | a # as \<Rightarrow> clean_segs rooted (if a = ''..'' then s # acc else as) ss)
      else clean_segs rooted (s # acc) ss)"

definition path_clean :: "string \<Rightarrow> string" where
  "path_clean p =
     (let rooted = has_prefix ''/'' p;
          body = join_with ''/'' (clean_segs rooted [] (split_on CHR ''/'' p))
      in if rooted then CHR ''/'' # body else if body = [] then ''.'' else body)"

definition path_join :: "string list \<Rightarrow> string" where
  "path_join es = (let ne = filter (\<lambda>e. e \<noteq> []) es in if ne = [] then [] else path_clean (join_with ''/'' ne))"

definition trim_trailing_slashes :: "string \<Rightarrow> string" where
  "trim_trailing_slashes p = rev (dropWhile (\<lambda>c. c = CHR ''/'') (rev p))"

definition path_base :: "string \<Rightarrow> string" where
  "path_base p =
     (if p = [] then ''.''
      else let q = trim_trailing_slashes p; b = last (split_on CHR ''/'' q) in
        if b = [] then ''/'' else b)"

text \<open>\<open>strings.ReplaceAll(s, old, new)\<close> for single bytes.\<close>

definition replace_char :: "char \<Rightarrow> char \<Rightarrow> string \<Rightarrow> string" where
  "replace_char a b s = map (\<lambda>c. if c = a then b else c) s"

section \<open>Object keys\<close>

definition cleanKey :: "string \<Rightarrow> string option" where
  "cleanKey key =
     (if key = [] \<or> CHR 0x00 \<in> set key \<or> CHR 0x5C \<in> set key \<or> has_prefix ''/'' key then None
      else if path_clean key \<noteq> key \<or> key = ''.'' then None
      else if list_ex (\<lambda>s. s = [] \<or> s = ''.'' \<or> s = ''..'') (split_on CHR ''/'' key) then None
      else Some key)"

definition isSafeStoragePath :: "string \<Rightarrow> bool" where
  "isSafeStoragePath value0 =
     (let value = replace_char CHR 0x5C CHR ''/'' (trim_space value0) in
      if value = [] \<or> has_prefix ''/'' value then False
      else if 2 \<le> length value \<and> is_alpha (value ! 0) \<and> value ! 1 = CHR '':'' then False
      else if list_ex (\<lambda>part. part = ''..'') (split_on CHR ''/'' value) then False
      else let cleaned = path_clean value in
        cleaned \<noteq> ''.'' \<and> cleaned \<noteq> ''..'' \<and> \<not> has_prefix ''../'' cleaned \<and> \<not> contains_sub ''/../'' cleaned)"

definition sanitizeOriginalName :: "string \<Rightarrow> string" where
  "sanitizeOriginalName value =
     (let name = trim_space (path_base (replace_char CHR 0x5C CHR ''/'' value)) in
      if name = ''.'' \<or> name = ''..'' \<or> 255 < length name then [] else name)"

text \<open>
  \<open>filepath.Rel(root, target)\<close> for the absolute, clean paths it is called with here: the segments of
  the target below the root, or enough \<open>..\<close> to leave it.
\<close>

fun drop_common :: "string list \<Rightarrow> string list \<Rightarrow> string list \<times> string list" where
  "drop_common (a # as) (b # bs) = (if a = b then drop_common as bs else (a # as, b # bs))"
| "drop_common as bs = (as, bs)"

definition path_segs :: "string \<Rightarrow> string list" where
  "path_segs p = filter (\<lambda>s. s \<noteq> []) (split_on CHR ''/'' p)"

definition path_rel :: "string \<Rightarrow> string \<Rightarrow> string" where
  "path_rel base target =
     (case drop_common (path_segs base) (path_segs target) of
        (up, down) \<Rightarrow> if up = [] \<and> down = [] then ''.''
          else join_with ''/'' (replicate (length up) ''..'' @ down))"

text \<open>\<open>LocalStore.pathFor\<close>: the file of a key, or nothing when it would leave the root.\<close>

definition pathFor :: "string \<Rightarrow> string \<Rightarrow> string option" where
  "pathFor base key =
     (let destination = path_clean (path_join [base, key]); relative = path_rel base destination in
      if relative = ''.'' \<or> relative = ''..'' \<or> has_prefix ''../'' relative then None else Some destination)"

text \<open>\<open>resolveStoredFilePath\<close> (\<open>files.go\<close>) for an absolute upload directory.\<close>

definition resolveStoredFilePath :: "string \<Rightarrow> string \<Rightarrow> string option" where
  "resolveStoredFilePath base0 storagePath0 =
     (let base = path_clean (trim_space base0);
          storagePath = replace_char CHR 0x5C CHR ''/'' (trim_space storagePath0)
      in if base = [] \<or> base = ''.'' \<or> \<not> isSafeStoragePath storagePath then None
      else let absolutePath = path_clean (path_join [base, storagePath]);
               relative = path_rel base absolutePath
        in if relative = ''.'' \<or> relative = ''..'' \<or> has_prefix ''../'' relative then None
           else Some absolutePath)"

section \<open>What a key is\<close>

text \<open>The reference definition: non-empty segments, none of them \<open>.\<close> or \<open>..\<close>, no NUL, no backslash.\<close>

definition plain_seg :: "string \<Rightarrow> bool" where
  "plain_seg s \<longleftrightarrow> s \<noteq> [] \<and> s \<noteq> ''.'' \<and> s \<noteq> ''..''"

definition key_ok :: "string \<Rightarrow> bool" where
  "key_ok k \<longleftrightarrow> CHR 0x00 \<notin> set k \<and> CHR 0x5C \<notin> set k \<and> list_all plain_seg (split_on CHR ''/'' k)"

lemma split_on_not_Nil [simp]: "split_on d s \<noteq> []"
  by (cases s) (auto split: list.splits)

lemma join_split: "join_with [d] (split_on d s) = s"
proof (induction s)
  case (Cons c s)
  obtain w ws where w: "split_on d s = w # ws" by (cases "split_on d s") auto
  show ?case
  proof (cases "c = d")
    case True
    then show ?thesis using Cons by (cases "split_on d s") auto
  next
    case False
    then show ?thesis using Cons w by (cases ws) auto
  qed
qed simp

lemma clean_segs_plain:
  "list_all plain_seg ss \<Longrightarrow> clean_segs r acc ss = rev acc @ ss"
  by (induction ss arbitrary: acc) (auto simp: plain_seg_def)

lemma split_on_lead: "has_prefix [d] s \<longleftrightarrow> s \<noteq> [] \<and> hd (split_on d s) = []"
  by (cases s) (auto simp: has_prefix_def split: list.splits)

lemma join_Nil: "join_with d ss = [] \<Longrightarrow> list_all (\<lambda>s. s \<noteq> []) ss \<Longrightarrow> ss = []"
  by (cases "(d, ss)" rule: join_with.cases) auto

lemma path_clean_plain:
  assumes "list_all plain_seg (split_on CHR ''/'' k)"
  shows "path_clean k = k"
proof -
  have "\<not> has_prefix ''/'' k"
    using assms split_on_lead [of "CHR ''/''" k] by (cases "split_on CHR ''/'' k") (auto simp: plain_seg_def)
  moreover have "k \<noteq> []" using assms by (auto simp: plain_seg_def)
  ultimately show ?thesis
    using clean_segs_plain [OF assms, of False "[]"] join_split [of "CHR ''/''" k]
    by (simp add: path_clean_def)
qed

lemma key_ok_iff:
  "(\<not> (k = [] \<or> CHR 0x00 \<in> set k \<or> CHR 0x5C \<in> set k \<or> has_prefix ''/'' k)
    \<and> \<not> list_ex (\<lambda>s. s = [] \<or> s = ''.'' \<or> s = ''..'') (split_on CHR ''/'' k)) = key_ok k"
proof -
  have "list_ex (\<lambda>s. s = [] \<or> s = ''.'' \<or> s = ''..'') ss \<longleftrightarrow> \<not> list_all plain_seg ss" for ss
    by (induction ss) (auto simp: plain_seg_def)
  moreover have "\<not> has_prefix ''/'' k" "k \<noteq> []" if "list_all plain_seg (split_on CHR ''/'' k)"
    using that split_on_lead [of "CHR ''/''" k] by (cases "split_on CHR ''/'' k"; auto simp: plain_seg_def)+
  ultimately show ?thesis unfolding key_ok_def by blast
qed

lemma cleanKey_eq: "cleanKey k = (if key_ok k then Some k else None)"
proof (cases "key_ok k")
  case True
  then have "path_clean k = k" by (intro path_clean_plain) (simp add: key_ok_def)
  moreover have "k \<noteq> ''.''" using True by (auto simp: key_ok_def plain_seg_def)
  ultimately show ?thesis using True key_ok_iff [of k] by (auto simp: cleanKey_def)
next
  case False
  then show ?thesis using key_ok_iff [of k] by (auto simp: cleanKey_def)
qed

lemma cleanKey_Some [simp]: "cleanKey k = Some k' \<longleftrightarrow> key_ok k \<and> k' = k"
  by (auto simp: cleanKey_eq)

text \<open>\<open>files.go\<close> accepts paths that no store accepts.\<close>

lemma safe_path_not_key:
  "isSafeStoragePath ''a//b''" "cleanKey ''a//b'' = None"
  by code_simp+

section \<open>Keys below a directory\<close>

definition abs_dir :: "string \<Rightarrow> bool" where
  "abs_dir base \<longleftrightarrow> (\<exists>ss. ss \<noteq> [] \<and> list_all plain_seg ss \<and> (\<forall>s\<in>set ss. CHR ''/'' \<notin> set s)
     \<and> base = CHR ''/'' # join_with ''/'' ss)"

lemma split_on_free: "d \<notin> set s \<Longrightarrow> split_on d s = [s]"
  by (induction s) auto

lemma split_on_app: "d \<notin> set s \<Longrightarrow> split_on d (s @ d # t) = s # split_on d t"
  by (induction s) auto

lemma split_join:
  "ss \<noteq> [] \<Longrightarrow> \<forall>s\<in>set ss. d \<notin> set s \<Longrightarrow> split_on d (join_with [d] ss) = ss"
proof (induction ss)
  case (Cons s ss)
  then show ?case by (cases ss) (auto simp: split_on_free split_on_app)
qed simp

lemma split_on_segs: "s \<in> set (split_on d k) \<Longrightarrow> d \<notin> set s"
proof (induction k arbitrary: s)
  case (Cons c k)
  then show ?case by (cases "split_on d k") (auto split: if_splits)
qed simp

lemma join_append: "xs \<noteq> [] \<Longrightarrow> ys \<noteq> [] \<Longrightarrow> join_with d (xs @ ys) = join_with d xs @ d @ join_with d ys"
proof (induction xs)
  case (Cons x xs)
  then show ?case by (cases xs; cases ys) auto
qed simp

lemma path_clean_abs:
  assumes "ss \<noteq> []" "list_all plain_seg ss" "\<forall>s\<in>set ss. CHR ''/'' \<notin> set s"
  shows "path_clean (CHR ''/'' # join_with ''/'' ss) = CHR ''/'' # join_with ''/'' ss"
  using assms clean_segs_plain [of ss True "[]"] split_join [of ss "CHR ''/''"]
  by (simp add: path_clean_def has_prefix_def)

lemma path_segs_abs:
  assumes "ss \<noteq> []" "list_all plain_seg ss" "\<forall>s\<in>set ss. CHR ''/'' \<notin> set s"
  shows "path_segs (CHR ''/'' # join_with ''/'' ss) = ss"
proof -
  have "filter (\<lambda>s. s \<noteq> []) ss = ss" using assms(2) by (induction ss) (auto simp: plain_seg_def)
  then show ?thesis using assms split_join [of ss "CHR ''/''"] by (simp add: path_segs_def)
qed

lemma drop_common_append: "drop_common xs (xs @ ys) = ([], ys)"
proof (induction xs)
  case Nil
  show ?case by (cases ys) simp_all
qed simp

lemma no_dots_prefix:
  assumes "list_all plain_seg (split_on CHR ''/'' k)"
  shows "k \<noteq> ''.''" "k \<noteq> ''..''" "\<not> has_prefix ''../'' k"
proof -
  show "k \<noteq> ''.''" "k \<noteq> ''..''" using assms by (auto simp: plain_seg_def)
  show "\<not> has_prefix ''../'' k"
  proof
    assume "has_prefix ''../'' k"
    then obtain t where "k = ''..'' @ CHR ''/'' # t" by (auto simp: has_prefix_iff)
    then have "split_on CHR ''/'' k = ''..'' # split_on CHR ''/'' t" by simp
    with assms show False by (simp add: plain_seg_def)
  qed
qed

text \<open>The file of a key lies below the root of the local store, at the place the key names.\<close>

lemma pathFor_key:
  assumes "abs_dir base" "key_ok k"
  shows "pathFor base k = Some (base @ ''/'' @ k)"
proof -
  obtain ss where ss: "ss \<noteq> []" "list_all plain_seg ss" "\<forall>s\<in>set ss. CHR ''/'' \<notin> set s"
    "base = CHR ''/'' # join_with ''/'' ss" using assms(1) by (auto simp: abs_dir_def)
  let ?ks = "split_on CHR ''/'' k"
  have ks: "list_all plain_seg ?ks" using assms(2) by (simp add: key_ok_def)
  then have k: "k \<noteq> []" by (auto simp: plain_seg_def)
  have all: "ss @ ?ks \<noteq> []" "list_all plain_seg (ss @ ?ks)" "\<forall>s\<in>set (ss @ ?ks). CHR ''/'' \<notin> set s"
    using ss ks split_on_segs by auto
  have j: "base @ ''/'' @ k = CHR ''/'' # join_with ''/'' (ss @ ?ks)"
    using ss(1,4) join_split [of "CHR ''/''" k] by (simp add: join_append)
  have join: "path_join [base, k] = base @ ''/'' @ k"
    using k ss(4) path_clean_abs [OF all] by (simp add: path_join_def j [symmetric])
  have rel: "path_rel base (base @ ''/'' @ k) = k"
    unfolding path_rel_def j
    using path_segs_abs [OF ss(1-3)] path_segs_abs [OF all] join_split [of "CHR ''/''" k] ss(4)
    by (simp add: drop_common_append)
  show ?thesis
    using no_dots_prefix [OF ks] path_clean_abs [OF all]
    by (simp add: pathFor_def join rel [simplified] j [symmetric] Let_def)
qed

section \<open>Keys that pass the checks of files.go\<close>

lemma contains_subD: "contains_sub p s \<Longrightarrow> \<exists>a b. s = a @ p @ b"
proof (induction s)
  case (Cons c s)
  show ?case
  proof (cases "has_prefix p (c # s)")
    case True
    then obtain b where "c # s = [] @ p @ b" by (auto simp: has_prefix_iff)
    then show ?thesis by blast
  next
    case False
    then obtain a b where "s = a @ p @ b" using Cons by auto
    then have "c # s = (c # a) @ p @ b" by simp
    then show ?thesis by blast
  qed
qed simp

lemma split_on_sep: "split_on d (a @ d # t) = split_on d a @ split_on d t"
proof (induction a)
  case (Cons c a)
  then show ?case by (cases "split_on d a") auto
qed simp

text \<open>A key without surrounding white space and without a drive letter passes \<open>isSafeStoragePath\<close>.\<close>

lemma isSafe_key:
  assumes "key_ok k" "trim_space k = k" "\<not> (2 \<le> length k \<and> is_alpha (k ! 0) \<and> k ! 1 = CHR '':'')"
  shows "isSafeStoragePath k"
proof -
  have ks: "list_all plain_seg (split_on CHR ''/'' k)" and bs: "CHR 0x5C \<notin> set k"
    using assms(1) by (simp_all add: key_ok_def)
  have rep: "replace_char CHR 0x5C CHR ''/'' k = k"
    using bs by (auto simp: replace_char_def intro!: map_idI)
  have no: "\<not> contains_sub ''/../'' k"
  proof
    assume "contains_sub ''/../'' k"
    then obtain a b where "k = a @ CHR ''/'' # ''..'' @ CHR ''/'' # b" using contains_subD by force
    then have "''..'' \<in> set (split_on CHR ''/'' k)" by (simp add: split_on_sep)
    with ks show False by (auto simp: list_all_iff plain_seg_def)
  qed
  have "\<not> list_ex (\<lambda>part. part = ''..'') (split_on CHR ''/'' k)"
    using ks by (auto simp: list_all_iff list_ex_iff plain_seg_def)
  moreover have "k \<noteq> []" "\<not> has_prefix ''/'' k"
    using key_ok_iff [of k] assms(1) by auto
  ultimately show ?thesis
    using no_dots_prefix [OF ks] path_clean_plain [OF ks] no assms(2,3)
    by (simp add: isSafeStoragePath_def rep Let_def)
qed

section \<open>The property of keys\<close>

text \<open>
  C36. \<open>cleanKey\<close> decides exactly the reference definition of a key (so its comparison with
  \<open>path.Clean\<close> is implied by the other tests), and below an absolute upload directory every key has
  its own file, at the path that its text names: different keys never share a file and no key leaves
  the directory.
\<close>

theorem cleanKey_reference:
  "cleanKey k = (if key_ok k then Some k else None)
   \<and> (\<forall>base. abs_dir base \<and> key_ok k \<longrightarrow> pathFor base k = Some (base @ ''/'' @ k))"
  using cleanKey_eq pathFor_key by simp

theorem cleanKey_reference_witness:
  "cleanKey ''p1/2025/a.jpg'' = Some ''p1/2025/a.jpg'' \<and> cleanKey ''p1/../a.jpg'' = None
   \<and> pathFor ''/srv/files'' ''p1/2025/a.jpg'' = Some ''/srv/files/p1/2025/a.jpg''"
proof -
  have "abs_dir ''/srv/files''"
    unfolding abs_dir_def by (rule exI [of _ "[''srv'', ''files'']"]) (simp add: plain_seg_def)
  moreover have "key_ok ''p1/2025/a.jpg''" "\<not> key_ok ''p1/../a.jpg''" by code_simp+
  ultimately show ?thesis
    using cleanKey_reference [of "''p1/2025/a.jpg''"] cleanKey_reference [of "''p1/../a.jpg''"] by simp
qed

end
