(* ===== verification/Object_Store.thy ===== *)
theory Object_Store
  imports Storage_Keys
begin

text \<open>
  The two object stores (\<open>internal/storage/local.go\<close>, \<open>s3.go\<close>) behind one interface
  (\<open>storage.go\<close>). Objects are byte lists under their keys. What the file system and the S3 service
  answer is the outcome of an external call; a request to S3 that reports a failure may still have
  been carried out, which is the outcome of a second external decision.
\<close>

datatype store_error = NotExist | StoreFailed

section \<open>Effects on the stored objects\<close>

definition put_object :: "string \<Rightarrow> nat list \<Rightarrow> (world, unit) state" where
  "put_object k body = modify (\<lambda>w. w\<lparr>objects := (objects w)(k \<mapsto> body)\<rparr>)"

definition remove_object :: "string \<Rightarrow> (world, unit) state" where
  "remove_object k = modify (\<lambda>w. w\<lparr>objects := (objects w)(k := None)\<rparr>)"

definition add_tomb :: "string \<Rightarrow> (world, unit) state" where
  "add_tomb k = modify (\<lambda>w. w\<lparr>tombs := tombs w @ [k]\<rparr>)"

definition look_up :: "string \<Rightarrow> (world, nat list option) state" where
  "look_up k = State (\<lambda>w. (objects w k, w))"

text \<open>A request to the S3 service with an effect there.\<close>

definition s3_call :: "(world, unit) state \<Rightarrow> (world, bool) state" where
  "s3_call effect = do {
     ok \<leftarrow> extern_ok;
     if ok then do { effect; ret True }
     else do {
       landed \<leftarrow> extern_ok;
       if landed then do { effect; ret False } else ret False
     }
   }"

section \<open>The local store\<close>

text \<open>
  \<open>LocalStore.PutStream\<close>: the body goes to a temporary file next to the destination (removed again on
  every error), which is renamed into place at the end.
\<close>

definition local_put :: "string \<Rightarrow> string \<Rightarrow> nat list \<Rightarrow> int \<Rightarrow> (world, bool) state" where
  "local_put base key0 source sz =
     (case cleanKey key0 of
        None \<Rightarrow> ret False
      | Some key \<Rightarrow>
          if sz < 0 then ret False
          else (case pathFor base key of
             None \<Rightarrow> ret False
           | Some destination \<Rightarrow> do {
               made \<leftarrow> extern_ok;
               if \<not> made then ret False
               else if int (length source) < sz then ret False
               else do {
                 synced \<leftarrow> extern_ok;
                 if \<not> synced then ret False
                 else do {
                   renamed \<leftarrow> extern_ok;
                   if \<not> renamed then ret False
                   else do { put_object key (take (nat sz) source); ret True }
                 }
               }
             }))"

definition local_get :: "string \<Rightarrow> (world, store_error + nat list) state" where
  "local_get key0 =
     (case cleanKey key0 of
        None \<Rightarrow> ret (Inl StoreFailed)
      | Some key \<Rightarrow> do {
          opened \<leftarrow> extern_ok;
          if \<not> opened then ret (Inl StoreFailed)
          else do {
            b \<leftarrow> look_up key;
            ret (case b of None \<Rightarrow> Inl NotExist | Some body \<Rightarrow> Inr body)
          }
        })"

definition local_delete :: "string \<Rightarrow> (world, bool) state" where
  "local_delete key0 =
     (case cleanKey key0 of
        None \<Rightarrow> ret False
      | Some key \<Rightarrow> do {
          b \<leftarrow> look_up key;
          if b = None then ret True
          else do {
            removed \<leftarrow> extern_ok;
            if removed then do { remove_object key; ret True } else ret False
          }
        })"

section \<open>The S3 store: multipart uploads\<close>

definition s3SinglePutMaximumBytes :: int where "s3SinglePutMaximumBytes = 5000000000"
definition s3MultipartMinimumPartBytes :: int where "s3MultipartMinimumPartBytes = 5 * 1024 * 1024"
definition s3MultipartDefaultPartBytes :: int where "s3MultipartDefaultPartBytes = 64 * 1024 * 1024"
definition s3MultipartMaximumPartBytes :: int where "s3MultipartMaximumPartBytes = 5 * 1024 * 1024 * 1024"
definition s3MultipartMaximumParts :: int where "s3MultipartMaximumParts = 10000"
definition s3MultipartMaximumObjectBytes :: int where
  "s3MultipartMaximumObjectBytes = s3MultipartMaximumPartBytes * s3MultipartMaximumParts"

lemmas s3_limits = s3SinglePutMaximumBytes_def s3MultipartMinimumPartBytes_def s3MultipartDefaultPartBytes_def
  s3MultipartMaximumPartBytes_def s3MultipartMaximumParts_def s3MultipartMaximumObjectBytes_def

text \<open>All numbers stay below \<open>2 ^ 46\<close>, so \<open>int64\<close> arithmetic is arithmetic on integers.\<close>

definition multipart_part_size :: "int \<Rightarrow> int" where
  "multipart_part_size sz =
     (let required0 = sz div s3MultipartMaximumParts;
          required = (if sz mod s3MultipartMaximumParts \<noteq> 0 then required0 + 1 else required0);
          part = (if s3MultipartDefaultPartBytes < required then required else s3MultipartDefaultPartBytes);
          remainder = part mod (1024 * 1024)
      in if remainder \<noteq> 0 then part + (1024 * 1024 - remainder) else part)"

definition multipartUploadPlanWithThreshold :: "int \<Rightarrow> int \<Rightarrow> (int \<times> int) option" where
  "multipartUploadPlanWithThreshold sz singlePutMaximum =
     (if sz \<le> singlePutMaximum then None
      else if s3MultipartMaximumObjectBytes < sz then None
      else let partSize = multipart_part_size sz in
        if partSize < s3MultipartMinimumPartBytes \<or> s3MultipartMaximumPartBytes < partSize then None
        else let partCount = (sz - 1) div partSize + 1 in
          if s3MultipartMaximumParts < partCount then None else Some (partSize, partCount))"

text \<open>
  The loop over the parts from \<open>offset\<close>: the parts uploaded, or \<open>None\<close> when a part failed (refused by
  the service, no \<open>ETag\<close>, or the source ended early).
\<close>

function upload_parts :: "int \<Rightarrow> int \<Rightarrow> nat list \<Rightarrow> int \<Rightarrow> (world, nat list list option) state" where
  "upload_parts partSize sz source offset =
     (if offset < sz \<and> 0 < partSize then do {
        let n = min partSize (sz - offset);
        let part = take (nat n) (drop (nat offset) source);
        ok \<leftarrow> extern_ok;
        if \<not> ok \<or> int (length part) \<noteq> n then ret None
        else do {
          rest \<leftarrow> upload_parts partSize sz source (offset + n);
          ret (map_option (\<lambda>ps. part # ps) rest)
        }
      }
      else ret (Some []))"
  by pat_completeness auto
termination
  by (relation "measure (\<lambda>(partSize, sz, source, offset). nat (sz - offset))") auto

declare upload_parts.simps [simp del]

definition put_multipart :: "string \<Rightarrow> nat list \<Rightarrow> int \<Rightarrow> int \<Rightarrow> (world, bool) state" where
  "put_multipart key source sz threshold =
     (case multipartUploadPlanWithThreshold sz threshold of
        None \<Rightarrow> ret False
      | Some (partSize, partCount) \<Rightarrow> do {
          created \<leftarrow> extern_ok;
          if \<not> created then ret False
          else do {
            parts \<leftarrow> upload_parts partSize sz source 0;
            (case parts of
               None \<Rightarrow> do { _ \<leftarrow> extern_ok; ret False }
             | Some ps \<Rightarrow> do {
                 completed \<leftarrow> s3_call (put_object key (concat ps));
                 if completed then ret True else do { _ \<leftarrow> extern_ok; ret False }
               })
          }
        })"

section \<open>The S3 store: objects and the deletion ledger\<close>

text \<open>
  \<open>S3Store.Put\<close> and \<open>putStream\<close>: a source that is shorter than the announced size makes the request
  fail.
\<close>

definition s3_put :: "string \<Rightarrow> nat list \<Rightarrow> int \<Rightarrow> int \<Rightarrow> (world, bool) state" where
  "s3_put key0 source sz threshold =
     (case cleanKey key0 of
        None \<Rightarrow> ret False
      | Some key \<Rightarrow>
          if sz < 0 then ret False
          else if threshold < sz then put_multipart key source sz threshold
          else if int (length source) < sz then ret False
          else s3_call (put_object key (take (nat sz) source)))"

definition s3_get :: "string \<Rightarrow> (world, store_error + nat list) state" where
  "s3_get key0 =
     (case cleanKey key0 of
        None \<Rightarrow> ret (Inl StoreFailed)
      | Some key \<Rightarrow> do {
          answered \<leftarrow> extern_ok;
          if \<not> answered then ret (Inl StoreFailed)
          else do {
            b \<leftarrow> look_up key;
            (case b of
               None \<Rightarrow> ret (Inl NotExist)
             | Some body \<Rightarrow> do {
                 with_length \<leftarrow> extern_ok;
                 ret (if with_length then Inr body else Inl StoreFailed)
               })
          }
        })"

text \<open>\<open>putDeletionTombstone\<close> and \<open>RecordObjectDeletion\<close>.\<close>

definition putDeletionTombstone :: "string \<Rightarrow> string \<Rightarrow> (world, bool) state" where
  "putDeletionTombstone lbucket key = (if lbucket = [] then ret False else s3_call (add_tomb key))"

definition recordObjectDeletion :: "string \<Rightarrow> string \<Rightarrow> (world, bool) state" where
  "recordObjectDeletion lbucket key0 =
     (case cleanKey key0 of None \<Rightarrow> ret False | Some key \<Rightarrow> putDeletionTombstone lbucket key)"

definition s3_delete :: "string \<Rightarrow> string \<Rightarrow> (world, bool) state" where
  "s3_delete lbucket key0 =
     (case cleanKey key0 of
        None \<Rightarrow> ret False
      | Some key \<Rightarrow> do {
          recorded \<leftarrow> recordObjectDeletion lbucket key;
          if \<not> recorded then ret False else s3_call (remove_object key)
        })"

text \<open>\<open>(?i)^[0-9a-f]{8}-[0-9a-f]{4}-...$\<close> and the key of an account tombstone.\<close>

definition canonicalUUID :: "string \<Rightarrow> bool" where
  "canonicalUUID s \<longleftrightarrow> length s = 36
     \<and> list_all (\<lambda>i. if i \<in> {8, 13, 18, 23} then s ! i = CHR ''-'' else is_hex (s ! i)) [0..<36]"

definition account_tombstone_key :: "string \<Rightarrow> string option" where
  "account_tombstone_key u =
     (if \<not> canonicalUUID u then None else Some (''tombstones/accounts/'' @ to_lower u @ ''.json''))"

section \<open>The interface\<close>

fun store_put :: "object_store \<Rightarrow> string \<Rightarrow> nat list \<Rightarrow> (world, bool) state" where
  "store_put (LocalStore base) key body = local_put base key body (int (length body))"
| "store_put (S3Store bucket lbucket) key body = s3_put key body (int (length body)) s3SinglePutMaximumBytes"

fun store_get :: "object_store \<Rightarrow> string \<Rightarrow> (world, store_error + nat list) state" where
  "store_get (LocalStore base) key = local_get key"
| "store_get (S3Store bucket lbucket) key = s3_get key"

fun store_delete :: "object_store \<Rightarrow> string \<Rightarrow> (world, bool) state" where
  "store_delete (LocalStore base) key = local_delete key"
| "store_delete (S3Store bucket lbucket) key = s3_delete lbucket key"

text \<open>\<open>NewLocal\<close> (in the working directory \<open>cwd\<close>) and \<open>NewS3\<close>.\<close>

definition NewLocal :: "string \<Rightarrow> string \<Rightarrow> (world, object_store option) state" where
  "NewLocal cwd base0 =
     (let base = trim_space base0 in
      if base = [] \<or> base = ''.'' then ret None
      else do {
        let absolute = path_clean (if has_prefix ''/'' base then base else path_join [cwd, base]);
        made \<leftarrow> extern_ok;
        ret (if made then Some (LocalStore absolute) else None)
      })"

definition NewS3 :: "string \<Rightarrow> string \<Rightarrow> string \<Rightarrow> (world, object_store option) state" where
  "NewS3 region0 bucket0 ledger0 =
     (let region = trim_space region0; bucket = trim_space bucket0; lbucket = trim_space ledger0 in
      if region = [] \<or> bucket = [] \<or> lbucket = [] then ret None
      else if bucket = lbucket then ret None
      else do {
        configured \<leftarrow> extern_ok;
        if \<not> configured then ret None
        else do {
          credentials \<leftarrow> extern_ok;
          ret (if credentials then Some (S3Store bucket lbucket) else None)
        }
      })"

section \<open>Laws of the interface\<close>

lemma wp_put_object [wps]: "Q () (w\<lparr>objects := (objects w)(k \<mapsto> b)\<rparr>) \<Longrightarrow> wp (put_object k b) Q w"
  by (simp add: put_object_def wp_modify)

lemma wp_remove_object [wps]: "Q () (w\<lparr>objects := (objects w)(k := None)\<rparr>) \<Longrightarrow> wp (remove_object k) Q w"
  by (simp add: remove_object_def wp_modify)

lemma wp_add_tomb [wps]: "Q () (w\<lparr>tombs := tombs w @ [k]\<rparr>) \<Longrightarrow> wp (add_tomb k) Q w"
  by (simp add: add_tomb_def wp_modify)

lemma wp_look_up [wps]: "Q (objects w k) w \<Longrightarrow> wp (look_up k) Q w"
  by (simp add: look_up_def wp_def)

lemma wp_return_eq: "wp (State_Monad.return x) Q = Q x"
  by (simp add: wp_def fun_eq_iff)

lemma wp_s3_call [wps]:
  assumes "\<And>ex. Q False (w\<lparr>extern := ex\<rparr>)"
    and "\<And>ex. wp effect (\<lambda>_. Q True) (w\<lparr>extern := ex\<rparr>)"
    and "\<And>ex. wp effect (\<lambda>_. Q False) (w\<lparr>extern := ex\<rparr>)"
  shows "wp (s3_call effect) Q w"
  unfolding s3_call_def by (intro wps) (use assms in \<open>auto intro!: wps simp: wp_return_eq\<close>)

lemma wp_case_cleanKey:
  "(key_ok k \<Longrightarrow> wp (f k) Q w) \<Longrightarrow> (\<not> key_ok k \<Longrightarrow> wp m Q w) \<Longrightarrow>
   wp (case cleanKey k of None \<Rightarrow> m | Some k' \<Rightarrow> f k') Q w"
  by (simp add: cleanKey_eq)

text \<open>The parts of a multipart upload are the source cut into pieces, in order.\<close>

lemma wp_upload_parts:
  assumes "0 < partSize" "0 \<le> off" "\<And>ex. Q None (w\<lparr>extern := ex\<rparr>)"
    and "\<And>ex ps. concat ps = take (nat (sz - off)) (drop (nat off) source) \<Longrightarrow>
      \<forall>p\<in>set ps. p \<noteq> [] \<and> int (length p) \<le> partSize \<Longrightarrow> Q (Some ps) (w\<lparr>extern := ex\<rparr>)"
  shows "wp (upload_parts partSize sz source off) Q w"
  using assms
proof (induction partSize sz source off arbitrary: w Q rule: upload_parts.induct)
  case (1 partSize sz source off)
  note Q = "1.prems"
  show ?case
  proof (cases "off < sz")
    case False
    then have "Q (Some []) w" using Q(4) [of "[]" "extern w"] by simp
    then show ?thesis using False by (subst upload_parts.simps) (auto intro: wps)
  next
    case True
    let ?n = "min partSize (sz - off)"
    let ?part = "take (nat ?n) (drop (nat off) source)"
    have rec: "wp (upload_parts partSize sz source (off + ?n))
        (\<lambda>rest. Q (map_option (\<lambda>ps. ?part # ps) rest)) (w\<lparr>extern := ex\<rparr>)"
      if len: "int (length ?part) = ?n" for ex
    proof (rule "1.IH" [OF _ refl refl])
      show "off < sz \<and> 0 < partSize" "0 < partSize" "0 \<le> off + ?n" using True Q(1,2) by auto
      show "\<not> (\<not> True \<or> int (length ?part) \<noteq> ?n)" using len by simp
      fix ex' ps
      assume ps: "concat ps = take (nat (sz - (off + ?n))) (drop (nat (off + ?n)) source)"
        "\<forall>p\<in>set ps. p \<noteq> [] \<and> int (length p) \<le> partSize"
      have n: "nat (sz - off) = nat ?n + nat (sz - (off + ?n))" "nat (off + ?n) = nat ?n + nat off"
        using True Q(1,2) by auto
      have "concat (?part # ps) = take (nat (sz - off)) (drop (nat off) source)"
        using ps(1) len by (simp add: n take_add add.commute)
      moreover have "?part \<noteq> []" "int (length ?part) \<le> partSize"
        using len True Q(1) by (auto simp del: length_take)
      ultimately show "Q (map_option (\<lambda>ps. ?part # ps) (Some ps)) (w\<lparr>extern := ex\<rparr>\<lparr>extern := ex'\<rparr>)"
        using Q(4) [of "?part # ps" ex'] ps(2) by simp
    qed (use Q(3) in simp)
    show ?thesis
      using True Q(1)
      by (subst upload_parts.simps) (auto intro!: wps wp_mono [OF rec] Q(3))
  qed
qed

text \<open>
  What every store promises: \<open>put\<close> that succeeds has stored the body under a well-formed key, and
  otherwise the key holds what it held or the new body; \<open>delete\<close> that succeeds has removed the object;
  \<open>get\<close> reads only what is stored; no operation touches another key, the tables or a transaction.
\<close>

locale object_store_laws =
  fixes put :: "string \<Rightarrow> nat list \<Rightarrow> (world, bool) state"
    and get :: "string \<Rightarrow> (world, store_error + nat list) state"
    and delete :: "string \<Rightarrow> (world, bool) state"
  assumes put: "(\<And>ex. key_ok k \<Longrightarrow> Q True (w\<lparr>extern := ex, objects := (objects w)(k \<mapsto> b)\<rparr>)) \<Longrightarrow>
      (\<And>ex ob. ob = objects w \<or> key_ok k \<and> ob = (objects w)(k \<mapsto> b) \<Longrightarrow> Q False (w\<lparr>extern := ex, objects := ob\<rparr>)) \<Longrightarrow>
      wp (put k b) Q w"
    and get: "(\<And>ex e. R (Inl e) (w\<lparr>extern := ex\<rparr>)) \<Longrightarrow>
      (\<And>ex b. objects w k = Some b \<Longrightarrow> R (Inr b) (w\<lparr>extern := ex\<rparr>)) \<Longrightarrow> wp (get k) R w"
    and delete: "(\<And>ex tb. key_ok k \<Longrightarrow> Q True (w\<lparr>extern := ex, objects := (objects w)(k := None), tombs := tb\<rparr>)) \<Longrightarrow>
      (\<And>ex tb ob. ob = objects w \<or> ob = (objects w)(k := None) \<Longrightarrow>
        Q False (w\<lparr>extern := ex, objects := ob, tombs := tb\<rparr>)) \<Longrightarrow>
      wp (delete k) Q w"
begin

text \<open>What was put is what \<open>get\<close> reads, until it is deleted.\<close>

lemma put_get: "wp (do { ok \<leftarrow> put k b; r \<leftarrow> get k; ret (ok, r) })
    (\<lambda>(ok, r) w'. ok \<longrightarrow> (case r of Inl _ \<Rightarrow> True | Inr b' \<Rightarrow> b' = b)) w"
  by (intro wps put get) auto

lemma delete_get: "wp (do { ok \<leftarrow> delete k; r \<leftarrow> get k; ret (ok, r) })
    (\<lambda>(ok, r) w'. ok \<longrightarrow> (case r of Inl _ \<Rightarrow> True | Inr b \<Rightarrow> False)) w"
  by (intro wps delete get) auto

end

lemma world_objects_self [simp]:
  fixes w :: world
  shows "w\<lparr>extern := ex, objects := objects w\<rparr> = w\<lparr>extern := ex\<rparr>"
    "w\<lparr>extern := ex, objects := ob, tombs := tombs w\<rparr> = w\<lparr>extern := ex, objects := ob\<rparr>"
    "w\<lparr>extern := extern w\<rparr> = w" "w\<lparr>objects := objects w\<rparr> = w" "w\<lparr>tombs := tombs w\<rparr> = w"
    "w\<lparr>extern := ex, tombs := tombs w\<rparr> = w\<lparr>extern := ex\<rparr>"
    "w\<lparr>objects := ob, tombs := tombs w\<rparr> = w\<lparr>objects := ob\<rparr>"
    "w\<lparr>objects := objects w, tombs := tb\<rparr> = w\<lparr>tombs := tb\<rparr>"
    "w\<lparr>extern := ex, objects := objects w, tombs := tb\<rparr> = w\<lparr>extern := ex, tombs := tb\<rparr>"
  by (cases w; simp)+

section \<open>Both stores keep the laws\<close>

lemma wp_local_put:
  assumes "\<And>ex. key_ok k \<Longrightarrow> Q True (w\<lparr>extern := ex, objects := (objects w)(k \<mapsto> b)\<rparr>)"
    and "\<And>ex. Q False (w\<lparr>extern := ex\<rparr>)"
  shows "wp (local_put base k b (int (length b))) Q w"
proof -
  have F: "Q False w" using assms(2) [where ex = "extern w"] by simp
  show ?thesis
    unfolding local_put_def
    by (intro wps wp_case_cleanKey) (use assms F in auto)
qed

text \<open>
  The plan of a multipart upload keeps the limits of the service: parts of 5 MiB to 5 GiB, a whole
  number of MiB, at most 10000 of them, and all but the last one full.
\<close>

lemma multipart_plan:
  assumes "multipartUploadPlanWithThreshold sz th = Some (partSize, partCount)" "0 \<le> th"
  shows "s3MultipartMinimumPartBytes \<le> partSize" "partSize \<le> s3MultipartMaximumPartBytes"
    "partSize mod (1024 * 1024) = 0" "1 \<le> partCount" "partCount \<le> s3MultipartMaximumParts"
    "(partCount - 1) * partSize < sz" "sz \<le> partCount * partSize"
proof -
  have p: "partSize = multipart_part_size sz"
    "\<not> (partSize < s3MultipartMinimumPartBytes \<or> s3MultipartMaximumPartBytes < partSize)"
    "partCount = (sz - 1) div partSize + 1" "partCount \<le> s3MultipartMaximumParts" "th < sz"
    using assms(1) unfolding multipartUploadPlanWithThreshold_def
    by (auto simp: Let_def split: if_splits)
  show "s3MultipartMinimumPartBytes \<le> partSize" "partSize \<le> s3MultipartMaximumPartBytes"
    "partCount \<le> s3MultipartMaximumParts" using p(2,4) by auto
  have pos: "0 < partSize" using p(2) by (simp add: s3_limits)
  have "(n + (m - n mod m)) mod m = (0::int)" for n m
    by (metis add.commute add_diff_eq diff_add_cancel minus_mod_eq_mult_div mod_add_self1 mod_mult_self1_is_0)
  then show "partSize mod (1024 * 1024) = 0" by (simp add: p(1) multipart_part_size_def Let_def)
  have sz: "0 \<le> sz - 1" using p(5) assms(2) by simp
  then show "1 \<le> partCount" using p(3) pos by (simp add: pos_imp_zdiv_nonneg_iff)
  have "(sz - 1) div partSize * partSize \<le> sz - 1"
    using mult_div_mod_eq [of partSize "sz - 1"] pos_mod_sign [OF pos, of "sz - 1"]
    by (simp only: mult.commute [of _ partSize])
  then show "(partCount - 1) * partSize < sz" using p(3) by simp
  have "sz - 1 < ((sz - 1) div partSize + 1) * partSize"
    using mult_div_mod_eq [of partSize "sz - 1"] pos_mod_bound [OF pos, of "sz - 1"]
    by (simp only: mult.commute [of _ partSize] distrib_left mult_1_right)
  then show "sz \<le> partCount * partSize" using p(3) by simp
qed

lemma wp_put_multipart:
  assumes th: "0 \<le> th"
    and S: "\<And>ex. Q True (w\<lparr>extern := ex, objects := (objects w)(k \<mapsto> b)\<rparr>)"
    and F: "\<And>ex. Q False (w\<lparr>extern := ex\<rparr>)"
      "\<And>ex. Q False (w\<lparr>extern := ex, objects := (objects w)(k \<mapsto> b)\<rparr>)"
  shows "wp (put_multipart k b (int (length b)) th) Q w"
proof -
  have F0: "Q False w" using F(1) [where ex = "extern w"] by simp
  have all: "take (length b) b = b" by simp
  show ?thesis
    unfolding put_multipart_def
    by (intro wps wp_upload_parts)
      (use S F F0 multipart_plan(1) [OF _ th] in \<open>force simp: s3_limits\<close>)+
qed

lemma wp_s3_put:
  assumes th: "0 \<le> th"
    and S: "\<And>ex. key_ok k \<Longrightarrow> Q True (w\<lparr>extern := ex, objects := (objects w)(k \<mapsto> b)\<rparr>)"
    and F: "\<And>ex ob. ob = objects w \<or> key_ok k \<and> ob = (objects w)(k \<mapsto> b) \<Longrightarrow> Q False (w\<lparr>extern := ex, objects := ob\<rparr>)"
  shows "wp (s3_put k b (int (length b)) th) Q w"
proof -
  have F1: "Q False (w\<lparr>extern := ex\<rparr>)" for ex using F [where ob = "objects w" and ex = ex] by simp
  have F0: "Q False w" using F1 [where ex = "extern w"] by simp
  have F2: "Q False (w\<lparr>extern := ex, objects := (objects w)(k \<mapsto> b)\<rparr>)" if "key_ok k" for ex
    using F that by simp
  show ?thesis
    unfolding s3_put_def
    by (intro wps wp_case_cleanKey wp_put_multipart)
      (use th S F0 F1 F2 in auto)
qed

lemma wp_store_get:
  assumes "\<And>ex e. R (Inl e) (w\<lparr>extern := ex\<rparr>)"
    "\<And>ex b. objects w k = Some b \<Longrightarrow> R (Inr b) (w\<lparr>extern := ex\<rparr>)"
  shows "wp (store_get S k) R w"
proof -
  have E: "R (Inl e) w" for e using assms(1) [where ex = "extern w"] by simp
  show ?thesis
    by (cases S; simp only: store_get.simps local_get_def s3_get_def;
        intro wps wp_case_cleanKey) (use assms E in \<open>auto split: option.splits\<close>)
qed

lemma wp_store_delete:
  assumes S: "\<And>ex tb. key_ok k \<Longrightarrow> Q True (w\<lparr>extern := ex, objects := (objects w)(k := None), tombs := tb\<rparr>)"
    and F: "\<And>ex tb ob. ob = objects w \<or> ob = (objects w)(k := None) \<Longrightarrow>
        Q False (w\<lparr>extern := ex, objects := ob, tombs := tb\<rparr>)"
  shows "wp (store_delete S k) Q w"
proof -
  have F1: "Q False (w\<lparr>extern := ex\<rparr>)" "Q False w" for ex
    using F [where ob = "objects w" and ex = ex and tb = "tombs w"]
      F [where ob = "objects w" and ex = "extern w" and tb = "tombs w"] by simp_all
  have F2: "Q False (w\<lparr>extern := ex, tombs := tb\<rparr>)" "Q False (w\<lparr>tombs := tb\<rparr>)" for ex tb
    using F [where ob = "objects w" and ex = ex and tb = tb]
      F [where ob = "objects w" and ex = "extern w" and tb = tb] by simp_all
  have gone: "Q True w" if "objects w k = None" "key_ok k"
  proof -
    have "(objects w)(k := None) = objects w" using that(1) by auto
    then show ?thesis using S [where ex = "extern w" and tb = "tombs w"] that(2) by simp
  qed
  have S1: "Q True (w\<lparr>extern := ex, objects := (objects w)(k := None)\<rparr>)" if "key_ok k" for ex
    using S [where ex = ex and tb = "tombs w"] that by simp
  show ?thesis
  proof (cases S)
    case (LocalStore base)
    show ?thesis
      unfolding LocalStore store_delete.simps local_delete_def
      by (intro wps wp_case_cleanKey) (use S1 F1 gone in auto)
  next
    case (S3Store bucket lbucket)
    show ?thesis
      unfolding S3Store store_delete.simps s3_delete_def recordObjectDeletion_def putDeletionTombstone_def
      by (intro wps wp_case_cleanKey) (use S F F1 F2 in auto)
  qed
qed

interpretation store: object_store_laws "store_put S" "store_get S" "store_delete S" for S
proof
  fix k b w and Q :: "bool \<Rightarrow> world \<Rightarrow> bool"
  assume T: "\<And>ex. key_ok k \<Longrightarrow> Q True (w\<lparr>extern := ex, objects := (objects w)(k \<mapsto> b)\<rparr>)"
    and F: "\<And>ex ob. ob = objects w \<or> key_ok k \<and> ob = (objects w)(k \<mapsto> b) \<Longrightarrow>
      Q False (w\<lparr>extern := ex, objects := ob\<rparr>)"
  have "Q False (w\<lparr>extern := ex\<rparr>)" for ex using F [where ob = "objects w" and ex = ex] by simp
  then show "wp (store_put S k b) Q w"
    by (cases S) (auto intro: wp_local_put wp_s3_put T F simp: s3_limits)
next
  show "\<And>R w k. (\<And>ex e. R (Inl e) (w\<lparr>extern := ex\<rparr>)) \<Longrightarrow>
      (\<And>ex b. objects w k = Some b \<Longrightarrow> R (Inr b) (w\<lparr>extern := ex\<rparr>)) \<Longrightarrow> wp (store_get S k) R w"
    by (rule wp_store_get) auto
next
  show "\<And>k Q w. (\<And>ex tb. key_ok k \<Longrightarrow> Q True (w\<lparr>extern := ex, objects := (objects w)(k := None), tombs := tb\<rparr>)) \<Longrightarrow>
      (\<And>ex tb ob. ob = objects w \<or> ob = (objects w)(k := None) \<Longrightarrow>
        Q False (w\<lparr>extern := ex, objects := ob, tombs := tb\<rparr>)) \<Longrightarrow>
      wp (store_delete S k) Q w"
    by (rule wp_store_delete) auto
qed

lemmas store_rules [wps] = store.put store.get store.delete

text \<open>The S3 store removes an object only after the ledger has recorded it.\<close>

lemma s3_delete_recorded:
  "wp (store_delete (S3Store bucket lbucket) k)
     (\<lambda>ok w'. (objects w' \<noteq> objects w \<or> ok) \<longrightarrow> k \<in> set (tombs w')) w"
  unfolding store_delete.simps s3_delete_def recordObjectDeletion_def putDeletionTombstone_def
  by (intro wps wp_case_cleanKey) (auto split: bool.splits)

end
