(* ===== verification/Entities.thy ===== *)
theory Entities
  imports Project_Facts
begin

text \<open>
  What the entities of a project (tasks, cost items, daily reports) have in common: rows with a
  key, a project and a soft-delete mark, found by key, edited in place, never removed. The locale
  \<open>entity_rows\<close> states it once; each entity theory interprets it on its row type.
  \<open>entity_resolver\<close> is the interface between the role check of \<open>rbac_handlers.go\<close> and the function
  that finds the project of an entity; the gate theorem is proved once in it.
\<close>

section \<open>Rows of an entity\<close>

definition live_row :: "('r \<Rightarrow> uuid) \<Rightarrow> ('r \<Rightarrow> time option) \<Rightarrow> uuid \<Rightarrow> 'r list \<Rightarrow> 'r option" where
  "live_row eid del e xs = find (\<lambda>r. eid r = e \<and> del r = None) xs"

definition upd_live :: "('r \<Rightarrow> uuid) \<Rightarrow> ('r \<Rightarrow> time option) \<Rightarrow> uuid \<Rightarrow> ('r \<Rightarrow> 'r) \<Rightarrow> 'r list \<Rightarrow> 'r list" where
  "upd_live eid del e f xs = upd_where (\<lambda>r. eid r = e \<and> del r = None) f xs"

text \<open>
  A change of the rows on behalf of a user: no row goes away or moves to another project, and
  every row that is new or different belongs to a project to which the user may contribute, or
  which the user may manage when the row is now deleted.
\<close>

definition guarded_change ::
  "('r \<Rightarrow> uuid) \<Rightarrow> ('r \<Rightarrow> uuid) \<Rightarrow> ('r \<Rightarrow> time option) \<Rightarrow> db \<Rightarrow> uuid \<Rightarrow> 'r list \<Rightarrow> 'r list \<Rightarrow> bool" where
  "guarded_change eid proj del d u xs ys \<longleftrightarrow>
     take (length xs) (map (\<lambda>r. (eid r, proj r)) ys) = map (\<lambda>r. (eid r, proj r)) xs
     \<and> (\<forall>y\<in>set ys. y \<in> set xs \<or>
          allowed d u (proj y) (if del y = None then PermissionContribute else PermissionManage))"

locale entity_rows =
  fixes eid :: "'r \<Rightarrow> uuid" and proj :: "'r \<Rightarrow> uuid" and del :: "'r \<Rightarrow> time option"
    and mark :: "time \<Rightarrow> 'r \<Rightarrow> 'r"
  assumes mark: "eid (mark t r) = eid r" "proj (mark t r) = proj r" "del (mark t r) = Some t"
begin

lemma live_row_Some:
  "live_row eid del e xs = Some r \<Longrightarrow> r \<in> set xs \<and> eid r = e \<and> del r = None"
  by (auto simp: live_row_def find_Some_iff)

lemma live_row_unique:
  assumes "distinct (map eid xs)" "live_row eid del e xs = Some r" "s \<in> set xs" "eid s = e"
  shows "s = r"
  using assms live_row_Some [OF assms(2)] by (auto simp: distinct_map dest: inj_onD)

lemma guarded_refl: "guarded_change eid proj del d u xs xs"
  by (simp add: guarded_change_def)

lemma guarded_insert:
  "allowed d u (proj r) PermissionContribute \<Longrightarrow> del r = None \<Longrightarrow>
   guarded_change eid proj del d u xs (xs @ [r])"
  by (auto simp: guarded_change_def)

lemma guarded_upd:
  assumes "distinct (map eid xs)" "live_row eid del e xs = Some r"
    and f: "\<And>s. eid (f s) = eid s" "\<And>s. proj (f s) = proj s"
    and p: "allowed d u (proj r) (if del (f r) = None then PermissionContribute else PermissionManage)"
  shows "guarded_change eid proj del d u xs (upd_live eid del e f xs)"
    and "distinct (map eid (upd_live eid del e f xs))"
proof -
  have keys: "map (\<lambda>r. (eid r, proj r)) (upd_live eid del e f xs) = map (\<lambda>r. (eid r, proj r)) xs"
    unfolding upd_live_def by (rule map_upd_where) (simp add: f)
  have "y \<in> set xs \<or> allowed d u (proj y)
      (if del y = None then PermissionContribute else PermissionManage)"
    if y: "y \<in> set (upd_live eid del e f xs)" for y
  proof -
    from y obtain x where x: "x \<in> set xs" "y = (if eid x = e \<and> del x = None then f x else x)"
      by (auto simp: upd_live_def set_upd_where)
    show ?thesis
    proof (cases "eid x = e \<and> del x = None")
      case True
      then have "x = r" using live_row_unique assms(1,2) x(1) by blast
      then show ?thesis using True x p f(2) by simp
    next
      case False
      then have "y = x" using x(2) by (simp only: if_False)
      with x(1) show ?thesis by simp
    qed
  qed
  with keys show "guarded_change eid proj del d u xs (upd_live eid del e f xs)"
    by (simp add: guarded_change_def)
  have "map eid (upd_live eid del e f xs) = map eid xs"
    unfolding upd_live_def by (rule map_upd_where) (rule f)
  with assms(1) show "distinct (map eid (upd_live eid del e f xs))" by simp
qed

lemma live_row_deleted: "live_row eid del e (upd_live eid del e (mark t) xs) = None"
  unfolding live_row_def upd_live_def upd_where_def by (induction xs) (simp_all add: mark)

lemma count_live:
  "count_where (\<lambda>r. eid r = e \<and> del r = None) xs = 0 \<longleftrightarrow> live_row eid del e xs = None"
  by (auto simp: live_row_def count_where_zero find_None_iff)

lemma upd_live_none: "live_row eid del e xs = None \<Longrightarrow> upd_live eid del e f xs = xs"
  unfolding upd_live_def by (rule upd_where_none) (simp add: count_live)

end

section \<open>Finding the project of an entity\<close>

definition resolve_with :: "(db \<Rightarrow> uuid option) \<Rightarrow> (world, string \<times> bool) state" where
  "resolve_with f = do {
     r \<leftarrow> sel Pool (\<lambda>t d. row_of (f d));
     ret (case r of Row p \<Rightarrow> (p, True) | NoRows \<Rightarrow> ([], False) | SqlErr \<Rightarrow> ([], False))
   }"

lemma wp_resolve_with [wps]:
  "(\<And>fs. Q ([], False) (w\<lparr>faults := fs\<rparr>)) \<Longrightarrow>
   (\<And>fs p. f (db w) = Some p \<Longrightarrow> Q (p, True) (w\<lparr>faults := fs\<rparr>)) \<Longrightarrow> wp (resolve_with f) Q w"
  unfolding resolve_with_def by (intro wps) (auto simp: row_of_def split: option.splits)

lemma preserves_resolve_with [pres]: "preserves (db_inv I) (resolve_with f)"
  unfolding resolve_with_def by (intro pres)

locale entity_resolver =
  fixes resolve :: "string \<Rightarrow> (world, string \<times> bool) state"
    and project_of :: "db \<Rightarrow> string \<Rightarrow> uuid option"
  assumes resolve: "(\<And>fs. Q ([], False) (w\<lparr>faults := fs\<rparr>)) \<Longrightarrow>
     (\<And>fs p. project_of (db w) e = Some p \<Longrightarrow> Q (p, True) (w\<lparr>faults := fs\<rparr>)) \<Longrightarrow>
     wp (resolve e) Q w"
begin

text \<open>
  The gate: a mutation runs the handler behind it only when the caller may contribute to the
  project of the entity (may manage it, for a \<open>DELETE\<close>); otherwise it answers 400, 403 or 405 and
  leaves the tables alone.
\<close>

lemma gate:
  assumes "rq_method r \<notin> {''GET'', ''HEAD'', ''OPTIONS'', ''POST''}"
    and E: "\<And>s m fs. s \<in> {400, 403, 405} \<Longrightarrow> Q (Error s m) (w\<lparr>faults := fs\<rparr>)"
    and N: "\<And>fs p. project_of (db w) (resourceIDFromPath (rq_path r) pre) = Some p \<Longrightarrow>
      allowed (db w) (userIDFromContext r) p
        (if rq_method r = ''DELETE'' then PermissionManage else PermissionContribute) \<Longrightarrow>
      wp (nxt r) Q (w\<lparr>faults := fs\<rparr>)"
  shows "wp (withProjectMutationRBAC nxt pre (Some resolve) r) Q w"
proof -
  have E0: "\<And>s m. s \<in> {400, 403, 405} \<Longrightarrow> Q (Error s m) w"
    using E [where fs = "faults w"] by simp
  show ?thesis
    unfolding withProjectMutationRBAC_def mutationProjectID_def option.case
    by (intro wps resolve) (use assms(1) E E0 N in auto)
qed

lemma gate_read:
  assumes "rq_method r = ''GET''" "wp (nxt r) Q w"
  shows "wp (withProjectMutationRBAC nxt pre res r) Q w"
  using assms by (simp add: withProjectMutationRBAC_def)

end

lemma gate_collection:
  assumes "rq_method r \<notin> {''GET'', ''HEAD'', ''OPTIONS''}"
    and E: "\<And>s m fs. s \<in> {400, 403, 405} \<Longrightarrow> Q (Error s m) (w\<lparr>faults := fs\<rparr>)"
    and N: "\<And>fs p fls. rq_method r = ''POST'' \<Longrightarrow> unmarshal_body r = Some fls \<Longrightarrow>
      map_option trim_space (str_field fls ''project_id'') = Some p \<Longrightarrow>
      allowed (db w) (userIDFromContext r) p PermissionContribute \<Longrightarrow> wp (nxt r) Q (w\<lparr>faults := fs\<rparr>)"
  shows "wp (withProjectMutationRBAC nxt [] None r) Q w"
proof -
  have E0: "\<And>s m. s \<in> {400, 403, 405} \<Longrightarrow> Q (Error s m) w"
    using E [where fs = "faults w"] by simp
  show ?thesis
    unfolding withProjectMutationRBAC_def mutationProjectID_def
    by (intro wps) (use assms(1) E E0 N in auto)
qed

lemma preserves_rbac:
  assumes "preserves (db_inv I) (nxt r)" "\<And>f e. res = Some f \<Longrightarrow> preserves (db_inv I) (f e)"
  shows "preserves (db_inv I) (withProjectMutationRBAC nxt pre res r)"
  unfolding withProjectMutationRBAC_def mutationProjectID_def
  by (intro pres assms)

text \<open>Whatever the route, the role check answers an error or runs the handler.\<close>

lemma wp_rbac:
  assumes E: "\<And>s m fs. Q (Error s m) (w\<lparr>faults := fs\<rparr>)"
    and N: "\<And>fs. wp (nxt r) Q (w\<lparr>faults := fs\<rparr>)"
    and R: "\<And>f e. res = Some f \<Longrightarrow> \<exists>g. f e = resolve_with g"
  shows "wp (withProjectMutationRBAC nxt pre res r) Q w"
proof -
  have E0: "Q (Error s m) w" for s m using E [where fs = "faults w"] by simp
  have N0: "wp (nxt r) Q w" using N [where fs = "faults w"] by simp
  have R': "wp (f e) P v" if "res = Some f" "\<And>fs p. P p (v\<lparr>faults := fs\<rparr>)" for f e P v
    using R [OF that(1), of e] that(2) by (auto intro!: wps)
  show ?thesis
    unfolding withProjectMutationRBAC_def mutationProjectID_def
    by (intro wps R') (use E E0 N N0 in auto)
qed

end
