(* ===== verification/Tasks_API.thy ===== *)
theory Tasks_API
  imports Entities
begin

text \<open>
  Tasks of a project (\<open>internal/httpapi/tasks.go\<close>) and the two routes that serve them
  (\<open>api_routes.go\<close>), without the subscription check in front.
\<close>

record task_dto =
  td_id :: uuid
  td_project :: uuid
  td_title :: string
  td_description :: string
  td_status :: string
  td_due :: string
  td_created :: time

datatype task_payload = TaskItem task_dto | TaskList "task_dto list" | TaskDeleted

record task_req =
  tq_project :: string
  tq_title :: string
  tq_description :: string
  tq_status :: string
  tq_due :: string

definition decode_task :: "request \<Rightarrow> task_req option" where
  "decode_task r = do {
     fs \<leftarrow> decode_body r;
     p \<leftarrow> str_field fs ''project_id'';
     ti \<leftarrow> str_field fs ''title'';
     de \<leftarrow> str_field fs ''description'';
     st \<leftarrow> str_field fs ''status'';
     du \<leftarrow> str_field fs ''due_date'';
     Some \<lparr>tq_project = p, tq_title = ti, tq_description = de, tq_status = st, tq_due = du\<rparr>
   }"

definition isValidTaskStatus :: "string \<Rightarrow> bool" where
  "isValidTaskStatus s \<longleftrightarrow> s = ''open'' \<or> s = ''in_progress'' \<or> s = ''done'' \<or> s = ''cancelled''"

definition normalizeTaskRequest :: "time \<Rightarrow> task_req \<Rightarrow> string + task_req" where
  "normalizeTaskRequest t q =
     (let st = trim_space (tq_status q) in
      case normalizeISODate t (trim_space (tq_due q)) False ''due_date'' of
        Inl e \<Rightarrow> Inl e
      | Inr date \<Rightarrow> Inr \<lparr>tq_project = trim_space (tq_project q), tq_title = trim_space (tq_title q),
          tq_description = trim_space (tq_description q), tq_status = (if st = [] then ''open'' else st),
          tq_due = date\<rparr>)"

section \<open>Statements\<close>

definition task_dto_of :: "task_row \<Rightarrow> task_dto" where
  "task_dto_of k = \<lparr>td_id = t_id k, td_project = t_project k, td_title = t_title k,
     td_description = or_empty (t_description k), td_status = t_status k, td_due = or_empty (t_due k),
     td_created = t_created k\<rparr>"

definition live_task :: "db \<Rightarrow> uuid \<Rightarrow> task_row option" where
  "live_task d i = live_row t_id t_deleted i (tasks d)"

definition sel_tasks :: "uuid \<Rightarrow> db \<Rightarrow> task_dto list" where
  "sel_tasks pid d = map task_dto_of (sort_key (\<lambda>k. - t_created k)
     (filter (\<lambda>k. t_project k = pid \<and> t_deleted k = None) (tasks d)))"

text \<open>\<open>NULLIF(x, '')::date\<close>: the empty string is NULL, other text has to be a date.\<close>

definition pg_date_or_null :: "string \<Rightarrow> string option option" where
  "pg_date_or_null s = (if s = [] then Some None else map_option Some (pg_date s))"

definition new_task :: "task_req \<Rightarrow> uuid \<Rightarrow> string option \<Rightarrow> uuid \<Rightarrow> time \<Rightarrow> task_row" where
  "new_task q u due i t = \<lparr>t_id = i, t_project = tq_project q, t_by = Some u, t_assigned = None,
     t_title = tq_title q, t_description = null_if_empty (tq_description q),
     t_status = tq_status q, t_due = due, t_created = t, t_updated = t, t_deleted = None\<rparr>"

definition ins_task :: "task_req \<Rightarrow> uuid \<Rightarrow> uuid \<Rightarrow> task_row sql" where
  "ins_task q u i t d =
     (case pg_date_or_null (tq_due q) of
        None \<Rightarrow> (SqlErr, d)
      | Some due \<Rightarrow>
          if tq_project q \<notin> p_id ` set (projects d) \<or> user_by_id d u = None
             \<or> i \<in> t_id ` set (tasks d) \<or> \<not> isValidTaskStatus (tq_status q) then (SqlErr, d)
          else (Row (new_task q u due i t), d\<lparr>tasks := tasks d @ [new_task q u due i t]\<rparr>))"

definition edit_task :: "task_req \<Rightarrow> string option \<Rightarrow> time \<Rightarrow> task_row \<Rightarrow> task_row" where
  "edit_task q due t k = k\<lparr>t_title := tq_title q, t_description := null_if_empty (tq_description q),
     t_status := tq_status q, t_due := due, t_updated := t\<rparr>"

definition upd_task :: "task_req \<Rightarrow> uuid \<Rightarrow> task_row sql" where
  "upd_task q i t d =
     (case pg_date_or_null (tq_due q) of
        None \<Rightarrow> (SqlErr, d)
      | Some due \<Rightarrow>
          if \<not> isValidTaskStatus (tq_status q) then (SqlErr, d)
          else (case live_task d i of
              None \<Rightarrow> (NoRows, d)
            | Some k \<Rightarrow> (Row (edit_task q due t k),
                d\<lparr>tasks := upd_live t_id t_deleted i (edit_task q due t) (tasks d)\<rparr>)))"

definition mark_task :: "time \<Rightarrow> task_row \<Rightarrow> task_row" where
  "mark_task t k = k\<lparr>t_deleted := Some t, t_updated := t\<rparr>"

definition del_task :: "uuid \<Rightarrow> nat sql" where
  "del_task i t d = (Row (count_where (\<lambda>k. t_id k = i \<and> t_deleted k = None) (tasks d)),
     d\<lparr>tasks := upd_live t_id t_deleted i (mark_task t) (tasks d)\<rparr>)"

definition taskProjectID :: "string \<Rightarrow> (world, string \<times> bool) state" where
  "taskProjectID i = resolve_with (\<lambda>d. map_option t_project (live_task d i))"

section \<open>Handlers\<close>

definition listTasks :: "task_payload handler" where
  "listTasks r = do {
     let u = userIDFromContext r;
     let pid = trim_space (get_first (rq_query r) ''project_id'');
     if pid = [] then fail 400 ''project_id is required''
     else do {
       ok \<leftarrow> canAccessProject u pid;
       if \<not> ok then fail 403 ''project access denied''
       else do {
         rows \<leftarrow> query Pool (\<lambda>t d. sel_tasks pid d);
         (case rows of
            Rows ts \<Rightarrow> reply 200 (TaskList ts)
          | QueryErr \<Rightarrow> fail 500 ''failed to load tasks''
          | ScanErr \<Rightarrow> fail 500 ''failed to scan task''
          | RowsErr \<Rightarrow> fail 500 ''failed to read tasks'')
       }
     }
   }"

definition createTask :: "app_state \<Rightarrow> task_payload handler" where
  "createTask A r = do {
     t \<leftarrow> read_now;
     let u = userIDFromContext r;
     (case decode_task r of
        None \<Rightarrow> fail 400 ''invalid JSON body''
      | Some q0 \<Rightarrow> (case normalizeTaskRequest t q0 of
          Inl e \<Rightarrow> fail 400 e
        | Inr q \<Rightarrow>
            if tq_project q = [] \<or> tq_title q = [] then fail 400 ''project_id and title are required''
            else if \<not> isValidTaskStatus (tq_status q) then fail 400 ''invalid task status''
            else do {
              ok \<leftarrow> canContributeToProject u (tq_project q);
              if \<not> ok then fail 403 ''project contribution permission required''
              else do {
                row \<leftarrow> insert_stmt Pool (ins_task q u);
                (case row of
                   NoRows \<Rightarrow> fail 500 ''failed to create task''
                 | SqlErr \<Rightarrow> fail 500 ''failed to create task''
                 | Row k \<Rightarrow> do {
                     _ \<leftarrow> audit Pool u (Some (tq_project q)) ''create'' ''task'' (Some (t_id k)) [];
                     publishProjectEvent A (tq_project q) ''task'' (t_id k) ''created'' [];
                     reply 201 (TaskItem (task_dto_of k))
                   })
              }
            }))
   }"

definition updateTask :: "app_state \<Rightarrow> uuid \<Rightarrow> task_payload handler" where
  "updateTask A i r = do {
     t \<leftarrow> read_now;
     let u = userIDFromContext r;
     (case decode_task r of
        None \<Rightarrow> fail 400 ''invalid JSON body''
      | Some q0 \<Rightarrow> (case normalizeTaskRequest t q0 of
          Inl e \<Rightarrow> fail 400 e
        | Inr q \<Rightarrow>
            if tq_title q = [] then fail 400 ''title is required''
            else if \<not> isValidTaskStatus (tq_status q) then fail 400 ''invalid task status''
            else do {
              p \<leftarrow> taskProjectID i;
              ok \<leftarrow> (if \<not> snd p then ret False else canContributeToProject u (fst p));
              if \<not> ok then fail 403 ''project contribution permission required''
              else do {
                row \<leftarrow> stmt Pool (upd_task q i);
                (case row of
                   NoRows \<Rightarrow> fail 404 ''task not found''
                 | SqlErr \<Rightarrow> fail 404 ''task not found''
                 | Row k \<Rightarrow> do {
                     _ \<leftarrow> audit Pool u (Some (fst p)) ''update'' ''task'' (Some i) [];
                     publishProjectEvent A (fst p) ''task'' i ''updated'' [];
                     reply 200 (TaskItem (task_dto_of k))
                   })
              }
            }))
   }"

definition deleteTask :: "app_state \<Rightarrow> uuid \<Rightarrow> task_payload handler" where
  "deleteTask A i r = do {
     let u = userIDFromContext r;
     p \<leftarrow> taskProjectID i;
     ok \<leftarrow> (if \<not> snd p then ret False else canManageProject u (fst p));
     if \<not> ok then fail 403 ''project management permission required''
     else do {
       n \<leftarrow> stmt Pool (del_task i);
       (case n of
          NoRows \<Rightarrow> fail 500 ''failed to delete task''
        | SqlErr \<Rightarrow> fail 500 ''failed to delete task''
        | Row m \<Rightarrow>
            if m = 0 then fail 404 ''task not found''
            else do {
              _ \<leftarrow> audit Pool u (Some (fst p)) ''delete'' ''task'' (Some i) [];
              publishProjectEvent A (fst p) ''task'' i ''deleted'' [];
              reply 200 TaskDeleted
            })
     }
   }"

definition Tasks :: "app_state \<Rightarrow> task_payload handler" where
  "Tasks A r =
     (if \<not> st_db A then dbNotAvailable
      else let i = resourceIDFromPath (rq_path r) ''/api/v1/tasks/'' in
        if i \<noteq> [] then
          (if rq_method r = ''PATCH'' then updateTask A i r
           else if rq_method r = ''DELETE'' then deleteTask A i r
           else methodNotAllowed)
        else if rq_method r = ''GET'' then listTasks r
        else if rq_method r = ''POST'' then createTask A r
        else methodNotAllowed)"

text \<open>The routes \<open>/tasks\<close> and \<open>/tasks/\<close> behind the role check.\<close>

definition tasksRoute :: "app_state \<Rightarrow> task_payload handler" where
  "tasksRoute A = withProjectMutationRBAC (Tasks A) [] None"

definition taskRoute :: "app_state \<Rightarrow> task_payload handler" where
  "taskRoute A = withProjectMutationRBAC (Tasks A) ''/api/v1/tasks/'' (Some taskProjectID)"

section \<open>Interpretations\<close>

interpretation task: entity_rows t_id t_project t_deleted mark_task
  by unfold_locales (simp_all add: mark_task_def)

interpretation task_resolver: entity_resolver taskProjectID "\<lambda>d i. map_option t_project (live_task d i)"
  by unfold_locales (auto simp: taskProjectID_def intro: wp_resolve_with)

lemmas wp_taskProjectID [wps] = task_resolver.resolve

lemma edit_task_keeps [simp]:
  "t_id (edit_task q due t k) = t_id k" "t_project (edit_task q due t k) = t_project k"
  "t_deleted (edit_task q due t k) = t_deleted k"
  by (simp_all add: edit_task_def)

section \<open>What the handlers do to the rows\<close>

definition task_post :: "world \<Rightarrow> uuid \<Rightarrow> task_payload resp \<Rightarrow> world \<Rightarrow> bool" where
  "task_post w u resp w' \<longleftrightarrow> txn w' = txn w \<and> (case resp of
     Error s m \<Rightarrow> db w' = db w
   | Reply s x \<Rightarrow> \<exists>ts as. db w' = (db w)\<lparr>tasks := ts, audits := as\<rparr>
       \<and> guarded_change t_id t_project t_deleted (db w) u (tasks (db w)) ts
       \<and> distinct (map t_id ts))"

lemma ins_task_Row:
  assumes "ins_task q u i t d = (r, d')" "r \<noteq> SqlErr"
  obtains due where "r = Row (new_task q u due i t)" "i \<notin> t_id ` set (tasks d)"
    "d' = d\<lparr>tasks := tasks d @ [new_task q u due i t]\<rparr>"
proof (cases "pg_date_or_null (tq_due q)")
  case (Some due)
  with assms show ?thesis by (intro that [of due]) (simp_all add: ins_task_def split: if_splits)
qed (use assms in \<open>simp add: ins_task_def\<close>)

lemma upd_task_Row:
  assumes "upd_task q i t d = (r, d')" "r \<noteq> SqlErr"
  obtains "r = NoRows" "d' = d"
  | due k where "live_task d i = Some k" "r = Row (edit_task q due t k)"
      "d' = d\<lparr>tasks := upd_live t_id t_deleted i (edit_task q due t) (tasks d)\<rparr>"
  using assms by (auto simp: upd_task_def split: option.splits if_splits)

lemma tasks_self: "\<exists>ts as. d = d\<lparr>tasks := ts, audits := as\<rparr> \<and> P ts" if "P (tasks d)"
  by (rule exI [of _ "tasks d"], rule exI [of _ "audits d"]) (simp add: that)

lemma task_post_reply:
  assumes "guarded_change t_id t_project t_deleted (db w) u (tasks (db w)) ts" "distinct (map t_id ts)"
    "db w' = (db w)\<lparr>tasks := ts, audits := as\<rparr>" "txn w' = txn w"
  shows "task_post w u (Reply s x) w'"
  using assms by (auto simp: task_post_def)

lemma task_post_error: "db w' = db w \<Longrightarrow> txn w' = txn w \<Longrightarrow> task_post w u (Error s m) w'"
  by (simp add: task_post_def)

lemma wp_listTasks:
  assumes "distinct (map t_id (tasks (db w)))"
  shows "wp (listTasks r) (task_post w (userIDFromContext r)) w"
proof -
  have "task_post w (userIDFromContext r) (Reply s x) (w\<lparr>faults := fs\<rparr>)" for s x fs
    by (rule task_post_reply [OF task.guarded_refl assms, where as = "audits (db w)"]) simp_all
  then show ?thesis
    unfolding listTasks_def by (intro wps) (auto intro!: task_post_error)
qed

lemma wp_createTask:
  assumes "distinct (map t_id (tasks (db w)))"
  shows "wp (createTask A r) (task_post w (userIDFromContext r)) w"
proof -
  have ok: "task_post w (userIDFromContext r) (Reply 201 x) w'"
    if "ins_task q u i t (db w) = (Row k, d)" "allowed (db w) (userIDFromContext r) (tq_project q) PermissionContribute"
      "db w' = d\<lparr>audits := as\<rparr>" "txn w' = txn w" for q u i t k d as x w'
    using that(1)
  proof (rule ins_task_Row)
    fix due assume k': "d = (db w)\<lparr>tasks := tasks (db w) @ [new_task q u due i t]\<rparr>"
      "i \<notin> t_id ` set (tasks (db w))"
    show ?thesis
      by (rule task_post_reply [OF task.guarded_insert [of "db w" _ "new_task q u due i t"]])
        (use that k' assms in \<open>auto simp: new_task_def\<close>)
  qed simp
  show ?thesis
    unfolding createTask_def
    by (intro wps) (auto intro!: task_post_error intro: ok elim: ins_task_Row)
qed

lemma wp_updateTask:
  assumes "distinct (map t_id (tasks (db w)))"
  shows "wp (updateTask A i r) (task_post w (userIDFromContext r)) w"
proof -
  have ok: "task_post w (userIDFromContext r) (Reply 200 x) w'"
    if "upd_task q i t (db w) = (Row k, d)" "map_option t_project (live_task (db w) i) = Some p"
      "allowed (db w) (userIDFromContext r) p PermissionContribute"
      "db w' = d\<lparr>audits := as\<rparr>" "txn w' = txn w" for q t k d as x w' p
    using that(1)
  proof (rule upd_task_Row)
    fix due k' assume k': "live_task (db w) i = Some k'"
      "d = (db w)\<lparr>tasks := upd_live t_id t_deleted i (edit_task q due t) (tasks (db w))\<rparr>"
    then have "live_row t_id t_deleted i (tasks (db w)) = Some k'" by (simp add: live_task_def)
    moreover have "t_deleted k' = None" using calculation task.live_row_Some by blast
    ultimately show ?thesis
      using task.guarded_upd [OF assms, of i k' "edit_task q due t" "db w" "userIDFromContext r"] that k'
      by (intro task_post_reply) auto
  qed simp_all
  have none: "upd_task q i t d = (NoRows, d') \<Longrightarrow> d' = d" for q t d d'
    by (erule upd_task_Row) auto
  show ?thesis
    unfolding updateTask_def
    by (intro wps) (auto intro!: task_post_error intro: ok dest: none)
qed

lemma wp_deleteTask:
  assumes "distinct (map t_id (tasks (db w)))"
  shows "wp (deleteTask A i r) (task_post w (userIDFromContext r)) w"
proof -
  have ok: "task_post w (userIDFromContext r) (Reply 200 x) w'"
    if h: "del_task i t (db w) = (Row n, d)" "map_option t_project (live_task (db w) i) = Some p"
      "allowed (db w) (userIDFromContext r) p PermissionManage"
      "db w' = d\<lparr>audits := as\<rparr>" "txn w' = txn w" for t n d as x w' p
  proof -
    obtain k where "live_row t_id t_deleted i (tasks (db w)) = Some k" "t_project k = p"
      using h(2) by (auto simp: live_task_def)
    then show ?thesis
      using task.guarded_upd [OF assms, of i k "mark_task t" "db w" "userIDFromContext r"] h
      by (intro task_post_reply) (auto simp: del_task_def task.mark)
  qed
  have none: "del_task i t d = (Row 0, d') \<Longrightarrow> d' = d" for t d d'
    by (auto simp: del_task_def upd_live_def upd_where_none)
  have row: "del_task i t d = (x, d') \<Longrightarrow> \<exists>n. x = Row n" for t d x d'
    by (auto simp: del_task_def)
  show ?thesis
    unfolding deleteTask_def
    by (intro wps) (auto intro!: task_post_error intro: ok dest: none row)
qed

lemma wp_Tasks:
  assumes "distinct (map t_id (tasks (db w)))"
  shows "wp (Tasks A r) (task_post w (userIDFromContext r)) w"
  unfolding Tasks_def
  by (intro wps wp_listTasks wp_createTask wp_updateTask wp_deleteTask) (use assms in \<open>auto intro: task_post_error\<close>)

lemma task_post_faults [simp]: "task_post (w\<lparr>faults := fs\<rparr>) = task_post w"
  by (simp add: task_post_def fun_eq_iff split: resp.split)

lemma wp_taskRoutes:
  assumes "distinct (map t_id (tasks (db w)))"
  shows "wp (taskRoute A r) (task_post w (userIDFromContext r)) w"
    and "wp (tasksRoute A r) (task_post w (userIDFromContext r)) w"
  unfolding taskRoute_def tasksRoute_def
  by (rule wp_rbac; use assms wp_Tasks [of "w\<lparr>faults := fs\<rparr>" A r for fs] in
      \<open>auto intro: task_post_error simp: taskProjectID_def\<close>)+

section \<open>Properties\<close>

text \<open>
  C8. The task routes, role check included: a failed request changes nothing. A successful one
  changes only tasks and the audit log; no task disappears or moves to another project, every new
  or changed task belongs to a project the caller may contribute to, every deleted one to a
  project the caller may manage, and the keys stay unique.
\<close>

theorem task_routes_guarded:
  assumes "distinct (map t_id (tasks (db w)))" "h \<in> {tasksRoute A, taskRoute A}"
  shows "case run_state (h r) w of (resp, w') \<Rightarrow> (case resp of
     Error s m \<Rightarrow> db w' = db w
   | Reply s x \<Rightarrow> (db w')\<lparr>tasks := tasks (db w), audits := audits (db w)\<rparr> = db w
       \<and> guarded_change t_id t_project t_deleted (db w) (userIDFromContext r) (tasks (db w)) (tasks (db w'))
       \<and> distinct (map t_id (tasks (db w'))))"
  using wp_taskRoutes [OF assms(1), of A r] assms(2)
  by (auto simp: wp_def task_post_def split: prod.splits resp.splits)

definition s_edit_task :: request where
  "s_edit_task = s_as ''u3'' (s_req ''PATCH'' ''/api/v1/tasks/t1'' (JObj [(''title'', JStr ''Dig deeper'')]))"

theorem task_routes_guarded_witness:
  "case run_state (taskRoute s_app s_edit_task) s_team of (resp, w') \<Rightarrow> is_reply resp
     \<and> guarded_change t_id t_project t_deleted (db s_team) ''u3'' (tasks (db s_team)) (tasks (db w'))"
proof -
  have "is_reply (fst (run_state (taskRoute s_app s_edit_task) s_team))" by code_simp
  moreover have "userIDFromContext s_edit_task = ''u3''" by code_simp
  moreover have "distinct (map t_id (tasks (db s_team)))" by code_simp
  ultimately show ?thesis
    using task_routes_guarded [where w = s_team and r = s_edit_task and A = s_app and h = "taskRoute s_app"]
    by (auto split: prod.splits resp.splits)
qed

text \<open>
  C9. A task is created when the request is valid: without a failing database call, with a fresh
  key, a title, a known status, a date the database takes and the permission to contribute, the
  handler answers 201 and the task is stored as asked, last in the table.
\<close>

theorem createTask_succeeds:
  assumes "faults w = []" "uuids w = i # us" "i \<notin> t_id ` set (tasks (db w))"
    and "decode_task r = Some q0" "normalizeTaskRequest (now w) q0 = Inr q"
    and "tq_title q \<noteq> []" "isValidTaskStatus (tq_status q)" "pg_date_or_null (tq_due q) = Some due"
    and "allowed (db w) (userIDFromContext r) (tq_project q) PermissionContribute"
    and "tq_project q \<noteq> []" "user_by_id (db w) (userIDFromContext r) \<noteq> None"
  shows "case run_state (createTask A r) w of (resp, w') \<Rightarrow>
     resp = Reply 201 (TaskItem (task_dto_of (new_task q (userIDFromContext r) due i (now w))))
     \<and> tasks (db w') = tasks (db w) @ [new_task q (userIDFromContext r) due i (now w)]"
proof -
  let ?u = "userIDFromContext r"
  let ?k = "new_task q ?u due i (now w)"
  let ?w = "w\<lparr>db := (db w)\<lparr>tasks := tasks (db w) @ [?k]\<rparr>, uuids := us\<rparr>"
  have "tq_project q \<in> p_id ` set (projects (db w))"
    using assms(9) by (rule allowed_memberE) (force dest: live_project_Some)
  then have "ins_task q ?u i (now w) (db w) = (Row ?k, (db w)\<lparr>tasks := tasks (db w) @ [?k]\<rparr>)"
    using assms by (auto simp: ins_task_def)
  then have ins: "run_state (insert_stmt Pool (ins_task q ?u)) w = (Row ?k, ?w)"
    using assms(1,2) by (simp add: run_insert_stmt stmt_Pool_free)
  have "wp (createTask A r) (\<lambda>resp w'. resp = Reply 201 (TaskItem (task_dto_of ?k))
      \<and> tasks (db w') = tasks (db w) @ [?k]) w"
    unfolding createTask_def using assms
    by (simp add: wp_bind_run run_permission_free ins Let_def) (intro wps; simp)
  then show ?thesis by (simp add: wp_def)
qed

definition s_new_task :: request where
  "s_new_task = s_as ''u3'' (s_req ''POST'' ''/api/v1/tasks'' (JObj [(''project_id'', JStr '' p1 ''),
     (''title'', JStr ''Pour''), (''due_date'', JStr ''2025-03-09'')]))"

definition s_task_req :: task_req where
  "s_task_req = \<lparr>tq_project = ''p1'', tq_title = ''Pour'', tq_description = [], tq_status = ''open'',
     tq_due = ''2025-03-09''\<rparr>"

theorem createTask_succeeds_witness:
  "case run_state (createTask s_app s_new_task) s_team of (resp, w') \<Rightarrow>
     resp = Reply 201 (TaskItem (task_dto_of (new_task s_task_req ''u3'' (Some ''2025-03-09'') ''a1'' (now s_team))))
     \<and> tasks (db w') = tasks (db s_team) @ [new_task s_task_req ''u3'' (Some ''2025-03-09'') ''a1'' (now s_team)]"
proof -
  have u: "userIDFromContext s_new_task = ''u3''" by code_simp
  have "decode_task s_new_task \<noteq> None \<and>
      normalizeTaskRequest (now s_team) (the (decode_task s_new_task)) = Inr s_task_req" by code_simp
  then obtain q0 where "decode_task s_new_task = Some q0" "normalizeTaskRequest (now s_team) q0 = Inr s_task_req"
    by auto
  moreover have "faults s_team = []" "uuids s_team = ''a1'' # [''a2'', ''a3'', ''a4'', ''a5'', ''a6'']"
    by (simp_all add: sample_defs)
  moreover have "''a1'' \<notin> t_id ` set (tasks (db s_team))" "tq_title s_task_req \<noteq> []"
    "isValidTaskStatus (tq_status s_task_req)"
    "pg_date_or_null (tq_due s_task_req) = Some (Some ''2025-03-09'')"
    "allowed (db s_team) ''u3'' (tq_project s_task_req) PermissionContribute"
    "tq_project s_task_req \<noteq> []" "user_by_id (db s_team) ''u3'' \<noteq> None"
    by code_simp+
  ultimately show ?thesis
    using createTask_succeeds [of s_team "''a1''" "[''a2'', ''a3'', ''a4'', ''a5'', ''a6'']" s_new_task q0
        s_task_req "Some ''2025-03-09''" s_app] by (simp add: u)
qed

text \<open>
  C10. Reading tasks: without a failing database call the list is shown exactly to the members of
  the project, holds exactly its tasks that are not deleted, newest first, and changes nothing.
\<close>

theorem listTasks_scope:
  assumes "faults w = []" "trim_space (get_first (rq_query r) ''project_id'') = pid" "pid \<noteq> []"
  shows "run_state (listTasks r) w =
    (if allowed (db w) (userIDFromContext r) pid PermissionRead
     then Reply 200 (TaskList (map task_dto_of (sort_key (\<lambda>k. - t_created k)
            (filter (\<lambda>k. t_project k = pid \<and> t_deleted k = None) (tasks (db w))))))
     else Error 403 ''project access denied'', w)"
  using assms by (simp add: listTasks_def run_permission_free query_Pool_free sel_tasks_def Let_def)

definition s_list :: request where
  "s_list = s_query [(''project_id'', ''p1'')] (s_req ''GET'' ''/api/v1/tasks'' JNull)"

theorem listTasks_scope_witness:
  "run_state (listTasks s_list) s_team = (Reply 200 (TaskList (map task_dto_of (tasks s_team_db))), s_team)"
proof -
  have "faults s_team = []" by (simp add: sample_defs)
  moreover have "trim_space (get_first (rq_query s_list) ''project_id'') = ''p1''" by code_simp
  moreover have "allowed (db s_team) (userIDFromContext s_list) ''p1'' PermissionRead" by code_simp
  moreover have "sort_key (\<lambda>k. - t_created k) (filter (\<lambda>k. t_project k = ''p1'' \<and> t_deleted k = None)
      (tasks (db s_team))) = tasks s_team_db" by code_simp
  ultimately show ?thesis using listTasks_scope [of s_team s_list "''p1''"] by simp
qed

end
