(* ===== verification/Cost_Items.thy ===== *)
theory Cost_Items
  imports Entities Tasks_API
begin

text \<open>
  Cost items of a project (\<open>internal/httpapi/cost_items.go\<close>) and their routes, without the
  subscription check in front. A receipt is a file of kind \<open>receipt\<close> of the same project.
\<close>

record cost_dto =
  kd_id :: uuid
  kd_project :: uuid
  kd_title :: string
  kd_description :: string
  kd_category :: string
  kd_amount :: f64
  kd_currency :: string
  kd_vendor :: string
  kd_receipt :: string
  kd_spent :: string
  kd_created :: time

datatype cost_payload = CostItem cost_dto | CostList "cost_dto list" | CostDeleted

record cost_req =
  kq_project :: string
  kq_title :: string
  kq_description :: string
  kq_category :: string
  kq_amount :: f64
  kq_currency :: string
  kq_vendor :: string
  kq_receipt :: string
  kq_spent :: string

definition decode_cost :: "request \<Rightarrow> cost_req option" where
  "decode_cost r = do {
     fs \<leftarrow> decode_body r;
     p \<leftarrow> str_field fs ''project_id'';
     ti \<leftarrow> str_field fs ''title'';
     de \<leftarrow> str_field fs ''description'';
     ca \<leftarrow> str_field fs ''category'';
     am \<leftarrow> float_field fs ''amount'';
     cu \<leftarrow> str_field fs ''currency'';
     ve \<leftarrow> str_field fs ''vendor'';
     re \<leftarrow> str_field fs ''receipt_file_id'';
     sp \<leftarrow> str_field fs ''spent_at'';
     Some \<lparr>kq_project = p, kq_title = ti, kq_description = de, kq_category = ca, kq_amount = am,
       kq_currency = cu, kq_vendor = ve, kq_receipt = re, kq_spent = sp\<rparr>
   }"

definition normalizeCostItemRequestWithDateFallback ::
  "time \<Rightarrow> bool \<Rightarrow> cost_req \<Rightarrow> string + cost_req" where
  "normalizeCostItemRequestWithDateFallback t fallback_today q =
     (let ca = trim_space (kq_category q);
          cu0 = to_upper (trim_space (kq_currency q));
          cu = (if cu0 = [] then ''KGS'' else cu0);
          sp0 = trim_space (kq_spent q);
          sp = (if sp0 = [] \<and> fallback_today then today t else sp0)
      in case normalizeProjectCurrency cu of
          Inl e \<Rightarrow> Inl e
        | Inr _ \<Rightarrow> (case validateMoneyAmount (kq_amount q) ''amount'' of
            Some e \<Rightarrow> Inl e
          | None \<Rightarrow> (case normalizeISODate t sp fallback_today ''spent_at'' of
              Inl e \<Rightarrow> Inl e
            | Inr date \<Rightarrow> Inr \<lparr>kq_project = trim_space (kq_project q), kq_title = trim_space (kq_title q),
                kq_description = trim_space (kq_description q),
                kq_category = (if ca = [] then ''other'' else ca), kq_amount = kq_amount q,
                kq_currency = cu, kq_vendor = trim_space (kq_vendor q),
                kq_receipt = trim_space (kq_receipt q), kq_spent = date\<rparr>)))"

definition normalizeCostItemRequest :: "time \<Rightarrow> cost_req \<Rightarrow> string + cost_req" where
  "normalizeCostItemRequest t = normalizeCostItemRequestWithDateFallback t True"

definition normalizeCostItemUpdateRequest :: "time \<Rightarrow> cost_req \<Rightarrow> string + cost_req" where
  "normalizeCostItemUpdateRequest t = normalizeCostItemRequestWithDateFallback t False"

section \<open>Statements\<close>

definition cost_dto_of :: "cost_row \<Rightarrow> cost_dto" where
  "cost_dto_of k = \<lparr>kd_id = k_id k, kd_project = k_project k, kd_title = k_title k,
     kd_description = or_empty (k_description k), kd_category = k_category k,
     kd_amount = f_of (k_amount k), kd_currency = k_currency k, kd_vendor = or_empty (k_vendor k),
     kd_receipt = or_empty (k_receipt k), kd_spent = k_spent k, kd_created = k_created k\<rparr>"

definition live_cost :: "db \<Rightarrow> uuid \<Rightarrow> cost_row option" where
  "live_cost d i = live_row k_id k_deleted i (costs d)"

text \<open>A number that orders ISO dates as PostgreSQL orders \<open>date\<close> values.\<close>

definition date_key :: "string \<Rightarrow> int" where
  "date_key s = (case parse_iso_date s of None \<Rightarrow> 0 | Some (y, m, d) \<Rightarrow> int y * 372 + int m * 31 + int d)"

definition sel_costs :: "uuid \<Rightarrow> db \<Rightarrow> cost_dto list" where
  "sel_costs pid d = map cost_dto_of (sort_key (\<lambda>k. - date_key (k_spent k)) (sort_key (\<lambda>k. - k_created k)
     (filter (\<lambda>k. k_project k = pid \<and> k_deleted k = None) (costs d))))"

definition sel_receipt :: "uuid \<Rightarrow> uuid \<Rightarrow> db \<Rightarrow> bool" where
  "sel_receipt fid pid d \<longleftrightarrow> list_ex (\<lambda>f. f_id f = fid \<and> f_project f = Some pid
     \<and> f_kind f = ''receipt'' \<and> f_deleted f = None) (files d)"

definition new_cost :: "cost_req \<Rightarrow> uuid \<Rightarrow> rat \<Rightarrow> string \<Rightarrow> uuid \<Rightarrow> time \<Rightarrow> cost_row" where
  "new_cost q u amt spent i t = \<lparr>k_id = i, k_project = kq_project q, k_by = Some u,
     k_title = kq_title q, k_description = null_if_empty (kq_description q),
     k_category = kq_category q, k_amount = amt, k_currency = kq_currency q,
     k_vendor = null_if_empty (kq_vendor q), k_receipt = null_if_empty (kq_receipt q),
     k_spent = spent, k_created = t, k_updated = t, k_deleted = None\<rparr>"

definition cost_checks :: "cost_req \<Rightarrow> rat \<Rightarrow> db \<Rightarrow> bool" where
  "cost_checks q amt d \<longleftrightarrow> 0 \<le> amt \<and> kq_currency q \<in> {''KGS'', ''USD'', ''KZT''}
     \<and> (kq_receipt q = [] \<or> kq_receipt q \<in> f_id ` set (files d))"

definition ins_cost :: "externals \<Rightarrow> cost_req \<Rightarrow> uuid \<Rightarrow> uuid \<Rightarrow> cost_row sql" where
  "ins_cost X q u i t d =
     (case (x_numeric X (kq_amount q), pg_date (kq_spent q)) of
        (Some amt, Some spent) \<Rightarrow>
          if kq_project q \<notin> p_id ` set (projects d) \<or> user_by_id d u = None
             \<or> i \<in> k_id ` set (costs d) \<or> \<not> cost_checks q amt d then (SqlErr, d)
          else (Row (new_cost q u amt spent i t), d\<lparr>costs := costs d @ [new_cost q u amt spent i t]\<rparr>)
      | _ \<Rightarrow> (SqlErr, d))"

definition edit_cost :: "cost_req \<Rightarrow> rat \<Rightarrow> string option \<Rightarrow> time \<Rightarrow> cost_row \<Rightarrow> cost_row" where
  "edit_cost q amt spent t k = k\<lparr>k_title := kq_title q, k_description := null_if_empty (kq_description q),
     k_category := kq_category q, k_amount := amt, k_currency := kq_currency q,
     k_vendor := null_if_empty (kq_vendor q),
     k_receipt := (if kq_receipt q = [] then k_receipt k else Some (kq_receipt q)),
     k_spent := (case spent of None \<Rightarrow> k_spent k | Some s \<Rightarrow> s), k_updated := t\<rparr>"

definition upd_cost :: "externals \<Rightarrow> cost_req \<Rightarrow> uuid \<Rightarrow> cost_row sql" where
  "upd_cost X q i t d =
     (case (x_numeric X (kq_amount q), pg_date_or_null (kq_spent q)) of
        (Some amt, Some spent) \<Rightarrow>
          (case live_cost d i of
             None \<Rightarrow> (NoRows, d)
           | Some k \<Rightarrow>
               if \<not> cost_checks q amt d then (SqlErr, d)
               else (Row (edit_cost q amt spent t k),
                 d\<lparr>costs := upd_live k_id k_deleted i (edit_cost q amt spent t) (costs d)\<rparr>))
      | _ \<Rightarrow> (SqlErr, d))"

definition mark_cost :: "time \<Rightarrow> cost_row \<Rightarrow> cost_row" where
  "mark_cost t k = k\<lparr>k_deleted := Some t, k_updated := t\<rparr>"

definition del_cost :: "uuid \<Rightarrow> nat sql" where
  "del_cost i t d = (Row (count_where (\<lambda>k. k_id k = i \<and> k_deleted k = None) (costs d)),
     d\<lparr>costs := upd_live k_id k_deleted i (mark_cost t) (costs d)\<rparr>)"

definition costItemProjectID :: "string \<Rightarrow> (world, string \<times> bool) state" where
  "costItemProjectID i = resolve_with (\<lambda>d. map_option k_project (live_cost d i))"

definition receiptBelongsToProject :: "uuid \<Rightarrow> uuid \<Rightarrow> (world, bool) state" where
  "receiptBelongsToProject fid pid = scan_ignore Pool (\<lambda>t d. Row (sel_receipt fid pid d)) False"

section \<open>Handlers\<close>

definition listCostItems :: "cost_payload handler" where
  "listCostItems r = do {
     let u = userIDFromContext r;
     let pid = get_first (rq_query r) ''project_id'';
     if pid = [] then fail 400 ''project_id is required''
     else do {
       ok \<leftarrow> canAccessProject u pid;
       if \<not> ok then fail 403 ''project access denied''
       else do {
         rows \<leftarrow> query Pool (\<lambda>t d. sel_costs pid d);
         (case rows of
            Rows ks \<Rightarrow> reply 200 (CostList ks)
          | QueryErr \<Rightarrow> fail 500 ''failed to load cost items''
          | ScanErr \<Rightarrow> fail 500 ''failed to scan cost item''
          | RowsErr \<Rightarrow> fail 500 ''failed to read cost items'')
       }
     }
   }"

definition getCostItem :: "uuid \<Rightarrow> cost_payload handler" where
  "getCostItem i r = do {
     let u = userIDFromContext r;
     p \<leftarrow> costItemProjectID i;
     ok \<leftarrow> (if \<not> snd p then ret False else canAccessProject u (fst p));
     if \<not> ok then fail 403 ''project access denied''
     else do {
       row \<leftarrow> sel Pool (\<lambda>t d. row_of (map_option cost_dto_of (live_cost d i)));
       (case row of
          Row k \<Rightarrow> reply 200 (CostItem k)
        | NoRows \<Rightarrow> fail 404 ''cost item not found''
        | SqlErr \<Rightarrow> fail 404 ''cost item not found'')
     }
   }"

definition createCostItem :: "app_state \<Rightarrow> externals \<Rightarrow> cost_payload handler" where
  "createCostItem A X r = do {
     t \<leftarrow> read_now;
     let u = userIDFromContext r;
     (case decode_cost r of
        None \<Rightarrow> fail 400 ''invalid JSON body''
      | Some q0 \<Rightarrow> (case normalizeCostItemRequest t q0 of
          Inl e \<Rightarrow> fail 400 e
        | Inr q \<Rightarrow>
            if kq_project q = [] \<or> kq_title q = [] \<or> f_lt (kq_amount q) (Fin 0)
            then fail 400 ''project_id, title and non-negative amount are required''
            else do {
              ok \<leftarrow> canContributeToProject u (kq_project q);
              if \<not> ok then fail 403 ''project contribution permission required''
              else do {
                rc \<leftarrow> (if kq_receipt q = [] then ret True
                      else receiptBelongsToProject (kq_receipt q) (kq_project q));
                if \<not> rc then fail 400 ''receipt_file_id must reference a receipt from this project''
                else do {
                  row \<leftarrow> insert_stmt Pool (ins_cost X q u);
                  (case row of
                     NoRows \<Rightarrow> fail 500 ''failed to create cost item''
                   | SqlErr \<Rightarrow> fail 500 ''failed to create cost item''
                   | Row k \<Rightarrow> do {
                       _ \<leftarrow> audit Pool u (Some (kq_project q)) ''create'' ''cost_item'' (Some (k_id k)) [];
                       publishProjectEventForActor A (kq_project q) ''cost_item'' (k_id k) ''created'' u [];
                       reply 201 (CostItem (cost_dto_of k))
                     })
                }
              }
            }))
   }"

definition updateCostItem :: "app_state \<Rightarrow> externals \<Rightarrow> uuid \<Rightarrow> cost_payload handler" where
  "updateCostItem A X i r = do {
     t \<leftarrow> read_now;
     let u = userIDFromContext r;
     (case decode_cost r of
        None \<Rightarrow> fail 400 ''invalid JSON body''
      | Some q0 \<Rightarrow> (case normalizeCostItemUpdateRequest t q0 of
          Inl e \<Rightarrow> fail 400 e
        | Inr q \<Rightarrow>
            if kq_title q = [] \<or> f_lt (kq_amount q) (Fin 0)
            then fail 400 ''title and non-negative amount are required''
            else do {
              p \<leftarrow> costItemProjectID i;
              ok \<leftarrow> (if \<not> snd p then ret False else canContributeToProject u (fst p));
              if \<not> ok then fail 403 ''project contribution permission required''
              else do {
                rc \<leftarrow> (if kq_receipt q = [] then ret True
                      else receiptBelongsToProject (kq_receipt q) (fst p));
                if \<not> rc then fail 400 ''receipt_file_id must reference a receipt from this project''
                else do {
                  row \<leftarrow> stmt Pool (upd_cost X q i);
                  (case row of
                     NoRows \<Rightarrow> fail 404 ''cost item not found''
                   | SqlErr \<Rightarrow> fail 404 ''cost item not found''
                   | Row k \<Rightarrow> do {
                       _ \<leftarrow> audit Pool u (Some (fst p)) ''update'' ''cost_item'' (Some i) [];
                       publishProjectEvent A (fst p) ''cost_item'' i ''updated'' [];
                       reply 200 (CostItem (cost_dto_of k))
                     })
                }
              }
            }))
   }"

definition deleteCostItem :: "app_state \<Rightarrow> uuid \<Rightarrow> cost_payload handler" where
  "deleteCostItem A i r = do {
     let u = userIDFromContext r;
     p \<leftarrow> costItemProjectID i;
     ok \<leftarrow> (if \<not> snd p then ret False else canManageProject u (fst p));
     if \<not> ok then fail 403 ''project management permission required''
     else do {
       n \<leftarrow> stmt Pool (del_cost i);
       (case n of
          NoRows \<Rightarrow> fail 500 ''failed to delete cost item''
        | SqlErr \<Rightarrow> fail 500 ''failed to delete cost item''
        | Row m \<Rightarrow>
            if m = 0 then fail 404 ''cost item not found''
            else do {
              _ \<leftarrow> audit Pool u (Some (fst p)) ''delete'' ''cost_item'' (Some i) [];
              publishProjectEvent A (fst p) ''cost_item'' i ''deleted'' [];
              reply 200 CostDeleted
            })
     }
   }"

definition CostItems :: "app_state \<Rightarrow> externals \<Rightarrow> cost_payload handler" where
  "CostItems A X r =
     (if \<not> st_db A then dbNotAvailable
      else let i = resourceIDFromPath (rq_path r) ''/api/v1/cost-items/'' in
        if i \<noteq> [] then
          (if rq_method r = ''GET'' then getCostItem i r
           else if rq_method r = ''PATCH'' then updateCostItem A X i r
           else if rq_method r = ''DELETE'' then deleteCostItem A i r
           else methodNotAllowed)
        else if rq_method r = ''GET'' then listCostItems r
        else if rq_method r = ''POST'' then createCostItem A X r
        else methodNotAllowed)"

definition costItemsRoute :: "app_state \<Rightarrow> externals \<Rightarrow> cost_payload handler" where
  "costItemsRoute A X = withProjectMutationRBAC (CostItems A X) [] None"

definition costItemRoute :: "app_state \<Rightarrow> externals \<Rightarrow> cost_payload handler" where
  "costItemRoute A X =
     withProjectMutationRBAC (CostItems A X) ''/api/v1/cost-items/'' (Some costItemProjectID)"

section \<open>Interpretations\<close>

interpretation cost: entity_rows k_id k_project k_deleted mark_cost
  by unfold_locales (simp_all add: mark_cost_def)

interpretation cost_resolver: entity_resolver costItemProjectID "\<lambda>d i. map_option k_project (live_cost d i)"
  by unfold_locales (auto simp: costItemProjectID_def intro: wp_resolve_with)

lemmas wp_costItemProjectID [wps] = cost_resolver.resolve

lemma edit_cost_keeps [simp]:
  "k_id (edit_cost q amt sp t k) = k_id k" "k_project (edit_cost q amt sp t k) = k_project k"
  "k_deleted (edit_cost q amt sp t k) = k_deleted k"
  by (simp_all add: edit_cost_def)

lemma wp_receipt [wps]:
  assumes "\<And>fs. Q False (w\<lparr>faults := fs\<rparr>)"
    and "\<And>fs. sel_receipt fid pid (db w) \<Longrightarrow> Q True (w\<lparr>faults := fs\<rparr>)"
  shows "wp (receiptBelongsToProject fid pid) Q w"
proof -
  have "Q (sel_receipt fid pid (db w)) (w\<lparr>faults := fs\<rparr>)" for fs
    using assms by (cases "sel_receipt fid pid (db w)") auto
  then show ?thesis
    unfolding receiptBelongsToProject_def scan_ignore_def
    by (intro wps) (use assms(1) in auto)
qed

section \<open>What the handlers do to the rows\<close>

text \<open>
  The receipt of every new or changed row is empty, was there before, or is a receipt file of the
  project of the row.
\<close>

definition receipts_ok :: "db \<Rightarrow> cost_row list \<Rightarrow> bool" where
  "receipts_ok d ks \<longleftrightarrow> (\<forall>k\<in>set ks. case k_receipt k of None \<Rightarrow> True | Some f \<Rightarrow>
     sel_receipt f (k_project k) d \<or> (\<exists>k0\<in>set (costs d). k_id k0 = k_id k \<and> k_receipt k0 = Some f))"

definition cost_post :: "world \<Rightarrow> uuid \<Rightarrow> cost_payload resp \<Rightarrow> world \<Rightarrow> bool" where
  "cost_post w u resp w' \<longleftrightarrow> txn w' = txn w \<and> (case resp of
     Error s m \<Rightarrow> db w' = db w
   | Reply s x \<Rightarrow> \<exists>ks as. db w' = (db w)\<lparr>costs := ks, audits := as\<rparr>
       \<and> guarded_change k_id k_project k_deleted (db w) u (costs (db w)) ks
       \<and> distinct (map k_id ks) \<and> receipts_ok (db w) ks)"

lemma cost_post_reply:
  assumes "guarded_change k_id k_project k_deleted (db w) u (costs (db w)) ks" "distinct (map k_id ks)"
    "receipts_ok (db w) ks" "db w' = (db w)\<lparr>costs := ks, audits := as\<rparr>" "txn w' = txn w"
  shows "cost_post w u (Reply s x) w'"
  using assms by (auto simp: cost_post_def)

lemma cost_post_error: "db w' = db w \<Longrightarrow> txn w' = txn w \<Longrightarrow> cost_post w u (Error s m) w'"
  by (simp add: cost_post_def)

lemma receipts_ok_same: "receipts_ok d (costs d)"
  by (auto simp: receipts_ok_def split: option.splits)

lemma receipts_ok_upd:
  assumes "\<And>k. k_id (f k) = k_id k"
    and "\<And>k. k \<in> set (costs d) \<Longrightarrow> k_id k = i \<Longrightarrow> k_deleted k = None \<Longrightarrow>
      k_receipt (f k) = k_receipt k \<or>
      (\<exists>r. k_receipt (f k) = Some r \<and> sel_receipt r (k_project (f k)) d)"
  shows "receipts_ok d (upd_live k_id k_deleted i f (costs d))"
  unfolding receipts_ok_def
proof
  fix y assume "y \<in> set (upd_live k_id k_deleted i f (costs d))"
  then obtain k where k: "k \<in> set (costs d)" "y = (if k_id k = i \<and> k_deleted k = None then f k else k)"
    by (auto simp: upd_live_def set_upd_where)
  show "case k_receipt y of None \<Rightarrow> True | Some r \<Rightarrow> sel_receipt r (k_project y) d \<or>
      (\<exists>k0\<in>set (costs d). k_id k0 = k_id y \<and> k_receipt k0 = Some r)"
  proof (cases "k_id k = i \<and> k_deleted k = None")
    case True
    then have "y = f k" using k(2) by simp
    with True assms(1) [of k] assms(2) [OF k(1)] k(1) show ?thesis
      by (auto split: option.splits)
  next
    case False
    then have "y = k" using k(2) by (simp only: if_False)
    with k(1) show ?thesis by (auto split: option.splits)
  qed
qed

lemma ins_cost_Row:
  assumes "ins_cost X q u i t d = (r, d')" "r \<noteq> SqlErr"
  obtains amt sp where "r = Row (new_cost q u amt sp i t)" "i \<notin> k_id ` set (costs d)"
    "d' = d\<lparr>costs := costs d @ [new_cost q u amt sp i t]\<rparr>"
proof (cases "x_numeric X (kq_amount q)"; cases "pg_date (kq_spent q)")
  fix amt sp assume "x_numeric X (kq_amount q) = Some amt" "pg_date (kq_spent q) = Some sp"
  with assms show ?thesis by (intro that [of amt sp]) (simp_all add: ins_cost_def split: if_splits)
qed (use assms in \<open>simp_all add: ins_cost_def\<close>)

lemma upd_cost_Row:
  assumes "upd_cost X q i t d = (r, d')" "r \<noteq> SqlErr"
  obtains "r = NoRows" "d' = d"
  | amt sp k where "live_cost d i = Some k" "r = Row (edit_cost q amt sp t k)"
      "d' = d\<lparr>costs := upd_live k_id k_deleted i (edit_cost q amt sp t) (costs d)\<rparr>"
  using assms by (auto simp: upd_cost_def split: option.splits if_splits)

lemma wp_readCosts:
  assumes "distinct (map k_id (costs (db w)))"
  shows "wp (listCostItems r) (cost_post w (userIDFromContext r)) w"
    and "wp (getCostItem i r) (cost_post w (userIDFromContext r)) w"
proof -
  have "cost_post w (userIDFromContext r) (Reply s x) (w\<lparr>faults := fs\<rparr>)" for s x fs
    by (rule cost_post_reply [OF cost.guarded_refl assms receipts_ok_same, where as = "audits (db w)"]) simp_all
  then show "wp (listCostItems r) (cost_post w (userIDFromContext r)) w"
    "wp (getCostItem i r) (cost_post w (userIDFromContext r)) w"
    unfolding listCostItems_def getCostItem_def
    by (intro wps; auto intro!: cost_post_error)+
qed

lemma wp_createCostItem:
  assumes "distinct (map k_id (costs (db w)))"
  shows "wp (createCostItem A X r) (cost_post w (userIDFromContext r)) w"
proof -
  have ok: "cost_post w (userIDFromContext r) (Reply 201 x) w'"
    if h: "ins_cost X q u i t (db w) = (Row k, d)"
      "allowed (db w) (userIDFromContext r) (kq_project q) PermissionContribute"
      "kq_receipt q = [] \<or> sel_receipt (kq_receipt q) (kq_project q) (db w)"
      "db w' = d\<lparr>audits := as\<rparr>" "txn w' = txn w" for q u i t k d as x w'
    using h(1)
  proof (rule ins_cost_Row)
    fix amt sp assume k': "d = (db w)\<lparr>costs := costs (db w) @ [new_cost q u amt sp i t]\<rparr>"
      "i \<notin> k_id ` set (costs (db w))"
    have "receipts_ok (db w) (costs (db w) @ [new_cost q u amt sp i t])"
      using receipts_ok_same [of "db w"] h(3)
      by (auto simp: receipts_ok_def new_cost_def null_if_empty_def split: option.splits)
    then show ?thesis
      by (intro cost_post_reply [OF cost.guarded_insert [of "db w" _ "new_cost q u amt sp i t"]])
        (use h k' assms in \<open>auto simp: new_cost_def\<close>)
  qed simp
  show ?thesis
    unfolding createCostItem_def
    by (intro wps) (auto intro!: cost_post_error intro: ok elim: ins_cost_Row)
qed

lemma wp_updateCostItem:
  assumes "distinct (map k_id (costs (db w)))"
  shows "wp (updateCostItem A X i r) (cost_post w (userIDFromContext r)) w"
proof -
  have ok: "cost_post w (userIDFromContext r) (Reply 200 x) w'"
    if h: "upd_cost X q i t (db w) = (Row k, d)" "map_option k_project (live_cost (db w) i) = Some p"
      "allowed (db w) (userIDFromContext r) p PermissionContribute"
      "kq_receipt q = [] \<or> sel_receipt (kq_receipt q) p (db w)"
      "db w' = d\<lparr>audits := as\<rparr>" "txn w' = txn w" for q t k d as x w' p
    using h(1)
  proof (rule upd_cost_Row)
    fix amt sp k' assume k': "live_cost (db w) i = Some k'"
      "d = (db w)\<lparr>costs := upd_live k_id k_deleted i (edit_cost q amt sp t) (costs (db w))\<rparr>"
    then have l: "live_row k_id k_deleted i (costs (db w)) = Some k'" by (simp add: live_cost_def)
    then have t_ok: "k_deleted k' = None" "k_project k' = p"
      using cost.live_row_Some h(2) k'(1) by auto
    have "k = k'" if "k \<in> set (costs (db w))" "k_id k = i" for k
      using cost.live_row_unique [OF assms l] that by blast
    then have "receipts_ok (db w) (upd_live k_id k_deleted i (edit_cost q amt sp t) (costs (db w)))"
      using h(4) t_ok(2) by (intro receipts_ok_upd) (auto simp: edit_cost_def)
    then show ?thesis
      using cost.guarded_upd [OF assms l, of "edit_cost q amt sp t" "db w" "userIDFromContext r"] h k' t_ok
      by (intro cost_post_reply) auto
  qed simp_all
  have none: "upd_cost X q i t d = (NoRows, d') \<Longrightarrow> d' = d" for q t d d'
    by (erule upd_cost_Row) auto
  show ?thesis
    unfolding updateCostItem_def
    by (intro wps) (auto intro!: cost_post_error intro: ok dest: none)
qed

lemma wp_deleteCostItem:
  assumes "distinct (map k_id (costs (db w)))"
  shows "wp (deleteCostItem A i r) (cost_post w (userIDFromContext r)) w"
proof -
  have ok: "cost_post w (userIDFromContext r) (Reply 200 x) w'"
    if h: "del_cost i t (db w) = (Row n, d)" "map_option k_project (live_cost (db w) i) = Some p"
      "allowed (db w) (userIDFromContext r) p PermissionManage"
      "db w' = d\<lparr>audits := as\<rparr>" "txn w' = txn w" for t n d as x w' p
  proof -
    obtain k where "live_row k_id k_deleted i (costs (db w)) = Some k" "k_project k = p"
      using h(2) by (auto simp: live_cost_def)
    moreover have "receipts_ok (db w) (upd_live k_id k_deleted i (mark_cost t) (costs (db w)))"
      by (rule receipts_ok_upd) (simp_all add: mark_cost_def)
    ultimately show ?thesis
      using cost.guarded_upd [OF assms, of i k "mark_cost t" "db w" "userIDFromContext r"] h
      by (intro cost_post_reply) (auto simp: del_cost_def cost.mark)
  qed
  have none: "del_cost i t d = (Row 0, d') \<Longrightarrow> d' = d" for t d d'
    by (auto simp: del_cost_def upd_live_def upd_where_none)
  have row: "del_cost i t d = (x, d') \<Longrightarrow> \<exists>n. x = Row n" for t d x d'
    by (auto simp: del_cost_def)
  show ?thesis
    unfolding deleteCostItem_def
    by (intro wps) (auto intro!: cost_post_error intro: ok dest: none row)
qed

lemma wp_getCostItem:
  assumes "distinct (map k_id (costs (db w)))"
  shows "wp (getCostItem i r) (cost_post w (userIDFromContext r)) w"
  using wp_readCosts assms by blast

lemma wp_CostItems:
  assumes "distinct (map k_id (costs (db w)))"
  shows "wp (CostItems A X r) (cost_post w (userIDFromContext r)) w"
  unfolding CostItems_def
  by (intro wps wp_readCosts wp_createCostItem wp_updateCostItem wp_deleteCostItem)
    (use assms in \<open>auto intro: cost_post_error\<close>)

lemma cost_post_faults [simp]: "cost_post (w\<lparr>faults := fs\<rparr>) = cost_post w"
  by (simp add: cost_post_def fun_eq_iff split: resp.split)

lemma wp_costRoutes:
  assumes "distinct (map k_id (costs (db w)))"
  shows "wp (costItemRoute A X r) (cost_post w (userIDFromContext r)) w"
    and "wp (costItemsRoute A X r) (cost_post w (userIDFromContext r)) w"
  unfolding costItemRoute_def costItemsRoute_def
  by (rule wp_rbac; use assms wp_CostItems [of "w\<lparr>faults := fs\<rparr>" A X r for fs] in
      \<open>auto intro: cost_post_error simp: costItemProjectID_def\<close>)+

section \<open>Properties\<close>

text \<open>
  C11. The cost item routes, role check included: a failed request changes nothing. A successful one
  changes only cost items and the audit log; none disappears or moves to another project, a new or
  changed one belongs to a project the caller may contribute to, a deleted one to a project the
  caller may manage, and the receipt of a new or changed one is a receipt file of its own project
  or the one it had.
\<close>

theorem cost_routes_guarded:
  assumes "distinct (map k_id (costs (db w)))" "h \<in> {costItemsRoute A X, costItemRoute A X}"
  shows "case run_state (h r) w of (resp, w') \<Rightarrow> (case resp of
     Error s m \<Rightarrow> db w' = db w
   | Reply s x \<Rightarrow> (db w')\<lparr>costs := costs (db w), audits := audits (db w)\<rparr> = db w
       \<and> guarded_change k_id k_project k_deleted (db w) (userIDFromContext r) (costs (db w)) (costs (db w'))
       \<and> distinct (map k_id (costs (db w'))) \<and> receipts_ok (db w) (costs (db w')))"
  using wp_costRoutes [OF assms(1), of A X r] assms(2)
  by (auto simp: wp_def cost_post_def split: prod.splits resp.splits)

definition s_new_cost :: request where
  "s_new_cost = s_as ''u3'' (s_req ''POST'' ''/api/v1/cost-items'' (JObj [(''project_id'', JStr ''p1''),
     (''title'', JStr ''Cement''), (''amount'', JInt 2500), (''category'', JStr ''materials''),
     (''currency'', JStr ''KGS''), (''spent_at'', JStr ''2025-03-09'')]))"

theorem cost_routes_guarded_witness:
  "case run_state (costItemsRoute s_app s_ext s_new_cost) s_team of (resp, w') \<Rightarrow> is_reply resp
     \<and> receipts_ok (db s_team) (costs (db w'))"
proof -
  have "is_reply (fst (run_state (costItemsRoute s_app s_ext s_new_cost) s_team))" by code_simp
  moreover have "distinct (map k_id (costs (db s_team)))" by code_simp
  ultimately show ?thesis
    using cost_routes_guarded [where w = s_team and r = s_new_cost and A = s_app and X = s_ext
        and h = "costItemsRoute s_app s_ext"]
    by (auto split: prod.splits resp.splits)
qed

end
