(* ===== verification/Files.thy ===== *)
theory Files
  imports Object_Store Cost_Items Calendar Netip
begin

text \<open>
  Files of a project (\<open>internal/httpapi/files.go\<close>, \<open>file_upload.go\<close>, \<open>file_download.go\<close>): rows of the
  table \<open>files\<close>, whose bytes are objects of the store under the key \<open>storage_path\<close>. A multipart body
  is an argument of the upload handlers: what \<open>ParseMultipartForm\<close> read, or nothing when it failed
  (no form, or more bytes than the limit). Removing a file marks its row, queues its path in the
  outbox and then tries to remove the object at once.
\<close>

record file_dto =
  fd_id :: uuid
  fd_project :: string
  fd_kind :: string
  fd_name :: string
  fd_type :: string
  fd_size :: int
  fd_created :: time

datatype files_payload = FileList "file_dto list" | FileItem file_dto | FileDeleted
  | FileContent string string "nat list"

record create_file_req =
  fq_project :: string
  fq_kind :: string
  fq_name :: string
  fq_path :: string
  fq_type :: string
  fq_size :: int

record upload_form =
  uf_values :: "(string \<times> string) list"
  uf_files :: "(string \<times> string \<times> nat list) list"

text \<open>\<open>r.FormValue(k)\<close>: the query parameter comes before the field of the body.\<close>

definition form_value :: "request \<Rightarrow> upload_form \<Rightarrow> string \<Rightarrow> string" where
  "form_value r f k = (case map_of (rq_query r) k of Some v \<Rightarrow> v | None \<Rightarrow> get_first (uf_values f) k)"

section \<open>Kinds and types\<close>

definition isValidFileKind :: "string \<Rightarrow> bool" where
  "isValidFileKind k \<longleftrightarrow> k = ''receipt'' \<or> k = ''photo'' \<or> k = ''document'' \<or> k = ''project_cover''"

definition isAllowedFileType :: "string \<Rightarrow> bool" where
  "isAllowedFileType c \<longleftrightarrow> c \<in> {''image/jpeg'', ''image/png'', ''image/webp'', ''application/pdf''}"

definition isAllowedProjectCoverType :: "string \<Rightarrow> bool" where
  "isAllowedProjectCoverType c \<longleftrightarrow> c \<in> {''image/jpeg'', ''image/png'', ''image/webp''}"

definition extensionForContentType :: "string \<Rightarrow> string" where
  "extensionForContentType c = (if c = ''image/jpeg'' then ''.jpg'' else if c = ''image/png'' then ''.png''
     else if c = ''image/webp'' then ''.webp'' else if c = ''application/pdf'' then ''.pdf'' else [])"

text \<open>
  \<open>http.DetectContentType\<close> as far as the handlers look at it: the signatures of the four types they
  know; everything else is some other type.
\<close>

definition detectContentType :: "nat list \<Rightarrow> string" where
  "detectContentType b =
     (if take 5 b = [37, 80, 68, 70, 45] then ''application/pdf''
      else if take 4 b = [82, 73, 70, 70] \<and> take 6 (drop 8 b) = [87, 69, 66, 80, 86, 80] then ''image/webp''
      else if take 8 b = [137, 80, 78, 71, 13, 10, 26, 10] then ''image/png''
      else if take 3 b = [255, 216, 255] then ''image/jpeg''
      else ''application/octet-stream'')"

definition normalizeFileRequest :: "create_file_req \<Rightarrow> create_file_req" where
  "normalizeFileRequest q =
     (let k = to_lower (trim_space (fq_kind q)) in
      \<lparr>fq_project = trim_space (fq_project q), fq_kind = (if k = [] then ''document'' else k),
       fq_name = trim_space (fq_name q), fq_path = trim_space (replace_char CHR 0x5C CHR ''/'' (fq_path q)),
       fq_type = to_lower (trim_space (fq_type q)), fq_size = fq_size q\<rparr>)"

definition decode_create_file :: "request \<Rightarrow> create_file_req option" where
  "decode_create_file r = do {
     fs \<leftarrow> decode_body r;
     p \<leftarrow> str_field fs ''project_id'';
     k \<leftarrow> str_field fs ''kind'';
     n \<leftarrow> str_field fs ''original_name'';
     s \<leftarrow> str_field fs ''storage_path'';
     c \<leftarrow> str_field fs ''content_type'';
     z \<leftarrow> int_field fs ''size_bytes'';
     Some \<lparr>fq_project = p, fq_kind = k, fq_name = n, fq_path = s, fq_type = c, fq_size = z\<rparr>
   }"

section \<open>Statements\<close>

definition file_dto_of :: "file_row \<Rightarrow> file_dto" where
  "file_dto_of f = \<lparr>fd_id = f_id f, fd_project = or_empty (f_project f), fd_kind = f_kind f, fd_name = f_name f,
     fd_type = f_type f, fd_size = f_size f, fd_created = f_created f\<rparr>"

definition live_file :: "db \<Rightarrow> uuid \<Rightarrow> file_row option" where
  "live_file d i = live_row f_id f_deleted i (files d)"

definition sel_files :: "uuid \<Rightarrow> db \<Rightarrow> file_dto list" where
  "sel_files pid d = map file_dto_of (take 500 (sort_key (\<lambda>f. - f_created f)
     (filter (\<lambda>f. f_project f = Some pid \<and> f_deleted f = None) (files d))))"

definition new_file :: "uuid \<Rightarrow> uuid \<Rightarrow> string \<Rightarrow> string \<Rightarrow> string \<Rightarrow> string \<Rightarrow> int \<Rightarrow> uuid \<Rightarrow> time \<Rightarrow> file_row" where
  "new_file pid u kind nm path ctype sz i t = \<lparr>f_id = i, f_project = Some pid, f_uploader = Some u, f_kind = kind,
     f_name = nm, f_path = path, f_type = ctype, f_size = sz, f_created = t, f_deleted = None\<rparr>"

definition ins_file ::
  "uuid \<Rightarrow> uuid \<Rightarrow> string \<Rightarrow> string \<Rightarrow> string \<Rightarrow> string \<Rightarrow> int \<Rightarrow> uuid \<Rightarrow> file_row sql" where
  "ins_file pid u kind nm path ctype sz i t d =
     (if pid \<notin> p_id ` set (projects d) \<or> user_by_id d u = None \<or> i \<in> f_id ` set (files d)
         \<or> sz < 0 \<or> \<not> isValidFileKind kind then (SqlErr, d)
      else let f = new_file pid u kind nm path ctype sz i t in (Row f, d\<lparr>files := files d @ [f]\<rparr>))"

definition mark_file :: "time \<Rightarrow> file_row \<Rightarrow> file_row" where
  "mark_file t f = f\<lparr>f_deleted := Some t\<rparr>"

definition upd_delete_file :: "uuid \<Rightarrow> nat sql" where
  "upd_delete_file i t d = (Row (count_where (\<lambda>f. f_id f = i \<and> f_deleted f = None) (files d)),
     d\<lparr>files := upd_live f_id f_deleted i (mark_file t) (files d)\<rparr>)"

text \<open>\<open>INSERT INTO file_storage_deletions ... ON CONFLICT (storage_path) DO NOTHING\<close>\<close>

definition enqueue_path :: "string \<Rightarrow> time \<Rightarrow> db \<Rightarrow> db" where
  "enqueue_path p t d =
     d\<lparr>deletions := (if p \<in> x_path ` set (deletions d) then deletions d
        else deletions d @ [\<lparr>x_id = deletion_seq d, x_path = p, x_attempts = 0, x_available = t,
          x_locked = None, x_error = None, x_created = t\<rparr>]),
       deletion_seq := deletion_seq d + 1\<rparr>"

definition ins_deletion :: "string \<Rightarrow> unit sql" where
  "ins_deletion p t d = (if p = [] then (SqlErr, d) else (Row (), enqueue_path p t d))"

definition del_queued :: "string \<Rightarrow> time \<Rightarrow> db \<Rightarrow> db" where
  "del_queued p t d = d\<lparr>deletions := filter (\<lambda>x. x_path x \<noteq> p) (deletions d)\<rparr>"

definition upd_detach_receipt :: "uuid \<Rightarrow> time \<Rightarrow> db \<Rightarrow> db" where
  "upd_detach_receipt i t d = d\<lparr>costs := upd_where (\<lambda>k. k_receipt k = Some i \<and> k_deleted k = None)
     (\<lambda>k. k\<lparr>k_receipt := None, k_updated := t\<rparr>) (costs d)\<rparr>"

text \<open>The covers of the project that are older than the file \<open>i\<close>.\<close>

definition old_cover :: "db \<Rightarrow> uuid \<Rightarrow> uuid \<Rightarrow> file_row \<Rightarrow> bool" where
  "old_cover d pid i f \<longleftrightarrow> f_project f = Some pid \<and> f_kind f = ''project_cover'' \<and> f_deleted f = None \<and> f_id f \<noteq> i
     \<and> (case find (\<lambda>c. f_id c = i) (files d) of None \<Rightarrow> False | Some c \<Rightarrow> f_created f < f_created c)"

definition upd_archive_covers :: "uuid \<Rightarrow> uuid \<Rightarrow> string list sql" where
  "upd_archive_covers pid i t d = (Row (map f_path (filter (old_cover d pid i) (files d))),
     d\<lparr>files := upd_where (old_cover d pid i) (mark_file t) (files d)\<rparr>)"

section \<open>Queueing and removing objects\<close>

definition enqueueStorageDeletion :: "conn \<Rightarrow> string \<Rightarrow> (world, bool) state" where
  "enqueueStorageDeletion c p =
     (if \<not> isSafeStoragePath p then ret False
      else do { r \<leftarrow> stmt c (ins_deletion p); ret (r \<noteq> SqlErr) })"

definition queueStorageDeletion :: "app_state \<Rightarrow> string \<Rightarrow> (world, bool) state" where
  "queueStorageDeletion A p = (if \<not> st_db A then ret False else enqueueStorageDeletion Pool p)"

text \<open>The result (an error is only logged) says whether the object was removed.\<close>

definition removeStoredFile :: "app_state \<Rightarrow> string \<Rightarrow> (world, bool) state" where
  "removeStoredFile A p =
     (case st_file_store A of
        None \<Rightarrow> ret False
      | Some S \<Rightarrow> do {
          ok \<leftarrow> store_delete S p;
          if \<not> ok then do { _ \<leftarrow> queueStorageDeletion A p; ret False }
          else if st_db A then do { _ \<leftarrow> exec Pool (del_queued p); ret True }
          else ret True
        })"

fun enqueueAll :: "string list \<Rightarrow> (world, bool) state" where
  "enqueueAll [] = ret True"
| "enqueueAll (p # ps) = do {
     ok \<leftarrow> enqueueStorageDeletion Tx p;
     if ok then enqueueAll ps else ret False
   }"

definition archivePreviousProjectCovers :: "uuid \<Rightarrow> uuid \<Rightarrow> (world, unit) state" where
  "archivePreviousProjectCovers pid i = do {
     b \<leftarrow> tx_begin;
     if \<not> b then ret ()
     else defer_rollback (do {
       r \<leftarrow> stmt Tx (upd_archive_covers pid i);
       (case r of
          Row paths \<Rightarrow> do {
            ok \<leftarrow> enqueueAll paths;
            if ok then do { _ \<leftarrow> tx_commit; ret () } else ret ()
          }
        | NoRows \<Rightarrow> ret ()
        | SqlErr \<Rightarrow> ret ())
     })
   }"

definition fileProjectID :: "string \<Rightarrow> (world, string \<times> bool) state" where
  "fileProjectID i = resolve_with (\<lambda>d. Option.bind (live_file d i) f_project)"

section \<open>Listing, metadata, deletion\<close>

definition listFiles :: "files_payload handler" where
  "listFiles r = do {
     let u = userIDFromContext r;
     let pid = trim_space (get_first (rq_query r) ''project_id'');
     if pid = [] then fail 400 ''project_id is required''
     else do {
       ok \<leftarrow> canAccessProject u pid;
       if \<not> ok then fail 403 ''project access denied''
       else do {
         rows \<leftarrow> query Pool (\<lambda>t d. sel_files pid d);
         (case rows of
            Rows fs \<Rightarrow> reply 200 (FileList fs)
          | QueryErr \<Rightarrow> fail 500 ''failed to load files''
          | ScanErr \<Rightarrow> fail 500 ''failed to scan file''
          | RowsErr \<Rightarrow> fail 500 ''failed to read files'')
       }
     }
   }"

definition file_request_error :: "app_state \<Rightarrow> create_file_req \<Rightarrow> string option" where
  "file_request_error A q =
     (if fq_project q = [] \<or> fq_name q = [] \<or> fq_path q = [] \<or> fq_type q = [] \<or> fq_size q < 0
      then Some ''project_id, original_name, storage_path, content_type and non-negative size_bytes are required''
      else if 255 < length (fq_name q) \<or> 512 < length (fq_path q) then Some ''file name or storage path is too long''
      else if \<not> isValidFileKind (fq_kind q) then Some ''invalid file kind''
      else if \<not> isSafeStoragePath (fq_path q) then Some ''invalid storage path''
      else if \<not> isAllowedFileType (fq_type q) then Some ''unsupported file type''
      else if fq_kind q = ''project_cover'' \<and> \<not> isAllowedProjectCoverType (fq_type q)
      then Some ''project cover must be a JPEG, PNG or WebP image''
      else if 0 < st_max_upload A \<and> st_max_upload A < fq_size q then Some ''file is too large''
      else None)"

text \<open>The two permission checks in front of a new file; the answer is the error, if any.\<close>

definition file_permission :: "uuid \<Rightarrow> uuid \<Rightarrow> string \<Rightarrow> (world, string option) state" where
  "file_permission u pid kind = do {
     m \<leftarrow> (if kind = ''project_cover'' then canManageProject u pid else ret True);
     if \<not> m then ret (Some ''project management permission required'')
     else do {
       c \<leftarrow> canContributeToProject u pid;
       ret (if c then None else Some ''project contribution permission required'')
     }
   }"

definition createFileMetadata :: "app_state \<Rightarrow> files_payload handler" where
  "createFileMetadata A r =
     (if st_production_like A
      then fail 403 ''direct file metadata creation is disabled; use the upload endpoint''
      else let u = userIDFromContext r in
        (case decode_create_file r of
           None \<Rightarrow> fail 400 ''invalid JSON body''
         | Some q0 \<Rightarrow> let q = normalizeFileRequest q0 in
             (case file_request_error A q of
                Some e \<Rightarrow> fail 400 e
              | None \<Rightarrow> do {
                  denied \<leftarrow> file_permission u (fq_project q) (fq_kind q);
                  (case denied of
                     Some e \<Rightarrow> fail 403 e
                   | None \<Rightarrow> do {
                       row \<leftarrow> insert_stmt Pool (ins_file (fq_project q) u (fq_kind q) (fq_name q) (fq_path q)
                         (fq_type q) (fq_size q));
                       (case row of
                          NoRows \<Rightarrow> fail 500 ''failed to save file metadata''
                        | SqlErr \<Rightarrow> fail 500 ''failed to save file metadata''
                        | Row f \<Rightarrow> do {
                            _ \<leftarrow> audit Pool u (Some (fq_project q)) ''upload'' ''file'' (Some (f_id f)) [];
                            (if fq_kind q = ''project_cover''
                             then archivePreviousProjectCovers (fq_project q) (f_id f) else ret ());
                            publishProjectEvent A (fq_project q) ''file'' (f_id f) ''created'' [];
                            reply 201 (FileItem (file_dto_of f))
                          })
                     })
                })))"

text \<open>The transaction of \<open>deleteFileMetadata\<close>: the error, or nothing.\<close>

definition deleteFileTx :: "uuid \<Rightarrow> uuid \<Rightarrow> uuid \<Rightarrow> string \<Rightarrow> (world, (int \<times> string) option) state" where
  "deleteFileTx u i pid path = do {
     n \<leftarrow> stmt Tx (upd_delete_file i);
     (case n of
        SqlErr \<Rightarrow> ret (Some (500, ''failed to delete file metadata''))
      | NoRows \<Rightarrow> ret (Some (500, ''failed to delete file metadata''))
      | Row m \<Rightarrow>
          if m = 0 then ret (Some (404, ''file not found''))
          else do {
            q \<leftarrow> enqueueStorageDeletion Tx path;
            if \<not> q then ret (Some (500, ''failed to queue file removal''))
            else do {
              x \<leftarrow> exec Tx (upd_detach_receipt i);
              if x = SqlErr then ret (Some (500, ''failed to detach file from cost items''))
              else do {
                a \<leftarrow> audit Tx u (Some pid) ''delete'' ''file'' (Some i) [(''storage_path'', path)];
                if a = SqlErr then ret (Some (500, ''failed to record file deletion''))
                else do {
                  c \<leftarrow> tx_commit;
                  ret (if c then None else Some (500, ''failed to commit file deletion''))
                }
              }
            }
          })
   }"

definition deleteFileMetadata :: "app_state \<Rightarrow> uuid \<Rightarrow> files_payload handler" where
  "deleteFileMetadata A i r = do {
     let u = userIDFromContext r;
     row \<leftarrow> sel Pool (\<lambda>t d. row_of (Option.bind (live_file d i) (\<lambda>f. map_option (\<lambda>p. (p, f_path f)) (f_project f))));
     (case row of
        NoRows \<Rightarrow> fail 404 ''file not found''
      | SqlErr \<Rightarrow> fail 404 ''file not found''
      | Row pf \<Rightarrow> do {
          ok \<leftarrow> canManageProject u (fst pf);
          if \<not> ok then fail 403 ''project management permission required''
          else do {
            b \<leftarrow> tx_begin;
            if \<not> b then fail 500 ''failed to start file deletion''
            else do {
              e \<leftarrow> defer_rollback (deleteFileTx u i (fst pf) (snd pf));
              (case e of
                 Some sm \<Rightarrow> fail (fst sm) (snd sm)
               | None \<Rightarrow> do {
                   _ \<leftarrow> removeStoredFile A (snd pf);
                   publishProjectEvent A (fst pf) ''file'' i ''deleted'' [];
                   reply 200 FileDeleted
                 })
            }
          }
        })
   }"

definition Files :: "app_state \<Rightarrow> files_payload handler" where
  "Files A r =
     (if \<not> st_db A then dbNotAvailable
      else let i = resourceIDFromPath (rq_path r) ''/api/v1/files/'' in
        if i \<noteq> [] then
          (if rq_method r = ''DELETE'' then deleteFileMetadata A i r else methodNotAllowed)
        else if rq_method r = ''GET'' then listFiles r
        else if rq_method r = ''POST'' then createFileMetadata A r
        else methodNotAllowed)"

definition filesRoute :: "app_state \<Rightarrow> files_payload handler" where
  "filesRoute A = withProjectMutationRBAC (Files A) [] None"

definition fileRoute :: "app_state \<Rightarrow> files_payload handler" where
  "fileRoute A = withProjectMutationRBAC (Files A) ''/api/v1/files/'' (Some fileProjectID)"

section \<open>Upload\<close>

definition randomUploadName :: "(world, string option) state" where
  "randomUploadName = do { bs \<leftarrow> rand_read 16; ret (map_option (\<lambda>b. concat (map hex_byte b)) bs) }"

text \<open>\<open>Format("2006/01/02")\<close>\<close>

definition date_path :: "time \<Rightarrow> string" where
  "date_path t = (case civil (t div day) of (y, m, d) \<Rightarrow>
     pad_nat 4 (nat y) @ ''/'' @ pad_nat 2 (nat m) @ ''/'' @ pad_nat 2 (nat d))"

definition upload_key :: "uuid \<Rightarrow> time \<Rightarrow> string \<Rightarrow> string \<Rightarrow> string" where
  "upload_key pid t nm ext = path_join [pid, date_path t, nm @ ext]"

record storedUpload =
  su_path :: string
  su_type :: string
  su_size :: int

text \<open>One step of the temporary file that can fail.\<close>

definition step_or :: "string \<Rightarrow> (world, string + 'a) state \<Rightarrow> (world, string + 'a) state" where
  "step_or e m = do { ok \<leftarrow> extern_ok; if ok then m else ret (Inl e) }"

definition store_upload_object ::
  "app_state \<Rightarrow> object_store \<Rightarrow> string \<Rightarrow> string \<Rightarrow> nat list \<Rightarrow> (world, string + storedUpload) state" where
  "store_upload_object A S key ctype body = do {
     ok \<leftarrow> store_put S key body;
     if ok then ret (Inr \<lparr>su_path = key, su_type = ctype, su_size = int (length body)\<rparr>)
     else do {
       cleaned \<leftarrow> store_delete S key;
       if cleaned then ret (Inl ''failed to store file'')
       else do {
         _ \<leftarrow> queueStorageDeletion A key;
         ret (Inl ''failed to store file and clean up partial object'')
       }
     }
   }"

definition storeUploadedFile ::
  "app_state \<Rightarrow> object_store \<Rightarrow> nat list \<Rightarrow> uuid \<Rightarrow> int \<Rightarrow> (world, string + storedUpload) state" where
  "storeUploadedFile A S source pid maxBytes =
     step_or ''failed to inspect file'' (
       let ctype = detectContentType (take 512 source); ext = extensionForContentType ctype in
       if \<not> isAllowedFileType ctype then ret (Inl ''unsupported file type'')
       else if ext = [] then ret (Inl ''unsupported file type'')
       else do {
         nm \<leftarrow> randomUploadName;
         t \<leftarrow> read_now;
         (case nm of
            None \<Rightarrow> ret (Inl ''failed to generate storage key'')
          | Some n \<Rightarrow>
              let key = upload_key pid t n ext; written = min 512 (int (length source));
                  remaining = maxBytes - written; copied = min (int (length source) - written) (remaining + 1);
                  total = written + copied in
              step_or ''failed to prepare temporary file'' (
              step_or ''failed to prepare upload'' (
                if remaining < 0 then ret (Inl ''file is too large'')
                else step_or ''failed to read upload'' (
                  if maxBytes < total then ret (Inl ''file is too large'')
                  else step_or ''failed to finalize upload'' (
                       step_or ''failed to rewind upload'' (
                         store_upload_object A S key ctype (take (nat total) source)))))))
       })"

definition max_upload :: "app_state \<Rightarrow> int" where
  "max_upload A = (if st_max_upload A \<le> 0 then 10 * 1024 * 1024 else st_max_upload A)"

text \<open>What follows the stored object: the row, or the removal of the object.\<close>

definition saveUploadedFile ::
  "app_state \<Rightarrow> uuid \<Rightarrow> uuid \<Rightarrow> string \<Rightarrow> string \<Rightarrow> storedUpload \<Rightarrow> (world, files_payload resp) state" where
  "saveUploadedFile A u pid kind nm s =
     (if kind = ''project_cover'' \<and> \<not> isAllowedProjectCoverType (su_type s)
      then do { _ \<leftarrow> removeStoredFile A (su_path s); fail 400 ''project cover must be a JPEG, PNG or WebP image'' }
      else do {
        row \<leftarrow> insert_stmt Pool (ins_file pid u kind nm (su_path s) (su_type s) (su_size s));
        (case row of
           NoRows \<Rightarrow> do { _ \<leftarrow> removeStoredFile A (su_path s); fail 500 ''failed to save uploaded file'' }
         | SqlErr \<Rightarrow> do { _ \<leftarrow> removeStoredFile A (su_path s); fail 500 ''failed to save uploaded file'' }
         | Row f \<Rightarrow> do {
             _ \<leftarrow> audit Pool u (Some pid) ''upload'' ''file'' (Some (f_id f)) [(''content_type'', f_type f), (''size_bytes'', show_nat (nat (f_size f)))];
             (if kind = ''project_cover'' then archivePreviousProjectCovers pid (f_id f) else ret ());
             publishProjectEvent A pid ''file'' (f_id f) ''created'' [];
             reply 201 (FileItem (file_dto_of f))
           })
      })"

definition UploadFile :: "app_state \<Rightarrow> upload_form option \<Rightarrow> files_payload handler" where
  "UploadFile A form r =
     (if rq_method r \<noteq> ''POST'' then methodNotAllowed
      else if \<not> st_db A then dbNotAvailable
      else (case st_file_store A of
         None \<Rightarrow> fail 503 ''file storage is not configured''
       | Some S \<Rightarrow> (case form of
           None \<Rightarrow> fail 400 ''invalid multipart upload or file too large''
         | Some f \<Rightarrow>
             let pid = trim_space (form_value r f ''project_id'');
                 kind0 = to_lower (trim_space (form_value r f ''kind''));
                 kind = (if kind0 = [] then ''document'' else kind0);
                 u = userIDFromContext r
             in if pid = [] \<or> \<not> isValidFileKind kind then fail 400 ''valid project_id and kind are required''
             else do {
               denied \<leftarrow> file_permission u pid kind;
               (case denied of
                  Some e \<Rightarrow> fail 403 e
                | None \<Rightarrow> (case map_of (uf_files f) ''file'' of
                    None \<Rightarrow> fail 400 ''file field is required''
                  | Some (filename, source) \<Rightarrow>
                      let nm = sanitizeOriginalName filename in
                      if nm = [] then fail 400 ''invalid file name''
                      else do {
                        stored \<leftarrow> storeUploadedFile A S source pid (max_upload A);
                        (case stored of
                           Inl e \<Rightarrow> fail 400 e
                         | Inr s \<Rightarrow> saveUploadedFile A u pid kind nm s)
                      }))
             })))"

section \<open>Download\<close>

text \<open>
  The answer carries the file name, the content type and the bytes; \<open>http.ServeContent\<close> may send a
  part of them when the request asks for a range.
\<close>

definition DownloadFile :: "app_state \<Rightarrow> files_payload handler" where
  "DownloadFile A r =
     (if rq_method r \<noteq> ''GET'' then methodNotAllowed
      else if \<not> st_db A then dbNotAvailable
      else let i = trim_space (get_first (rq_query r) ''file_id'') in
        if i = [] then fail 400 ''file_id is required''
        else do {
          row \<leftarrow> sel Pool (\<lambda>t d. row_of (Option.bind (live_file d i) (\<lambda>f. map_option (\<lambda>p. (p, f)) (f_project f))));
          (case row of
             NoRows \<Rightarrow> fail 404 ''file not found''
           | SqlErr \<Rightarrow> fail 404 ''file not found''
           | Row pf \<Rightarrow> do {
               ok \<leftarrow> canAccessProject (userIDFromContext r) (fst pf);
               if \<not> ok then fail 403 ''project access denied''
               else (case st_file_store A of
                  None \<Rightarrow> fail 503 ''file storage is not configured''
                | Some S \<Rightarrow> do {
                    object \<leftarrow> store_get S (f_path (snd pf));
                    (case object of
                       Inl e \<Rightarrow> if e = NotExist then fail 404 ''stored file is unavailable''
                                else fail 502 ''failed to read stored file''
                     | Inr body \<Rightarrow>
                         if int (length body) \<noteq> f_size (snd pf) then fail 502 ''stored file is unavailable''
                         else do {
                           let nm = sanitizeOriginalName (f_name (snd pf));
                           set_header ''Content-Type'' (f_type (snd pf));
                           set_header ''Cache-Control'' ''private, no-store'';
                           reply 200 (FileContent (if nm = [] then ''download'' else nm) (f_type (snd pf)) body)
                         })
                  })
             })
        })"

end
