(* ===== verification/Deletion_Worker.thy ===== *)
theory Deletion_Worker
  imports Object_Store
begin

text \<open>
  The worker that removes objects recorded in the outbox \<open>file_storage_deletions\<close>
  (\<open>internal/storage/deletion_worker.go\<close>). A batch claims at most ten due rows in a transaction, works
  on each of them (the goroutines of a batch touch different rows and different objects, so their
  order does not matter) and is repeated while it was full. Whether the context is cancelled is an
  external decision; once a batch has seen it, the worker stops.
\<close>

definition deletionPollInterval :: time where "deletionPollInterval = 5 * second"
definition deletionBatchSize :: nat where "deletionBatchSize = 10"
definition deletionLease :: time where "deletionLease = 5 * minute"
definition deletionRetryBase :: time where "deletionRetryBase = 5 * second"
definition deletionRetryMax :: time where "deletionRetryMax = hour"

lemmas deletion_consts = deletionBatchSize_def deletionLease_def deletionRetryBase_def deletionRetryMax_def

record pendingDeletion =
  pe_id :: nat
  pe_path :: string
  pe_attempts :: nat

text \<open>
  \<open>deletionRetryDelay\<close>: the product is computed in \<open>float64\<close>, exactly, since it is below \<open>2 ^ 53\<close>.
\<close>

definition deletionRetryDelay :: "int \<Rightarrow> time" where
  "deletionRetryDelay attempts0 =
     (let attempts = (if attempts0 < 0 then 0 else attempts0);
          delay = deletionRetryBase * 2 ^ nat (min attempts 10)
      in if deletionRetryMax < delay then deletionRetryMax else delay)"

section \<open>Statements\<close>

definition due :: "time \<Rightarrow> deletion_row \<Rightarrow> bool" where
  "due t x \<longleftrightarrow> x_available x \<le> t \<and> (case x_locked x of None \<Rightarrow> True | Some l \<Rightarrow> l \<le> t)"

definition sel_candidates :: "time \<Rightarrow> db \<Rightarrow> deletion_row list" where
  "sel_candidates t d = take deletionBatchSize (sort_key x_available (sort_key x_id (filter (due t) (deletions d))))"

definition pending_of :: "deletion_row \<Rightarrow> pendingDeletion" where
  "pending_of x = \<lparr>pe_id = x_id x, pe_path = x_path x, pe_attempts = x_attempts x\<rparr>"

definition upd_claims :: "pendingDeletion list sql" where
  "upd_claims t d =
     (let cs = sel_candidates t d in
      (Row (map pending_of cs),
       d\<lparr>deletions := upd_where (\<lambda>x. x_id x \<in> x_id ` set cs) (\<lambda>x. x\<lparr>x_locked := Some (t + deletionLease)\<rparr>) (deletions d)\<rparr>))"

definition upd_release :: "nat \<Rightarrow> time \<Rightarrow> db \<Rightarrow> db" where
  "upd_release i t d = d\<lparr>deletions := upd_where (\<lambda>x. x_id x = i)
     (\<lambda>x. x\<lparr>x_locked := None, x_available := min (x_available x) t\<rparr>) (deletions d)\<rparr>"

definition del_deletion :: "nat \<Rightarrow> time \<Rightarrow> db \<Rightarrow> db" where
  "del_deletion i t d = d\<lparr>deletions := filter (\<lambda>x. x_id x \<noteq> i) (deletions d)\<rparr>"

definition upd_retry :: "pendingDeletion \<Rightarrow> string \<Rightarrow> time \<Rightarrow> db \<Rightarrow> db" where
  "upd_retry p msg t d = d\<lparr>deletions := upd_where (\<lambda>x. x_id x = pe_id p)
     (\<lambda>x. x\<lparr>x_attempts := x_attempts x + 1,
       x_available := t + deletionRetryDelay (int (pe_attempts p)) div second * second,
       x_locked := None, x_error := Some msg\<rparr>) (deletions d)\<rparr>"

section \<open>A batch\<close>

definition claimPendingDeletions :: "(world, pendingDeletion list option) state" where
  "claimPendingDeletions = do {
     b \<leftarrow> tx_begin;
     if \<not> b then ret None
     else defer_rollback (do {
       r \<leftarrow> stmt Tx upd_claims;
       (case r of
          Row items \<Rightarrow> do { c \<leftarrow> tx_commit; ret (if c then Some items else None) }
        | NoRows \<Rightarrow> ret None
        | SqlErr \<Rightarrow> ret None)
     })
   }"

fun releaseDeletionClaims :: "pendingDeletion list \<Rightarrow> (world, unit) state" where
  "releaseDeletionClaims [] = ret ()"
| "releaseDeletionClaims (p # ps) = do { _ \<leftarrow> exec Pool (upd_release (pe_id p)); releaseDeletionClaims ps }"

text \<open>The goroutine of one claimed row. The text of the store's error is not modelled.\<close>

definition work_deletion :: "object_store \<Rightarrow> pendingDeletion \<Rightarrow> (world, unit) state" where
  "work_deletion S p = do {
     ok \<leftarrow> store_delete S (pe_path p);
     if ok then do { _ \<leftarrow> exec Pool (del_deletion (pe_id p)); ret () }
     else do { _ \<leftarrow> exec Pool (upd_retry p ''delete failed''); ret () }
   }"

definition ctx_cancelled :: "(world, bool) state" where
  "ctx_cancelled = do { ok \<leftarrow> extern_ok; ret (\<not> ok) }"

text \<open>The loop over the claimed rows; the result says that the context was seen cancelled.\<close>

fun start_workers :: "object_store \<Rightarrow> pendingDeletion list \<Rightarrow> (world, bool) state" where
  "start_workers S [] = ret False"
| "start_workers S (p # ps) = do {
     stop \<leftarrow> ctx_cancelled;
     if stop then do { releaseDeletionClaims (p # ps); ret True }
     else do { work_deletion S p; start_workers S ps }
   }"

definition processDeletionBatch :: "object_store \<Rightarrow> (world, bool) state" where
  "processDeletionBatch S = do {
     items \<leftarrow> claimPendingDeletions;
     (case items of
        None \<Rightarrow> ret False
      | Some ps \<Rightarrow>
          if ps = [] then ret False
          else do {
            stopped \<leftarrow> start_workers S ps;
            if length ps = deletionBatchSize \<and> \<not> stopped then do { stop \<leftarrow> ctx_cancelled; ret (\<not> stop) }
            else ret False
          })
   }"

text \<open>
  \<open>for ctx.Err() == nil && processDeletionBatch(...) {}\<close> with at most \<open>fuel\<close> batches; \<open>False\<close> is "not
  finished yet".
\<close>

fun processAvailableDeletions :: "nat \<Rightarrow> object_store \<Rightarrow> (world, bool) state" where
  "processAvailableDeletions 0 S = ret False"
| "processAvailableDeletions (Suc fuel) S = do {
     stop \<leftarrow> ctx_cancelled;
     if stop then ret True
     else do {
       more \<leftarrow> processDeletionBatch S;
       if more then processAvailableDeletions fuel S else ret True
     }
   }"

text \<open>One round of \<open>RunDeletionWorker\<close>; the ticker repeats it every five seconds.\<close>

definition deletion_round :: "object_store option \<Rightarrow> bool \<Rightarrow> nat \<Rightarrow> (world, bool) state" where
  "deletion_round store pool fuel =
     (case store of None \<Rightarrow> ret True
      | Some S \<Rightarrow> if \<not> pool then ret True else processAvailableDeletions fuel S)"

section \<open>The retry delay\<close>

lemma retry_delay_bounds:
  "deletionRetryBase \<le> deletionRetryDelay n" "deletionRetryDelay n \<le> deletionRetryMax"
  "m \<le> n \<Longrightarrow> deletionRetryDelay m \<le> deletionRetryDelay n"
proof -
  have base: "0 < deletionRetryBase" "deletionRetryBase \<le> deletionRetryMax"
    by (simp_all add: deletion_consts durations)
  have "(1::int) \<le> 2 ^ k" for k by simp
  then have "deletionRetryBase * 1 \<le> deletionRetryBase * 2 ^ k" for k
    using base by (intro mult_left_mono) auto
  then show "deletionRetryBase \<le> deletionRetryDelay n" "deletionRetryDelay n \<le> deletionRetryMax"
    using base by (auto simp: deletionRetryDelay_def Let_def)
  assume "m \<le> n"
  then have "nat (min (if m < 0 then 0 else m) 10) \<le> nat (min (if n < 0 then 0 else n) 10)" by auto
  then have "deletionRetryBase * 2 ^ nat (min (if m < 0 then 0 else m) 10)
      \<le> deletionRetryBase * 2 ^ nat (min (if n < 0 then 0 else n) 10)"
    using base by (intro mult_left_mono power_increasing) auto
  then show "deletionRetryDelay m \<le> deletionRetryDelay n"
    by (auto simp: deletionRetryDelay_def Let_def)
qed

text \<open>All delays are whole seconds.\<close>

lemma retry_delay_seconds: "deletionRetryDelay n div second * second = deletionRetryDelay n"
  by (simp add: deletionRetryDelay_def Let_def deletion_consts durations)

end
