(* ===== verification/Worker_Facts.thy ===== *)
theory Worker_Facts
  imports Deletion_Worker Samples
begin

text \<open>
  A round of the deletion worker ends, touches nothing but the due rows of the outbox and their
  objects, and empties the due part of the outbox when no call fails.
\<close>

section \<open>The candidates\<close>

abbreviation dels :: "world \<Rightarrow> deletion_row list" where
  "dels w \<equiv> deletions (db w)"

definition due_count :: "world \<Rightarrow> nat" where
  "due_count w = count_where (due (now w)) (dels w)"

lemma candidates:
  "set (sel_candidates t d) \<subseteq> {x \<in> set (deletions d). due t x}"
  "length (sel_candidates t d) = min deletionBatchSize (count_where (due t) (deletions d))"
  "length (sel_candidates t d) < deletionBatchSize \<Longrightarrow>
     set (sel_candidates t d) = {x \<in> set (deletions d). due t x}"
proof -
  let ?s = "sort_key x_available (sort_key x_id (filter (due t) (deletions d)))"
  have s: "set ?s = {x \<in> set (deletions d). due t x}" by auto
  show "set (sel_candidates t d) \<subseteq> {x \<in> set (deletions d). due t x}"
    unfolding sel_candidates_def using set_take_subset [of deletionBatchSize ?s] s by (rule subset_trans [OF _ equalityD1])
  show l: "length (sel_candidates t d) = min deletionBatchSize (count_where (due t) (deletions d))"
    by (simp add: sel_candidates_def count_where_def min.commute)
  assume "length (sel_candidates t d) < deletionBatchSize"
  then have "take deletionBatchSize ?s = ?s" by (simp add: sel_candidates_def)
  then show "set (sel_candidates t d) = {x \<in> set (deletions d). due t x}"
    unfolding sel_candidates_def using s by simp
qed

lemma candidates_distinct:
  assumes "distinct (map x_id (deletions d))"
  shows "distinct (map x_id (sel_candidates t d))"
proof -
  have "distinct (map x_id (sort_key x_available (sort_key x_id (filter (due t) (deletions d)))))"
    using distinct_map_filter [OF assms, of "due t"] by (simp add: distinct_map)
  then show ?thesis unfolding sel_candidates_def by (simp add: take_map [symmetric])
qed

lemma candidate_ids:
  assumes "distinct (map x_id (deletions d))"
  shows "filter (\<lambda>x. x_id x \<in> x_id ` set (sel_candidates t d)) (deletions d)
     = filter (\<lambda>x. x \<in> set (sel_candidates t d)) (deletions d)"
proof (rule filter_cong [OF refl])
  fix x assume x: "x \<in> set (deletions d)"
  have "y = x" if "y \<in> set (sel_candidates t d)" "x_id y = x_id x" for y
    using that x candidates(1) [of t d] assms by (auto simp: distinct_map dest: inj_onD)
  then show "(x_id x \<in> x_id ` set (sel_candidates t d)) = (x \<in> set (sel_candidates t d))" by force
qed

lemma not_due_locked: "\<not> due t (x\<lparr>x_locked := Some (t + deletionLease)\<rparr>)"
  by (simp add: due_def deletion_consts durations)

lemma count_where_split:
  "count_where q xs = count_where (\<lambda>x. \<not> p x \<and> q x) xs + count_where (\<lambda>x. p x \<and> q x) xs"
  by (induction xs) auto

text \<open>Claiming takes its rows out of the due ones.\<close>

lemma due_after_claim:
  assumes d: "distinct (map x_id (deletions d))"
  shows "count_where (due t) (deletions (snd (upd_claims t d))) + length (sel_candidates t d)
     = count_where (due t) (deletions d)"
proof -
  let ?cs = "sel_candidates t d" and ?xs = "deletions d"
  have dx: "distinct ?xs" using d by (simp add: distinct_map)
  have "distinct ?cs" using candidates_distinct [OF d, of t] by (simp add: distinct_map)
  then have l: "length ?cs = card (set ?cs)" by (simp add: distinct_card)
  have "{x \<in> set ?xs. x \<in> set ?cs} = set ?cs" using candidates(1) [of t d] by auto
  then have "length (filter (\<lambda>x. x \<in> set ?cs) ?xs) = length ?cs"
    using distinct_card [OF distinct_filter [OF dx, of "\<lambda>x. x \<in> set ?cs"]] l by simp
  then have c: "count_where (\<lambda>x. x_id x \<in> x_id ` set ?cs) ?xs = length ?cs"
    by (simp add: count_where_def candidate_ids [OF d])
  have due: "due t x" if "x \<in> set ?xs" "x_id x \<in> x_id ` set ?cs" for x
  proof -
    have "x \<in> set (filter (\<lambda>x. x_id x \<in> x_id ` set ?cs) ?xs)" using that by simp
    then have "x \<in> set ?cs" unfolding candidate_ids [OF d] by simp
    then show ?thesis using candidates(1) [of t d] by auto
  qed
  have "count_where (due t) (deletions (snd (upd_claims t d)))
      = count_where (\<lambda>x. x_id x \<notin> x_id ` set ?cs \<and> due t x) ?xs"
    by (simp add: upd_claims_def Let_def count_where_upd_where) (rule count_where_cong, auto simp: not_due_locked)
  moreover have "count_where (due t) ?xs = count_where (\<lambda>x. x_id x \<notin> x_id ` set ?cs \<and> due t x) ?xs
      + count_where (\<lambda>x. x_id x \<in> x_id ` set ?cs \<and> due t x) ?xs"
    by (rule count_where_split)
  moreover have "count_where (\<lambda>x. x_id x \<in> x_id ` set ?cs \<and> due t x) ?xs = count_where (\<lambda>x. x_id x \<in> x_id ` set ?cs) ?xs"
    using due by (intro count_where_cong) auto
  ultimately show ?thesis using c by simp
qed

section \<open>What a round may touch\<close>

definition due_pairs :: "world \<Rightarrow> (nat \<times> string) set" where
  "due_pairs w = (\<lambda>x. (x_id x, x_path x)) ` {x \<in> set (dels w). due (now w) x}"

definition round_post :: "world \<Rightarrow> world \<Rightarrow> bool" where
  "round_post w0 w \<longleftrightarrow> now w = now w0 \<and> txn w = None \<and> (db w)\<lparr>deletions := dels w0\<rparr> = db w0
     \<and> distinct (map x_id (dels w))
     \<and> (\<forall>y\<in>set (dels w). y \<in> set (dels w0) \<or> (x_id y, x_path y) \<in> due_pairs w0)
     \<and> (\<forall>x\<in>set (dels w0). \<not> due (now w0) x \<longrightarrow> x \<in> set (dels w))
     \<and> (\<forall>x\<in>set (dels w0). x_id x \<notin> x_id ` set (dels w) \<longrightarrow> key_ok (x_path x) \<and> objects w (x_path x) = None)
     \<and> (\<forall>k. objects w k = objects w0 k \<or> objects w k = None \<and> k \<in> snd ` due_pairs w0)"

lemma round_post_refl:
  "distinct (map x_id (dels w)) \<Longrightarrow> txn w = None \<Longrightarrow> round_post w w"
  by (auto simp: round_post_def)

lemma round_post_other [simp]:
  "round_post w0 (w\<lparr>faults := fs\<rparr>) = round_post w0 w"
  "round_post w0 (w\<lparr>extern := ex\<rparr>) = round_post w0 w"
  "round_post w0 (w\<lparr>tombs := tb\<rparr>) = round_post w0 w"
  "round_post w0 (w\<lparr>faults := fs, db := d\<rparr>) = round_post w0 (w\<lparr>db := d\<rparr>)"
  "round_post w0 (w\<lparr>faults := fs, db := d, txn := None\<rparr>) = round_post w0 (w\<lparr>db := d, txn := None\<rparr>)"
  by (simp_all add: round_post_def)

lemma round_due:
  assumes "round_post w0 w" "x \<in> set (dels w)" "due (now w) x"
  shows "(x_id x, x_path x) \<in> due_pairs w0"
  using assms by (auto simp: round_post_def due_pairs_def)

lemma round_postD:
  assumes "round_post w0 w"
  shows "now w = now w0" "txn w = None" "(db w)\<lparr>deletions := dels w0\<rparr> = db w0" "distinct (map x_id (dels w))"
    "y \<in> set (dels w) \<Longrightarrow> y \<in> set (dels w0) \<or> (x_id y, x_path y) \<in> due_pairs w0"
    "x \<in> set (dels w0) \<Longrightarrow> \<not> due (now w0) x \<Longrightarrow> x \<in> set (dels w)"
    "x \<in> set (dels w0) \<Longrightarrow> x_id x \<notin> x_id ` set (dels w) \<Longrightarrow> key_ok (x_path x) \<and> objects w (x_path x) = None"
    "objects w k = objects w0 k \<or> objects w k = None \<and> k \<in> snd ` due_pairs w0"
  using assms unfolding round_post_def by blast+

lemma round_postI:
  assumes "now w = now w0" "txn w = None" "(db w)\<lparr>deletions := dels w0\<rparr> = db w0" "distinct (map x_id (dels w))"
    "\<And>y. y \<in> set (dels w) \<Longrightarrow> y \<in> set (dels w0) \<or> (x_id y, x_path y) \<in> due_pairs w0"
    "\<And>x. x \<in> set (dels w0) \<Longrightarrow> \<not> due (now w0) x \<Longrightarrow> x \<in> set (dels w)"
    "\<And>x. x \<in> set (dels w0) \<Longrightarrow> x_id x \<notin> x_id ` set (dels w) \<Longrightarrow> key_ok (x_path x) \<and> objects w (x_path x) = None"
    "\<And>k. objects w k = objects w0 k \<or> objects w k = None \<and> k \<in> snd ` due_pairs w0"
  shows "round_post w0 w"
  using assms unfolding round_post_def by blast

lemma due_pair_row:
  assumes "distinct (map x_id (dels w0))" "(i, k) \<in> due_pairs w0" "x \<in> set (dels w0)" "x_id x = i"
  shows "x_path x = k" "due (now w0) x"
proof -
  obtain z where z: "z \<in> set (dels w0)" "due (now w0) z" "x_id z = i" "x_path z = k"
    using assms(2) by (auto simp: due_pairs_def)
  then have "x = z" using assms(1,3,4) by (auto simp: distinct_map dest: inj_onD)
  then show "x_path x = k" "due (now w0) x" using z by auto
qed

text \<open>Changing rows that were due keeps the relation.\<close>

lemma round_upd:
  assumes r: "round_post w0 w" and d0: "distinct (map x_id (dels w0))"
    and p: "\<And>x. x \<in> set (dels w) \<Longrightarrow> P x \<Longrightarrow> (x_id x, x_path x) \<in> due_pairs w0"
    and f: "\<And>x. x_id (f x) = x_id x" "\<And>x. x_path (f x) = x_path x"
  shows "round_post w0 (w\<lparr>db := (db w)\<lparr>deletions := upd_where P f (dels w)\<rparr>\<rparr>)"
proof -
  note D = round_postD [OF r]
  have ids: "map x_id (upd_where P f (dels w)) = map x_id (dels w)" by (rule map_upd_where) (rule f)
  then have ids': "x_id ` set (upd_where P f (dels w)) = x_id ` set (dels w)" by (metis list.set_map)
  show ?thesis
  proof (rule round_postI)
    fix x assume x: "x \<in> set (dels w0)" "\<not> due (now w0) x"
    have "\<not> P x" using p [OF D(6) [OF x]] due_pair_row(2) [OF d0 _ x(1) refl] x(2) by blast
    then show "x \<in> set (dels (w\<lparr>db := (db w)\<lparr>deletions := upd_where P f (dels w)\<rparr>\<rparr>))"
      using D(6) [OF x] by (force simp: set_upd_where)
  next
    fix y assume "y \<in> set (dels (w\<lparr>db := (db w)\<lparr>deletions := upd_where P f (dels w)\<rparr>\<rparr>))"
    then obtain x where x: "x \<in> set (dels w)" "y = (if P x then f x else x)" by (auto simp: set_upd_where)
    show "y \<in> set (dels w0) \<or> (x_id y, x_path y) \<in> due_pairs w0"
      using D(5) [OF x(1)] p [OF x(1)] x(2) f by (cases "P x") auto
  qed (use D in \<open>simp_all add: ids ids'\<close>)
qed

lemma round_delete:
  assumes r: "round_post w0 w" and d0: "distinct (map x_id (dels w0))"
    and p: "(i, k) \<in> due_pairs w0" "key_ok k" "objects w k = None"
  shows "round_post w0 (w\<lparr>db := (db w)\<lparr>deletions := filter (\<lambda>x. x_id x \<noteq> i) (dels w)\<rparr>\<rparr>)"
proof -
  note D = round_postD [OF r]
  show ?thesis
  proof (rule round_postI)
    fix x assume x: "x \<in> set (dels w0)"
      "x_id x \<notin> x_id ` set (dels (w\<lparr>db := (db w)\<lparr>deletions := filter (\<lambda>x. x_id x \<noteq> i) (dels w)\<rparr>\<rparr>))"
    show "key_ok (x_path x) \<and> objects (w\<lparr>db := (db w)\<lparr>deletions := filter (\<lambda>x. x_id x \<noteq> i) (dels w)\<rparr>\<rparr>) (x_path x) = None"
    proof (cases "x_id x = i")
      case True
      then show ?thesis using due_pair_row(1) [OF d0 p(1) x(1)] p by simp
    next
      case False
      then have "x_id x \<notin> x_id ` set (dels w)" using x(2) by auto
      then show ?thesis using D(7) [OF x(1)] by simp
    qed
  next
    fix x assume x: "x \<in> set (dels w0)" "\<not> due (now w0) x"
    then have "x_id x \<noteq> i" using due_pair_row(2) [OF d0 p(1)] by blast
    then show "x \<in> set (dels (w\<lparr>db := (db w)\<lparr>deletions := filter (\<lambda>x. x_id x \<noteq> i) (dels w)\<rparr>\<rparr>))"
      using D(6) [OF x] by simp
  qed (use D in \<open>auto simp: distinct_map_filter\<close>)
qed

lemma round_object:
  assumes r: "round_post w0 w" and p: "(i, k) \<in> due_pairs w0"
  shows "round_post w0 (w\<lparr>objects := (objects w)(k := None)\<rparr>)"
proof -
  note D = round_postD [OF r]
  have k: "k \<in> snd ` due_pairs w0" using p by force
  show ?thesis
  proof (rule round_postI)
    fix j
    show "objects (w\<lparr>objects := (objects w)(k := None)\<rparr>) j = objects w0 j \<or>
      objects (w\<lparr>objects := (objects w)(k := None)\<rparr>) j = None \<and> j \<in> snd ` due_pairs w0"
      using D(8) [of j] k by auto
  qed (use D(1-7) in \<open>simp_all\<close>)
qed

section \<open>The steps of a round\<close>

lemma wp_claims:
  assumes "\<And>fs. Q None (w\<lparr>faults := fs, txn := None\<rparr>)"
    and "\<And>fs. Q (Some (map pending_of (sel_candidates (now w) (db w))))
      (w\<lparr>faults := fs, db := snd (upd_claims (now w) (db w)), txn := None\<rparr>)"
    and "\<And>fs. Q None (w\<lparr>faults := fs\<rparr>)"
  shows "wp claimPendingDeletions Q w"
  unfolding claimPendingDeletions_def
  by (intro wps) (use assms in \<open>auto simp: upd_claims_def Let_def\<close>)

definition claimed_pairs :: "pendingDeletion list \<Rightarrow> (nat \<times> string) set" where
  "claimed_pairs ps = (\<lambda>p. (pe_id p, pe_path p)) ` set ps"

lemma claimed_pairs_simps [simp]:
  "claimed_pairs [] = {}" "claimed_pairs (p # ps) = insert (pe_id p, pe_path p) (claimed_pairs ps)"
  by (simp_all add: claimed_pairs_def)

lemma round_row:
  assumes "round_post w0 w" "distinct (map x_id (dels w0))" "(i, k) \<in> due_pairs w0" "x \<in> set (dels w)" "x_id x = i"
  shows "(x_id x, x_path x) \<in> due_pairs w0"
  using round_postD(5) [OF assms(1,4)] due_pair_row(1) [OF assms(2,3) _ assms(5)] assms(3,5) by auto

text \<open>A step of a round: the relation is kept and no row becomes due.\<close>

definition round_step :: "world \<Rightarrow> world \<Rightarrow> world \<Rightarrow> bool" where
  "round_step w0 w w' \<longleftrightarrow> round_post w0 w' \<and> due_count w' \<le> due_count w"

lemma round_step_other [simp]:
  "round_step w0 w (w'\<lparr>faults := fs\<rparr>) = round_step w0 w w'"
  "round_step w0 w (w'\<lparr>extern := ex\<rparr>) = round_step w0 w w'"
  "round_step w0 w (w'\<lparr>tombs := tb\<rparr>) = round_step w0 w w'"
  by (simp_all add: round_step_def due_count_def)

lemma round_step_refl: "round_post w0 w \<Longrightarrow> round_step w0 w w"
  by (simp add: round_step_def)

lemma round_step_trans:
  "round_step w0 w w' \<Longrightarrow> round_post w0 w' \<Longrightarrow> round_step w0 w' w'' \<Longrightarrow> round_step w0 w w''"
  by (simp add: round_step_def)

lemma step_delete:
  assumes r: "round_post w0 w" and d0: "distinct (map x_id (dels w0))"
    and p: "(i, k) \<in> due_pairs w0" "key_ok k"
  shows "round_step w0 w (w\<lparr>db := del_deletion i t (db w), objects := (objects w)(k := None)\<rparr>)"
proof -
  have "round_post w0 (w\<lparr>objects := (objects w)(k := None)\<rparr>\<lparr>db := (db w)\<lparr>deletions := filter (\<lambda>x. x_id x \<noteq> i) (dels w)\<rparr>\<rparr>)"
    using round_delete [OF round_object [OF r p(1)] d0 p] by simp
  moreover have "count_where P (filter Q xs) \<le> count_where P xs" for P Q and xs :: "deletion_row list"
    by (simp add: count_where_filter) (rule count_where_mono, auto)
  ultimately show ?thesis by (simp add: round_step_def del_deletion_def due_count_def)
qed

lemma step_retry:
  assumes r: "round_post w0 w" and d0: "distinct (map x_id (dels w0))"
    and p: "(pe_id p, pe_path p) \<in> due_pairs w0"
  shows "round_step w0 w (w\<lparr>db := upd_retry p msg (now w) (db w)\<rparr>)"
proof -
  have "0 < deletionRetryDelay n" for n
    using retry_delay_bounds(1) [of n] by (simp add: deletion_consts durations)
  then have nd: "\<not> due t (x\<lparr>x_attempts := a, x_available := t + deletionRetryDelay n, x_locked := l, x_error := e\<rparr>)" for t x a n l e
    by (simp add: due_def not_le)
  show ?thesis
    unfolding round_step_def upd_retry_def
    using round_upd [OF r d0, of "\<lambda>x. x_id x = pe_id p"] round_row [OF r d0 p]
    by (simp add: due_count_def retry_delay_seconds) (rule count_where_upd_mono, simp add: nd)
qed

lemma step_object:
  assumes "round_post w0 w" "(i, k) \<in> due_pairs w0"
  shows "round_step w0 w (w\<lparr>objects := (objects w)(k := None)\<rparr>)"
  using round_object [OF assms] by (simp add: round_step_def due_count_def)

lemma wp_work:
  assumes r: "round_post w0 w" and d0: "distinct (map x_id (dels w0))"
    and p: "(pe_id p, pe_path p) \<in> due_pairs w0"
  shows "wp (work_deletion S p) (\<lambda>_. round_step w0 w) w"
proof -
  let ?gone = "(objects w)(pe_path p := None)"
  have o: "round_step w0 w (w\<lparr>objects := ob\<rparr>)" if "ob = objects w \<or> ob = ?gone" for ob
    using that step_object [OF r p] round_step_refl [OF r] by auto
  have a: "round_step w0 w (w\<lparr>objects := ob\<rparr>\<lparr>db := upd_retry p msg (now w) (db w)\<rparr>)"
    if ob: "ob = objects w \<or> ob = ?gone" for ob msg
  proof -
    have "round_post w0 (w\<lparr>objects := ob\<rparr>)" "due_count (w\<lparr>objects := ob\<rparr>) \<le> due_count w"
      using o [OF ob] by (simp_all add: round_step_def)
    moreover from step_retry [OF this(1) d0 p]
    have "round_step w0 (w\<lparr>objects := ob\<rparr>) (w\<lparr>objects := ob\<rparr>\<lparr>db := upd_retry p msg (now w) (db w)\<rparr>)"
      by simp
    ultimately show ?thesis unfolding round_step_def by linarith
  qed
  have x: "round_step w0 w (w'\<lparr>faults := fs, extern := ex, tombs := tb\<rparr>) = round_step w0 w w'" for w' fs ex tb
    by simp
  have o': "round_step w0 w (w\<lparr>extern := ex, faults := fs, objects := ob, tombs := tb\<rparr>)"
    if "ob = objects w \<or> ob = ?gone" for ob fs ex tb
    using o [OF that] x [where w' = "w\<lparr>objects := ob\<rparr>"] by simp
  have a': "round_step w0 w (w\<lparr>extern := ex, faults := fs, db := upd_retry p msg (now w) (db w), objects := ob, tombs := tb\<rparr>)"
    if "ob = objects w \<or> ob = ?gone" for ob fs ex tb msg
    using a [OF that] x [where w' = "w\<lparr>objects := ob\<rparr>\<lparr>db := upd_retry p msg (now w) (db w)\<rparr>"] by simp
  have c': "round_step w0 w (w\<lparr>extern := ex, faults := fs, db := del_deletion (pe_id p) t (db w), objects := ?gone, tombs := tb\<rparr>)"
    if "key_ok (pe_path p)" for fs t ex tb
    using step_delete [OF r d0 p that, of t] x [where w' = "w\<lparr>db := del_deletion (pe_id p) t (db w), objects := ?gone\<rparr>"] by simp
  show ?thesis
    unfolding work_deletion_def
    by (intro wps) (use o' a' c' in \<open>auto\<close>)
qed

lemma wp_release:
  assumes "round_post w0 w" and d0: "distinct (map x_id (dels w0))" and "claimed_pairs ps \<subseteq> due_pairs w0"
  shows "wp (releaseDeletionClaims ps) (\<lambda>_. round_post w0) w"
  using assms(1,3)
proof (induction ps arbitrary: w)
  case Nil
  then show ?case by (auto intro: wps)
next
  case (Cons p ps)
  have p: "(pe_id p, pe_path p) \<in> due_pairs w0" using Cons.prems(2) by simp
  have "round_post w0 (w\<lparr>db := upd_release (pe_id p) t (db w)\<rparr>)" for t
    unfolding upd_release_def
    using round_upd [OF Cons.prems(1) d0, of "\<lambda>x. x_id x = pe_id p"] round_row [OF Cons.prems(1) d0 p]
    by simp
  then show ?case using Cons by (auto intro!: wps)
qed

lemma wp_start:
  assumes "round_post w0 w" and d0: "distinct (map x_id (dels w0))" and "claimed_pairs ps \<subseteq> due_pairs w0"
  shows "wp (start_workers S ps) (\<lambda>stopped w'. round_post w0 w' \<and> (\<not> stopped \<longrightarrow> due_count w' \<le> due_count w)) w"
  using assms(1,3)
proof (induction ps arbitrary: w)
  case Nil
  then show ?case by (auto intro: wps)
next
  case (Cons p ps)
  have p: "(pe_id p, pe_path p) \<in> due_pairs w0" "claimed_pairs ps \<subseteq> due_pairs w0" using Cons.prems(2) by simp_all
  have stop: "wp (releaseDeletionClaims (p # ps)) (\<lambda>_. round_post w0) (w\<lparr>extern := ex\<rparr>)" for ex
    by (rule wp_release [OF _ d0 Cons.prems(2)]) (simp add: Cons.prems(1))
  have "wp (start_workers S ps) (\<lambda>stopped w2. round_post w0 w2 \<and> (\<not> stopped \<longrightarrow> due_count w2 \<le> due_count w)) w'"
    if "round_step w0 (w\<lparr>extern := ex\<rparr>) w'" for ex w'
    by (rule wp_mono [OF Cons.IH]) (use that p(2) in \<open>auto simp: round_step_def due_count_def\<close>)
  then have work: "wp (work_deletion S p) (\<lambda>_. wp (start_workers S ps)
      (\<lambda>stopped w2. round_post w0 w2 \<and> (\<not> stopped \<longrightarrow> due_count w2 \<le> due_count w))) (w\<lparr>extern := ex\<rparr>)" for ex
    using wp_mono [OF wp_work [of w0 "w\<lparr>extern := ex\<rparr>" p S]] Cons.prems(1) d0 p(1) by simp
  show ?case
    unfolding start_workers.simps ctx_cancelled_def
    by (intro wps) (use work stop in \<open>simp_all add: wp_return_eq del: releaseDeletionClaims.simps\<close>)
qed

lemma round_claim:
  assumes r: "round_post w0 w" and d0: "distinct (map x_id (dels w0))"
  shows "round_post w0 (w\<lparr>db := snd (upd_claims (now w) (db w))\<rparr>)"
    and "claimed_pairs (map pending_of (sel_candidates (now w) (db w))) \<subseteq> due_pairs w0"
proof -
  let ?cs = "sel_candidates (now w) (db w)"
  have cs: "x \<in> set (dels w)" "due (now w) x" if "x \<in> set ?cs" for x
    using that candidates(1) by auto
  have "(x_id x, x_path x) \<in> due_pairs w0" if "x \<in> set (dels w)" "x_id x \<in> x_id ` set ?cs" for x
  proof -
    have "x \<in> set (filter (\<lambda>x. x_id x \<in> x_id ` set ?cs) (dels w))" using that by simp
    then have "x \<in> set ?cs" unfolding candidate_ids [OF round_postD(4) [OF r]] by simp
    then show ?thesis using round_due [OF r cs] by blast
  qed
  then show "round_post w0 (w\<lparr>db := snd (upd_claims (now w) (db w))\<rparr>)"
    unfolding upd_claims_def Let_def snd_conv by (intro round_upd [OF r d0]) auto
  show "claimed_pairs (map pending_of ?cs) \<subseteq> due_pairs w0"
    using round_due [OF r] cs by (auto simp: claimed_pairs_def pending_of_def)
qed

lemma wp_batch:
  assumes r: "round_post w0 w" and d0: "distinct (map x_id (dels w0))"
  shows "wp (processDeletionBatch S) (\<lambda>more w'. round_post w0 w' \<and> (more \<longrightarrow> due_count w' < due_count w)) w"
proof -
  let ?cs = "map pending_of (sel_candidates (now w) (db w))"
  have tx: "w\<lparr>txn := None\<rparr> = w" using round_postD(2) [OF r] by (cases w) simp
  have c: "due_count (w\<lparr>faults := fs, db := snd (upd_claims (now w) (db w))\<rparr>) + length ?cs = due_count w" for fs
    using due_after_claim [OF round_postD(4) [OF r], of "now w"] by (simp add: due_count_def)
  have start: "wp (start_workers S ?cs)
      (\<lambda>stopped w'. round_post w0 w' \<and> (\<not> stopped \<longrightarrow> due_count w' + length ?cs \<le> due_count w))
      (w\<lparr>faults := fs, db := snd (upd_claims (now w) (db w))\<rparr>)" for fs
    by (rule wp_mono [OF wp_start [OF _ d0 round_claim(2) [OF r d0]]])
      (use round_claim(1) [OF r d0] c [of fs] in auto)
  have T: "w\<lparr>faults := fs, txn := None\<rparr> = w\<lparr>faults := fs\<rparr>"
    "w\<lparr>faults := fs, db := d, txn := None\<rparr> = w\<lparr>faults := fs, db := d\<rparr>" for fs d
    using round_postD(2) [OF r] by (cases w; simp)+
  show ?thesis
    unfolding processDeletionBatch_def ctx_cancelled_def
    by (intro wps wp_claims)
      (use r start round_claim(1) [OF r d0] in \<open>auto simp: T deletionBatchSize_def due_count_def intro!: wps wp_mono [OF start]\<close>)
qed

lemma wp_round:
  assumes "round_post w0 w" and d0: "distinct (map x_id (dels w0))"
  shows "wp (processAvailableDeletions fuel S) (\<lambda>fin w'. round_post w0 w' \<and> (due_count w < fuel \<longrightarrow> fin)) w"
  using assms(1)
proof (induction fuel arbitrary: w)
  case 0
  then show ?case by (auto intro: wps)
next
  case (Suc fuel)
  have batch: "wp (processDeletionBatch S) (\<lambda>more w1. round_post w0 w1 \<and> (more \<longrightarrow> due_count w1 < due_count w)) (w\<lparr>extern := ex\<rparr>)" for ex
    using wp_batch [of w0 "w\<lparr>extern := ex\<rparr>" S] Suc.prems d0 by (simp add: due_count_def)
  have rec: "wp (processAvailableDeletions fuel S) (\<lambda>fin w'. round_post w0 w' \<and> (due_count w < Suc fuel \<longrightarrow> fin)) w1"
    if "round_post w0 w1" "due_count w1 < due_count w" for w1
    by (rule wp_mono [OF Suc.IH [OF that(1)]]) (use that(2) in auto)
  have "wp (processDeletionBatch S) (\<lambda>more. wp (if more then processAvailableDeletions fuel S else ret True)
      (\<lambda>fin w'. round_post w0 w' \<and> (due_count w < Suc fuel \<longrightarrow> fin))) (w\<lparr>extern := ex\<rparr>)" for ex
    by (rule wp_mono [OF batch]) (use rec in \<open>auto intro!: wps\<close>)
  then show ?case
    unfolding processAvailableDeletions.simps ctx_cancelled_def
    by (intro wps) (use Suc.prems in \<open>auto\<close>)
qed

section \<open>Rounds without failures\<close>

definition store_ready :: "object_store \<Rightarrow> bool" where
  "store_ready S \<longleftrightarrow> (case S of LocalStore b \<Rightarrow> True | S3Store b l \<Rightarrow> l \<noteq> [])"

definition quiet_world :: "world \<Rightarrow> bool" where
  "quiet_world w \<longleftrightarrow> faults w = [] \<and> extern w = []"

lemma run_s3_call:
  "extern w = [] \<Longrightarrow> run_state (s3_call e) w = (True, snd (run_state e w))"
  by (simp add: s3_call_def extern_ok_def split: prod.splits)

lemma run_store_delete:
  assumes "extern w = []" "key_ok k" "store_ready S"
  shows "\<exists>tb. run_state (store_delete S k) w = (True, w\<lparr>objects := (objects w)(k := None), tombs := tb\<rparr>)"
proof (cases S)
  case (LocalStore base)
  have "w\<lparr>objects := (objects w)(k := None), tombs := tombs w\<rparr> = w" if "objects w k = None"
    using that by (cases w) auto
  moreover have "w\<lparr>objects := ob, tombs := tombs w\<rparr> = w\<lparr>objects := ob\<rparr>" for ob by simp
  ultimately show ?thesis
    using assms LocalStore
    by (intro exI [of _ "tombs w"]) (auto simp: local_delete_def cleanKey_eq look_up_def remove_object_def extern_ok_def)
next
  case (S3Store bucket l)
  then show ?thesis using assms
    by (auto simp: s3_delete_def recordObjectDeletion_def putDeletionTombstone_def cleanKey_eq run_s3_call
        add_tomb_def remove_object_def store_ready_def)
qed

text \<open>What a list of successful removals leaves.\<close>

definition removed_all :: "(nat \<times> string) set \<Rightarrow> world \<Rightarrow> world \<Rightarrow> bool" where
  "removed_all P w w' \<longleftrightarrow> (\<exists>tb. w' = w\<lparr>db := (db w)\<lparr>deletions := filter (\<lambda>x. x_id x \<notin> fst ` P) (dels w)\<rparr>,
     objects := objects w |` (- snd ` P), tombs := tb\<rparr>)"

lemma run_work:
  assumes "quiet_world w" "key_ok (pe_path p)" "store_ready S"
  shows "\<exists>w'. run_state (work_deletion S p) w = ((), w') \<and> removed_all {(pe_id p, pe_path p)} w w'"
proof -
  obtain tb where "run_state (store_delete S (pe_path p)) w
      = (True, w\<lparr>objects := (objects w)(pe_path p := None), tombs := tb\<rparr>)"
    using run_store_delete assms by (metis quiet_world_def)
  moreover have "(objects w)(k := None) = objects w |` (- {k})" for k by (auto simp: restrict_map_def)
  ultimately show ?thesis
    using assms(1)
    by (auto simp: work_deletion_def quiet_world_def exec_Pool_free del_deletion_def removed_all_def)
qed

lemma removed_all_empty: "removed_all {} w w"
  by (cases w) (auto simp: removed_all_def intro!: exI [of _ "tombs w"])

lemma removed_all_trans:
  assumes "removed_all P w w'" "removed_all P' w' w''" shows "removed_all (P \<union> P') w w''"
proof -
  have "filter (\<lambda>x. x_id x \<notin> fst ` P') (filter (\<lambda>x. x_id x \<notin> fst ` P) xs)
      = filter (\<lambda>x. x_id x \<notin> fst ` (P \<union> P')) xs" for xs
    by (auto intro: filter_cong)
  then show ?thesis using assms by (auto simp: removed_all_def image_Un)
qed

lemma removed_quiet: "removed_all P w w' \<Longrightarrow> quiet_world w \<Longrightarrow> quiet_world w'"
  by (auto simp: removed_all_def quiet_world_def)

lemma run_start:
  assumes "quiet_world w" "\<forall>p\<in>set ps. key_ok (pe_path p)" "store_ready S"
  shows "\<exists>w'. run_state (start_workers S ps) w = (False, w') \<and> removed_all (claimed_pairs ps) w w'"
  using assms(1,2)
proof (induction ps arbitrary: w)
  case Nil
  then show ?case using removed_all_empty by auto
next
  case (Cons p ps)
  obtain w1 where w1: "run_state (work_deletion S p) w = ((), w1)" "removed_all {(pe_id p, pe_path p)} w w1"
    using run_work [OF Cons.prems(1) _ assms(3)] Cons.prems(2) by auto
  obtain w2 where w2: "run_state (start_workers S ps) w1 = (False, w2)" "removed_all (claimed_pairs ps) w1 w2"
    using Cons.IH removed_quiet [OF w1(2) Cons.prems(1)] Cons.prems(2) by auto
  have "run_state ctx_cancelled w = (False, w)"
    using Cons.prems(1) by (simp add: ctx_cancelled_def extern_ok_def quiet_world_def)
  then show ?case
    using w1(1) w2(1) removed_all_trans [OF w1(2) w2(2)] by auto
qed

definition row_pairs :: "deletion_row list \<Rightarrow> (nat \<times> string) set" where
  "row_pairs xs = (\<lambda>x. (x_id x, x_path x)) ` set xs"

lemma claimed_pending: "claimed_pairs (map pending_of cs) = row_pairs cs"
  by (auto simp: claimed_pairs_def row_pairs_def pending_of_def image_image)

lemma fst_row_pairs: "fst ` row_pairs cs = x_id ` set cs"
  by (simp add: row_pairs_def image_image)

lemma run_claim:
  assumes "quiet_world w" "txn w = None"
  shows "run_state claimPendingDeletions w
     = (Some (map pending_of (sel_candidates (now w) (db w))), w\<lparr>db := snd (upd_claims (now w) (db w))\<rparr>)"
proof -
  have "w\<lparr>db := d, txn := None\<rparr> = w\<lparr>db := d\<rparr>" for d using assms(2) by (cases w) simp
  then show ?thesis
    using assms by (simp add: claimPendingDeletions_def quiet_world_def free_simps upd_claims_def Let_def)
qed

lemma run_batch:
  assumes q: "quiet_world w" "txn w = None" and S: "store_ready S"
    and ok: "\<forall>x\<in>set (dels w). due (now w) x \<longrightarrow> key_ok (x_path x)"
  shows "\<exists>w'. run_state (processDeletionBatch S) w
       = (length (sel_candidates (now w) (db w)) = deletionBatchSize, w')
     \<and> removed_all (row_pairs (sel_candidates (now w) (db w))) w w'"
proof -
  let ?cs = "sel_candidates (now w) (db w)" and ?w1 = "w\<lparr>db := snd (upd_claims (now w) (db w))\<rparr>"
  have "\<forall>p\<in>set (map pending_of ?cs). key_ok (pe_path p)"
    using ok candidates(1) [of "now w" "db w"] by (auto simp: pending_of_def)
  then obtain w2 where w2: "run_state (start_workers S (map pending_of ?cs)) ?w1 = (False, w2)"
    "removed_all (row_pairs ?cs) ?w1 w2"
    using run_start [of ?w1 "map pending_of ?cs" S] q(1) S by (auto simp: quiet_world_def claimed_pending)
  have same: "filter (\<lambda>x. x_id x \<notin> I) (upd_where (\<lambda>x. x_id x \<in> I) (\<lambda>x. x\<lparr>x_locked := l\<rparr>) xs)
      = filter (\<lambda>x. x_id x \<notin> I) xs" for I l and xs :: "deletion_row list"
    by (induction xs) (auto simp: upd_where_def)
  have r: "removed_all (row_pairs ?cs) w w2"
    using w2(2) by (simp add: removed_all_def upd_claims_def Let_def fst_row_pairs same)
  have c: "run_state ctx_cancelled w2 = (False, w2)"
    using removed_quiet [OF r q(1)] by (simp add: ctx_cancelled_def extern_ok_def quiet_world_def)
  have "w2 = w" if "?cs = []"
    using w2(1) that by (cases w) (auto simp: upd_claims_def Let_def upd_where_def)
  then show ?thesis
    using r w2(1) c removed_all_empty
    by (auto simp: processDeletionBatch_def run_claim [OF q] row_pairs_def deletionBatchSize_def upd_claims_def
        Let_def upd_where_def)
qed

lemma due_pairs_split:
  assumes d: "distinct (map x_id (dels w))" and r: "removed_all (row_pairs (sel_candidates (now w) (db w))) w w'"
  shows "due_pairs w = row_pairs (sel_candidates (now w) (db w)) \<union> due_pairs w'"
proof -
  let ?cs = "sel_candidates (now w) (db w)"
  have w': "now w' = now w" "dels w' = filter (\<lambda>x. x_id x \<notin> x_id ` set ?cs) (dels w)"
    using r by (auto simp: removed_all_def fst_row_pairs)
  have "x \<in> set ?cs" if "x \<in> set (dels w)" "x_id x \<in> x_id ` set ?cs" for x
  proof -
    have "x \<in> set (filter (\<lambda>x. x_id x \<in> x_id ` set ?cs) (dels w))" using that by simp
    then show ?thesis unfolding candidate_ids [OF d] by simp
  qed
  then show ?thesis
    using candidates(1) [of "now w" "db w"] unfolding due_pairs_def row_pairs_def w' by fastforce
qed

lemma run_round:
  assumes "quiet_world w" "txn w = None" "distinct (map x_id (dels w))" "due_count w < fuel" and S: "store_ready S"
    and "\<forall>x\<in>set (dels w). due (now w) x \<longrightarrow> key_ok (x_path x)"
  shows "\<exists>w'. run_state (processAvailableDeletions fuel S) w = (True, w') \<and> removed_all (due_pairs w) w w'"
  using assms(1-4,6)
proof (induction fuel arbitrary: w)
  case (Suc fuel)
  let ?cs = "sel_candidates (now w) (db w)"
  obtain w1 where w1: "run_state (processDeletionBatch S) w = (length ?cs = deletionBatchSize, w1)"
    "removed_all (row_pairs ?cs) w w1"
    using run_batch [OF Suc.prems(1,2) S Suc.prems(5)] by auto
  have c: "run_state ctx_cancelled w = (False, w)"
    using Suc.prems(1) by (simp add: ctx_cancelled_def extern_ok_def quiet_world_def)
  note split = due_pairs_split [OF Suc.prems(3) w1(2)]
  have d: "distinct (map x_id (dels w1))" "txn w1 = None" "now w1 = now w"
    "\<forall>x\<in>set (dels w1). due (now w1) x \<longrightarrow> key_ok (x_path x)"
    using w1(2) Suc.prems(2,3,5) by (auto simp: removed_all_def distinct_map_filter)
  show ?case
  proof (cases "length ?cs = deletionBatchSize")
    case True
    have "due_count w1 < due_count w"
      using wpD [OF wp_batch [OF round_post_refl [OF Suc.prems(3,2)] Suc.prems(3)] w1(1)] True by simp
    then obtain w2 where "run_state (processAvailableDeletions fuel S) w1 = (True, w2)"
      "removed_all (due_pairs w1) w1 w2"
      using Suc.IH [OF removed_quiet [OF w1(2) Suc.prems(1)] d(2,1) _ d(4)] Suc.prems(4) by auto
    then show ?thesis using c w1 True removed_all_trans [OF w1(2)] split by auto
  next
    case False
    then have "length ?cs < deletionBatchSize" using candidates(2) [of "now w" "db w"] by auto
    then have "due_pairs w = row_pairs ?cs"
      using candidates(3) [of "now w" "db w"] by (simp add: due_pairs_def row_pairs_def)
    then show ?thesis using c w1 False by simp
  qed
qed simp

section \<open>Properties\<close>

text \<open>
  C37. The deletion worker. A round with more fuel than due rows ends. Whatever fails, it changes
  nothing but the outbox and the stored objects; rows that are not due stay as they are, no row is
  invented, a row goes away only when its object is gone, and only objects of due rows are removed.
  When no call fails and the due keys are well-formed, exactly the due rows are gone, and their objects.
\<close>

theorem deletion_round_ends:
  assumes "distinct (map x_id (dels w))" "txn w = None" "due_count w < fuel"
  shows "case run_state (processAvailableDeletions fuel S) w of (finished, w') \<Rightarrow> finished
     \<and> (db w')\<lparr>deletions := dels w\<rparr> = db w \<and> txn w' = None
     \<and> {x \<in> set (dels w). \<not> due (now w) x} \<subseteq> set (dels w') \<and> row_pairs (dels w') \<subseteq> row_pairs (dels w)
     \<and> (\<forall>x\<in>set (dels w). x_id x \<notin> x_id ` set (dels w') \<longrightarrow> key_ok (x_path x) \<and> objects w' (x_path x) = None)
     \<and> (\<forall>k. objects w' k = objects w k \<or> objects w' k = None \<and> (\<exists>x\<in>set (dels w). due (now w) x \<and> x_path x = k))
     \<and> (faults w = [] \<and> extern w = [] \<and> store_ready S \<and> (\<forall>x\<in>set (dels w). due (now w) x \<longrightarrow> key_ok (x_path x)) \<longrightarrow>
          dels w' = filter (\<lambda>x. \<not> due (now w) x) (dels w)
          \<and> (\<forall>x\<in>set (dels w). due (now w) x \<longrightarrow> objects w' (x_path x) = None))"
proof -
  obtain fin w' where run: "run_state (processAvailableDeletions fuel S) w = (fin, w')" by fastforce
  have r: "round_post w w'" and fin: "fin"
    using wpD [OF wp_round [OF round_post_refl [OF assms(1,2)] assms(1)] run] assms(3) by auto
  note D = round_postD [OF r]
  have pairs: "row_pairs (dels w') \<subseteq> row_pairs (dels w)"
    using D(5) by (fastforce simp: row_pairs_def due_pairs_def)
  have obj: "objects w' k = objects w k \<or> objects w' k = None \<and> (\<exists>x\<in>set (dels w). due (now w) x \<and> x_path x = k)" for k
    using D(8) [of k] by (auto simp: due_pairs_def)
  have free: "dels w' = filter (\<lambda>x. \<not> due (now w) x) (dels w)
      \<and> (\<forall>x\<in>set (dels w). due (now w) x \<longrightarrow> objects w' (x_path x) = None)"
    if q: "faults w = []" "extern w = []" "store_ready S" "\<forall>x\<in>set (dels w). due (now w) x \<longrightarrow> key_ok (x_path x)"
  proof -
    have "removed_all (due_pairs w) w w'"
      using run_round [OF _ assms(2,1,3) q(3,4)] run q(1,2) by (auto simp: quiet_world_def)
    then have "dels w' = filter (\<lambda>x. x_id x \<notin> fst ` due_pairs w) (dels w)"
      and o: "objects w' = objects w |` (- snd ` due_pairs w)" by (auto simp: removed_all_def)
    moreover have "x_id x \<in> fst ` due_pairs w \<longleftrightarrow> due (now w) x" if "x \<in> set (dels w)" for x
      using that due_pair_row(2) [OF assms(1) _ that refl] by (force simp: due_pairs_def)
    ultimately have "dels w' = filter (\<lambda>x. \<not> due (now w) x) (dels w)" by (simp cong: filter_cong)
    moreover have "x_path x \<in> snd ` due_pairs w" if "x \<in> set (dels w)" "due (now w) x" for x
      using that by (force simp: due_pairs_def)
    ultimately show ?thesis by (simp add: o restrict_map_def)
  qed
  show ?thesis
    unfolding run prod.case using fin D pairs obj free by blast
qed

text \<open>
  A sample: a live file, a deleted one whose object is still stored, and an outbox with the path of
  the deleted file (due) and a later one.
\<close>

definition s_file :: "string \<Rightarrow> string \<Rightarrow> string \<Rightarrow> int \<Rightarrow> time option \<Rightarrow> file_row" where
  "s_file i nm path sz del = \<lparr>f_id = i, f_project = Some ''p1'', f_uploader = Some ''u1'', f_kind = ''photo'',
     f_name = nm, f_path = path, f_type = ''image/jpeg'', f_size = sz, f_created = 0, f_deleted = del\<rparr>"

definition s_deletion :: "nat \<Rightarrow> string \<Rightarrow> time \<Rightarrow> deletion_row" where
  "s_deletion i path t = \<lparr>x_id = i, x_path = path, x_attempts = 0, x_available = t, x_locked = None,
     x_error = None, x_created = 0\<rparr>"

definition s_storage :: world where
  "s_storage = s_team\<lparr>db := s_team_db\<lparr>files := [s_file ''f1'' ''a.jpg'' ''p1/2025/a.jpg'' 3 None,
       s_file ''f2'' ''b.jpg'' ''p1/2025/b.jpg'' 1 (Some 0)],
     deletions := [s_deletion 0 ''p1/2025/b.jpg'' 0, s_deletion 1 ''p1/2025/c.jpg'' (2 * day)], deletion_seq := 2\<rparr>,
     objects := [''p1/2025/a.jpg'' \<mapsto> [255, 216, 255], ''p1/2025/b.jpg'' \<mapsto> [0], ''p1/2025/c.jpg'' \<mapsto> [1]]\<rparr>"

theorem deletion_round_ends_witness:
  "case run_state (processAvailableDeletions 2 (LocalStore ''/data'')) s_storage of (finished, w') \<Rightarrow>
     finished \<and> dels w' = [s_deletion 1 ''p1/2025/c.jpg'' (2 * day)] \<and> objects w' ''p1/2025/b.jpg'' = None"
proof -
  have "due_count s_storage < 2" "distinct (map x_id (dels s_storage))" by code_simp+
  moreover have "txn s_storage = None" "faults s_storage = []" "extern s_storage = []"
    by (simp_all add: s_storage_def s_team_def s_world_def)
  moreover have "filter (\<lambda>x. \<not> due (now s_storage) x) (dels s_storage) = [s_deletion 1 ''p1/2025/c.jpg'' (2 * day)]"
    by code_simp
  moreover have "list_all (\<lambda>x. due (now s_storage) x \<longrightarrow> key_ok (x_path x)) (dels s_storage)" by code_simp
  moreover have "list_ex (\<lambda>x. due (now s_storage) x \<and> x_path x = ''p1/2025/b.jpg'') (dels s_storage)" by code_simp
  ultimately show ?thesis
    using deletion_round_ends [where w = s_storage and fuel = 2 and S = "LocalStore ''/data''"]
    by (auto simp: list_all_iff list_ex_iff store_ready_def split: prod.splits)
qed

end
