(* ===== verification/Files_Facts.thy ===== *)
theory Files_Facts
  imports Files Worker_Facts Account_Facts
begin

text \<open>
  The rows of \<open>files\<close>, the outbox and the stored objects together: every live file has its object, and
  no object of a live file is queued, claimed or removed. \<open>storage_ok L G w\<close> is the invariant, with a set
  \<open>G\<close> of paths that no live file has and none will get: those claimed by workers and the one an upload
  or a deletion is working on. Whatever happens to an object of \<open>G\<close> keeps the invariant.
\<close>

section \<open>The invariant of the tables\<close>

text \<open>The live files outside a set \<open>L\<close> of paths (lost ones, see \<open>Storage_Facts\<close>).\<close>

definition live_files :: "string set \<Rightarrow> db \<Rightarrow> file_row set" where
  "live_files L d = {f \<in> set (files d). f_deleted f = None \<and> f_path f \<notin> L}"

definition live_paths :: "string set \<Rightarrow> db \<Rightarrow> string set" where
  "live_paths L d = f_path ` live_files L d"

definition queued :: "db \<Rightarrow> string set" where
  "queued d = x_path ` set (deletions d)"

definition outbox_ok :: "db \<Rightarrow> bool" where
  "outbox_ok d \<longleftrightarrow> distinct (map x_id (deletions d)) \<and> distinct (map x_path (deletions d))
     \<and> (\<forall>x\<in>set (deletions d). x_id x < deletion_seq d)"

definition files_ok :: "string set \<Rightarrow> db \<Rightarrow> bool" where
  "files_ok L d \<longleftrightarrow> distinct (map f_id (files d)) \<and> distinct (map f_path (files d))
     \<and> (\<forall>f\<in>set (files d). key_ok (f_path f)) \<and> live_paths L d \<inter> queued d = {} \<and> outbox_ok d"

definition stored_in :: "(string \<rightharpoonup> nat list) \<Rightarrow> file_row \<Rightarrow> bool" where
  "stored_in ob f \<longleftrightarrow> (\<exists>b. ob (f_path f) = Some b \<and> int (length b) = f_size f)"

definition tables_ok :: "string set \<Rightarrow> string set \<Rightarrow> (string \<rightharpoonup> nat list) \<Rightarrow> db \<Rightarrow> bool" where
  "tables_ok L G ob d \<longleftrightarrow> files_ok L d \<and> live_paths L d \<inter> G = {} \<and> (\<forall>f\<in>live_files L d. stored_in ob f)"

text \<open>Only the files and the outbox matter.\<close>

lemma storage_fields [simp]:
  "live_files L (d\<lparr>audits := a\<rparr>) = live_files L d" "live_files L (d\<lparr>costs := c\<rparr>) = live_files L d"
  "tables_ok L G ob (d\<lparr>audits := a\<rparr>) = tables_ok L G ob d" "tables_ok L G ob (d\<lparr>costs := c\<rparr>) = tables_ok L G ob d"
  by (simp_all add: tables_ok_def files_ok_def live_files_def live_paths_def queued_def outbox_ok_def)

definition same_storage :: "db \<Rightarrow> db \<Rightarrow> bool" where
  "same_storage d d' \<longleftrightarrow> files d' = files d \<and> deletions d' = deletions d \<and> deletion_seq d' = deletion_seq d"

lemma tables_ok_same: "same_storage d d' \<Longrightarrow> tables_ok L G ob d' = tables_ok L G ob d"
  by (simp add: same_storage_def tables_ok_def files_ok_def live_files_def live_paths_def queued_def outbox_ok_def)

lemma tables_ok_mono: "tables_ok L H ob d \<Longrightarrow> G \<subseteq> H \<Longrightarrow> tables_ok L G ob d"
  by (auto simp: tables_ok_def)

text \<open>An object outside the live paths may change.\<close>

lemma tables_ok_object [simp]:
  assumes "tables_ok L G ob d" "p \<in> G" shows "tables_ok L G (ob(p := x)) d"
proof -
  have "f_path f \<noteq> p" if "f \<in> live_files L d" for f
    using that assms by (auto simp: tables_ok_def live_paths_def)
  then show ?thesis using assms(1) by (auto simp: tables_ok_def stored_in_def)
qed

section \<open>Statements on the tables\<close>

text \<open>Marking rows as deleted takes their paths out of the live ones.\<close>

lemma marked [simp]: "f_deleted (mark_file t f) = Some t"
  by (simp add: mark_file_def)

lemma live_files_mark:
  "live_files L (d\<lparr>files := upd_where P (mark_file t) (files d)\<rparr>) = live_files L d - {f. P f}"
  by (auto simp: live_files_def set_upd_where split: if_splits)
    (metis marked option.distinct(1))

lemma paths_disjoint:
  assumes "distinct (map f_path fs)" "A \<subseteq> set fs" "B \<subseteq> set fs" "A \<inter> B = {}"
  shows "f_path ` A \<inter> f_path ` B = {}"
  using assms inj_on_image_Int [of f_path "set fs" A B] by (simp add: distinct_map)

lemma tables_ok_mark:
  assumes "tables_ok L G ob d"
  shows "tables_ok L (G \<union> f_path ` {f \<in> set (files d). P f}) ob (d\<lparr>files := upd_where P (mark_file t) (files d)\<rparr>)"
proof -
  let ?d = "d\<lparr>files := upd_where P (mark_file t) (files d)\<rparr>"
  have ok: "files_ok L d" using assms by (simp add: tables_ok_def)
  have m: "map f_id (files ?d) = map f_id (files d)" "map f_path (files ?d) = map f_path (files d)"
    by (simp_all add: map_upd_where mark_file_def)
  have "f_path ` set (files ?d) = f_path ` set (files d)" by (metis m(2) list.set_map)
  then have "\<forall>f\<in>set (files ?d). key_ok (f_path f)" using ok by (metis (no_types, lifting) files_ok_def image_iff)
  moreover have "live_paths L ?d \<subseteq> live_paths L d" unfolding live_paths_def live_files_mark by auto
  moreover have "queued ?d = queued d" "outbox_ok ?d = outbox_ok d" by (simp_all add: queued_def outbox_ok_def)
  ultimately have "files_ok L ?d" using ok m unfolding files_ok_def by auto
  moreover have "live_paths L ?d \<inter> f_path ` {f \<in> set (files d). P f} = {}"
    unfolding live_paths_def live_files_mark
    by (rule paths_disjoint) (use ok in \<open>auto simp: files_ok_def live_files_def\<close>)
  moreover have "live_paths L ?d \<inter> G = {}" using assms \<open>live_paths L ?d \<subseteq> live_paths L d\<close> by (auto simp: tables_ok_def)
  ultimately show ?thesis using assms unfolding tables_ok_def live_files_mark by auto
qed

lemma enqueue_fields:
  "queued (enqueue_path p t d) = insert p (queued d)" "live_files L (enqueue_path p t d) = live_files L d"
  "live_paths L (enqueue_path p t d) = live_paths L d" "files (enqueue_path p t d) = files d"
  by (auto simp: enqueue_path_def queued_def live_files_def live_paths_def)

lemma tables_ok_enqueue:
  assumes "tables_ok L G ob d" "p \<in> G"
  shows "tables_ok L G ob (enqueue_path p t d)"
proof -
  have ok: "files_ok L d" and p: "p \<notin> live_paths L d" using assms by (auto simp: tables_ok_def)
  have "outbox_ok (enqueue_path p t d)"
    using ok by (auto simp: files_ok_def outbox_ok_def enqueue_path_def less_Suc_eq)
  then have "files_ok L (enqueue_path p t d)" using ok p by (simp add: files_ok_def enqueue_fields)
  then show ?thesis using assms(1) by (simp add: tables_ok_def enqueue_fields)
qed

lemma tables_ok_rows:
  assumes "tables_ok L G ob d" "queued d' \<subseteq> queued d" "outbox_ok d'" "files d' = files d"
  shows "tables_ok L G ob d'"
  using assms by (auto simp: tables_ok_def files_ok_def live_paths_def live_files_def)

lemma tables_ok_dequeue:
  assumes "tables_ok L G ob d" shows "tables_ok L G ob (d\<lparr>deletions := filter P (deletions d)\<rparr>)"
  using assms by (intro tables_ok_rows [OF assms])
    (auto simp: queued_def tables_ok_def files_ok_def outbox_ok_def distinct_map_filter)

lemma tables_ok_upd_rows:
  assumes "tables_ok L G ob d" "\<And>x. x_id (f x) = x_id x" "\<And>x. x_path (f x) = x_path x"
  shows "tables_ok L G ob (d\<lparr>deletions := upd_where P f (deletions d)\<rparr>)"
proof -
  let ?d = "d\<lparr>deletions := upd_where P f (deletions d)\<rparr>"
  have m: "map x_id (deletions ?d) = map x_id (deletions d)" "map x_path (deletions ?d) = map x_path (deletions d)"
    using map_upd_where [of x_id f P] map_upd_where [of x_path f P] assms(2,3) by simp_all
  have q: "queued ?d = queued d" unfolding queued_def by (metis m(2) list.set_map)
  have "outbox_ok d" using assms(1) by (simp add: tables_ok_def files_ok_def)
  then have "outbox_ok ?d"
    using assms(2) by (auto simp: outbox_ok_def m [simplified] set_upd_where split: if_splits)
  then show ?thesis by (intro tables_ok_rows [OF assms(1)]) (simp_all add: q)
qed

lemma tables_ok_insert:
  assumes "tables_ok L (insert path G) ob d" "ins_file pid u kind nm path ctype sz i t d = (r, d')" "r \<noteq> SqlErr"
    and "path \<notin> f_path ` set (files d)" "path \<notin> queued d" "key_ok path" "path \<notin> G"
    and "ob path = Some b" "int (length b) = sz"
  shows "tables_ok L G ob d'"
proof -
  let ?f = "new_file pid u kind nm path ctype sz i t"
  have f: "d' = d\<lparr>files := files d @ [?f]\<rparr>" "i \<notin> f_id ` set (files d)"
    using assms(2,3) by (auto simp: ins_file_def Let_def split: if_splits)
  have l: "live_files L d' \<subseteq> insert ?f (live_files L d)" by (auto simp: f new_file_def live_files_def)
  have q: "queued d' = queued d" "outbox_ok d' = outbox_ok d" by (simp_all add: f queued_def outbox_ok_def)
  have ok: "files_ok L d" using assms(1) by (simp add: tables_ok_def)
  have "f_path ?f = path" by (simp add: new_file_def)
  then have lp: "live_paths L d' \<subseteq> insert path (live_paths L d)" using l by (auto simp: live_paths_def)
  then have "files_ok L d'"
    using ok assms(4-6) f(2) unfolding files_ok_def q by (auto simp: f(1) new_file_def)
  moreover have "stored_in ob ?f" using assms(8,9) by (simp add: stored_in_def new_file_def)
  ultimately show ?thesis using assms(1,7) l lp unfolding tables_ok_def by blast
qed

text \<open>Rows that leave the table queue their paths.\<close>

lemma queue_path_enqueue: "queue_path t d f = enqueue_path (f_path f) t d"
  by (simp add: queue_path_def enqueue_path_def)

lemma foldl_queue_fields:
  "(foldl (queue_path t) d fs)\<lparr>files := F, costs := C\<rparr> = foldl (queue_path t) (d\<lparr>files := F, costs := C\<rparr>) fs"
proof (induction fs arbitrary: d)
  case (Cons f fs)
  have "(queue_path t d f)\<lparr>files := F, costs := C\<rparr> = queue_path t (d\<lparr>files := F, costs := C\<rparr>) f"
    by (simp add: queue_path_def)
  then show ?case using Cons [of "queue_path t d f"] by simp
qed simp

lemma tables_ok_foldl:
  "tables_ok L G ob d \<Longrightarrow> f_path ` set fs \<subseteq> G \<Longrightarrow> tables_ok L G ob (foldl (queue_path t) d fs)"
  by (induction fs arbitrary: d) (auto simp: queue_path_enqueue tables_ok_enqueue)

lemma tables_ok_remove_files:
  assumes "tables_ok L G ob d" shows "tables_ok L G ob (remove_files P t d)"
proof -
  let ?F = "filter (\<lambda>f. \<not> P f) (files d)" and ?H = "G \<union> f_path ` set (filter P (files d))"
  let ?C = "upd_where (\<lambda>k. k_receipt k \<in> Some ` f_id ` set (filter P (files d))) (\<lambda>k. k\<lparr>k_receipt := None\<rparr>) (costs d)"
  let ?d = "d\<lparr>files := ?F, costs := ?C\<rparr>"
  have ok: "files_ok L d" using assms by (simp add: tables_ok_def)
  have l: "live_files L ?d = live_files L d - {f. P f}" by (auto simp: live_files_def)
  then have lp: "live_paths L ?d \<subseteq> live_paths L d" by (auto simp: live_paths_def)
  have q: "queued ?d = queued d" "outbox_ok ?d = outbox_ok d" by (simp_all add: queued_def outbox_ok_def)
  have "files_ok L ?d" using ok lp unfolding files_ok_def q by (auto simp: distinct_map_filter)
  moreover have "live_paths L ?d \<inter> f_path ` set (filter P (files d)) = {}"
    unfolding live_paths_def l
    by (rule paths_disjoint) (use ok in \<open>auto simp: files_ok_def live_files_def\<close>)
  ultimately have "tables_ok L ?H ob ?d" using assms lp l unfolding tables_ok_def by auto
  then have "tables_ok L ?H ob (foldl (queue_path t) ?d (filter P (files d)))" by (rule tables_ok_foldl) auto
  then show ?thesis
    unfolding remove_files_def foldl_queue_fields by (rule tables_ok_mono) auto
qed

lemma orphan_none: "\<forall>f\<in>set (files d). f_uploader f \<noteq> Some u \<Longrightarrow> orphan_files u t d = d"
proof -
  assume a: "\<forall>f\<in>set (files d). f_uploader f \<noteq> Some u"
  then have "filter (\<lambda>f. f_uploader f = Some u) (files d) = []" by (simp add: filter_empty_conv)
  moreover have "upd_where (\<lambda>f. f_uploader f = Some u) g (files d) = files d" for g
    using a by (auto simp: upd_where_def intro: map_idI)
  ultimately show ?thesis by (simp add: orphan_files_def)
qed

lemma tables_ok_del_user:
  assumes "tables_ok L G ob d" "del_user_files u t1 d = (r1, d1)" "r1 \<noteq> SqlErr" "del_user u t2 d1 = (r2, d2)" "r2 \<noteq> SqlErr"
  shows "tables_ok L G ob d2"
proof -
  have d1: "d1 = remove_files (\<lambda>f. f_uploader f = Some u) t1 d"
    using assms(2,3) by (auto simp: del_user_files_def split: if_splits)
  then have ok1: "tables_ok L G ob d1" using tables_ok_remove_files [OF assms(1)] by simp
  let ?ps = "owned_projects u d1"
  have "files (cascade_projects ?ps t2 d1) = filter (\<lambda>f. f_project f \<notin> Some ` ?ps) (files d1)"
    by (simp add: cascade_projects_def remove_files_def)
  moreover have "files d1 = filter (\<lambda>f. f_uploader f \<noteq> Some u) (files d)" by (simp add: d1 remove_files_def)
  ultimately have o: "orphan_files u t2 (cascade_projects ?ps t2 d1) = cascade_projects ?ps t2 d1"
    by (intro orphan_none) auto
  have "same_storage (remove_files (\<lambda>f. f_project f \<in> Some ` ?ps) t2 d1) (cascade_projects ?ps t2 d1)"
    by (simp add: same_storage_def cascade_projects_def)
  then have "tables_ok L G ob (cascade_projects ?ps t2 d1)"
    using tables_ok_same tables_ok_remove_files [OF ok1] by blast
  moreover have "same_storage (cascade_projects ?ps t2 d1) (forget_user u t2 (cascade_projects ?ps t2 d1))"
    by (simp add: same_storage_def forget_user_def o)
  ultimately have "tables_ok L G ob (forget_user u t2 (cascade_projects ?ps t2 d1))" using tables_ok_same by blast
  then show ?thesis using assms(4,5) ok1 by (auto simp: del_user_def split: if_splits)
qed

end
