(* ===== verification/Project_Cover.thy ===== *)
theory Project_Cover
  imports Files
begin

text \<open>
  Creating a project together with its cover image (\<open>CreateProjectWithCover\<close> of
  \<open>internal/httpapi/projects.go\<close>): the rows of the project, the membership and the file are one
  transaction, and the object is removed again when the transaction does not commit. The budget of the
  form is read with \<open>strconv.ParseFloat\<close>.
\<close>

section \<open>strconv.ParseFloat\<close>

definition read_base :: "int \<Rightarrow> string \<Rightarrow> int" where
  "read_base b ds = foldl (\<lambda>n c. n * b + hex_val c) 0 ds"

definition strip_sign :: "string \<Rightarrow> bool \<times> string" where
  "strip_sign s = (case s of
     [] \<Rightarrow> (False, [])
   | c # cs \<Rightarrow> if c = CHR ''+'' then (False, cs) else if c = CHR ''-'' then (True, cs) else (False, s))"

text \<open>The digits before and after the point, and what follows them; underscores are skipped.\<close>

fun float_digits :: "bool \<Rightarrow> bool \<Rightarrow> string \<Rightarrow> string \<times> string \<times> string" where
  "float_digits hex dot [] = ([], [], [])"
| "float_digits hex dot (c # cs) =
     (if c = CHR ''_'' then float_digits hex dot cs
      else if c = CHR ''.'' then (if dot then ([], [], c # cs) else float_digits hex True cs)
      else if is_digit c \<or> hex \<and> is_hex c then
        (case float_digits hex dot cs of (i, f, r) \<Rightarrow> if dot then (i, c # f, r) else (c # i, f, r))
      else ([], [], c # cs))"

fun exp_digits :: "int \<Rightarrow> string \<Rightarrow> int \<times> string" where
  "exp_digits e [] = (e, [])"
| "exp_digits e (c # cs) =
     (if c = CHR ''_'' then exp_digits e cs
      else if is_digit c then exp_digits (if e < 10000 then e * 10 + hex_val c else e) cs
      else (e, c # cs))"

text \<open>The exponent and what follows it; a hexadecimal number must have one.\<close>

definition float_exponent :: "bool \<Rightarrow> string \<Rightarrow> (int \<times> string) option" where
  "float_exponent hex r =
     (if r \<noteq> [] \<and> to_lower [hd r] = (if hex then ''p'' else ''e'') then
        (case strip_sign (tl r) of (neg, ds) \<Rightarrow>
           if ds = [] \<or> \<not> is_digit (hd ds) then None
           else (case exp_digits 0 ds of (e, rest) \<Rightarrow> Some (if neg then - e else e, rest)))
      else if hex then None else Some (0, r))"

text \<open>\<open>underscoreOK\<close>: the flags say that a digit (or the prefix), or an underscore, was seen last.\<close>

fun underscores_ok :: "bool \<Rightarrow> bool \<Rightarrow> bool \<Rightarrow> string \<Rightarrow> bool" where
  "underscores_ok hex digit us [] = (\<not> us)"
| "underscores_ok hex digit us (c # cs) =
     (if is_digit c \<or> hex \<and> is_hex c then underscores_ok hex True False cs
      else if c = CHR ''_'' then digit \<and> underscores_ok hex False True cs
      else \<not> us \<and> underscores_ok hex False False cs)"

definition underscoreOK :: "string \<Rightarrow> bool" where
  "underscoreOK s0 =
     (let s = snd (strip_sign s0);
          prefix = 2 \<le> length s \<and> hd s = CHR ''0'' \<and> hd (to_lower [s ! 1]) \<in> set ''box''
      in underscores_ok (prefix \<and> to_lower [s ! 1] = ''x'') prefix False (if prefix then drop 2 s else s))"

definition rat_pow :: "rat \<Rightarrow> int \<Rightarrow> rat" where
  "rat_pow b e = (if 0 \<le> e then b ^ nat e else 1 / b ^ nat (- e))"

definition parse_float :: "string \<Rightarrow> f64 option" where
  "parse_float s =
     (case strip_sign s of (neg, u) \<Rightarrow>
        if to_lower u \<in> {''inf'', ''infinity''} then Some (if neg then NegInf else PosInf)
        else if to_lower s = ''nan'' then Some NaN
        else let hex = 2 < length u \<and> hd u = CHR ''0'' \<and> to_lower [u ! 1] = ''x'' in
          (case float_digits hex False (if hex then drop 2 u else u) of (i, f, r) \<Rightarrow>
             if i = [] \<and> f = [] then None
             else (case float_exponent hex r of
                None \<Rightarrow> None
              | Some (e, rest) \<Rightarrow>
                  if rest \<noteq> [] \<or> CHR ''_'' \<in> set s \<and> \<not> underscoreOK s then None
                  else let m = of_int (read_base (if hex then 16 else 10) (i @ f));
                           v = (if hex then m * rat_pow 2 (e - 4 * int (length f))
                                else m * rat_pow 10 (e - int (length f)));
                           x = f_of (if neg then - v else v)
                    in if x = PosInf \<or> x = NegInf then None else Some x)))"

definition parseProjectBudget :: "string \<Rightarrow> string + f64" where
  "parseProjectBudget raw =
     (let v = trim_space raw in
      if v = [] then Inr (Fin 0)
      else (case parse_float v of
         None \<Rightarrow> Inl ''budget_amount must be a valid number''
       | Some x \<Rightarrow> (case validateProjectBudget x of Some e \<Rightarrow> Inl e | None \<Rightarrow> Inr x)))"

section \<open>The handler\<close>

record cover_form =
  cf_name :: string
  cf_address :: string
  cf_budget :: f64
  cf_currency :: string
  cf_start :: string
  cf_file :: string
  cf_source :: "nat list"

text \<open>The validation in front of the transaction, in its order.\<close>

definition read_cover_form :: "time \<Rightarrow> request \<Rightarrow> upload_form \<Rightarrow> string + cover_form" where
  "read_cover_form t r f =
     (let nm = trim_space (form_value r f ''name''); addr = trim_space (form_value r f ''address'') in
      if nm = [] then Inl ''project name is required''
      else (case parseProjectBudget (form_value r f ''budget_amount'') of
        Inl e \<Rightarrow> Inl e
      | Inr budget \<Rightarrow> (case normalizeProjectCurrency (form_value r f ''currency'') of
          Inl e \<Rightarrow> Inl e
        | Inr cur \<Rightarrow> (case normalizeProjectStartDate t (form_value r f ''start_date'') True of
            Inl e \<Rightarrow> Inl e
          | Inr start \<Rightarrow> (case map_of (uf_files f) ''cover'' of
              None \<Rightarrow> Inl ''cover image is required''
            | Some (filename, source) \<Rightarrow>
                if sanitizeOriginalName filename = [] then Inl ''invalid cover image name''
                else Inr \<lparr>cf_name = nm, cf_address = addr, cf_budget = budget, cf_currency = cur,
                  cf_start = start, cf_file = sanitizeOriginalName filename, cf_source = source\<rparr>)))))"

text \<open>
  What follows the stored object, inside the transaction. When it fails the deferred cleanup removes
  the object before the deferred rollback.
\<close>

definition saveProjectCover ::
  "app_state \<Rightarrow> uuid \<Rightarrow> project_row \<Rightarrow> string \<Rightarrow> storedUpload \<Rightarrow> (world, project_payload resp) state" where
  "saveProjectCover A u p nm s =
     (let cleanup = (\<lambda>st msg. do { _ \<leftarrow> removeStoredFile A (su_path s); fail st msg }) in
      if \<not> isAllowedProjectCoverType (su_type s) then cleanup 400 ''project cover must be a JPEG, PNG or WebP image''
      else do {
        row \<leftarrow> insert_stmt Tx (ins_file (p_id p) u ''project_cover'' nm (su_path s) (su_type s) (su_size s));
        (case row of
           NoRows \<Rightarrow> cleanup 500 ''failed to save project cover''
         | SqlErr \<Rightarrow> cleanup 500 ''failed to save project cover''
         | Row f \<Rightarrow> do {
             _ \<leftarrow> audit Tx u (Some (p_id p)) ''upload'' ''file'' (Some (f_id f)) [(''kind'', ''project_cover'')];
             c \<leftarrow> tx_commit;
             if \<not> c then cleanup 500 ''failed to commit project''
             else do {
               publishProjectEvent A (p_id p) ''project'' (p_id p) ''created'' [];
               publishProjectEvent A (p_id p) ''file'' (f_id f) ''created'' [];
               reply 201 (ProjectItem (dto_of p ProjectRoleOwner (f_id f)))
             }
           })
      })"

definition createProjectWithCoverTx ::
  "app_state \<Rightarrow> externals \<Rightarrow> object_store \<Rightarrow> uuid \<Rightarrow> cover_form \<Rightarrow> (world, project_payload resp) state" where
  "createProjectWithCoverTx A X S u q = do {
     lim \<leftarrow> ensureProjectCreationAllowed u;
     (case lim of
        Some e \<Rightarrow> (case subscriptionHTTPError e of
            Some sm \<Rightarrow> fail (fst sm) (snd sm)
          | None \<Rightarrow> fail 500 ''failed to enforce subscription limits'')
      | None \<Rightarrow> do {
          row \<leftarrow> insert_stmt Tx (ins_project X u (cf_name q) (cf_address q) (cf_budget q) (cf_currency q) (cf_start q));
          (case row of
             NoRows \<Rightarrow> fail 500 ''failed to create project''
           | SqlErr \<Rightarrow> fail 500 ''failed to create project''
           | Row p \<Rightarrow> do {
               m \<leftarrow> stmt Tx (ins_member (p_id p) u ''owner'');
               if m = SqlErr then fail 500 ''failed to create project membership''
               else do {
                 _ \<leftarrow> audit Tx u (Some (p_id p)) ''create'' ''project'' (Some (p_id p)) [];
                 stored \<leftarrow> storeUploadedFile A S (cf_source q) (p_id p) (max_upload A);
                 (case stored of
                    Inl e \<Rightarrow> fail 400 e
                  | Inr s \<Rightarrow> saveProjectCover A u p (cf_file q) s)
               }
             })
        })
   }"

definition CreateProjectWithCover :: "app_state \<Rightarrow> externals \<Rightarrow> upload_form option \<Rightarrow> project_payload handler" where
  "CreateProjectWithCover A X form r =
     (if rq_method r \<noteq> ''POST'' then methodNotAllowed
      else if \<not> st_db A then dbNotAvailable
      else (case st_file_store A of
         None \<Rightarrow> fail 503 ''file storage is not configured''
       | Some S \<Rightarrow> (case form of
           None \<Rightarrow> fail 400 ''invalid multipart upload or file too large''
         | Some f \<Rightarrow> do {
             t \<leftarrow> read_now;
             (case read_cover_form t r f of
                Inl e \<Rightarrow> fail 400 e
              | Inr q \<Rightarrow> do {
                  b \<leftarrow> tx_begin;
                  if \<not> b then fail 500 ''failed to start transaction''
                  else defer_rollback (createProjectWithCoverTx A X S (userIDFromContext r) q)
                })
           })))"

text \<open>Numbers as \<open>ParseFloat\<close> reads them.\<close>

lemma parse_float_examples:
  "parse_float ''12.50'' = Some (Fin (25 / 2))" "parse_float ''0x1.8p1'' = Some (Fin 3)"
  "parse_float ''1__0'' = None" "parse_float ''.'' = None" "parse_float ''12,5'' = None"
  "parse_float ''0x1'' = None" "parse_float ''-Inf'' = Some NegInf"
  by code_simp+

end
