(* ===== verification/Storage_Facts.thy ===== *)
theory Storage_Facts
  imports Files_Facts Project_Cover
begin

text \<open>
  The operations that write files, the outbox or objects keep the invariant of \<open>Files_Facts\<close>, in any
  order: \<open>storage_step\<close> interleaves the handlers with the single steps of any number of workers.
\<close>

section \<open>The invariant of the state\<close>

definition storage_ok2 :: "string set \<Rightarrow> string set \<Rightarrow> string set \<Rightarrow> world \<Rightarrow> bool" where
  "storage_ok2 L G H w \<longleftrightarrow> tables_ok L G (objects w) (db w)
     \<and> (\<forall>d. txn w = Some (d, False) \<longrightarrow> tables_ok L H (objects w) d)"

abbreviation storage_ok :: "string set \<Rightarrow> string set \<Rightarrow> world \<Rightarrow> bool" where
  "storage_ok L G \<equiv> storage_ok2 L G G"

lemma storage_ok_other [simp]:
  "storage_ok2 L G H (w\<lparr>faults := x1\<rparr>) = storage_ok2 L G H w"
  "storage_ok2 L G H (w\<lparr>extern := x2\<rparr>) = storage_ok2 L G H w"
  "storage_ok2 L G H (w\<lparr>entropy := x3\<rparr>) = storage_ok2 L G H w"
  "storage_ok2 L G H (w\<lparr>uuids := x4\<rparr>) = storage_ok2 L G H w"
  "storage_ok2 L G H (w\<lparr>headers := x5\<rparr>) = storage_ok2 L G H w"
  "storage_ok2 L G H (w\<lparr>tombs := x6\<rparr>) = storage_ok2 L G H w"
  "storage_ok2 L G H (w\<lparr>hub := x7\<rparr>) = storage_ok2 L G H w"
  "storage_ok2 L G H (w\<lparr>push_jobs := x8\<rparr>) = storage_ok2 L G H w"
  "storage_ok2 L G H (w\<lparr>journal := x9\<rparr>) = storage_ok2 L G H w"
  by (simp_all add: storage_ok2_def)

lemma storage_ok_mono:
  "storage_ok2 L G' H' w \<Longrightarrow> G \<subseteq> G' \<Longrightarrow> H \<subseteq> H' \<Longrightarrow> storage_ok2 L G H w"
  by (auto simp: storage_ok2_def intro: tables_ok_mono)

section \<open>Objects and the outbox\<close>

lemma wp_enqueue_Tx:
  assumes "storage_ok2 L G H w" "p \<in> H"
  shows "wp (enqueueStorageDeletion Tx p) (\<lambda>_. storage_ok2 L G H) w"
  unfolding enqueueStorageDeletion_def
  by (intro wps) (use assms in \<open>auto simp: storage_ok2_def ins_deletion_def tables_ok_enqueue split: if_splits\<close>)

lemma wp_queue:
  assumes "storage_ok2 L G H w" "p \<in> G"
  shows "wp (queueStorageDeletion A p) (\<lambda>_. storage_ok2 L G H) w"
  unfolding queueStorageDeletion_def enqueueStorageDeletion_def
  by (intro wps) (use assms in \<open>auto simp: storage_ok2_def ins_deletion_def tables_ok_enqueue split: if_splits\<close>)

lemma wp_removeStored:
  assumes "storage_ok2 L G H w" "p \<in> G" "p \<in> H"
  shows "wp (removeStoredFile A p) (\<lambda>_. storage_ok2 L G H) w"
proof -
  have q: "wp (queueStorageDeletion A p) (\<lambda>_. storage_ok2 L G H) (w\<lparr>extern := ex, objects := ob, tombs := tb\<rparr>)"
    if "ob = objects w \<or> ob = (objects w)(p := None)" for ex ob tb
    by (rule wp_queue) (use that assms in \<open>auto simp: storage_ok2_def\<close>)
  show ?thesis
    unfolding removeStoredFile_def
    by (intro wps wp_mono [OF q])
      (use assms in \<open>auto simp: storage_ok2_def del_queued_def tables_ok_dequeue\<close>)
qed

lemma wp_enqueueAll:
  assumes "storage_ok2 L G H w" "set ps \<subseteq> H"
  shows "wp (enqueueAll ps) (\<lambda>_. storage_ok2 L G H) w"
  using assms
proof (induction ps arbitrary: w)
  case Nil
  then show ?case by (auto intro: wps)
next
  case (Cons p ps)
  have "wp (if ok then enqueueAll ps else ret False) (\<lambda>_. storage_ok2 L G H) v" if "storage_ok2 L G H v" for ok v
    using Cons.IH [OF that] Cons.prems(2) that by (auto intro!: wps)
  then show ?case
    unfolding enqueueAll.simps
    by (intro wp_bind wp_mono [OF wp_enqueue_Tx [OF Cons.prems(1)]]) (use Cons.prems(2) in auto)
qed

lemma wp_commit_ok:
  assumes "storage_ok2 L G H w" "G \<subseteq> H"
  shows "wp tx_commit (\<lambda>c w'. storage_ok2 L G G (w'\<lparr>txn := None\<rparr>) \<and> (c \<longrightarrow> storage_ok2 L H H (w'\<lparr>txn := None\<rparr>))) w"
  by (intro wps) (use assms in \<open>auto simp: storage_ok2_def intro: tables_ok_mono\<close>)

lemma storage_ok_no_txn: "storage_ok2 L G K (w\<lparr>txn := None\<rparr>) = tables_ok L G (objects w) (db w)"
  by (simp add: storage_ok2_def)

lemma storage_ok_rollback: "storage_ok2 L G H w \<Longrightarrow> storage_ok2 L G K (w\<lparr>txn := None\<rparr>)"
  by (simp add: storage_ok2_def)

lemma upd_archive_effect:
  assumes "tables_ok L G ob d" "upd_archive_covers pid i t d = (r, d')"
  obtains ps where "r = Row ps" "tables_ok L (G \<union> set ps) ob d'"
proof
  show "r = Row (map f_path (filter (old_cover d pid i) (files d)))" using assms(2) by (simp add: upd_archive_covers_def)
  show "tables_ok L (G \<union> set (map f_path (filter (old_cover d pid i) (files d)))) ob d'"
    using tables_ok_mark [OF assms(1), of "old_cover d pid i" t] assms(2) by (simp add: upd_archive_covers_def)
qed

lemma wp_archive:
  assumes "storage_ok L G w"
  shows "wp (archivePreviousProjectCovers pid i) (\<lambda>_. storage_ok L G) w"
proof -
  have fin: "wp (enqueueAll ps) (\<lambda>ok. wp (if ok then State_Monad.bind tx_commit (\<lambda>_. ret ()) else ret ())
      (\<lambda>_ w'. tables_ok L G (objects w') (db w'))) v" if v: "storage_ok2 L G (G \<union> set ps) v" for ps v
  proof -
    have "wp (if ok then State_Monad.bind tx_commit (\<lambda>_. ret ()) else ret ()) (\<lambda>_ w'. tables_ok L G (objects w') (db w')) u"
      if u: "storage_ok2 L G (G \<union> set ps) u" for ok u
      by (intro wp_if wp_bind wp_mono [OF wp_commit_ok [OF u]] wp_return)
        (use u in \<open>auto simp: storage_ok_no_txn storage_ok2_def\<close>)
    then show ?thesis by (intro wp_mono [OF wp_enqueueAll [OF v]]) auto
  qed
  have step: "storage_ok2 L G (G \<union> set ps) (w\<lparr>faults := fs, txn := Some (d, False)\<rparr>)"
    if "upd_archive_covers pid i (now w) (db w) = (Row ps, d)" for ps fs d
    using upd_archive_effect [OF _ that] assms(1) by (auto simp: storage_ok2_def)
  show ?thesis
    unfolding archivePreviousProjectCovers_def
    by (intro wps) (use assms in \<open>auto intro!: fin step simp: storage_ok2_def dest: tables_ok_mono\<close>)
qed

section \<open>Deleting a file\<close>

lemma tables_ok_delete:
  assumes "tables_ok L G ob d" "live_file d i = Some f" "f_path f = p"
  shows "tables_ok L (insert p G) ob (snd (upd_delete_file i t d))"
proof -
  let ?P = "\<lambda>f. f_id f = i \<and> f_deleted f = None"
  have "f \<in> set (files d)" "?P f" using assms(2) by (auto simp: live_file_def live_row_def find_Some_iff)
  then have "insert p G \<subseteq> G \<union> f_path ` {f \<in> set (files d). ?P f}" using assms(3) by auto
  then show ?thesis
    using tables_ok_mark [OF assms(1), of ?P t] by (auto simp: upd_delete_file_def upd_live_def intro: tables_ok_mono)
qed

lemma wp_deleteFileTx:
  assumes "storage_ok L G w" "live_file (db w) i = Some f" "f_path f = p" "txn w = Some (db w, False)"
  shows "wp (deleteFileTx u i pid p) (\<lambda>e w'. tables_ok L G (objects w') (db w')
     \<and> (e = None \<longrightarrow> tables_ok L (insert p G) (objects w') (db w'))) w"
proof -
  have d: "tables_ok L (insert p G) (objects w) d'" if "upd_delete_file i t (db w) = (r, d')" for r d' t
    using tables_ok_delete [OF _ assms(2,3), of L G "objects w" t] assms(1) that by (simp add: storage_ok2_def)
  have m: "tables_ok L G ob d'" if "tables_ok L (insert p G) ob d'" for ob d' using that by (rule tables_ok_mono) auto
  show ?thesis
    unfolding deleteFileTx_def enqueueStorageDeletion_def
    by (intro wps) (use assms in \<open>auto simp: storage_ok2_def ins_deletion_def upd_detach_receipt_def
        split: if_splits intro!: m tables_ok_enqueue dest!: d\<close>)
qed

lemma wp_deleteFile:
  assumes "storage_ok L G w"
  shows "wp (deleteFileMetadata A i r) (\<lambda>_. storage_ok L G) w"
proof -
  have f: "\<exists>f. live_file d i = Some f \<and> f_path f = snd pf"
    if "row_of (Option.bind (live_file d i) (\<lambda>f. map_option (\<lambda>p. (p, f_path f)) (f_project f))) = Row pf" for d pf
    using that by (auto simp: row_of_def split: option.splits Option.bind_splits)
  have after: "wp (case e of Some sm \<Rightarrow> fail (fst sm) (snd sm)
      | None \<Rightarrow> do {
          _ \<leftarrow> removeStoredFile A p;
          publishProjectEvent A pid ''file'' i ''deleted'' [];
          reply 200 FileDeleted
        }) (\<lambda>_. storage_ok L G) (v\<lparr>txn := None\<rparr>)"
    if "tables_ok L G (objects v) (db v)" "e = None \<longrightarrow> tables_ok L (insert p G) (objects v) (db v)" for e v p pid
  proof (cases e)
    case None
    then have v: "storage_ok L (insert p G) (v\<lparr>txn := None\<rparr>)" using that by (simp add: storage_ok_no_txn)
    have m: "storage_ok L G u" if "storage_ok L (insert p G) u" for u using that by (rule storage_ok_mono) auto
    have "wp (publishProjectEvent A pid ''file'' i ''deleted'' []) (\<lambda>_. wp (reply 200 FileDeleted) (\<lambda>_. storage_ok L G)) u"
      if "storage_ok L (insert p G) u" for u
      by (intro wps) (use m [OF that] in auto)
    then show ?thesis
      using None by (auto intro!: wp_bind wp_mono [OF wp_removeStored [OF v]])
  qed (use that in \<open>auto intro!: wps simp: storage_ok_no_txn\<close>)
  have tx: "wp (deleteFileTx u i pid (snd pf)) (\<lambda>e v. wp (case e of Some sm \<Rightarrow> fail (fst sm) (snd sm)
      | None \<Rightarrow> do {
          _ \<leftarrow> removeStoredFile A (snd pf);
          publishProjectEvent A pid ''file'' i ''deleted'' [];
          reply 200 FileDeleted
        }) (\<lambda>_. storage_ok L G) (v\<lparr>txn := None\<rparr>)) (w\<lparr>faults := fs, txn := Some (db w, False)\<rparr>)"
    if row: "row_of (Option.bind (live_file (db w) i) (\<lambda>f. map_option (\<lambda>p. (p, f_path f)) (f_project f))) = Row pf"
    for pf u pid fs
  proof -
    let ?v = "w\<lparr>faults := fs, txn := Some (db w, False)\<rparr>"
    obtain f where "live_file (db ?v) i = Some f" "f_path f = snd pf" using f [OF row] by auto
    moreover have "storage_ok L G ?v" "txn ?v = Some (db ?v, False)" using assms by (simp_all add: storage_ok2_def)
    ultimately show ?thesis using after by (auto intro!: wp_mono [OF wp_deleteFileTx])
  qed
  show ?thesis
    unfolding deleteFileMetadata_def
    by (intro wps) (use assms tx in \<open>auto simp: Let_def\<close>)
qed

section \<open>Uploading a file\<close>

text \<open>The paths a new object must not have: those of any row, of the outbox and of the set.\<close>

definition used_paths :: "string set \<Rightarrow> db \<Rightarrow> string set" where
  "used_paths G d = f_path ` set (files d) \<union> queued d \<union> G"

definition fresh_key :: "string set \<Rightarrow> db \<Rightarrow> string \<Rightarrow> bool" where
  "fresh_key G d k \<longleftrightarrow> k \<notin> used_paths G d"

text \<open>An open transaction that has not touched files.\<close>

definition txn_same :: "world \<Rightarrow> bool" where
  "txn_same w \<longleftrightarrow> (\<forall>d. txn w = Some (d, False) \<longrightarrow> same_storage (db w) d)"

lemma storage_ok_fresh:
  "storage_ok L G w \<Longrightarrow> fresh_key G (db w) k \<Longrightarrow> txn_same w \<Longrightarrow> storage_ok L (insert k G) w"
  by (auto simp: storage_ok2_def tables_ok_def fresh_key_def used_paths_def live_paths_def live_files_def
      txn_same_def same_storage_def)

text \<open>The next random name has not been used under the project.\<close>

definition fresh_name :: "string set \<Rightarrow> uuid \<Rightarrow> world \<Rightarrow> bool" where
  "fresh_name G pid w \<longleftrightarrow> (case entropy w of [] \<Rightarrow> True
     | bs # _ \<Rightarrow> (\<forall>ext. fresh_key G (db w) (upload_key pid (now w) (concat (map hex_byte bs)) ext)))"

definition stored_upload :: "world \<Rightarrow> storedUpload \<Rightarrow> bool" where
  "stored_upload w s \<longleftrightarrow> key_ok (su_path s)
     \<and> (\<exists>b. objects w (su_path s) = Some b \<and> int (length b) = su_size s)"

lemma wp_store_upload:
  assumes "storage_ok2 L G H w" "k \<in> G" "k \<in> H"
  shows "wp (store_upload_object A S k ctype body) (\<lambda>r w'. storage_ok2 L G H w' \<and> (case r of Inl e \<Rightarrow> True
     | Inr s \<Rightarrow> su_path s = k \<and> stored_upload w' s \<and> db w' = db w \<and> txn w' = txn w)) w"
  unfolding store_upload_object_def
  by (intro wps)
    (use assms in \<open>auto simp: storage_ok2_def stored_upload_def wp_return_eq intro!: wp_mono [OF wp_queue]\<close>)

definition upload_post :: "string set \<Rightarrow> string set \<Rightarrow> world \<Rightarrow> string + storedUpload \<Rightarrow> world \<Rightarrow> bool" where
  "upload_post L G w r w' \<longleftrightarrow> (case r of
     Inl e \<Rightarrow> storage_ok L G w'
   | Inr s \<Rightarrow> storage_ok L (insert (su_path s) G) w' \<and> stored_upload w' s \<and> fresh_key G (db w) (su_path s)
       \<and> db w' = db w \<and> txn w' = txn w)"

lemma wp_storeUploaded:
  assumes "storage_ok L G w" "txn_same w" "fresh_name G pid w"
  shows "wp (storeUploadedFile A S source pid m) (upload_post L G w) w"
proof -
  have su: "wp (store_upload_object A S k ctype body) (upload_post L G w) v"
    if k: "fresh_key G (db w) k" and v: "db v = db w" "txn v = txn w" "objects v = objects w" for k ctype body v
  proof -
    have "storage_ok L (insert k G) w" using assms k by (intro storage_ok_fresh)
    then have "storage_ok L (insert k G) v" using v by (simp add: storage_ok2_def)
    moreover have "storage_ok L G u" if "storage_ok L (insert k G) u" for u using that by (rule storage_ok_mono) auto
    ultimately show ?thesis
      using k v by (auto simp: upload_post_def split: sum.splits intro!: wp_mono [OF wp_store_upload])
  qed
  have e: "upload_post L G w (Inl e) v" if "db v = db w" "txn v = txn w" "objects v = objects w" for e v
    using that assms(1) by (simp add: upload_post_def storage_ok2_def)
  have k: "fresh_key G (db w) (upload_key pid (now w) (concat (map hex_byte bs)) ext)" if "entropy w = bs # en" for bs en ext
    using assms(3) that by (simp add: fresh_name_def)
  show ?thesis
    unfolding storeUploadedFile_def step_or_def randomUploadName_def Let_def
    by (intro wps) (auto intro!: su e k)
qed

lemma ins_file_NoRows [simp]: "ins_file pid u kind nm path ctype sz i t d \<noteq> (NoRows, d')"
  by (simp add: ins_file_def Let_def)

lemma tables_ok_saved:
  assumes "tables_ok L (insert (su_path s) G) ob d" "fresh_key G d (su_path s)" "key_ok (su_path s)"
    "ob (su_path s) = Some b" "int (length b) = su_size s"
    "ins_file pid u kind nm (su_path s) (su_type s) (su_size s) i t d = (r, d')" "r \<noteq> SqlErr"
  shows "tables_ok L G ob d'"
  using assms by (intro tables_ok_insert [OF assms(1,6,7)]) (auto simp: fresh_key_def used_paths_def)

lemma wp_saveUploaded:
  assumes "storage_ok L (insert (su_path s) G) w" "stored_upload w s" "fresh_key G (db w) (su_path s)"
  shows "wp (saveUploadedFile A u pid kind nm s) (\<lambda>_. storage_ok L G) w"
proof -
  have m: "storage_ok L G v" if "storage_ok L (insert (su_path s) G) v" for v using that by (rule storage_ok_mono) auto
  have rm: "wp (removeStoredFile A (su_path s)) (\<lambda>_. wp (fail a b) (\<lambda>_. storage_ok L G)) v"
    if "storage_ok L (insert (su_path s) G) v" for v a b
    using m by (auto intro!: wp_mono [OF wp_removeStored [OF that]] wps)
  have ar: "wp (archivePreviousProjectCovers pid i) (\<lambda>_. wp (State_Monad.bind (publishProjectEvent A pid ''file'' i ''created'' [])
      (\<lambda>_. reply 201 (FileItem f))) (\<lambda>_. storage_ok L G)) v" if "storage_ok L G v" for v i f
    by (auto intro!: wp_mono [OF wp_archive [OF that]] wps)
  have ins: "storage_ok L G (w\<lparr>faults := fs, db := d\<lparr>audits := as\<rparr>, uuids := us\<rparr>)"
    if "ins_file pid u kind nm (su_path s) (su_type s) (su_size s) i (now w) (db w) = (r, d)" "r \<noteq> SqlErr" for r d i fs us as
    using assms m [OF assms(1)] tables_ok_saved [of L s G "objects w" "db w"] that
    by (auto simp: storage_ok2_def stored_upload_def)
  show ?thesis
    unfolding saveUploadedFile_def
    by (intro wps) (use assms(1) ins in \<open>auto intro!: rm ar\<close>)
qed

lemma wp_file_permission [wps]:
  assumes "\<And>fs e. Q (Some e) (w\<lparr>faults := fs\<rparr>)"
    and "\<And>fs. allowed (db w) u pid PermissionContribute \<Longrightarrow>
      (kind = ''project_cover'' \<longrightarrow> allowed (db w) u pid PermissionManage) \<Longrightarrow> Q None (w\<lparr>faults := fs\<rparr>)"
  shows "wp (file_permission u pid kind) Q w"
proof -
  have e: "Q (Some e) w" for e using assms(1) [where fs = "faults w"] by simp
  show ?thesis
    unfolding file_permission_def by (intro wps) (use assms e in auto)
qed

lemma fresh_name_other [simp]:
  "fresh_name G pid (w\<lparr>faults := fs\<rparr>) = fresh_name G pid w"
  "txn_same (w\<lparr>faults := fs\<rparr>) = txn_same w"
  by (simp_all add: fresh_name_def txn_same_def split: list.splits)

lemma wp_UploadFile:
  assumes "storage_ok L G w" "txn w = None" "\<And>pid. pid \<in> p_id ` set (projects (db w)) \<Longrightarrow> fresh_name G pid w"
  shows "wp (UploadFile A form r) (\<lambda>_. storage_ok L G) w"
proof -
  have up: "wp (storeUploadedFile A S source pid m) (\<lambda>st. wp (case st of Inl e \<Rightarrow> fail 400 e
      | Inr s \<Rightarrow> saveUploadedFile A u pid kind nm s) (\<lambda>_. storage_ok L G)) (w\<lparr>faults := fs\<rparr>)"
    if "allowed (db w) u pid PermissionContribute" for S source pid m u kind nm fs
  proof (rule wp_mono [OF wp_storeUploaded])
    have "\<exists>p. live_project (db w) pid = Some p" using that by (auto elim: allowed_memberE)
    then have "pid \<in> p_id ` set (projects (db w))" using live_project_Some by blast
    then show "fresh_name G pid (w\<lparr>faults := fs\<rparr>)" using assms(3) by simp
    show "storage_ok L G (w\<lparr>faults := fs\<rparr>)" "txn_same (w\<lparr>faults := fs\<rparr>)"
      using assms(1,2) by (simp_all add: txn_same_def)
  next
    fix st v assume "upload_post L G (w\<lparr>faults := fs\<rparr>) st v"
    then show "wp (case st of Inl e \<Rightarrow> fail 400 e | Inr s \<Rightarrow> saveUploadedFile A u pid kind nm s) (\<lambda>_. storage_ok L G) v"
      by (cases st) (auto simp: upload_post_def intro!: wp_saveUploaded wps)
  qed
  show ?thesis
    unfolding UploadFile_def Let_def by (intro wps) (use assms(1) up in auto)
qed

section \<open>Creating a project with a cover\<close>

lemma storage_ok_txn:
  assumes "storage_ok L G w" "same_storage (db w) d" shows "storage_ok L G (w\<lparr>txn := Some (d, False)\<rparr>)"
  using assms tables_ok_same by (auto simp: storage_ok2_def)

lemma wp_saveCover:
  assumes w: "storage_ok L (insert (su_path s) G) w" and s: "stored_upload w s" "fresh_key G (db w) (su_path s)"
    and t: "txn_same w"
  shows "wp (saveProjectCover A u p nm s) (\<lambda>_ v. tables_ok L G (objects v) (db v)) w"
proof -
  have m: "tables_ok L G (objects v) (db v)" if "storage_ok2 L (insert (su_path s) G) H v" for v H
    using that by (auto simp: storage_ok2_def intro: tables_ok_mono)
  have rm: "wp (removeStoredFile A (su_path s)) (\<lambda>_. wp (fail a b) (\<lambda>_ v. tables_ok L G (objects v) (db v))) v"
    if "storage_ok L (insert (su_path s) G) v" for v a b
    using m by (auto intro!: wp_mono [OF wp_removeStored [OF that]] wps)
  have ins: "tables_ok L G (objects w) d'"
    if "txn w = Some (d, False)" "ins_file pid u ''project_cover'' nm (su_path s) (su_type s) (su_size s) i (now w) d = (r, d')"
      "r \<noteq> SqlErr" for pid i d d' r
  proof -
    have "fresh_key G d (su_path s)"
      using s(2) t that(1) by (auto simp: txn_same_def same_storage_def fresh_key_def used_paths_def queued_def)
    then show ?thesis
      using w s(1) that tables_ok_saved [of L s G "objects w" d] by (auto simp: storage_ok2_def stored_upload_def)
  qed
  show ?thesis
    unfolding saveProjectCover_def Let_def
    by (intro wps) (use w m [OF w] ins in \<open>auto intro!: rm simp: storage_ok2_def\<close>)
qed

lemma same_storage_fields:
  "sub_ensure t u d = Some (e, d') \<Longrightarrow> same_storage d d'"
  "ins_project X u nm ad b cur st i t d = (r, d') \<Longrightarrow> same_storage d d'"
  "ins_member pid u ro t d = (n, d') \<Longrightarrow> same_storage d d'"
  "same_storage d d" "same_storage d (d\<lparr>audits := as\<rparr>)"
  using sub_ensure_frame [of t u d e d']
  by (auto simp: same_storage_def ins_project_def ins_member_def Let_def split: option.splits if_splits)

lemma same_storage_trans [trans]: "same_storage d e \<Longrightarrow> same_storage e f \<Longrightarrow> same_storage d f"
  by (simp add: same_storage_def)

lemma wp_CreateWithCover:
  assumes "storage_ok L G w" "\<And>pid. fresh_name G pid w"
  shows "wp (CreateProjectWithCover A X form r) (\<lambda>_. storage_ok L G) w"
proof -
  have st: "wp (storeUploadedFile A S source (p_id p) m) (\<lambda>st. wp (case st of Inl e \<Rightarrow> fail 400 e
      | Inr s \<Rightarrow> saveProjectCover A u p nm s) (\<lambda>_ x. storage_ok L G (x\<lparr>txn := None\<rparr>)))
      (w\<lparr>faults := fs, txn := t, uuids := us\<rparr>)"
    if t: "\<And>d. t = Some (d, False) \<Longrightarrow> same_storage (db w) d" for S source p m u nm fs t us
  proof -
    let ?v = "w\<lparr>faults := fs, txn := t, uuids := us\<rparr>"
    have v: "storage_ok L G ?v" "txn_same ?v" "fresh_name G (p_id p) ?v"
      using assms tables_ok_same t by (auto simp: storage_ok2_def txn_same_def fresh_name_def split: list.splits)
    have "wp (case st of Inl e \<Rightarrow> fail 400 e | Inr s \<Rightarrow> saveProjectCover A u p nm s) (\<lambda>_ x. storage_ok L G (x\<lparr>txn := None\<rparr>)) x"
      if x: "upload_post L G ?v st x" for st x
    proof (cases st)
      case (Inl e)
      then show ?thesis using x by (auto simp: upload_post_def storage_ok2_def intro!: wps)
    next
      case (Inr s)
      then have "storage_ok L (insert (su_path s) G) x" "stored_upload x s" "fresh_key G (db x) (su_path s)" "txn_same x"
        using x v(2) by (auto simp: upload_post_def txn_same_def)
      from wp_mono [OF wp_saveCover [OF this]] show ?thesis using Inr by (simp add: storage_ok_no_txn)
    qed
    then show ?thesis by (rule wp_mono [OF wp_storeUploaded [OF v]])
  qed
  have base: "tables_ok L G (objects w) (db w)" using assms(1) by (simp add: storage_ok2_def)
  have same: "same_storage (db w) d3" "same_storage (db w) (d3\<lparr>audits := as\<rparr>)"
    if "sub_ensure t u (db w) = Some (e, d1)" "ins_project X u nm ad b cur st i t d1 = (r, d2)"
      "ins_member pid u ro t d2 = (n, d3)" for t u e d1 nm ad b cur st i r d2 pid ro n d3 as
    using same_storage_fields(1) [OF that(1)] same_storage_fields(2) [OF that(2)] same_storage_fields(3) [OF that(3)]
    by (auto simp: same_storage_def)
  have tx: "wp (createProjectWithCoverTx A X S u q) (\<lambda>_ x. storage_ok L G (x\<lparr>txn := None\<rparr>))
      (w\<lparr>faults := fs, txn := Some (db w, False)\<rparr>)" for S u q fs
    unfolding createProjectWithCoverTx_def
    by (intro wps) (use base in \<open>auto intro!: st [unfolded storage_ok_no_txn] simp: storage_ok_no_txn dest: same\<close>)
  show ?thesis
    unfolding CreateProjectWithCover_def Let_def
    by (intro wps) (use assms(1) tx in auto)
qed

section \<open>Reading, the routes and the account\<close>

lemma wp_DownloadFile: "storage_ok L G w \<Longrightarrow> wp (DownloadFile A r) (\<lambda>_. storage_ok L G) w"
  unfolding DownloadFile_def Let_def by (intro wps) auto

lemma wp_Files:
  assumes "storage_ok L G w" "st_production_like A"
  shows "wp (Files A r) (\<lambda>_. storage_ok L G) w"
proof -
  have "wp (listFiles r) (\<lambda>_. storage_ok L G) w"
    unfolding listFiles_def Let_def by (intro wps) (use assms(1) in auto)
  then show ?thesis
    using assms wp_deleteFile by (auto simp: Files_def createFileMetadata_def Let_def intro!: wps)
qed

lemma wp_fileRoutes:
  assumes "storage_ok L G w" "st_production_like A"
  shows "wp (filesRoute A r) (\<lambda>_. storage_ok L G) w" "wp (fileRoute A r) (\<lambda>_. storage_ok L G) w"
  unfolding filesRoute_def fileRoute_def
  by (rule wp_rbac; use assms in \<open>auto simp: fileProjectID_def intro!: wp_Files\<close>)+

lemma wp_account:
  assumes "storage_ok L G w"
  shows "wp (DeleteAccount A r) (\<lambda>_. storage_ok L G) w"
  unfolding DeleteAccount_def deleteAccountTx_def
  by (intro wps) (use assms in \<open>auto simp: storage_ok2_def dest: tables_ok_del_user\<close>)

section \<open>The worker\<close>

lemma wp_claim_ok:
  assumes "storage_ok L G w"
  shows "wp claimPendingDeletions (\<lambda>r w'. storage_ok L (G \<union> (case r of None \<Rightarrow> {} | Some ps \<Rightarrow> pe_path ` set ps)) w') w"
proof (rule wp_claims)
  fix fs
  let ?cs = "sel_candidates (now w) (db w)"
  have d: "tables_ok L G (objects w) (db w)" using assms by (simp add: storage_ok2_def)
  have c: "tables_ok L G (objects w) (snd (upd_claims (now w) (db w)))"
    unfolding upd_claims_def Let_def snd_conv by (rule tables_ok_upd_rows [OF d]) auto
  have "set ?cs \<subseteq> set (deletions (db w))" using candidates(1) by auto
  then have "pe_path ` set (map pending_of ?cs) \<subseteq> queued (db w)" by (auto simp: pending_of_def queued_def)
  moreover have "live_paths L (snd (upd_claims (now w) (db w))) = live_paths L (db w)"
    by (simp add: upd_claims_def Let_def live_paths_def live_files_def)
  moreover have "live_paths L (db w) \<inter> queued (db w) = {}" using d by (simp add: tables_ok_def files_ok_def)
  ultimately have "tables_ok L (G \<union> pe_path ` set (map pending_of ?cs)) (objects w) (snd (upd_claims (now w) (db w)))"
    using c unfolding tables_ok_def by auto
  then show "storage_ok L (G \<union> (case Some (map pending_of ?cs) of None \<Rightarrow> {} | Some ps \<Rightarrow> pe_path ` set ps))
      (w\<lparr>faults := fs, db := snd (upd_claims (now w) (db w)), txn := None\<rparr>)"
    by (simp add: storage_ok2_def)
qed (use assms in \<open>simp_all add: storage_ok2_def\<close>)

lemma wp_work_ok:
  assumes "storage_ok L G w" "pe_path p \<in> G"
  shows "wp (work_deletion S p) (\<lambda>_. storage_ok L G) w"
  unfolding work_deletion_def
  by (intro wps) (use assms in \<open>auto simp: storage_ok2_def del_deletion_def upd_retry_def tables_ok_dequeue
      intro!: tables_ok_upd_rows\<close>)

lemma wp_release_ok: "storage_ok L G w \<Longrightarrow> wp (releaseDeletionClaims ps) (\<lambda>_. storage_ok L G) w"
proof (induction ps arbitrary: w)
  case (Cons p ps)
  have "storage_ok L G (w\<lparr>faults := fs, db := upd_release (pe_id p) t (db w)\<rparr>)" for fs t
    using Cons.prems by (auto simp: storage_ok2_def upd_release_def intro!: tables_ok_upd_rows)
  then show ?case
    unfolding releaseDeletionClaims.simps by (intro wps Cons.IH) (use Cons.prems in auto)
qed (auto intro: wps)

section \<open>Interleavings\<close>

text \<open>A request begins without a transaction of its own.\<close>

definition serves :: "(world, 'a) state \<Rightarrow> world \<Rightarrow> 'a \<Rightarrow> world \<Rightarrow> bool" where
  "serves m w r w' \<longleftrightarrow> run_state m (w\<lparr>txn := None\<rparr>) = (r, w')"

text \<open>
  The second component of a state holds every row some worker has claimed so far: a claim stays usable
  after its lease has ended, and any number of workers and restarts may work on it or release it, in
  any order. Random upload names do not repeat (\<open>fresh_name\<close>). \<open>other\<close> stands for every other handler and
  for the time that passes: none of them touches files, the outbox or objects.
  The third component holds the paths of late rows: when the insertion of an upload or the commit of a project with
  its cover is answered with an error but has taken effect all the same (a timeout), the row stays although the
  handler has removed the object (\<open>late_row\<close>). A late effect of any other call is the effect of the same step without the error.
\<close>

type_synonym storage_state = "world \<times> pendingDeletion set \<times> string set"

inductive storage_step :: "app_state \<Rightarrow> externals \<Rightarrow> storage_state \<Rightarrow> storage_state \<Rightarrow> bool" for A X where
  files: "serves (filesRoute A r) w resp w' \<Longrightarrow> storage_step A X (w, C, L) (w', C, L)"
| one_file: "serves (fileRoute A r) w resp w' \<Longrightarrow> storage_step A X (w, C, L) (w', C, L)"
| upload: "serves (UploadFile A form r) w resp w' \<Longrightarrow> \<forall>pid. fresh_name (pe_path ` C \<union> L) pid w \<Longrightarrow>
    storage_step A X (w, C, L) (w', C, L)"
| cover: "serves (CreateProjectWithCover A X form r) w resp w' \<Longrightarrow> \<forall>pid. fresh_name (pe_path ` C \<union> L) pid w \<Longrightarrow>
    storage_step A X (w, C, L) (w', C, L)"
| late_row: "f_id f \<notin> f_id ` set (files (db w)) \<Longrightarrow> f_path f \<notin> f_path ` set (files (db w)) \<Longrightarrow> key_ok (f_path f) \<Longrightarrow>
    storage_step A X (w, C, L) (w\<lparr>db := (db w)\<lparr>files := files (db w) @ [f]\<rparr>\<rparr>, C, insert (f_path f) L)"
| download: "serves (DownloadFile A r) w resp w' \<Longrightarrow> storage_step A X (w, C, L) (w', C, L)"
| account: "serves (DeleteAccount A r) w resp w' \<Longrightarrow> storage_step A X (w, C, L) (w', C, L)"
| claim: "serves claimPendingDeletions w ps w' \<Longrightarrow>
    storage_step A X (w, C, L) (w', C \<union> (case ps of None \<Rightarrow> {} | Some qs \<Rightarrow> set qs), L)"
| work: "st_file_store A = Some S \<Longrightarrow> p \<in> C \<Longrightarrow> serves (work_deletion S p) w u w' \<Longrightarrow> storage_step A X (w, C, L) (w', C, L)"
| release: "serves (releaseDeletionClaims ps) w u w' \<Longrightarrow> storage_step A X (w, C, L) (w', C, L)"
| other: "same_storage (db w) (db w') \<Longrightarrow> objects w' = objects w \<Longrightarrow> storage_step A X (w, C, L) (w', C, L)"

definition claims_ok :: "storage_state \<Rightarrow> bool" where
  "claims_ok s \<longleftrightarrow> (case s of (w, C, L) \<Rightarrow> tables_ok L (pe_path ` C \<union> L) (objects w) (db w))"

lemma serves_ok:
  assumes "serves m w r w'" "claims_ok (w, C, L)" "\<And>v. storage_ok L (pe_path ` C \<union> L) v \<Longrightarrow> txn v = None \<Longrightarrow> db v = db w \<Longrightarrow>
    (\<And>pid. fresh_name (pe_path ` C \<union> L) pid w = fresh_name (pe_path ` C \<union> L) pid v) \<Longrightarrow>
    wp m (\<lambda>_. storage_ok L (pe_path ` C \<union> L)) v"
  shows "claims_ok (w', C, L)"
proof -
  let ?v = "w\<lparr>txn := None\<rparr>" and ?G = "pe_path ` C \<union> L"
  have "storage_ok L ?G ?v" using assms(2) by (simp add: claims_ok_def storage_ok_no_txn)
  moreover have "fresh_name ?G pid w = fresh_name ?G pid ?v" for pid
    by (simp add: fresh_name_def split: list.splits)
  ultimately have "wp m (\<lambda>_. storage_ok L ?G) ?v" by (intro assms(3)) auto
  then show ?thesis using assms(1) by (simp add: wp_def serves_def claims_ok_def storage_ok2_def)
qed

lemma late_row_ok:
  assumes "tables_ok L (G \<union> L) ob d" "f_id f \<notin> f_id ` set (files d)" "f_path f \<notin> f_path ` set (files d)" "key_ok (f_path f)"
  shows "tables_ok (insert (f_path f) L) (G \<union> insert (f_path f) L) ob (d\<lparr>files := files d @ [f]\<rparr>)"
proof -
  let ?d = "d\<lparr>files := files d @ [f]\<rparr>" and ?L = "insert (f_path f) L"
  have "f_path x \<noteq> f_path f" if "x \<in> set (files d)" for x using assms(3) imageI [OF that, of f_path] by auto
  then have l: "live_files ?L ?d = live_files L d" by (auto simp: live_files_def)
  then have p: "live_paths ?L ?d = live_paths L d" by (simp add: live_paths_def)
  have "f_path f \<notin> live_paths L d" using assms(3) by (auto simp: live_paths_def live_files_def)
  then show ?thesis
    using assms l p by (auto simp: tables_ok_def files_ok_def queued_def outbox_ok_def)
qed

lemma storage_step_ok:
  assumes "storage_step A X s s'" "claims_ok s" "st_production_like A"
  shows "claims_ok s'"
  using assms
proof (induction rule: storage_step.induct)
  case (upload form r w resp w' C L)
  then show ?case by (auto intro: serves_ok wp_UploadFile)
next
  case (cover form r w resp w' C L)
  then show ?case by (auto intro: serves_ok wp_CreateWithCover)
next
  case (late_row f w C L)
  then show ?case using late_row_ok [of L "pe_path ` C" "objects w" "db w" f] by (simp add: claims_ok_def)
next
  case (claim w ps w' C L)
  have "storage_ok L (pe_path ` C \<union> L) (w\<lparr>txn := None\<rparr>)" using claim(2) by (simp add: claims_ok_def storage_ok_no_txn)
  from wp_claim_ok [OF this] show ?case
    using claim(1) by (auto simp: wp_def serves_def claims_ok_def storage_ok2_def image_Un Un_ac split: option.splits)
next
  case (other w w' C L)
  then show ?case by (simp add: claims_ok_def tables_ok_same)
qed (auto intro: serves_ok wp_fileRoutes wp_DownloadFile wp_account wp_work_ok wp_release_ok)

section \<open>Properties\<close>

text \<open>
  C38. The bytes of a file are there as long as its row is live. In a production-like environment (elsewhere
  a request may register any path), start from tables and a store that agree, and let requests (listing, deletion, upload, creation of
  projects with covers, download, deletion of accounts, any other request) and the steps of any number
  of deletion workers follow each other in any order, with failures of the database and of the store
  anywhere: every live file has its object with the recorded size, its path is neither in the outbox
  nor claimed by a worker, paths and ids stay unique, and a path has one row in the outbox. Excepted are
  exactly the files whose row took effect although its insertion or commit was answered with an error: their upload removed the object.
\<close>

theorem live_files_stored:
  assumes "st_production_like A" "files_ok {} (db w0)" "\<forall>f\<in>live_files {} (db w0). stored_in (objects w0) f"
    and "(storage_step A X)\<^sup>*\<^sup>* (w0, {}, {}) (w, C, late)"
  shows "files_ok late (db w) \<and> (\<forall>f\<in>set (files (db w)). f_deleted f = None \<longrightarrow> f_path f \<notin> late \<longrightarrow>
      stored_in (objects w) f \<and> f_path f \<notin> x_path ` set (deletions (db w)) \<and> f_path f \<notin> pe_path ` C)"
proof -
  have "claims_ok s" if "(storage_step A X)\<^sup>*\<^sup>* (w0, {}, {}) s" for s
    using that
  proof (induction rule: rtranclp_induct)
    case base
    show ?case using assms(2,3) by (simp add: claims_ok_def tables_ok_def)
  next
    case (step s t)
    then show ?case using storage_step_ok assms(1) by blast
  qed
  from this [OF assms(4)] have "tables_ok late (pe_path ` C \<union> late) (objects w) (db w)" by (simp add: claims_ok_def)
  then show ?thesis
    by (auto simp: tables_ok_def files_ok_def live_paths_def live_files_def queued_def)
qed

definition s_prod :: app_state where "s_prod = s_app\<lparr>st_production_like := True\<rparr>"

definition s_claimed :: world where "s_claimed = snd (run_state claimPendingDeletions s_storage)"

definition s_pending :: pendingDeletion where
  "s_pending = \<lparr>pe_id = 0, pe_path = ''p1/2025/b.jpg'', pe_attempts = 0\<rparr>"

definition s_worked :: world where
  "s_worked = snd (run_state (work_deletion (S3Store ''files'' ''ledger'') s_pending) s_claimed)"

lemma s_storage_ok:
  "files_ok {} (db s_storage)" "\<forall>f\<in>live_files {} (db s_storage). stored_in (objects s_storage) f"
proof -
  have f: "files (db s_storage) = [s_file ''f1'' ''a.jpg'' ''p1/2025/a.jpg'' 3 None, s_file ''f2'' ''b.jpg'' ''p1/2025/b.jpg'' 1 (Some 0)]"
    "deletions (db s_storage) = [s_deletion 0 ''p1/2025/b.jpg'' 0, s_deletion 1 ''p1/2025/c.jpg'' (2 * day)]"
    "deletion_seq (db s_storage) = 2" "objects s_storage ''p1/2025/a.jpg'' = Some [255, 216, 255]"
    by (simp_all add: s_storage_def)
  have k: "key_ok ''p1/2025/a.jpg''" "key_ok ''p1/2025/b.jpg''" by code_simp+
  have l: "live_files {} (db s_storage) = {s_file ''f1'' ''a.jpg'' ''p1/2025/a.jpg'' 3 None}"
    by (auto simp: live_files_def f s_file_def)
  show "files_ok {} (db s_storage)"
    using k unfolding files_ok_def live_paths_def l
    by (simp add: f s_file_def s_deletion_def queued_def outbox_ok_def)
  show "\<forall>f\<in>live_files {} (db s_storage). stored_in (objects s_storage) f"
    unfolding l by (simp add: s_file_def stored_in_def f)
qed

theorem live_files_stored_witness:
  "objects s_worked ''p1/2025/b.jpg'' = None \<and> map x_id (dels s_worked) = [1] \<and> files_ok {} (db s_worked)
   \<and> live_files {} (db s_worked) \<subseteq> {f. stored_in (objects s_worked) f}"
proof -
  have t: "txn s_storage = None" by (simp add: s_storage_def s_team_def s_world_def)
  have c: "fst (run_state claimPendingDeletions s_storage) = Some [s_pending]" "txn s_claimed = None"
    unfolding s_claimed_def by code_simp+
  have w: "objects s_worked ''p1/2025/b.jpg'' = None" "map x_id (dels s_worked) = [1]"
    unfolding s_worked_def s_claimed_def by code_simp+
  have n: "v\<lparr>txn := None\<rparr> = v" if "txn v = None" for v :: world using that by (cases v) simp
  have store: "st_file_store s_prod = Some (S3Store ''files'' ''ledger'')" by (simp add: s_prod_def s_app_def)
  have "serves claimPendingDeletions s_storage (Some [s_pending]) s_claimed"
    unfolding serves_def n [OF t] using c(1) by (simp add: s_claimed_def prod_eq_iff)
  from storage_step.claim [OF this, of s_prod s_ext "{}" "{}"]
  have "storage_step s_prod s_ext (s_storage, {}, {}) (s_claimed, {s_pending}, {})" by simp
  moreover have "serves (work_deletion (S3Store ''files'' ''ledger'') s_pending) s_claimed () s_worked"
    unfolding serves_def n [OF c(2)] by (simp add: s_worked_def prod_eq_iff)
  then have "storage_step s_prod s_ext (s_claimed, {s_pending}, {}) (s_worked, {s_pending}, {})"
    by (intro storage_step.work [OF store]) auto
  ultimately have "(storage_step s_prod s_ext)\<^sup>*\<^sup>* (s_storage, {}, {}) (s_worked, {s_pending}, {})" by auto
  from live_files_stored [OF _ s_storage_ok this] w show ?thesis by (auto simp: s_prod_def live_files_def)
qed

end
