(* ===== verification/Download_Facts.thy ===== *)
theory Download_Facts
  imports Storage_Facts
begin

text \<open>Downloads: what is answered, and when.\<close>

definition asked_file :: "request \<Rightarrow> string" where
  "asked_file r = trim_space (get_first (rq_query r) ''file_id'')"

definition download_post :: "world \<Rightarrow> request \<Rightarrow> files_payload resp \<Rightarrow> world \<Rightarrow> bool" where
  "download_post w r resp w' \<longleftrightarrow> db w' = db w \<and> objects w' = objects w \<and>
     (\<forall>s p. resp = Reply s p \<longrightarrow> s = 200 \<and> (\<exists>f pid nm body. p = FileContent nm (f_type f) body \<and> nm \<noteq> []
        \<and> live_file (db w) (asked_file r) = Some f \<and> f_project f = Some pid
        \<and> allowed (db w) (userIDFromContext r) pid PermissionRead
        \<and> objects w (f_path f) = Some body \<and> int (length body) = f_size f))"

lemma file_row_of:
  "row_of (Option.bind (live_file d i) (\<lambda>f. map_option (\<lambda>p. (p, f)) (f_project f))) = Row pf \<longleftrightarrow>
   live_file d i = Some (snd pf) \<and> f_project (snd pf) = Some (fst pf)"
  by (cases pf) (auto simp: row_of_def split: option.splits Option.bind_splits)

lemma wp_Download: "wp (DownloadFile A r) (download_post w r) w"
  unfolding DownloadFile_def Let_def
  by (intro wps) (auto simp: download_post_def file_row_of asked_file_def)

lemma run_get_free:
  assumes "extern w = []" "key_ok k" "objects w k = Some b"
  shows "run_state (store_get S k) w = (Inr b, w)"
  using assms by (cases S) (simp_all add: local_get_def s3_get_def cleanKey_eq look_up_def extern_ok_def)

text \<open>
  C39. Downloads. A successful answer carries exactly the bytes stored for a live file with the asked
  id, of the recorded size and type, in a project the caller may read; nothing changes. When no call
  fails, every live file whose object is stored with its recorded size is answered to whoever may read
  its project, from either kind of store.
\<close>

theorem DownloadFile_bytes:
  "case run_state (DownloadFile A r) w of (resp, w') \<Rightarrow> db w' = db w \<and> objects w' = objects w \<and>
     (\<forall>s p. resp = Reply s p \<longrightarrow> s = 200 \<and> (\<exists>f pid nm body. p = FileContent nm (f_type f) body \<and> nm \<noteq> []
        \<and> live_file (db w) (asked_file r) = Some f \<and> f_project f = Some pid
        \<and> allowed (db w) (userIDFromContext r) pid PermissionRead
        \<and> objects w (f_path f) = Some body \<and> int (length body) = f_size f)) \<and>
     (faults w = [] \<and> extern w = [] \<and> st_db A \<and> st_file_store A \<noteq> None \<and> rq_method r = ''GET'' \<and> asked_file r \<noteq> [] \<longrightarrow>
       (\<forall>f pid. live_file (db w) (asked_file r) = Some f \<and> f_project f = Some pid
          \<and> allowed (db w) (userIDFromContext r) pid PermissionRead \<and> key_ok (f_path f) \<and> stored_in (objects w) f \<longrightarrow>
          (\<exists>nm body. resp = Reply 200 (FileContent nm (f_type f) body) \<and> objects w (f_path f) = Some body)))"
proof -
  obtain resp w' where run: "run_state (DownloadFile A r) w = (resp, w')" by fastforce
  have p: "download_post w r resp w'" using wpD [OF wp_Download run] .
  have "\<exists>nm body. resp = Reply 200 (FileContent nm (f_type f) body) \<and> objects w (f_path f) = Some body"
    if free: "faults w = []" "extern w = []" "st_db A" "st_file_store A \<noteq> None" "rq_method r = ''GET''" "asked_file r \<noteq> []"
      and f: "live_file (db w) (asked_file r) = Some f" "f_project f = Some pid"
        "allowed (db w) (userIDFromContext r) pid PermissionRead" "key_ok (f_path f)" "stored_in (objects w) f" for f pid
  proof -
    obtain S where S: "st_file_store A = Some S" using free(4) by auto
    obtain b where b: "objects w (f_path f) = Some b" "int (length b) = f_size f" using f(5) by (auto simp: stored_in_def)
    have row: "row_of (Option.bind (live_file (db w) (asked_file r)) (\<lambda>f. map_option (\<lambda>p. (p, f)) (f_project f))) = Row (pid, f)"
      using f(1,2) by (simp add: row_of_def)
    show ?thesis
      using run free S b row f(3) run_get_free [OF free(2) f(4) b(1), of S]
      by (auto simp: DownloadFile_def asked_file_def free_simps run_permission_free Let_def split: if_splits)
  qed
  then show ?thesis using p unfolding run prod.case download_post_def by blast
qed

definition s_download :: request where
  "s_download = s_query [(''file_id'', ''f1'')] (s_as ''u3'' (s_req ''GET'' ''/api/v1/files/download'' JNull))"

theorem DownloadFile_bytes_witness:
  "\<exists>nm. fst (run_state (DownloadFile s_prod s_download) s_storage)
     = Reply 200 (FileContent nm ''image/jpeg'' [255, 216, 255])"
proof -
  have "faults s_storage = []" "extern s_storage = []" "st_db s_prod" "st_file_store s_prod \<noteq> None"
    by (simp_all add: s_storage_def s_team_def s_world_def s_prod_def s_app_def)
  moreover have "rq_method s_download = ''GET''" "asked_file s_download = ''f1''" "userIDFromContext s_download = ''u3''"
    by code_simp+
  moreover have "live_file (db s_storage) ''f1'' = Some (s_file ''f1'' ''a.jpg'' ''p1/2025/a.jpg'' 3 None)" by code_simp
  moreover have "allowed (db s_storage) ''u3'' ''p1'' PermissionRead" by code_simp
  moreover have "key_ok ''p1/2025/a.jpg''" "objects s_storage ''p1/2025/a.jpg'' = Some [255, 216, 255]" by code_simp+
  ultimately show ?thesis
    using DownloadFile_bytes [where A = s_prod and r = s_download and w = s_storage]
    by (auto simp: s_file_def stored_in_def split: prod.splits)
qed

end
