(* ===== verification/Config.thy ===== *)
theory Config
  imports Obank Phones Auth_Attempts Object_Store Projects
begin

text \<open>
  Configuration (\<open>internal/config/config.go\<close>): reading the environment, and the validation that decides
  whether the process may start. The environment is a map; \<open>.env\<close> is what godotenv finds in the working
  directory; \<open>pgxpool.ParseConfig\<close> is the parameter \<open>pg\<close>, which yields the TLS settings of the host and
  of the fallback hosts. The entropy estimate of the signing key is decided on exact numbers, not on
  \<open>float64\<close>: \<open>n * H < 128\<close> is \<open>n ^ n < 2 ^ 128 * (\<Prod> c ^ c)\<close> over the counts \<open>c\<close> of the bytes.
\<close>

section \<open>strings.EqualFold\<close>

text \<open>Folding on ASCII, the long s and the Kelvin sign, as for the keys of JSON objects.\<close>

definition equal_fold :: "string \<Rightarrow> string \<Rightarrow> bool" where
  "equal_fold s t \<longleftrightarrow> fold_key s = fold_key t"

section \<open>The environment\<close>

type_synonym env = "string \<Rightarrow> string option"

datatype dotenv = NoDotEnv | BadDotEnv | DotEnv "(string \<times> string) list"

definition os_getenv :: "env \<Rightarrow> string \<Rightarrow> string" where
  "os_getenv e k = (case e k of None \<Rightarrow> [] | Some v \<Rightarrow> v)"

definition getEnv :: "env \<Rightarrow> string \<Rightarrow> string \<Rightarrow> string" where
  "getEnv e k fallback = (let v = trim_space (os_getenv e k) in if v = [] then fallback else v)"

definition getEnvBool :: "env \<Rightarrow> string \<Rightarrow> bool \<Rightarrow> string + bool" where
  "getEnvBool e k fallback =
     (let v = to_lower (trim_space (os_getenv e k)) in
      if v = [] then Inr fallback
      else if v \<in> {''1'', ''true'', ''yes'', ''on''} then Inr True
      else if v \<in> {''0'', ''false'', ''no'', ''off''} then Inr False
      else Inl (''invalid boolean value for '' @ k))"

definition getEnvInt :: "env \<Rightarrow> string \<Rightarrow> int \<Rightarrow> string + int" where
  "getEnvInt e k fallback =
     (let v = trim_space (os_getenv e k) in
      if v = [] then Inr fallback
      else (case parse_int64 v of None \<Rightarrow> Inl (''invalid integer value for '' @ k) | Some n \<Rightarrow> Inr n))"

text \<open>
  A \<open>time.Duration\<close> counts nanoseconds in 64 bits; \<open>minMinutes\<close> and \<open>minInt64 / bytesPerMegabyte\<close> are
  quotients rounded towards zero.
\<close>

definition getDurationMinutes :: "env \<Rightarrow> string \<Rightarrow> int \<Rightarrow> string + time" where
  "getDurationMinutes e k fallback =
     (case getEnvInt e k fallback of
        Inl err \<Rightarrow> Inl err
      | Inr m \<Rightarrow>
          if m < - (2 ^ 63 div (60 * 10 ^ 9)) \<or> (2 ^ 63 - 1) div (60 * 10 ^ 9) < m
          then Inl (k @ '' is outside the supported duration range'') else Inr (m * minute))"

definition getMegabytes :: "env \<Rightarrow> string \<Rightarrow> int \<Rightarrow> string + int" where
  "getMegabytes e k fallback =
     (case getEnvInt e k fallback of
        Inl err \<Rightarrow> Inl err
      | Inr m \<Rightarrow>
          if m < - (2 ^ 63 div (1024 * 1024)) \<or> (2 ^ 63 - 1) div (1024 * 1024) < m
          then Inl (k @ '' is outside the supported size range'') else Inr (m * (1024 * 1024)))"

definition splitCSV :: "string \<Rightarrow> string list" where
  "splitCSV v = filter (\<lambda>s. s \<noteq> []) (map trim_space (split_on CHR '','' v))"

definition configPhone :: "string \<Rightarrow> string" where
  "configPhone v = remove_char CHR '' '' (trim_space v)"

definition normalizePhoneList :: "string \<Rightarrow> string list" where
  "normalizePhoneList v = foldl (\<lambda>ps part. let p = configPhone part in
     if p \<noteq> [] \<and> p \<notin> set ps then ps @ [p] else ps) [] (split_on CHR '','' v)"

definition isValidPhone :: "string \<Rightarrow> bool" where
  "isValidPhone v0 =
     (let v = configPhone v0; ds = (if has_prefix ''+'' v then tl v else v) in
      9 \<le> length ds \<and> length ds \<le> 15 \<and> list_all is_digit ds)"

definition isSixDigitCode :: "string \<Rightarrow> bool" where
  "isSixDigitCode v \<longleftrightarrow> length v = 6 \<and> list_all is_digit v"

section \<open>Signing keys\<close>

definition minProductionSigningKeyLength :: nat where "minProductionSigningKeyLength = 32"
definition minProductionAccessTokenTTL :: time where "minProductionAccessTokenTTL = 5 * minute"
definition maxProductionAccessTokenTTL :: time where "maxProductionAccessTokenTTL = 60 * minute"

definition signingKeyCharacterRank :: "char \<Rightarrow> int option" where
  "signingKeyCharacterRank c = (if is_digit c then Some (byte c - 48)
     else if is_lower c then Some (byte c - 97 + 10)
     else if is_upper c then Some (byte c - 65 + 10) else None)"

definition hasRepeatedSigningKeyPattern :: "string \<Rightarrow> bool" where
  "hasRepeatedSigningKeyPattern v \<longleftrightarrow> list_ex (\<lambda>period. period * 2 \<le> length v
     \<and> list_all (\<lambda>i. v ! i = v ! (i mod period)) [period..<length v]) [1..<17]"

text \<open>The scan: the rank of the previous character, the direction and the length of the current run.\<close>

fun sequential_run :: "int option \<Rightarrow> int \<Rightarrow> nat \<Rightarrow> string \<Rightarrow> bool" where
  "sequential_run prev direction run [] = False"
| "sequential_run prev direction run (c # cs) =
     (case (prev, signingKeyCharacterRank c) of
        (Some p, Some k) \<Rightarrow>
          let delta = k - p in
          if delta = 1 \<or> delta = - 1 then
            (let run' = (if direction = delta then run + 1 else 2) in
             12 \<le> run' \<or> sequential_run (Some k) delta run' cs)
          else sequential_run (Some k) 0 1 cs
      | (_, rank) \<Rightarrow> sequential_run rank 0 1 cs)"

definition hasLongSequentialSigningKeyRun :: "string \<Rightarrow> bool" where
  "hasLongSequentialSigningKeyRun v = sequential_run (signingKeyCharacterRank (hd v)) 0 1 (tl v)"

text \<open>\<open>estimatedSigningKeyEntropyBits(v) < 128\<close>\<close>

definition low_entropy :: "string \<Rightarrow> bool" where
  "low_entropy v \<longleftrightarrow> int (length v) ^ length v
     < 2 ^ 128 * prod_list (map (\<lambda>c. int (count_list v c) ^ count_list v c) (remdups v))"

definition isUnsafeSigningKey :: "string \<Rightarrow> bool" where
  "isUnsafeSigningKey value =
     (let trimmed = trim_space value; lower = to_lower trimmed in
      length trimmed < minProductionSigningKeyLength \<or> contains_sub ''change-this'' lower
      \<or> contains_sub ''dev-only'' lower \<or> contains_sub ''secret'' lower
      \<or> hasRepeatedSigningKeyPattern trimmed \<or> hasLongSequentialSigningKeyRun trimmed \<or> low_entropy trimmed)"

section \<open>Addresses and URLs\<close>

text \<open>\<open>net.ParseIP\<close>; an IPv4-mapped address counts as the IPv4 address.\<close>

definition parse_ip :: "string \<Rightarrow> ip option" where
  "parse_ip s = (case ParseAddr s of None \<Rightarrow> None | Some a \<Rightarrow> if zone_of a = [] then Some (unmap a) else None)"

definition is_loopback :: "ip \<Rightarrow> bool" where
  "is_loopback a = (case a of IPv4 n \<Rightarrow> n div 2 ^ 24 = 127 | IPv6 n z \<Rightarrow> n = 1)"

definition is_unspecified :: "ip \<Rightarrow> bool" where
  "is_unspecified a = (case a of IPv4 n \<Rightarrow> n = 0 | IPv6 n z \<Rightarrow> n = 0)"

definition isLoopbackHostname :: "string \<Rightarrow> bool" where
  "isLoopbackHostname host = (equal_fold host ''localhost''
     \<or> (case parse_ip host of None \<Rightarrow> False | Some a \<Rightarrow> is_loopback a))"

definition isLoopbackHTTPAddr :: "string \<Rightarrow> bool" where
  "isLoopbackHTTPAddr addr = (case split_host (trim_space addr) of
     None \<Rightarrow> False
   | Some host \<Rightarrow> equal_fold host ''localhost'' \<or> (case parse_ip host of None \<Rightarrow> False | Some a \<Rightarrow> is_loopback a))"

definition isOBankSandboxURL :: "string \<Rightarrow> bool" where
  "isOBankSandboxURL v = (case url_parse (trim_space v) of
     None \<Rightarrow> False
   | Some u \<Rightarrow> equal_fold (url_scheme u) ''https'' \<and> equal_fold (url_hostname u) ''mw-api-test.dengi.kg''
       \<and> url_path u = ''/api/json/json.php'' \<and> url_query u = [] \<and> url_fragment u = [])"

definition validateOBankURL :: "string \<Rightarrow> bool \<Rightarrow> bool" where
  "validateOBankURL v allowLocalHTTP = (case url_parse (trim_space v) of
     None \<Rightarrow> False
   | Some u \<Rightarrow> if url_host u = [] \<or> url_user u \<or> url_query u \<noteq> [] \<or> url_fragment u \<noteq> [] then False
       else url_scheme u = ''https''
         \<or> allowLocalHTTP \<and> url_scheme u = ''http'' \<and> isLoopbackHostname (url_hostname u))"

text \<open>\<open>parseTrustedProxyCIDR\<close>; the masked address keeps what the checks look at.\<close>

definition mask :: "ip \<times> nat \<Rightarrow> ip \<times> nat" where
  "mask p = (case p of
     (IPv4 n, b) \<Rightarrow> (IPv4 (n div 2 ^ (32 - b) * 2 ^ (32 - b)), b)
   | (IPv6 n z, b) \<Rightarrow> (IPv6 (n div 2 ^ (128 - b) * 2 ^ (128 - b)) z, b))"

definition parseTrustedProxyCIDR :: "string \<Rightarrow> (ip \<times> nat) option" where
  "parseTrustedProxyCIDR v0 =
     (let v = trim_space v0 in
      case ParseAddr v of
        Some a \<Rightarrow> Some (without_zone (unmap a), nat (bit_len (unmap a)))
      | None \<Rightarrow> (case ParsePrefix v of
            None \<Rightarrow> None
          | Some (a, b) \<Rightarrow> if unmap a \<noteq> a then None else Some (mask (a, b))))"

definition isNarrowTrustedProxyPrefix :: "ip \<times> nat \<Rightarrow> bool" where
  "isNarrowTrustedProxyPrefix p =
     (\<not> is_unspecified (fst p) \<and> (case fst p of IPv4 n \<Rightarrow> 16 \<le> snd p | IPv6 n z \<Rightarrow> 64 \<le> snd p))"

definition isUnsafeProductionOrigin :: "string \<Rightarrow> bool" where
  "isUnsafeProductionOrigin origin = (case url_parse (trim_space origin) of
     None \<Rightarrow> True
   | Some u \<Rightarrow>
       if url_scheme u \<noteq> ''https'' \<or> url_host u = [] then True
       else if url_user u \<or> url_opaque u \<noteq> [] \<or> url_path u \<noteq> [] \<or> url_query u \<noteq> [] \<or> url_force u
         \<or> url_fragment u \<noteq> [] then True
       else if CHR ''*'' \<in> set (url_host u) then True
       else let h = to_lower (url_hostname u); host = (if has_suffix ''.'' h then butlast h else h) in
         host = ''localhost'' \<or> has_suffix ''.localhost'' host
         \<or> (case parse_ip host of None \<Rightarrow> False | Some a \<Rightarrow> is_loopback a \<or> is_unspecified a))"

text \<open>
  \<open>EscapedPath() == "/api/message"\<close> holds exactly when the text of the path is that: any other spelling
  of the path is kept as \<open>RawPath\<close>.
\<close>

definition raw_path :: "string \<Rightarrow> string" where
  "raw_path endpoint =
     (case getScheme (fst (cut CHR ''#'' endpoint)) of
        None \<Rightarrow> []
      | Some (scheme, rest) \<Rightarrow> dropWhile (\<lambda>c. c \<noteq> CHR ''/'') (drop 2 (fst (cut CHR ''?'' rest))))"

definition isOfficialNikitaAPIURL :: "string \<Rightarrow> url \<Rightarrow> bool" where
  "isOfficialNikitaAPIURL endpoint u \<longleftrightarrow>
     equal_fold (url_scheme u) ''https'' \<and> \<not> url_user u \<and> url_opaque u = []
     \<and> equal_fold (url_hostname u) ''smspro.nikita.kg'' \<and> (url_port u = [] \<or> url_port u = ''443'')
     \<and> raw_path endpoint = ''/api/message'' \<and> url_query u = [] \<and> \<not> url_force u \<and> url_fragment u = []"

text \<open>The TLS settings of one database host.\<close>

record tls_config =
  tls_insecure :: bool
  tls_server :: string

definition usesVerifiedPostgresTLS :: "tls_config option \<Rightarrow> bool" where
  "usesVerifiedPostgresTLS t = (case t of
     None \<Rightarrow> False | Some c \<Rightarrow> \<not> tls_insecure c \<and> trim_space (tls_server c) \<noteq> [])"

type_synonym pg_parser = "string \<Rightarrow> (tls_config option \<times> tls_config option list) option"

definition validateVerifiedDatabaseTLS :: "pg_parser \<Rightarrow> string \<Rightarrow> string option" where
  "validateVerifiedDatabaseTLS pg databaseURL = (case pg databaseURL of
     None \<Rightarrow> Some ''DATABASE_URL must be a valid PostgreSQL URL with verified TLS in staging and production''
   | Some (main, fallbacks) \<Rightarrow>
       if \<not> usesVerifiedPostgresTLS main then Some ''DATABASE_URL must use sslmode=verify-full in staging and production''
       else if \<not> list_all usesVerifiedPostgresTLS fallbacks
       then Some ''DATABASE_URL must use sslmode=verify-full for every staging and production database host''
       else None)"

section \<open>Loading\<close>

record config =
  g_env :: string
  g_http_addr :: string
  g_database_url :: string
  g_jwt_secret :: string
  g_token_ttl :: time
  g_dev_sms :: bool
  g_cors :: "string list"
  g_storage :: string
  g_proxies :: "string list"
  g_upload_dir :: string
  g_max_upload :: int
  g_s3_region :: string
  g_s3_bucket :: string
  g_s3_ledger :: string
  g_aws_key :: string
  g_aws_secret :: string
  g_aws_token :: string
  g_sms_provider :: string
  g_staging_phone :: string
  g_staging_code :: string
  g_staging_price :: int
  g_price_override :: int
  g_review_only :: bool
  g_review_phone :: string
  g_review_phones :: "string list"
  g_review_code :: string
  g_twilio_account :: string
  g_twilio_key :: string
  g_twilio_secret :: string
  g_twilio_from :: string
  g_twilio_service :: string
  g_nikita_url :: string
  g_nikita_login :: string
  g_nikita_password :: string
  g_nikita_sender :: string
  g_nikita_test :: bool
  g_telegram_token :: string
  g_telegram_chat :: string
  g_telegram_url :: string
  g_whatsapp_token :: string
  g_whatsapp_phone :: string
  g_whatsapp_to :: string
  g_whatsapp_url :: string
  g_gemini_key :: string
  g_gemini_model :: string
  g_ai_order :: "string list"
  g_deepseek_key :: string
  g_deepseek_model :: string
  g_groq_key :: string
  g_groq_model :: string
  g_openrouter_key :: string
  g_openrouter_model :: string
  g_openrouter_fallback :: string
  g_fcm_project :: string
  g_fcm_account :: string
  g_obank :: obank_config

text \<open>The phones of the reviewer: the single one comes first in the list, and is its head when unset.\<close>

definition review_phones :: "env \<Rightarrow> string \<times> string list" where
  "review_phones e =
     (let p = configPhone (os_getenv e ''REVIEW_SMS_PHONE''); ps = normalizePhoneList (os_getenv e ''REVIEW_SMS_PHONES'');
          ps' = (if p \<noteq> [] \<and> p \<notin> set ps then p # ps else ps)
      in (if p = [] \<and> ps' \<noteq> [] then hd ps' else p, ps'))"

definition obank_of_env :: "env \<Rightarrow> bool \<Rightarrow> int \<Rightarrow> bool \<Rightarrow> int \<Rightarrow> obank_config" where
  "obank_of_env e enabled version test price =
     (let url = trim_space (os_getenv e ''OBANK_API_URL'');
          url' = (if url = [] \<and> \<not> equal_fold (getEnv e ''APP_ENV'' []) ''production''
            then ''https://mw-api-test.dengi.kg/api/json/json.php'' else url)
      in \<lparr>ob_enabled = enabled, ob_sid = trim_space (os_getenv e ''OBANK_SID''),
        ob_password = trim_space (os_getenv e ''OBANK_PASSWORD''), ob_api_url = url', ob_api_version = version,
        ob_test = test, ob_test_phone = configPhone (os_getenv e ''OBANK_TEST_ONLY_PHONE''), ob_test_price = price,
        ob_result_url = trim_space (os_getenv e ''OBANK_RESULT_URL''),
        ob_return_url = trim_space (os_getenv e ''OBANK_RETURN_URL'')\<rparr>)"

text \<open>The fields that cannot fail, given those that are parsed.\<close>

definition config_of_env ::
  "env \<Rightarrow> time \<Rightarrow> bool \<Rightarrow> int \<Rightarrow> int \<Rightarrow> int \<Rightarrow> bool \<Rightarrow> bool \<Rightarrow> obank_config \<Rightarrow> config" where
  "config_of_env e ttl dev mx stp ovr ro nik ob =
     (let rp = review_phones e in
      \<lparr>g_env = getEnv e ''APP_ENV'' '''',
       g_http_addr = getEnv e ''HTTP_ADDR'' '':8080'',
       g_database_url = os_getenv e ''DATABASE_URL'',
       g_jwt_secret = os_getenv e ''JWT_SECRET'',
       g_token_ttl = ttl,
       g_dev_sms = dev,
       g_cors = splitCSV (getEnv e ''CORS_ALLOWED_ORIGINS'' ''http://localhost:3000,http://localhost:5173''),
       g_storage = to_lower (getEnv e ''STORAGE_DRIVER'' ''local''),
       g_proxies = splitCSV (os_getenv e ''TRUSTED_PROXY_CIDRS''),
       g_upload_dir = getEnv e ''UPLOAD_DIR'' ''./uploads'',
       g_max_upload = mx,
       g_s3_region = trim_space (os_getenv e ''S3_REGION''),
       g_s3_bucket = trim_space (os_getenv e ''S3_BUCKET''),
       g_s3_ledger = trim_space (os_getenv e ''S3_DELETION_LEDGER_BUCKET''),
       g_aws_key = trim_space (os_getenv e ''AWS_ACCESS_KEY_ID''),
       g_aws_secret = trim_space (os_getenv e ''AWS_SECRET_ACCESS_KEY''),
       g_aws_token = trim_space (os_getenv e ''AWS_SESSION_TOKEN''),
       g_sms_provider = to_lower (trim_space (os_getenv e ''SMS_PROVIDER'')),
       g_staging_phone = configPhone (os_getenv e ''STAGING_TEST_SMS_PHONE''),
       g_staging_code = trim_space (os_getenv e ''STAGING_TEST_SMS_CODE''),
       g_staging_price = stp,
       g_price_override = ovr,
       g_review_only = ro,
       g_review_phone = fst rp,
       g_review_phones = snd rp,
       g_review_code = trim_space (os_getenv e ''REVIEW_SMS_CODE''),
       g_twilio_account = trim_space (os_getenv e ''TWILIO_ACCOUNT_SID''),
       g_twilio_key = trim_space (os_getenv e ''TWILIO_API_KEY_SID''),
       g_twilio_secret = trim_space (os_getenv e ''TWILIO_API_KEY_SECRET''),
       g_twilio_from = trim_space (os_getenv e ''TWILIO_FROM''),
       g_twilio_service = trim_space (os_getenv e ''TWILIO_MESSAGING_SERVICE_SID''),
       g_nikita_url = getEnv e ''NIKITA_API_URL'' ''https://smspro.nikita.kg/api/message'',
       g_nikita_login = trim_space (os_getenv e ''NIKITA_LOGIN''),
       g_nikita_password = trim_space (os_getenv e ''NIKITA_PASSWORD''),
       g_nikita_sender = trim_space (os_getenv e ''NIKITA_SENDER''),
       g_nikita_test = nik,
       g_telegram_token = trim_space (os_getenv e ''SUPPORT_TELEGRAM_BOT_TOKEN''),
       g_telegram_chat = trim_space (os_getenv e ''SUPPORT_TELEGRAM_CHAT_ID''),
       g_telegram_url = trim_space (os_getenv e ''SUPPORT_TELEGRAM_URL''),
       g_whatsapp_token = trim_space (os_getenv e ''SUPPORT_WHATSAPP_ACCESS_TOKEN''),
       g_whatsapp_phone = trim_space (os_getenv e ''SUPPORT_WHATSAPP_PHONE_NUMBER_ID''),
       g_whatsapp_to = trim_space (os_getenv e ''SUPPORT_WHATSAPP_TO''),
       g_whatsapp_url = trim_space (os_getenv e ''SUPPORT_WHATSAPP_URL''),
       g_gemini_key = trim_space (os_getenv e ''GEMINI_API_KEY''),
       g_gemini_model = getEnv e ''GEMINI_MODEL'' ''gemini-3.5-flash-lite'',
       g_ai_order = splitCSV (getEnv e ''AI_PROVIDER_ORDER'' ''deepseek,gemini,groq,openrouter,openrouter-fallback''),
       g_deepseek_key = trim_space (os_getenv e ''DEEPSEEK_API_KEY''),
       g_deepseek_model = getEnv e ''DEEPSEEK_MODEL'' ''deepseek-chat'',
       g_groq_key = trim_space (os_getenv e ''GROQ_API_KEY''),
       g_groq_model = getEnv e ''GROQ_MODEL'' ''openai/gpt-oss-20b'',
       g_openrouter_key = trim_space (os_getenv e ''OPENROUTER_API_KEY''),
       g_openrouter_model = getEnv e ''OPENROUTER_MODEL'' ''openrouter/free'',
       g_openrouter_fallback = getEnv e ''OPENROUTER_FALLBACK_MODEL'' ''nex-agi/nex-n2.5-pro:free'',
       g_fcm_project = trim_space (os_getenv e ''FCM_PROJECT_ID''),
       g_fcm_account = trim_space (os_getenv e ''FCM_SERVICE_ACCOUNT_JSON''),
       g_obank = ob\<rparr>)"

definition and_then :: "string + 'a \<Rightarrow> ('a \<Rightarrow> string + 'b) \<Rightarrow> string + 'b" where
  "and_then r f = (case r of Inl err \<Rightarrow> Inl err | Inr x \<Rightarrow> f x)"

definition load_env :: "env \<Rightarrow> string + config" where
  "load_env e =
     and_then (getDurationMinutes e ''ACCESS_TOKEN_TTL_MINUTES'' 15) (\<lambda>ttl.
     and_then (getEnvBool e ''DEV_SMS_CODE_ENABLED'' False) (\<lambda>dev.
     and_then (getMegabytes e ''MAX_UPLOAD_MB'' 10) (\<lambda>mx.
     and_then (getEnvInt e ''STAGING_TEST_PAYMENT_PRICE_KGS'' 0) (\<lambda>stp.
     and_then (getEnvInt e ''SUBSCRIPTION_PRICE_OVERRIDE_KGS'' 0) (\<lambda>ovr.
     and_then (getEnvInt e ''OBANK_TEST_PRICE_KGS'' 0) (\<lambda>price.
     and_then (getEnvBool e ''REVIEW_ONLY_MODE'' False) (\<lambda>ro.
     and_then (getEnvBool e ''NIKITA_TEST_MODE'' False) (\<lambda>nik.
     and_then (getEnvBool e ''OBANK_ENABLED'' False) (\<lambda>enabled.
     and_then (getEnvBool e ''OBANK_TEST'' (\<not> equal_fold (getEnv e ''APP_ENV'' []) ''production'')) (\<lambda>test.
       (case parse_int64 (getEnv e ''OBANK_API_VERSION'' ''1005'') of
          None \<Rightarrow> Inl ''OBANK_API_VERSION must be an integer''
        | Some version \<Rightarrow>
            Inr (config_of_env e ttl dev mx stp ovr ro nik (obank_of_env e enabled version test price)))))))))))))"

text \<open>\<open>.env\<close> is read in development only; it never overrides a variable of the process.\<close>

definition shouldLoadDotEnv :: "string \<Rightarrow> dotenv \<Rightarrow> bool" where
  "shouldLoadDotEnv processEnv dot =
     (if processEnv \<noteq> [] then equal_fold processEnv ''development''
      else (case dot of
         DotEnv m \<Rightarrow> equal_fold (trim_space (or_empty (map_of m ''APP_ENV''))) ''development''
       | _ \<Rightarrow> False))"

definition Load :: "env \<Rightarrow> dotenv \<Rightarrow> string + config" where
  "Load e dot =
     (if \<not> shouldLoadDotEnv (trim_space (os_getenv e ''APP_ENV'')) dot then load_env e
      else (case dot of
         BadDotEnv \<Rightarrow> Inl ''failed to load development .env''
       | NoDotEnv \<Rightarrow> load_env e
       | DotEnv m \<Rightarrow> load_env (\<lambda>k. case e k of None \<Rightarrow> map_of m k | Some v \<Rightarrow> Some v)))"

section \<open>Validation\<close>

definition IsProduction :: "config \<Rightarrow> bool" where "IsProduction c \<longleftrightarrow> equal_fold (g_env c) ''production''"
definition IsDevelopment :: "config \<Rightarrow> bool" where "IsDevelopment c \<longleftrightarrow> equal_fold (g_env c) ''development''"
definition IsStaging :: "config \<Rightarrow> bool" where "IsStaging c \<longleftrightarrow> equal_fold (g_env c) ''staging''"
definition IsProductionLike :: "config \<Rightarrow> bool" where "IsProductionLike c \<longleftrightarrow> IsProduction c \<or> IsStaging c"

text \<open>The problems are collected in order; \<open>problem b m\<close> is \<open>if b { problems = append(problems, m) }\<close>.\<close>

definition problem :: "bool \<Rightarrow> string \<Rightarrow> string list" where
  "problem b m = (if b then [m] else [])"

definition validateTwilioConfig :: "config \<Rightarrow> string list" where
  "validateTwilioConfig c =
     (let from_set = trim_space (g_twilio_from c) \<noteq> []; service_set = trim_space (g_twilio_service c) \<noteq> [] in
      problem (\<not> has_prefix ''AC'' (g_twilio_account c) \<or> length (g_twilio_account c) < 10)
        ''TWILIO_ACCOUNT_SID is required and must be an Account SID''
      @ problem (\<not> has_prefix ''SK'' (g_twilio_key c) \<or> length (g_twilio_key c) < 10)
        ''TWILIO_API_KEY_SID is required and must be an API Key SID''
      @ problem (length (g_twilio_secret c) < 16) ''TWILIO_API_KEY_SECRET is required''
      @ problem (from_set = service_set) ''configure exactly one of TWILIO_FROM or TWILIO_MESSAGING_SERVICE_SID''
      @ problem (service_set \<and> (\<not> has_prefix ''MG'' (g_twilio_service c) \<or> length (g_twilio_service c) < 10))
        ''TWILIO_MESSAGING_SERVICE_SID must be a Messaging Service SID'')"

definition nikita_url_problem :: "config \<Rightarrow> string list" where
  "nikita_url_problem c =
     (let endpoint = trim_space (g_nikita_url c) in
      if endpoint = [] then [''NIKITA_API_URL is required'']
      else (case url_parse endpoint of
         None \<Rightarrow> [''NIKITA_API_URL must be a valid absolute URL'']
       | Some u \<Rightarrow>
           if url_scheme u = [] \<or> url_host u = [] then [''NIKITA_API_URL must be a valid absolute URL'']
           else problem (IsProductionLike c \<and> \<not> isOfficialNikitaAPIURL endpoint u)
             ''NIKITA_API_URL must be the official HTTPS endpoint https://smspro.nikita.kg/api/message in staging and production''))"

definition validateNikitaConfig :: "config \<Rightarrow> string list" where
  "validateNikitaConfig c =
     nikita_url_problem c
     @ problem (trim_space (g_nikita_login c) = []) ''NIKITA_LOGIN is required''
     @ problem (trim_space (g_nikita_password c) = []) ''NIKITA_PASSWORD is required''
     @ problem (trim_space (g_nikita_sender c) = []) ''NIKITA_SENDER is required''"

definition validateOBankConfig :: "config \<Rightarrow> string list" where
  "validateOBankConfig c =
     (let b = g_obank c; bad = (\<lambda>u. u = [] \<or> \<not> validateOBankURL u (IsDevelopment c)) in
      if \<not> ob_enabled b then []
      else problem (ob_sid b = [] \<or> ob_password b = []) ''OBANK_SID and OBANK_PASSWORD are required when OBANK_ENABLED=true''
        @ problem (ob_api_version b \<le> 0) ''OBANK_API_VERSION must be greater than 0''
        @ problem (bad (ob_api_url b)) ''OBANK_API_URL must be a valid HTTPS URL''
        @ problem (bad (ob_result_url b)) ''OBANK_RESULT_URL must be a valid HTTPS callback URL''
        @ problem (bad (ob_return_url b)) ''OBANK_RETURN_URL must be a valid HTTPS billing return URL''
        @ problem (IsStaging c \<and> \<not> ob_test b) ''OBANK_TEST must be true in staging'')"

definition storage_problems :: "config \<Rightarrow> string list" where
  "storage_problems c =
     problem (g_storage c \<noteq> ''local'' \<and> g_storage c \<noteq> ''s3'') ''STORAGE_DRIVER must be local or s3''
     @ problem (IsProductionLike c \<and> g_storage c \<noteq> ''s3'') ''STORAGE_DRIVER=s3 is required in staging and production''
     @ (if g_storage c \<noteq> ''s3'' then []
        else problem (g_s3_region c = []) ''S3_REGION is required when STORAGE_DRIVER=s3''
          @ problem (g_s3_bucket c = []) ''S3_BUCKET is required when STORAGE_DRIVER=s3''
          @ problem (g_s3_ledger c = []) ''S3_DELETION_LEDGER_BUCKET is required when STORAGE_DRIVER=s3''
          @ problem (g_s3_bucket c \<noteq> [] \<and> g_s3_bucket c = g_s3_ledger c)
            ''S3_BUCKET and S3_DELETION_LEDGER_BUCKET must be different''
          @ problem ((g_aws_key c = []) \<noteq> (g_aws_secret c = []))
            ''AWS_ACCESS_KEY_ID and AWS_SECRET_ACCESS_KEY must be configured together''
          @ problem (g_aws_token c \<noteq> [] \<and> g_aws_key c = []) ''AWS_SESSION_TOKEN requires AWS access key credentials'')"

definition sms_problems :: "config \<Rightarrow> string list" where
  "sms_problems c =
     problem (g_sms_provider c \<noteq> [] \<and> g_sms_provider c \<noteq> ''twilio'' \<and> g_sms_provider c \<noteq> ''nikita'')
       ''SMS_PROVIDER must be twilio or nikita when configured''
     @ (if g_sms_provider c = ''twilio'' then validateTwilioConfig c else [])
     @ (if g_sms_provider c = ''nikita'' then validateNikitaConfig c else [])
     @ problem (g_dev_sms c \<and> \<not> IsDevelopment c) ''DEV_SMS_CODE_ENABLED is allowed only when APP_ENV=development''
     @ problem (g_dev_sms c \<and> \<not> isLoopbackHTTPAddr (g_http_addr c))
       ''DEV_SMS_CODE_ENABLED requires HTTP_ADDR to use a loopback address''
     @ problem (g_nikita_test c \<and> \<not> IsDevelopment c) ''NIKITA_TEST_MODE is allowed only when APP_ENV=development''
     @ problem (g_nikita_test c \<and> \<not> isLoopbackHTTPAddr (g_http_addr c))
       ''NIKITA_TEST_MODE requires HTTP_ADDR to use a loopback address''"

definition review_problems :: "config \<Rightarrow> string list" where
  "review_problems c =
     (let phone_set = g_review_phone c \<noteq> [] \<or> g_review_phones c \<noteq> []; code_set = g_review_code c \<noteq> [] in
      problem (phone_set \<noteq> code_set) ''REVIEW_SMS_PHONE and REVIEW_SMS_CODE must be configured together''
      @ problem ((phone_set \<or> code_set) \<and> \<not> g_review_only c)
        ''REVIEW_ONLY_MODE=true is required when review credentials are configured''
      @ problem (list_ex (\<lambda>p. \<not> isValidPhone p) (g_review_phones c))
        ''REVIEW_SMS_PHONES must contain valid E.164 phone numbers''
      @ problem (g_review_phone c \<noteq> [] \<and> \<not> isValidPhone (g_review_phone c))
        ''REVIEW_SMS_PHONE must be a valid E.164 phone number''
      @ problem (code_set \<and> \<not> isSixDigitCode (g_review_code c)) ''REVIEW_SMS_CODE must be exactly 6 digits''
      @ problem (g_review_only c \<and> \<not> IsProduction c) ''REVIEW_ONLY_MODE is allowed only when APP_ENV=production'')"

definition staging_problems :: "config \<Rightarrow> string list" where
  "staging_problems c =
     (let phone_set = g_staging_phone c \<noteq> []; code_set = g_staging_code c \<noteq> []; b = g_obank c in
      problem (phone_set \<noteq> code_set) ''STAGING_TEST_SMS_PHONE and STAGING_TEST_SMS_CODE must be configured together''
      @ problem ((phone_set \<or> code_set) \<and> \<not> IsStaging c)
        ''STAGING_TEST_SMS_PHONE and STAGING_TEST_SMS_CODE are allowed only when APP_ENV=staging''
      @ problem (phone_set \<and> \<not> isValidPhone (g_staging_phone c)) ''STAGING_TEST_SMS_PHONE must be a valid E.164 phone number''
      @ problem (code_set \<and> \<not> isSixDigitCode (g_staging_code c)) ''STAGING_TEST_SMS_CODE must be exactly 6 digits''
      @ problem (g_staging_price c < 0 \<or> 100 < g_staging_price c) ''STAGING_TEST_PAYMENT_PRICE_KGS must be 0 or between 1 and 100''
      @ problem (0 < g_staging_price c \<and> \<not> IsStaging c) ''STAGING_TEST_PAYMENT_PRICE_KGS is allowed only when APP_ENV=staging''
      @ problem (0 < g_staging_price c \<and> (\<not> ob_enabled b \<or> \<not> ob_test b))
        ''STAGING_TEST_PAYMENT_PRICE_KGS requires OBANK_ENABLED=true and OBANK_TEST=true''
      @ problem (g_price_override c < 0 \<or> 100 < g_price_override c) ''SUBSCRIPTION_PRICE_OVERRIDE_KGS must be 0 or between 1 and 100''
      @ problem (0 < g_price_override c \<and> \<not> IsStaging c) ''SUBSCRIPTION_PRICE_OVERRIDE_KGS is allowed only when APP_ENV=staging''
      @ problem (0 < g_price_override c \<and> \<not> ob_enabled b) ''SUBSCRIPTION_PRICE_OVERRIDE_KGS requires OBANK_ENABLED=true'')"

definition sandbox_problems :: "config \<Rightarrow> string list" where
  "sandbox_problems c =
     (let b = g_obank c in
      problem (ob_test_price b < 0 \<or> 100 < ob_test_price b) ''OBANK_TEST_PRICE_KGS must be 0 or between 1 and 100''
      @ (if IsProduction c \<and> ob_test b then
           problem (\<not> ob_enabled b) ''OBANK_ENABLED=true is required for a production sandbox checkout''
           @ problem (\<not> isValidPhone (ob_test_phone b))
             ''OBANK_TEST_ONLY_PHONE must be a valid E.164 phone number in production sandbox mode''
           @ problem (ob_test_price b < 1 \<or> 100 < ob_test_price b)
             ''OBANK_TEST_PRICE_KGS must be between 1 and 100 in production sandbox mode''
           @ problem (\<not> isOBankSandboxURL (ob_api_url b))
             ''OBANK_API_URL must point to the O!Dengi sandbox in production sandbox mode''
         else problem (ob_test_phone b \<noteq> [] \<or> ob_test_price b \<noteq> 0)
           ''OBANK_TEST_ONLY_PHONE and OBANK_TEST_PRICE_KGS are allowed only in production sandbox mode''))"

definition proxy_ok :: "string \<Rightarrow> bool" where
  "proxy_ok v = (case parseTrustedProxyCIDR v of None \<Rightarrow> False | Some p \<Rightarrow> isNarrowTrustedProxyPrefix p)"

definition production_problems :: "pg_parser \<Rightarrow> config \<Rightarrow> string list" where
  "production_problems pg c =
     (let staged = g_staging_phone c \<noteq> [] \<and> g_staging_code c \<noteq> [];
          provider = g_sms_provider c = ''twilio'' \<or> g_sms_provider c = ''nikita'' in
      problem (IsStaging c \<and> g_review_only c) ''REVIEW_ONLY_MODE is not allowed in staging''
      @ problem (trim_space (g_jwt_secret c) = []) ''JWT_SECRET is required in staging and production''
      @ problem (isUnsafeSigningKey (g_jwt_secret c)) ''JWT_SECRET must be a high-entropy random value in staging and production''
      @ problem (g_token_ttl c < minProductionAccessTokenTTL \<or> maxProductionAccessTokenTTL < g_token_ttl c)
        ''ACCESS_TOKEN_TTL_MINUTES must be between 5 and 60 in staging and production''
      @ problem (g_cors c = []) ''CORS_ALLOWED_ORIGINS is required in staging and production''
      @ problem (list_ex isUnsafeProductionOrigin (g_cors c)) ''CORS_ALLOWED_ORIGINS contains an insecure origin''
      @ (if g_proxies c = [] then [''TRUSTED_PROXY_CIDRS must identify the reverse proxies that reach the API'']
         else problem (\<not> list_all proxy_ok (g_proxies c))
           ''TRUSTED_PROXY_CIDRS must use IPv4 prefixes of /16 or longer and IPv6 prefixes of /64 or longer'')
      @ problem (IsStaging c \<and> \<not> provider \<and> \<not> staged) ''SMS_PROVIDER=twilio or nikita is required in staging''
      @ problem (IsProduction c \<and> \<not> g_review_only c \<and> \<not> provider)
        ''SMS_PROVIDER=twilio or nikita is required in production unless REVIEW_ONLY_MODE is enabled''
      @ (case validateVerifiedDatabaseTLS pg (g_database_url c) of None \<Rightarrow> [] | Some err \<Rightarrow> [err]))"

definition problems :: "pg_parser \<Rightarrow> config \<Rightarrow> string list" where
  "problems pg c =
     problem (\<not> IsDevelopment c \<and> \<not> IsStaging c \<and> \<not> IsProduction c)
       ''APP_ENV must be explicitly set to development, staging, or production''
     @ problem (trim_space (g_http_addr c) = []) ''HTTP_ADDR is required''
     @ problem (trim_space (g_database_url c) = []) ''DATABASE_URL is required''
     @ problem (trim_space (g_upload_dir c) = []) ''UPLOAD_DIR is required''
     @ storage_problems c
     @ problem (g_token_ttl c \<le> 0) ''ACCESS_TOKEN_TTL_MINUTES must be greater than 0''
     @ problem (g_max_upload c \<le> 0) ''MAX_UPLOAD_MB must be greater than 0''
     @ sms_problems c @ validateOBankConfig c @ review_problems c @ staging_problems c @ sandbox_problems c
     @ (if IsProductionLike c then production_problems pg c else [])"

text \<open>The error is the list of problems, or there is none.\<close>

definition Validate :: "pg_parser \<Rightarrow> config \<Rightarrow> string option" where
  "Validate pg c = (if problems pg c = [] then None else Some (join_with ''; '' (problems pg c)))"

section \<open>The state of the process\<close>

text \<open>
  \<open>SetState\<close> and \<open>SetPushSender\<close>. The S3 store is also the journal of account deletions; the local store
  is not.
\<close>

definition SetState :: "config \<Rightarrow> bool \<Rightarrow> bool \<Rightarrow> object_store option \<Rightarrow> bool \<Rightarrow> app_state" where
  "SetState c pool sender store push =
     \<lparr>st_db = pool, st_file_store = store, st_journal = (case store of Some (S3Store b l) \<Rightarrow> True | _ \<Rightarrow> False),
       st_jwt_secret = (if g_jwt_secret c = [] then ''dev-only-change-me'' else g_jwt_secret c),
       st_token_ttl = (if g_token_ttl c \<le> 0 then 15 * minute else g_token_ttl c),
       st_upload_dir = g_upload_dir c, st_max_upload = g_max_upload c, st_production = IsProduction c,
       st_production_like = IsProductionLike c, st_development = IsDevelopment c, st_proxies = g_proxies c,
       st_dev_sms = g_dev_sms c, st_review_only = g_review_only c, st_review_phone = g_review_phone c,
       st_review_phones = g_review_phones c, st_review_code = g_review_code c, st_staging_phone = g_staging_phone c,
       st_staging_code = g_staging_code c, st_staging_price = g_staging_price c, st_price_override = g_price_override c,
       st_sms_sender = sender, st_telegram_token = g_telegram_token c, st_telegram_chat = g_telegram_chat c,
       st_telegram_url = g_telegram_url c, st_whatsapp_token = g_whatsapp_token c,
       st_whatsapp_phone = g_whatsapp_phone c, st_whatsapp_to = g_whatsapp_to c, st_whatsapp_url = g_whatsapp_url c,
       st_gemini_key = g_gemini_key c, st_gemini_model = g_gemini_model c, st_ai_order = g_ai_order c,
       st_deepseek_key = g_deepseek_key c, st_deepseek_model = g_deepseek_model c, st_groq_key = g_groq_key c,
       st_groq_model = g_groq_model c, st_openrouter_key = g_openrouter_key c, st_openrouter_model = g_openrouter_model c,
       st_openrouter_fallback = g_openrouter_fallback c, st_push_sender = push, st_staging = IsStaging c,
       st_obank = g_obank c\<rparr>"

definition allowsNoSMSProvider :: "config \<Rightarrow> bool" where
  "allowsNoSMSProvider c =
     (if IsStaging c then g_staging_phone c \<noteq> [] \<and> g_staging_code c \<noteq> []
      else IsProduction c \<and> g_review_only c)"

section \<open>Starting the process\<close>

text \<open>\<open>isAllowedOrigin\<close> (\<open>httpapi/middleware.go\<close>)\<close>

definition isAllowedOrigin :: "string list \<Rightarrow> string \<Rightarrow> bool" where
  "isAllowedOrigin origins origin \<longleftrightarrow> origin \<noteq> [] \<and> list_ex (\<lambda>a. trim_space a = origin) origins"

text \<open>\<open>newTwilioSender\<close> and \<open>newNikitaSender\<close> (\<open>internal/sms\<close>): is the configuration complete?\<close>

definition newTwilioSender :: "config \<Rightarrow> bool" where
  "newTwilioSender c \<longleftrightarrow> trim_space (g_twilio_account c) \<noteq> [] \<and> trim_space (g_twilio_key c) \<noteq> []
     \<and> trim_space (g_twilio_secret c) \<noteq> []
     \<and> (trim_space (g_twilio_from c) = []) \<noteq> (trim_space (g_twilio_service c) = [])"

definition newNikitaSender :: "config \<Rightarrow> bool" where
  "newNikitaSender c \<longleftrightarrow> trim_space (g_nikita_login c) \<noteq> [] \<and> trim_space (g_nikita_password c) \<noteq> []
     \<and> trim_space (g_nikita_sender c) \<noteq> []"

text \<open>The sender of the configured provider; \<open>None\<close> when it cannot be made.\<close>

definition make_sender :: "config \<Rightarrow> bool option" where
  "make_sender c =
     (if g_sms_provider c = ''twilio'' then (if newTwilioSender c then Some True else None)
      else if g_sms_provider c = ''nikita'' then (if newNikitaSender c then Some True else None)
      else Some False)"

text \<open>
  \<open>app.Run\<close> up to the state of the process and the origins of \<open>SetCORSAllowedOrigins\<close>; \<open>None\<close> is \<open>os.Exit(1)\<close>. The database is opened and migrated by
  external calls; a push sender that cannot be made is left out.
\<close>

definition start_with :: "config \<Rightarrow> bool \<Rightarrow> string \<Rightarrow> (world, (app_state \<times> string list) option) state" where
  "start_with c sender cwd = do {
     store \<leftarrow> (if g_storage c = ''s3'' then NewS3 (g_s3_region c) (g_s3_bucket c) (g_s3_ledger c)
       else NewLocal cwd (g_upload_dir c));
     (case store of
        None \<Rightarrow> ret None
      | Some S \<Rightarrow> do {
          opened \<leftarrow> extern_ok;
          if \<not> opened then ret None
          else do {
            migrated \<leftarrow> extern_ok;
            if \<not> migrated then ret None
            else do {
              push \<leftarrow> (if g_fcm_project c \<noteq> [] \<and> g_fcm_account c \<noteq> [] then extern_ok else ret False);
              ret (Some (SetState c True sender (Some S) push, g_cors c))
            }
          }
        })
   }"

definition Run :: "env \<Rightarrow> dotenv \<Rightarrow> pg_parser \<Rightarrow> string \<Rightarrow> (world, (app_state \<times> string list) option) state" where
  "Run e dot pg cwd =
     (case Load e dot of
        Inl err \<Rightarrow> ret None
      | Inr c \<Rightarrow>
          if Validate pg c \<noteq> None then ret None
          else (case make_sender c of
             None \<Rightarrow> ret None
           | Some sender \<Rightarrow>
               if IsProductionLike c \<and> \<not> sender \<and> \<not> allowsNoSMSProvider c then ret None
               else start_with c sender cwd))"

end
