(* ===== verification/Config_Facts.thy ===== *)
theory Config_Facts
  imports Config Worker_Facts
begin

text \<open>What an accepted configuration gives: the state every request handler runs on is well-formed.\<close>

section \<open>No problem means\<close>

lemma no_problem [simp]: "problem b m = [] \<longleftrightarrow> \<not> b"
  by (simp add: problem_def)

lemma if_no_problem: "(if b then ps else qs) = [] \<longleftrightarrow> (if b then ps = [] else qs = [])"
  by simp

text \<open>The three environments exclude each other.\<close>

lemma environments:
  "IsProduction c \<Longrightarrow> \<not> IsStaging c" "IsProduction c \<Longrightarrow> \<not> IsDevelopment c" "IsStaging c \<Longrightarrow> \<not> IsDevelopment c"
proof -
  have "fold_key ''production'' \<noteq> fold_key ''staging''" "fold_key ''production'' \<noteq> fold_key ''development''"
    "fold_key ''staging'' \<noteq> fold_key ''development''" by code_simp+
  then show "IsProduction c \<Longrightarrow> \<not> IsStaging c" "IsProduction c \<Longrightarrow> \<not> IsDevelopment c"
    "IsStaging c \<Longrightarrow> \<not> IsDevelopment c"
    by (auto simp: IsProduction_def IsStaging_def IsDevelopment_def equal_fold_def)
qed

lemma proxy_ok_prefix:
  "proxy_ok v \<longleftrightarrow> (\<exists>p. parseTrustedProxyCIDR v = Some p \<and> isNarrowTrustedProxyPrefix p)"
  by (auto simp: proxy_ok_def split: option.splits)

text \<open>What one entry trusts lies in one network: of 16 leading bits for IPv4, of 64 for IPv6.\<close>

definition entry_trusts :: "string \<Rightarrow> ip \<Rightarrow> bool" where
  "entry_trusts s addr \<longleftrightarrow> (let v = trim_space s in
     (case ParsePrefix v of
        Some p \<Rightarrow> prefix_contains p addr
      | None \<Rightarrow> (case ParseAddr v of None \<Rightarrow> False | Some a \<Rightarrow> unmap a = addr)))"

definition network :: "ip \<Rightarrow> bool \<times> int" where
  "network a = (case a of IPv4 n \<Rightarrow> (True, n div 2 ^ 16) | IPv6 n z \<Rightarrow> (False, n div 2 ^ 64))"

lemma trusted_entry: "isTrustedProxy A addr \<longleftrightarrow> (\<exists>v\<in>set (st_proxies A). entry_trusts v addr)"
  by (auto simp: isTrustedProxy_def list_ex_iff entry_trusts_def)

lemma shorter_prefix:
  assumes "n div 2 ^ k = m div (2 ^ k :: int)" "k \<le> j" shows "n div 2 ^ j = m div 2 ^ j"
proof -
  have e: "x div 2 ^ j = x div 2 ^ k div 2 ^ (j - k)" for x :: int
    using assms(2) zdiv_zmult2_eq [of "2 ^ (j - k)" x "2 ^ k"] by (simp add: power_add [symmetric])
  show ?thesis by (simp only: e assms(1))
qed

lemma ParsePrefix_bits: "ParsePrefix v = Some (a, b) \<Longrightarrow> int b \<le> bit_len a"
  by (auto simp: ParsePrefix_def bit_len_def split: option.splits if_splits ip.splits)

lemma split_on_chars: "set s - {d} \<subseteq> (\<Union>w\<in>set (split_on d s). set w)"
proof (induction s)
  case (Cons c s)
  then show ?case by (cases "split_on d s") (auto split: if_splits)
qed simp

lemma parse_v4_chars: "parse_v4 s = Some n \<Longrightarrow> c \<in> set s \<Longrightarrow> is_digit c \<or> c = CHR ''.''"
proof (rule ccontr)
  assume p: "parse_v4 s = Some n" "c \<in> set s" "\<not> (is_digit c \<or> c = CHR ''.'')"
  then obtain w where w: "w \<in> set (split_on CHR ''.'' s)" "c \<in> set w" using split_on_chars [of s "CHR ''.''"] by auto
  then have "parse_octet w = None" using p(3) by (auto simp: parse_octet_def list_all_iff)
  then have "None \<in> set (map parse_octet (split_on CHR ''.'' s))" using w(1) by force
  then show False using p(1) by (auto simp: parse_v4_def split: list.splits option.splits)
qed

definition v6_char :: "char \<Rightarrow> bool" where
  "v6_char c \<longleftrightarrow> is_hex c \<or> c = CHR '':'' \<or> c = CHR ''.''"

lemma v6_groups_chars: "v6_groups gs e s = Some r \<Longrightarrow> c \<in> set s \<Longrightarrow> v6_char c"
proof (induction gs e s rule: v6_groups.induct)
  case (1 gs e s)
  let ?h = "takeWhile is_hex s" let ?rest = "dropWhile is_hex s"
  have s: "set s = set ?h \<union> set ?rest" by (metis set_append takeWhile_dropWhile_id)
  have h: "v6_char x" if "x \<in> set ?h" for x using set_takeWhileD [OF that] by (simp add: v6_char_def)
  have v4: "v6_char x" if "parse_v4 s = Some v" "x \<in> set s" for x v
    using parse_v4_chars [OF that] by (auto simp: v6_char_def is_hex_def)
  show ?case
  proof (cases "c \<in> set ?h")
    case False
    then have c: "c \<in> set ?rest" using "1.prems"(2) s by auto
    then obtain x xs where r: "?rest = x # xs" by (cases ?rest) auto
    have colon: "v6_char CHR '':''" by (simp add: v6_char_def)
    have ne: "s \<noteq> []" using "1.prems"(2) by auto
    note IH = "1.IH" [OF _ refl refl, unfolded r, simplified]
    show ?thesis
      using "1.prems"(1) c v4 [OF _ "1.prems"(2)] colon IH ne
      by (subst (asm) v6_groups.simps) (cases xs; auto simp: r Let_def split: if_splits option.splits)
  qed (rule h)
qed

lemma index_of_Some: "index_of d s = Some i \<Longrightarrow> i < length s \<and> s ! i = d \<and> d \<notin> set (take i s)"
proof (induction s arbitrary: i)
  case (Cons c s)
  then show ?case by (cases i) (auto split: if_splits option.splits)
qed simp

lemma index_of_take: "index_of d s = Some i \<Longrightarrow> i < n \<Longrightarrow> index_of d (take n s) = Some i"
proof (induction s arbitrary: i n)
  case (Cons c s)
  then show ?case by (cases n; cases i) (auto split: if_splits)
qed simp

lemma parse_v6_slash:
  assumes "CHR ''/'' \<in> set (take k v)" "\<forall>j. index_of CHR ''%'' v = Some j \<longrightarrow> k \<le> j"
  shows "parse_v6 v = None"
proof -
  have ng: "v6_groups gs e t = None" if "CHR ''/'' \<in> set t" for gs e t
  proof (cases "v6_groups gs e t")
    case (Some r)
    from v6_groups_chars [OF Some that] show ?thesis by (simp add: v6_char_def is_hex_def is_digit_def byte_def)
  qed
  have n: "CHR ''/'' \<in> set t \<Longrightarrow> map_option f (Option.bind (if has_prefix ''::'' t
      then v6_groups [] (Some 0) (drop 2 t) else v6_groups [] None t) g) = None" for t and f :: "int list \<Rightarrow> ip" and g
  proof -
    assume t: "CHR ''/'' \<in> set t"
    have "CHR ''/'' \<in> set (drop 2 t)" if "has_prefix ''::'' t"
      using t that by (auto simp: has_prefix_iff)
    then show ?thesis using t ng by auto
  qed
  have d: "\<not> (has_prefix ''::'' t \<and> drop 2 t = [])" if "CHR ''/'' \<in> set t" for t
    using that by (auto simp: has_prefix_iff)
  show ?thesis
  proof (cases "index_of CHR ''%'' v")
    case None
    have "CHR ''/'' \<in> set v" using assms(1) in_set_takeD by fast
    then show ?thesis using n d None by (simp add: parse_v6_def)
  next
    case (Some j)
    then have "CHR ''/'' \<in> set (take j v)" using assms set_take_subset_set_take [of k j v] by blast
    then show ?thesis using n [of "take j v"] d [of "take j v"] Some by (auto simp: parse_v6_def)
  qed
qed

lemma ParsePrefix_not_addr: "ParsePrefix v = Some p \<Longrightarrow> ParseAddr v = None"
proof -
  assume p: "ParsePrefix v = Some p"
  then obtain i a where i: "last_index_of CHR ''/'' v = Some i" "ParseAddr (take i v) = Some a" "zone_of a = []"
    by (auto simp: ParsePrefix_def split: option.splits if_splits)
  have slash: "i < length v" "v ! i = CHR ''/''"
    using i(1) index_of_Some [of "CHR ''/''" "rev v"]
    by (auto simp: last_index_of_def rev_nth split: option.splits)
  then have mem: "CHR ''/'' \<in> set v" "CHR ''/'' \<in> set (take (Suc i) v)"
    by (metis nth_mem, metis take_Suc_conv_app_nth in_set_conv_decomp)
  let ?P = "\<lambda>c. c \<in> {CHR ''.'', CHR '':'', CHR ''%''}"
  obtain c where c: "find ?P (take i v) = Some c" using i(2) by (auto simp: ParseAddr_def split: option.splits)
  then have cv: "find ?P v = Some c" by (metis append_take_drop_id find_append option.case(2))
  consider "c = CHR ''.''" | "c = CHR '':''" | "c = CHR ''%''" using c by (auto simp: find_Some_iff)
  then show ?thesis
  proof cases
    case 1
    have "parse_v4 v = None"
      using parse_v4_chars [OF _ mem(1)] by (cases "parse_v4 v") (auto simp: is_digit_def byte_def)
    then show ?thesis using cv 1 by (simp add: ParseAddr_def)
  next
    case 2
    have "Suc i \<le> j" if j: "index_of CHR ''%'' v = Some j" for j
    proof (rule ccontr)
      assume "\<not> Suc i \<le> j"
      moreover have "j \<noteq> i" using index_of_Some [OF j] slash(2) by auto
      ultimately have ji: "j < i" by simp
      then have "index_of CHR ''%'' (take i v) = Some j" by (rule index_of_take [OF j])
      then show False
        using i(2,3) c 2 ji slash(1) by (auto simp: ParseAddr_def parse_v6_def zone_of_def Let_def split: if_splits)
    qed
    then have "parse_v6 v = None" using parse_v6_slash [OF mem(2)] by blast
    then show ?thesis using cv 2 by (simp add: ParseAddr_def)
  next
    case 3
    then show ?thesis using cv by (simp add: ParseAddr_def)
  qed
qed

text \<open>An entry that passed the validation trusts addresses of one network only.\<close>

lemma prefix_network:
  assumes "prefix_contains (a, b) x" "prefix_contains (a, b) y" "case a of IPv4 n \<Rightarrow> 16 \<le> b | IPv6 n z \<Rightarrow> 64 \<le> b"
    "int b \<le> bit_len a"
  shows "network x = network y"
proof (cases a)
  case (IPv4 n)
  then obtain m k where "x = IPv4 m" "y = IPv4 k" "m div 2 ^ (32 - b) = k div 2 ^ (32 - b)"
    using assms(1,2) by (auto simp: prefix_contains_def split: ip.splits)
  then show ?thesis using assms(3) IPv4 shorter_prefix [of m "32 - b" k 16] by (simp add: network_def)
next
  case (IPv6 n z)
  then obtain m k where "x = IPv6 m []" "y = IPv6 k []" "m div 2 ^ (128 - b) = k div 2 ^ (128 - b)"
    using assms(1,2) by (auto simp: prefix_contains_def split: ip.splits)
  then show ?thesis using assms(3) IPv6 shorter_prefix [of m "128 - b" k 64] by (simp add: network_def)
qed

lemma entry_network:
  assumes "proxy_ok v" "entry_trusts v x" "entry_trusts v y"
  shows "network x = network y"
proof -
  let ?v = "trim_space v"
  show ?thesis
  proof (cases "ParsePrefix ?v")
    case None
    then show ?thesis using assms(2,3) by (auto simp: entry_trusts_def split: option.splits)
  next
    case (Some p)
    then obtain a b where p: "p = (a, b)" "ParsePrefix ?v = Some (a, b)" by (cases p) auto
    then have "parseTrustedProxyCIDR v = (if unmap a \<noteq> a then None else Some (mask (a, b)))"
      using ParsePrefix_not_addr [OF p(2)] by (simp add: parseTrustedProxyCIDR_def)
    then have "isNarrowTrustedProxyPrefix (mask (a, b))" using assms(1) by (auto simp: proxy_ok_def split: if_splits)
    then have "case a of IPv4 n \<Rightarrow> 16 \<le> b | IPv6 n z \<Rightarrow> 64 \<le> b"
      by (cases a) (simp_all add: isNarrowTrustedProxyPrefix_def mask_def)
    moreover have "prefix_contains (a, b) x" "prefix_contains (a, b) y"
      using assms(2,3) p by (simp_all add: entry_trusts_def)
    ultimately show ?thesis using prefix_network ParsePrefix_bits [OF p(2)] by blast
  qed
qed

section \<open>The state of the process\<close>

definition review_ok :: "app_state \<Rightarrow> bool" where
  "review_ok A \<longleftrightarrow> (st_review_phone A \<noteq> [] \<or> st_review_phones A \<noteq> [] \<or> st_review_code A \<noteq> [] \<longrightarrow>
       st_production A \<and> st_review_only A \<and> isSixDigitCode (st_review_code A) \<and> st_review_phones A \<noteq> []
       \<and> st_review_phone A \<in> set (st_review_phones A) \<and> (\<forall>p\<in>set (st_review_phones A). isValidPhone p))
     \<and> (st_staging_phone A \<noteq> [] \<or> st_staging_code A \<noteq> [] \<longrightarrow>
       st_staging A \<and> isValidPhone (st_staging_phone A) \<and> isSixDigitCode (st_staging_code A))"

definition price_ok :: "app_state \<Rightarrow> bool" where
  "price_ok A \<longleftrightarrow> st_staging_price A \<in> {0..100} \<and> st_price_override A \<in> {0..100} \<and> ob_test_price (st_obank A) \<in> {0..100}
     \<and> (st_staging_price A > 0 \<longrightarrow> st_staging A \<and> ob_enabled (st_obank A) \<and> ob_test (st_obank A))
     \<and> (st_price_override A > 0 \<longrightarrow> st_staging A \<and> ob_enabled (st_obank A))
     \<and> (ob_test_price (st_obank A) > 0 \<longrightarrow> st_production A \<and> ob_test (st_obank A) \<and> isValidPhone (ob_test_phone (st_obank A)))"

definition served_origin :: "string \<Rightarrow> bool" where
  "served_origin origin \<longleftrightarrow> (\<exists>u. url_parse origin = Some u \<and> url_scheme u = ''https'' \<and> url_host u \<noteq> []
     \<and> \<not> url_user u \<and> url_path u = [] \<and> url_query u = [] \<and> CHR ''*'' \<notin> set (url_host u)
     \<and> to_lower (url_hostname u) \<noteq> ''localhost'')"

definition production_ok :: "app_state \<Rightarrow> string list \<Rightarrow> bool" where
  "production_ok A origins \<longleftrightarrow>
     st_journal A \<and> (\<exists>b l. st_file_store A = Some (S3Store b l) \<and> b \<noteq> [] \<and> l \<noteq> [] \<and> b \<noteq> l)
     \<and> \<not> isUnsafeSigningKey (st_jwt_secret A) \<and> 5 * minute \<le> st_token_ttl A \<and> st_token_ttl A \<le> 60 * minute
     \<and> st_proxies A \<noteq> [] \<and> (\<forall>v\<in>set (st_proxies A). \<forall>x y. entry_trusts v x \<and> entry_trusts v y \<longrightarrow> network x = network y)
     \<and> (\<forall>origin. isAllowedOrigin origins origin \<longrightarrow> served_origin origin)
     \<and> (st_sms_sender A \<or> st_staging A \<and> st_staging_phone A \<noteq> [] \<or> st_production A \<and> st_review_only A)"

definition process_ok :: "app_state \<Rightarrow> string list \<Rightarrow> bool" where
  "process_ok A origins \<longleftrightarrow> st_db A \<and> st_file_store A \<noteq> None \<and> 0 < st_token_ttl A \<and> 0 < st_max_upload A
     \<and> st_max_upload A < 2 ^ 63
     \<and> st_production_like A = (st_production A \<or> st_staging A)
     \<and> (st_production A \<longrightarrow> \<not> st_staging A \<and> \<not> st_development A) \<and> (st_staging A \<longrightarrow> \<not> st_development A)
     \<and> (st_production A \<or> st_staging A \<or> st_development A)
     \<and> (st_dev_sms A \<longrightarrow> st_development A) \<and> review_ok A \<and> price_ok A
     \<and> (st_production_like A \<longrightarrow> production_ok A origins)"

lemma wp_NewS3:
  assumes "\<And>ex. Q None (w\<lparr>extern := ex\<rparr>)"
    "\<And>ex. trim_space b \<noteq> [] \<Longrightarrow> trim_space l \<noteq> [] \<Longrightarrow> trim_space b \<noteq> trim_space l \<Longrightarrow>
      Q (Some (S3Store (trim_space b) (trim_space l))) (w\<lparr>extern := ex\<rparr>)"
  shows "wp (NewS3 region b l) Q w"
proof -
  have "Q None w" using assms(1) [where ex = "extern w"] by simp
  then show ?thesis
    unfolding NewS3_def Let_def by (intro wps) (use assms in \<open>auto simp: wp_return_eq\<close>)
qed

lemma wp_NewLocal:
  assumes "\<And>ex. Q None (w\<lparr>extern := ex\<rparr>)" "\<And>ex base. Q (Some (LocalStore base)) (w\<lparr>extern := ex\<rparr>)"
  shows "wp (NewLocal cwd d) Q w"
proof -
  have "Q None w" using assms(1) [where ex = "extern w"] by simp
  then show ?thesis
    unfolding NewLocal_def Let_def by (intro wps) (use assms in \<open>auto simp: wp_return_eq\<close>)
qed

text \<open>What the loader alone guarantees.\<close>

definition loaded :: "config \<Rightarrow> bool" where
  "loaded c \<longleftrightarrow> g_max_upload c < 2 ^ 63 \<and> (g_review_phones c \<noteq> [] \<longrightarrow> g_review_phone c \<in> set (g_review_phones c))
     \<and> (g_review_phones c = [] \<longrightarrow> g_review_phone c = [])"

lemma and_then_Inr: "and_then r f = Inr y \<longleftrightarrow> (\<exists>x. r = Inr x \<and> f x = Inr y)"
  by (auto simp: and_then_def split: sum.splits)

lemma getMegabytes_bound: "getMegabytes e k n = Inr m \<Longrightarrow> m < 2 ^ 63"
  by (auto simp: getMegabytes_def split: sum.splits if_splits)

lemma review_phones_ok:
  "review_phones e = (p, ps) \<Longrightarrow> (ps \<noteq> [] \<longrightarrow> p \<in> set ps) \<and> (ps = [] \<longrightarrow> p = [])"
  by (auto simp: review_phones_def Let_def split: if_splits)

lemma loaded_config: "mx < 2 ^ 63 \<Longrightarrow> loaded (config_of_env e ttl dev mx stp ovr ro nik ob)"
  using review_phones_ok [of e "fst (review_phones e)" "snd (review_phones e)"]
  by (auto simp: config_of_env_def loaded_def Let_def)

lemma loaded_env: "load_env e = Inr c \<Longrightarrow> loaded c"
  by (auto simp: load_env_def and_then_Inr split: option.splits intro!: loaded_config dest: getMegabytes_bound)

lemma loaded_Load: "Load e dot = Inr c \<Longrightarrow> loaded c"
  by (auto simp: Load_def loaded_env split: if_splits dotenv.splits)

text \<open>The groups of checks, one after the other.\<close>

lemma problems_groups:
  "problems pg c = [] \<Longrightarrow> storage_problems c = [] \<and> sms_problems c = [] \<and> review_problems c = [] \<and> staging_problems c = []
     \<and> sandbox_problems c = [] \<and> (IsProductionLike c \<longrightarrow> production_problems pg c = [])
     \<and> 0 < g_token_ttl c \<and> 0 < g_max_upload c \<and> (IsProduction c \<or> IsStaging c \<or> IsDevelopment c)"
  by (auto simp: problems_def)

lemma review_accepted:
  assumes "review_problems c = []" "staging_problems c = []" "loaded c"
  shows "review_ok (SetState c pool sender store push)"
  using assms by (auto simp: review_ok_def SetState_def review_problems_def staging_problems_def loaded_def list_ex_iff Let_def)

lemma price_accepted:
  assumes "staging_problems c = []" "sandbox_problems c = []"
  shows "price_ok (SetState c pool sender store push)"
proof -
  let ?b = "g_obank c"
  have st: "0 \<le> g_staging_price c \<and> g_staging_price c \<le> 100" "0 \<le> g_price_override c \<and> g_price_override c \<le> 100"
    "0 < g_staging_price c \<longrightarrow> IsStaging c \<and> ob_enabled ?b \<and> ob_test ?b"
    "0 < g_price_override c \<longrightarrow> IsStaging c \<and> ob_enabled ?b"
    using assms(1) by (simp_all add: staging_problems_def Let_def)
  have bank: "0 \<le> ob_test_price ?b \<and> ob_test_price ?b \<le> 100"
    "0 < ob_test_price ?b \<longrightarrow> IsProduction c \<and> ob_test ?b \<and> isValidPhone (ob_test_phone ?b)"
    using assms(2) by (simp_all add: sandbox_problems_def Let_def if_no_problem split: if_split_asm) 
  show ?thesis using st bank by (simp add: price_ok_def SetState_def)
qed

lemma unsafe_origin: "\<not> isUnsafeProductionOrigin a \<Longrightarrow> served_origin (trim_space a)"
proof -
  have "\<not> has_suffix ''.'' ''localhost''" by code_simp
  then show "\<not> isUnsafeProductionOrigin a \<Longrightarrow> served_origin (trim_space a)"
    by (auto simp: isUnsafeProductionOrigin_def served_origin_def Let_def split: option.splits if_splits)
qed

lemma production_accepted:
  assumes "production_problems pg c = []" "loaded c" "make_sender c = Some sender" "IsProductionLike c" "b \<noteq> []" "l \<noteq> []" "b \<noteq> l"
  shows "production_ok (SetState c True sender (Some (S3Store b l)) push) (g_cors c)"
proof -
  have o: "served_origin x" if "isAllowedOrigin (g_cors c) x" for x
    using assms(1) that unsafe_origin by (auto simp: production_problems_def isAllowedOrigin_def list_ex_iff Let_def)
  have p: "g_proxies c \<noteq> []" "\<And>v. v \<in> set (g_proxies c) \<Longrightarrow> proxy_ok v"
    using assms(1) by (auto simp: production_problems_def list_all_iff Let_def split: if_splits)
  have j: "\<not> isUnsafeSigningKey (g_jwt_secret c)" "g_jwt_secret c \<noteq> []"
    "5 * minute \<le> g_token_ttl c" "g_token_ttl c \<le> 60 * minute" "0 < g_token_ttl c"
    using assms(1) by (auto simp: production_problems_def minProductionAccessTokenTTL_def maxProductionAccessTokenTTL_def minute_def second_def Let_def)
  have s: "sender \<or> IsStaging c \<and> g_staging_phone c \<noteq> [] \<or> IsProduction c \<and> g_review_only c"
    using assms(1,3,4) by (auto simp: production_problems_def make_sender_def IsProductionLike_def Let_def split: if_splits)
  have n: "network x = network y" if "v \<in> set (g_proxies c)" "entry_trusts v x" "entry_trusts v y" for v x y
    using entry_network p(2) that by blast
  show ?thesis
    using o p(1) n j s assms(5-7) by (simp add: production_ok_def SetState_def)
qed

lemma SetState_accepted:
  assumes c: "problems pg c = []" "loaded c" "make_sender c = Some sender"
    and store: "g_storage c = ''s3'' \<Longrightarrow> \<exists>b l. S = S3Store b l \<and> b \<noteq> [] \<and> l \<noteq> [] \<and> b \<noteq> l"
  shows "process_ok (SetState c True sender (Some S) push) (g_cors c)"
proof -
  let ?A = "SetState c True sender (Some S) push"
  note G = problems_groups [OF c(1)]
  have "production_ok ?A (g_cors c)" if like: "IsProductionLike c"
  proof -
    have "g_storage c = ''s3''" using G like by (auto simp: storage_problems_def)
    from store [OF this] show ?thesis using production_accepted G like c by blast
  qed
  moreover have "review_ok ?A" "price_ok ?A" using review_accepted price_accepted G c(2) by blast+
  moreover have "g_dev_sms c \<longrightarrow> IsDevelopment c" using G by (auto simp: sms_problems_def)
  moreover have "g_max_upload c < 2 ^ 63" using c(2) by (simp add: loaded_def)
  ultimately show ?thesis
    using G environments [of c]
    by (simp add: process_ok_def SetState_def IsProductionLike_def)
qed

lemma wp_start_with:
  assumes "problems pg c = []" "loaded c" "make_sender c = Some sender"
  shows "wp (start_with c sender cwd) (\<lambda>r w'. db w' = db w \<and> (\<forall>A origins. r = Some (A, origins) \<longrightarrow> process_ok A origins)) w"
proof -
  note ok = SetState_accepted [OF assms]
  show ?thesis
    unfolding start_with_def
    by (cases "g_storage c = ''s3''") (intro wps wp_NewS3 wp_NewLocal | auto simp: wp_return_eq intro!: ok)+
qed

section \<open>An accepted configuration starts\<close>

definition trimmed :: "config \<Rightarrow> bool" where
  "trimmed c \<longleftrightarrow> (\<forall>x\<in>{g_twilio_account c, g_twilio_key c, g_twilio_secret c, g_s3_region c, g_s3_bucket c,
     g_s3_ledger c, g_upload_dir c}. trim_space x = x)"

lemma trimmed_env: "load_env e = Inr c \<Longrightarrow> trimmed c"
proof -
  have "trim_space ''./uploads'' = ''./uploads''" by code_simp
  then have "trimmed (config_of_env e ttl dev mx stp ovr ro nik ob)" for ttl dev mx stp ovr ro nik ob
    by (simp add: trimmed_def config_of_env_def getEnv_def Let_def)
  then show "load_env e = Inr c \<Longrightarrow> trimmed c"
    by (auto simp: load_env_def and_then_Inr split: option.splits)
qed

lemma trimmed_Load: "Load e dot = Inr c \<Longrightarrow> trimmed c"
  by (auto simp: Load_def trimmed_env split: if_splits dotenv.splits)

lemma sender_made:
  assumes "problems pg c = []" "trimmed c"
  shows "\<exists>sender. make_sender c = Some sender \<and> (IsProductionLike c \<and> \<not> sender \<longrightarrow> allowsNoSMSProvider c)"
proof -
  note G = problems_groups [OF assms(1)]
  have tw: "newTwilioSender c" if "g_sms_provider c = ''twilio''"
  proof -
    have v: "validateTwilioConfig c = []" using G that by (simp add: sms_problems_def)
    then have "g_twilio_account c \<noteq> []" "g_twilio_key c \<noteq> []" "g_twilio_secret c \<noteq> []"
      by (auto simp: validateTwilioConfig_def Let_def)
    then show ?thesis using v assms(2) by (simp add: newTwilioSender_def validateTwilioConfig_def trimmed_def Let_def)
  qed
  have nk: "newNikitaSender c" if "g_sms_provider c = ''nikita''"
    using G that by (simp add: sms_problems_def newNikitaSender_def validateNikitaConfig_def)
  have "g_sms_provider c = ''twilio'' \<or> g_sms_provider c = ''nikita'' \<or> allowsNoSMSProvider c" if "IsProductionLike c"
    using G that environments [of c] by (auto simp: production_problems_def allowsNoSMSProvider_def IsProductionLike_def Let_def)
  then show ?thesis using tw nk by (auto simp: make_sender_def)
qed

lemma store_made:
  assumes "problems pg c = []" "trimmed c" "extern w = []" "g_storage c = ''s3'' \<or> g_upload_dir c \<noteq> ''.''"
  shows "fst (run_state (start_with c sender cwd) w) \<noteq> None"
proof -
  note G = problems_groups [OF assms(1)]
  have s3: "g_s3_region c \<noteq> []" "g_s3_bucket c \<noteq> []" "g_s3_ledger c \<noteq> []" "g_s3_bucket c \<noteq> g_s3_ledger c" if "g_storage c = ''s3''"
    using G that by (auto simp: storage_problems_def)
  have "trim_space (g_upload_dir c) \<noteq> []" using assms(1) by (simp add: problems_def)
  then show ?thesis
    using assms(2-4) s3
    by (auto simp: start_with_def NewS3_def NewLocal_def extern_ok_def trimmed_def Let_def)
qed

lemma store_refused:
  assumes "trimmed c" "g_storage c \<noteq> ''s3''" "g_upload_dir c = ''.''"
  shows "fst (run_state (start_with c sender cwd) w) = None"
  using assms by (simp add: start_with_def NewLocal_def trimmed_def Let_def)

section \<open>Properties\<close>

text \<open>
  C40. Starting the process. Whatever the environment, the process starts only in a well-formed state
  (which its handlers rely on): a known environment, positive limits; fixed login codes only for the staging
  phone in staging or the review phones in production review mode; reduced prices only in staging or for
  the sandbox; and in staging and production a separate deletion journal, an S3 store, a signing key that
  is not weak, trusted proxies that each cover one network only, served origins that are plain HTTPS sites,
  and a way to deliver login codes. Conversely an accepted configuration starts when no external call
  fails, with one exception: local storage in the directory ``.'', which the validation accepts and the store refuses.
  The database is not touched.
\<close>

theorem Run_process_ok:
  "case run_state (Run e dot pg cwd) w of (r, w') \<Rightarrow> db w' = db w
     \<and> (\<forall>A origins. r = Some (A, origins) \<longrightarrow> process_ok A origins)
     \<and> (\<forall>c. Load e dot = Inr c \<and> Validate pg c = None \<and> extern w = [] \<longrightarrow>
          (r = None \<longleftrightarrow> g_storage c \<noteq> ''s3'' \<and> g_upload_dir c = ''.''))"
proof (cases "Load e dot")
  case (Inr c)
  show ?thesis
  proof (cases "Validate pg c")
    case None
    then have p: "problems pg c = []" by (simp add: Validate_def split: if_splits)
    obtain sender where s: "make_sender c = Some sender" "IsProductionLike c \<and> \<not> sender \<longrightarrow> allowsNoSMSProvider c"
      using sender_made [OF p trimmed_Load [OF Inr]] by blast
    then have run: "Run e dot pg cwd = start_with c sender cwd" using Inr None by (auto simp: Run_def)
    obtain r w' where x: "run_state (start_with c sender cwd) w = (r, w')" by fastforce
    show ?thesis
      using wpD [OF wp_start_with [OF p loaded_Load [OF Inr] s(1)] x] store_made [OF p trimmed_Load [OF Inr], of w sender cwd]
        store_refused [OF trimmed_Load [OF Inr], of sender cwd w] None Inr by (auto simp: run x)
  qed (simp add: Run_def Inr)
qed (simp add: Run_def)

definition w_env :: env where
  "w_env = map_of [(''APP_ENV'', ''staging''), (''DATABASE_URL'', ''postgres://db/prorab?sslmode=verify-full''),
     (''STORAGE_DRIVER'', ''s3''), (''S3_REGION'', ''eu-central-1''), (''S3_BUCKET'', ''files''),
     (''S3_DELETION_LEDGER_BUCKET'', ''ledger''), (''JWT_SECRET'', ''q7Zx2LmV9tRb4KwYc8NfHd3PsGj6TaUe5XoQi1Bk''),
     (''CORS_ALLOWED_ORIGINS'', ''https://app.example.kg''), (''TRUSTED_PROXY_CIDRS'', ''10.0.0.0/16''),
     (''STAGING_TEST_SMS_PHONE'', ''+996700123456''), (''STAGING_TEST_SMS_CODE'', ''123456'')]"

definition w_pg :: pg_parser where "w_pg = (\<lambda>url. Some (Some \<lparr>tls_insecure = False, tls_server = ''db''\<rparr>, []))"

definition w_config :: config where "w_config = (case Load w_env NoDotEnv of Inr c \<Rightarrow> c | Inl e \<Rightarrow> undefined)"

theorem Run_process_ok_witness:
  "\<exists>A origins. fst (run_state (Run w_env NoDotEnv w_pg ''/srv'') s_storage) = Some (A, origins) \<and> process_ok A origins"
proof -
  have "isl (Load w_env NoDotEnv) = False" by code_simp
  then have l: "Load w_env NoDotEnv = Inr w_config" by (auto simp: w_config_def split: sum.splits)
  have v: "Validate w_pg w_config = None" by code_simp
  have s: "g_storage w_config = ''s3''" by code_simp
  have ex: "extern s_storage = []" by code_simp
  show ?thesis
    using Run_process_ok [where e = w_env and dot = NoDotEnv and pg = w_pg and cwd = "''/srv''" and w = s_storage] l v s ex
    by (auto split: prod.splits)
qed

text \<open>The exception exists: a development environment with the upload directory ``.''.\<close>

definition w_dot_env :: env where
  "w_dot_env = map_of [(''APP_ENV'', ''development''), (''DATABASE_URL'', ''postgres://db/prorab''), (''UPLOAD_DIR'', ''.''),
     (''JWT_SECRET'', ''q7Zx2LmV9tRb4KwYc8NfHd3PsGj6TaUe5XoQi1Bk'')]"

lemma dot_upload_dir_refused:
  "case Load w_dot_env NoDotEnv of Inl e \<Rightarrow> False
   | Inr c \<Rightarrow> Validate w_pg c = None \<and> fst (run_state (Run w_dot_env NoDotEnv w_pg ''/srv'') s_storage) = None"
  by code_simp

end
