(* ===== verification/Services.thy ===== *)
theory Services
  imports Permissions Projects Netip Calendar Object_Store
begin

text \<open>
  The small services of \<open>internal/httpapi\<close>: reading the audit log (\<open>audit_logs.go\<close>), device tokens
  (\<open>push_tokens.go\<close>), support tickets (\<open>support.go\<close>), the opening of an event stream (\<open>realtime.go\<close>) and
  the probes (\<open>health.go\<close>, \<open>ready.go\<close>, \<open>ready_check.go\<close>, \<open>db_check.go\<close> and the \<open>Check\<close> methods of the stores).
\<close>

section \<open>The audit log\<close>

record audit_dto =
  ad_id :: uuid
  ad_project :: string
  ad_action :: string
  ad_type :: string
  ad_entity :: string
  ad_created :: time

datatype audit_payload = AuditList "audit_dto list"

definition audit_dto_of :: "audit_row \<Rightarrow> audit_dto" where
  "audit_dto_of l = \<lparr>ad_id = l_id l, ad_project = or_empty (l_project l), ad_action = l_action l,
     ad_type = l_entity_type l, ad_entity = or_empty (l_entity l), ad_created = l_created l\<rparr>"

definition sel_audits :: "uuid \<Rightarrow> db \<Rightarrow> audit_dto list" where
  "sel_audits pid d = map audit_dto_of (take 100 (sort_key (\<lambda>l. - l_created l)
     (filter (\<lambda>l. l_project l = Some pid) (audits d))))"

definition AuditLogs :: "app_state \<Rightarrow> audit_payload handler" where
  "AuditLogs A r =
     (if rq_method r \<noteq> ''GET'' then methodNotAllowed
      else if \<not> st_db A then dbNotAvailable
      else let u = userIDFromContext r; pid = get_first (rq_query r) ''project_id'' in
        if pid = [] then fail 400 ''project_id is required''
        else do {
          ok \<leftarrow> canAccessProject u pid;
          if \<not> ok then fail 403 ''project access denied''
          else do {
            rows \<leftarrow> query Pool (\<lambda>t d. sel_audits pid d);
            (case rows of
               Rows ls \<Rightarrow> reply 200 (AuditList ls)
             | QueryErr \<Rightarrow> fail 500 ''failed to load audit logs''
             | ScanErr \<Rightarrow> fail 500 ''failed to scan audit log''
             | RowsErr \<Rightarrow> fail 500 ''failed to read audit logs'')
          }
        })"

section \<open>Device tokens\<close>

record push_req =
  pq_token :: string
  pq_platform :: string

datatype push_payload = PushDone

definition decode_push :: "request \<Rightarrow> push_req option" where
  "decode_push r = do {
     fs \<leftarrow> decode_body r;
     k \<leftarrow> str_field fs ''token'';
     p \<leftarrow> str_field fs ''platform'';
     Some \<lparr>pq_token = k, pq_platform = p\<rparr>
   }"

text \<open>A token belongs to one account: a second registration moves it.\<close>

definition upsert_push :: "uuid \<Rightarrow> string \<Rightarrow> string \<Rightarrow> uuid \<Rightarrow> unit sql" where
  "upsert_push u k p i t d =
     (if user_by_id d u = None \<or> p \<notin> {''android'', ''ios''} then (SqlErr, d)
      else if k \<in> g_token ` set (push_tokens d)
      then (Row (), d\<lparr>push_tokens := upd_where (\<lambda>g. g_token g = k)
        (\<lambda>g. g\<lparr>g_user := u, g_platform := p, g_updated := t, g_seen := t\<rparr>) (push_tokens d)\<rparr>)
      else if i \<in> g_id ` set (push_tokens d) then (SqlErr, d)
      else (Row (), d\<lparr>push_tokens := push_tokens d @
        [\<lparr>g_id = i, g_user = u, g_token = k, g_platform = p, g_created = t, g_updated = t, g_seen = t\<rparr>]\<rparr>))"

definition del_push :: "uuid \<Rightarrow> string \<Rightarrow> time \<Rightarrow> db \<Rightarrow> db" where
  "del_push u k t d = d\<lparr>push_tokens := filter (\<lambda>g. \<not> (g_user g = u \<and> g_token g = k)) (push_tokens d)\<rparr>"

definition registerPush :: "uuid \<Rightarrow> push_payload handler" where
  "registerPush u r =
     (case decode_push r of
        None \<Rightarrow> fail 400 ''invalid JSON body''
      | Some q \<Rightarrow> let k = trim_space (pq_token q); p = to_lower (trim_space (pq_platform q)) in
          if k = [] \<or> 4096 < length k \<or> (p \<noteq> ''android'' \<and> p \<noteq> ''ios'')
          then fail 400 ''token and platform (android or ios) are required''
          else do {
            x \<leftarrow> insert_stmt Pool (upsert_push u k p);
            if x = SqlErr then fail 500 ''failed to register push token'' else reply 204 PushDone
          })"

definition removePush :: "uuid \<Rightarrow> push_payload handler" where
  "removePush u r =
     (case decode_push r of
        None \<Rightarrow> fail 400 ''invalid JSON body''
      | Some q \<Rightarrow> do {
          x \<leftarrow> exec Pool (del_push u (trim_space (pq_token q)));
          if x = SqlErr then fail 500 ''failed to remove push token'' else reply 204 PushDone
        })"

definition PushTokens :: "app_state \<Rightarrow> push_payload handler" where
  "PushTokens A r =
     (let u = userIDFromContext r in
      if u = [] \<or> \<not> st_db A then dbNotAvailable
      else if rq_method r = ''POST'' then registerPush u r
      else if rq_method r = ''DELETE'' then removePush u r
      else methodNotAllowed)"

section \<open>Support tickets\<close>

record ticket_req =
  tq_channel :: string
  tq_subject :: string
  tq_message :: string

datatype support_payload = Channels "bool \<times> string" "bool \<times> string" | Ticket ticket_row

definition telegramSupportConfigured :: "app_state \<Rightarrow> bool" where
  "telegramSupportConfigured A \<longleftrightarrow> trim_space (st_telegram_token A) \<noteq> [] \<and> trim_space (st_telegram_chat A) \<noteq> []"

definition whatsappSupportConfigured :: "app_state \<Rightarrow> bool" where
  "whatsappSupportConfigured A \<longleftrightarrow> trim_space (st_whatsapp_token A) \<noteq> [] \<and> trim_space (st_whatsapp_phone A) \<noteq> []
     \<and> trim_space (st_whatsapp_to A) \<noteq> []"

definition SupportChannels :: "app_state \<Rightarrow> support_payload handler" where
  "SupportChannels A r =
     (if rq_method r \<noteq> ''GET'' then methodNotAllowed
      else reply 200 (Channels (telegramSupportConfigured A, st_telegram_url A) (whatsappSupportConfigured A, st_whatsapp_url A)))"

definition decode_ticket :: "request \<Rightarrow> ticket_req option" where
  "decode_ticket r = do {
     fs \<leftarrow> decode_body r;
     c \<leftarrow> str_field fs ''Channel'';
     s \<leftarrow> str_field fs ''Subject'';
     m \<leftarrow> str_field fs ''Message'';
     Some \<lparr>tq_channel = to_lower (trim_space c), tq_subject = trim_space s, tq_message = trim_space m\<rparr>
   }"

definition ins_ticket :: "uuid \<Rightarrow> ticket_req \<Rightarrow> uuid \<Rightarrow> ticket_row sql" where
  "ins_ticket u q i t d =
     (if user_by_id d u = None \<or> tq_channel q \<notin> {''telegram'', ''whatsapp''} \<or> i \<in> h_id ` set (tickets d) then (SqlErr, d)
      else let h = \<lparr>h_id = i, h_user = u, h_channel = tq_channel q, h_subject = tq_subject q, h_message = tq_message q,
          h_status = ''not_configured'', h_error = None, h_created = t, h_updated = t\<rparr>
        in (Row h, d\<lparr>tickets := tickets d @ [h]\<rparr>))"

definition createSupportTicket :: "uuid \<Rightarrow> ticket_req \<Rightarrow> (world, ticket_row sqlres) state" where
  "createSupportTicket u q = insert_stmt Pool (ins_ticket u q)"

definition upd_delivery :: "uuid \<Rightarrow> string \<Rightarrow> string \<Rightarrow> time \<Rightarrow> db \<Rightarrow> db" where
  "upd_delivery i status err t d = d\<lparr>tickets := upd_where (\<lambda>h. h_id h = i)
     (\<lambda>h. h\<lparr>h_status := status, h_error := null_if_empty err, h_updated := t\<rparr>) (tickets d)\<rparr>"

definition updateSupportDelivery :: "uuid \<Rightarrow> string \<Rightarrow> string \<Rightarrow> (world, unit) state" where
  "updateSupportDelivery i status err = do { _ \<leftarrow> exec Pool (upd_delivery i status err); ret () }"

definition support_text :: "uuid \<Rightarrow> string \<Rightarrow> ticket_row \<Rightarrow> string" where
  "support_text u phone h = ''STROY support'' @ [CHR 0x0A] @ ''User: '' @ u @ [CHR 0x0A] @ ''Phone: '' @ phone @ [CHR 0x0A]
     @ ''Subject: '' @ h_subject h @ [CHR 0x0A, CHR 0x0A] @ h_message h"

text \<open>
  \<open>deliverSupportTicket\<close>. The providers (\<open>sendTelegramSupport\<close>, \<open>sendWhatsAppSupport\<close>: one HTTPS request) are
  the parameter \<open>send\<close>: from the channel and the text to the error, if any.
\<close>

type_synonym provider = "string \<Rightarrow> string \<Rightarrow> string option"

definition deliverSupportTicket ::
  "app_state \<Rightarrow> provider \<Rightarrow> uuid \<Rightarrow> ticket_row \<Rightarrow> (world, string \<times> string) state" where
  "deliverSupportTicket A send u h = do {
     row \<leftarrow> sel Pool (\<lambda>t d. row_of (map_option u_phone (user_by_id d u)));
     let phone = (case row of Row p \<Rightarrow> or_empty p | _ \<Rightarrow> []);
     let configured = (if h_channel h = ''telegram'' then telegramSupportConfigured A else whatsappSupportConfigured A);
     ret (if \<not> configured then (''not_configured'', [])
          else (case send (h_channel h) (support_text u phone h) of
             Some e \<Rightarrow> (''failed'', e)
           | None \<Rightarrow> (''sent'', [])))
   }"

definition SupportTickets :: "app_state \<Rightarrow> provider \<Rightarrow> support_payload handler" where
  "SupportTickets A send r =
     (if rq_method r \<noteq> ''POST'' then methodNotAllowed
      else (case decode_ticket r of
         None \<Rightarrow> fail 400 ''invalid request body''
       | Some q \<Rightarrow>
           if tq_channel q \<noteq> ''telegram'' \<and> tq_channel q \<noteq> ''whatsapp'' then fail 400 ''channel must be telegram or whatsapp''
           else if 120 < length (tq_subject q) then fail 400 ''subject is too long''
           else if tq_message q = [] \<or> 4000 < length (tq_message q) then fail 400 ''message must contain 1 to 4000 characters''
           else let u = userIDFromContext r in
             if u = [] then fail 401 ''authentication required''
             else do {
               row \<leftarrow> createSupportTicket u q;
               (case row of
                  NoRows \<Rightarrow> fail 500 ''failed to save support request''
                | SqlErr \<Rightarrow> fail 500 ''failed to save support request''
                | Row h \<Rightarrow> do {
                    se \<leftarrow> deliverSupportTicket A send u h;
                    updateSupportDelivery (h_id h) (fst se) (snd se);
                    reply 201 (Ticket (h\<lparr>h_status := fst se\<rparr>))
                  })
             }))"

section \<open>Event streams\<close>

datatype stream_payload = Stream nat

text \<open>\<open>RealtimeEvents\<close> up to the stream itself: admission and the headers of the answer.\<close>

definition RealtimeEvents :: "stream_payload handler" where
  "RealtimeEvents r =
     (if rq_method r \<noteq> ''GET'' then methodNotAllowed
      else let u = userIDFromContext r; pid = trim_space (get_first (rq_query r) ''project_id'') in do {
        ok \<leftarrow> (if pid \<noteq> [] then canAccessProject u pid else ret True);
        if \<not> ok then fail 403 ''project access denied''
        else do {
          sub \<leftarrow> State (\<lambda>w. case hub_subscribe (hub w) u pid of
            None \<Rightarrow> (None, w) | Some (i, h) \<Rightarrow> (Some i, w\<lparr>hub := h\<rparr>));
          (case sub of
             None \<Rightarrow> do {
               set_header ''Retry-After'' ''10'';
               fail 429 ''too many realtime connections''
             }
           | Some i \<Rightarrow> do {
               set_header ''Content-Type'' ''text/event-stream'';
               set_header ''Cache-Control'' ''no-cache, no-store'';
               set_header ''Connection'' ''keep-alive'';
               set_header ''X-Accel-Buffering'' ''no'';
               reply 200 (Stream i)
             })
        }
      })"

section \<open>Probes\<close>

datatype probe_payload = HealthOk | NotReady | IsReady | DatabaseNotConnected

definition Health :: "probe_payload handler" where
  "Health r = (if rq_method r \<noteq> ''GET'' then methodNotAllowed else reply 200 HealthOk)"

definition DBCheck :: "probe_payload handler" where
  "DBCheck r = reply 200 DatabaseNotConnected"

text \<open>\<open>n\<close> external calls, up to the first that fails.\<close>

fun calls_ok :: "nat \<Rightarrow> (world, bool) state" where
  "calls_ok 0 = ret True"
| "calls_ok (Suc n) = do { ok \<leftarrow> extern_ok; if ok then calls_ok n else ret False }"

text \<open>
  \<open>Check\<close>. The local store creates, closes and removes a file (which it also removes when it cannot be
  closed); the S3 store asks for the bucket and the ledger, writes a probe to the ledger and deletes it.
\<close>

definition local_check :: "(world, bool) state" where
  "local_check = do {
     created \<leftarrow> extern_ok;
     if \<not> created then ret False
     else do {
       closed \<leftarrow> extern_ok;
       if \<not> closed then do { _ \<leftarrow> extern_ok; ret False } else extern_ok
     }
   }"

definition s3_check :: "(world, bool) state" where
  "s3_check = calls_ok 4"

fun store_check :: "object_store \<Rightarrow> (world, bool) state" where
  "store_check (LocalStore base) = local_check"
| "store_check (S3Store bucket lbucket) = s3_check"

text \<open>The check \<open>app.Run\<close> installs (\<open>SetReadyCheck\<close>): the database answers a ping, then the store its check.\<close>

definition readyCheck :: "app_state \<Rightarrow> (world, bool) state" where
  "readyCheck A = do {
     pinged \<leftarrow> extern_ok;
     if \<not> pinged then ret False
     else (case st_file_store A of None \<Rightarrow> ret False | Some S \<Rightarrow> store_check S)
   }"

definition Ready :: "app_state \<Rightarrow> probe_payload handler" where
  "Ready A r =
     (if rq_method r \<noteq> ''GET'' then methodNotAllowed
      else do { ok \<leftarrow> readyCheck A; if ok then reply 200 IsReady else reply 503 NotReady })"

end
