(* ===== verification/Services_Facts.thy ===== *)
theory Services_Facts
  imports Services Files_Facts
begin

text \<open>What the small services do to the tables, and what they answer.\<close>

section \<open>The audit log\<close>

lemma AuditLogs_scope:
  "wp (AuditLogs A r) (\<lambda>resp w'. db w' = db w \<and> (\<forall>s p. resp = Reply s p \<longrightarrow>
     (let pid = get_first (rq_query r) ''project_id'' in
      p = AuditList (sel_audits pid (db w)) \<and> allowed (db w) (userIDFromContext r) pid PermissionRead))) w"
  unfolding AuditLogs_def by (intro wps) (auto simp: Let_def)

lemma sel_audits_bound: "length (sel_audits pid d) \<le> 100" "x \<in> set (sel_audits pid d) \<Longrightarrow> pid \<noteq> [] \<Longrightarrow> ad_project x = pid"
  by (auto simp: sel_audits_def audit_dto_of_def or_empty_def dest!: in_set_takeD)

section \<open>Device tokens\<close>

text \<open>A registered token belongs to the caller and to nobody else; the other tokens stay.\<close>

definition token_of :: "uuid \<Rightarrow> string \<Rightarrow> push_row list \<Rightarrow> push_row list \<Rightarrow> bool" where
  "token_of u k gs gs' \<longleftrightarrow> k \<in> g_token ` set gs' \<and> (\<forall>g\<in>set gs'. g_token g = k \<longrightarrow> g_user g = u)
     \<and> filter (\<lambda>g. g_token g \<noteq> k) gs' = filter (\<lambda>g. g_token g \<noteq> k) gs
     \<and> (distinct (map g_token gs) \<longrightarrow> distinct (map g_token gs'))"

lemma token_moved:
  fixes e :: "push_row \<Rightarrow> push_row"
  assumes e: "\<And>g. g_token (e g) = g_token g" "\<And>g. g_user (e g) = u" and k: "k \<in> g_token ` set gs"
  shows "token_of u k gs (upd_where (\<lambda>g. g_token g = k) e gs)"
proof -
  let ?gs = "upd_where (\<lambda>g. g_token g = k) e gs"
  have f: "filter (\<lambda>g. g_token g \<noteq> k) ?gs = filter (\<lambda>g. g_token g \<noteq> k) gs"
    by (induction gs) (simp_all add: upd_where_def e)
  have m: "map g_token ?gs = map g_token gs" by (rule map_upd_where) (rule e)
  have "g_token ` set ?gs = g_token ` set gs" by (simp only: set_map [symmetric] m)
  moreover have "g_user g = u" if "g \<in> set ?gs" "g_token g = k" for g
  proof -
    obtain x where x: "g = (if g_token x = k then e x else x)" using \<open>g \<in> set ?gs\<close> unfolding upd_where_def set_map by (rule imageE)
    then have "g_token x = k" using \<open>g_token g = k\<close> e(1) [of x] by (cases "g_token x = k") simp_all
    then show ?thesis using x e(2) by simp
  qed
  ultimately show ?thesis using k f m by (simp add: token_of_def)
qed

lemma upsert_push_owner:
  assumes "upsert_push u k p i t d = (x, d')" "x \<noteq> SqlErr" shows "token_of u k (push_tokens d) (push_tokens d')"
proof (cases "k \<in> g_token ` set (push_tokens d)")
  case True
  then show ?thesis using assms by (auto simp: upsert_push_def intro!: token_moved split: if_splits)
next
  case False
  then have n: "\<forall>x\<in>set (push_tokens d). g_token x \<noteq> k" by auto
  moreover have "filter (\<lambda>g. g_token g \<noteq> k) (push_tokens d) = push_tokens d" using n by (simp add: filter_id_conv)
  moreover obtain g where "push_tokens d' = push_tokens d @ [g]" "g_user g = u" "g_token g = k"
    using assms False by (auto simp: upsert_push_def split: if_splits)
  ultimately show ?thesis using False by (auto simp: token_of_def)
qed

lemma PushTokens_owner:
  "wp (PushTokens A r) (\<lambda>resp w'. case resp of
      Error s m \<Rightarrow> db w' = db w
    | Reply s p \<Rightarrow> rq_method r = ''POST'' \<longrightarrow> (\<exists>q. decode_push r = Some q \<and> trim_space (pq_token q) \<noteq> []
        \<and> token_of (userIDFromContext r) (trim_space (pq_token q)) (push_tokens (db w)) (push_tokens (db w')))) w"
  unfolding PushTokens_def registerPush_def removePush_def Let_def
  by (intro wps) (auto dest: upsert_push_owner)

section \<open>Support tickets\<close>

text \<open>
  An answered ticket is stored for the caller with the channel and the text of the request; whether it
  could be delivered only shows in its status.
\<close>

lemma deliver_status: "wp (deliverSupportTicket A send u h) (\<lambda>se w'. db w' = db w \<and> fst se \<in> {''not_configured'', ''sent'', ''failed''}) w"
  unfolding deliverSupportTicket_def by (intro wps) (auto simp: Let_def split: option.splits)

lemma ins_ticket_row:
  "ins_ticket u q i t d = (Row h, d') \<Longrightarrow> h_user h = u \<and> h_channel h = tq_channel q \<and> h_subject h = tq_subject q
     \<and> h_message h = tq_message q \<and> tickets d' = tickets d @ [h]"
  by (auto simp: ins_ticket_def Let_def split: if_splits)

lemma ins_ticket_no_rows: "ins_ticket u q i t d \<noteq> (NoRows, d')"
  by (auto simp: ins_ticket_def Let_def)

lemma upd_delivery_ids: "h_id ` set (tickets (upd_delivery i s e t d)) = h_id ` set (tickets d)"
proof -
  have "map h_id (tickets (upd_delivery i s e t d)) = map h_id (tickets d)"
    by (simp add: upd_delivery_def upd_where_def)
  then show ?thesis by (metis set_map)
qed

lemma SupportTickets_saved:
  "wp (SupportTickets A send r) (\<lambda>resp w'. case resp of
      Error s m \<Rightarrow> db w' = db w
    | Reply s p \<Rightarrow> (\<exists>h q. p = Ticket h \<and> decode_ticket r = Some q \<and> h_user h = userIDFromContext r
        \<and> h_channel h = tq_channel q \<and> h_subject h = tq_subject q \<and> h_message h = tq_message q
        \<and> h_status h \<in> {''not_configured'', ''sent'', ''failed''} \<and> h_id h \<in> h_id ` set (tickets (db w')))) w"
  unfolding SupportTickets_def createSupportTicket_def deliverSupportTicket_def updateSupportDelivery_def Let_def
  by (intro wps) (auto dest!: ins_ticket_row simp: upd_delivery_ids ins_ticket_no_rows split: option.splits)

end
