(* ===== verification/Expense_Search.thy ===== *)
theory Expense_Search
  imports Cost_Items Deletion_Worker Netip
begin

text \<open>
  The search for expenses in natural language (\<open>internal/httpapi/expense_ai.go\<close>, \<open>expense_ai_providers.go\<close>).
  Language models outside the program select ids of cost items; the server keeps what exists in the
  project and computes the totals. What the models answer (\<open>ai_call\<close>: the text of the answer, or no
  answer), \<open>strings.ToLower\<close> beyond ASCII, the length of a JSON encoding and the JSON tokenizer are parameters.
  Whether the context has ended is an external decision; the chunks share nothing, so their order does not matter.
\<close>

definition maxExpenseAIQueryLength :: nat where "maxExpenseAIQueryLength = 500"
definition expenseAIChunkSize :: nat where "expenseAIChunkSize = 100"
definition maxExpenseAIPromptBytes :: nat where "maxExpenseAIPromptBytes = 16 * 1024"

section \<open>Text in UTF-8\<close>

definition continues :: "char \<Rightarrow> bool" where
  "continues c \<longleftrightarrow> 128 \<le> byte c \<and> byte c < 192"

definition rune_count :: "string \<Rightarrow> nat" where
  "rune_count s = count_where (\<lambda>c. \<not> continues c) s"

fun take_runes :: "nat \<Rightarrow> string \<Rightarrow> string" where
  "take_runes n [] = []"
| "take_runes n (c # cs) =
     (if continues c then c # take_runes n cs
      else (case n of 0 \<Rightarrow> [] | Suc m \<Rightarrow> c # take_runes m cs))"

text \<open>\<open>strings.Fields\<close>: \<open>k\<close> characters of a space still to be skipped, the word so far.\<close>

fun split_spaces :: "nat \<Rightarrow> string \<Rightarrow> string \<Rightarrow> string list" where
  "split_spaces k cur [] = [cur]"
| "split_spaces (Suc k) cur (c # cs) = split_spaces k cur cs"
| "split_spaces 0 cur (c # cs) =
     (case find (\<lambda>p. has_prefix p (c # cs)) spaces of
        Some p \<Rightarrow> cur # split_spaces (length p - 1) [] cs
      | None \<Rightarrow> split_spaces 0 (cur @ [c]) cs)"

definition words_of :: "string \<Rightarrow> string list" where
  "words_of s = filter (\<lambda>w. w \<noteq> []) (split_spaces 0 [] s)"

text \<open>A Russian word, written with one Latin letter for each of the 32 letters from U+0430 to U+044F.\<close>

definition cyr :: "nat \<Rightarrow> string" where
  "cyr n = [char_of (208 + n div 64), char_of (128 + n mod 64)]"

definition ru_letters :: string where "ru_letters = ''abvgdeZzijklmnoprstufhcCWwHyXAUQ''"

definition ru :: "string \<Rightarrow> string" where
  "ru w = concat (map (\<lambda>c. case index_of c ru_letters of Some i \<Rightarrow> cyr (48 + i) | None \<Rightarrow> []) w)"

fun replace_yo :: "string \<Rightarrow> string" where
  "replace_yo [] = []"
| "replace_yo (c # cs) =
     (if has_prefix (cyr 81) (c # cs) then cyr 53 @ replace_yo (drop 1 cs) else c # replace_yo cs)"

section \<open>Parameters\<close>

record ai_item =
  ai_id :: string
  ai_title :: string
  ai_description :: string
  ai_category :: string
  ai_amount :: f64
  ai_currency :: string
  ai_vendor :: string
  ai_spent :: string

record ai_provider =
  pv_name :: string
  pv_key :: string
  pv_model :: string
  pv_endpoint :: string
  pv_kind :: string

record ai_selection =
  as_ids :: "string list"
  as_summary :: string

record ai_ports =
  ai_lower :: "string \<Rightarrow> string"
  ai_size :: "ai_item \<Rightarrow> nat"
  ai_json :: "string \<Rightarrow> json option"
  ai_call :: "ai_provider \<Rightarrow> string \<Rightarrow> cost_dto list \<Rightarrow> string option"

section \<open>Search without a model\<close>

definition expenseSearchStopWords :: "string list" where
  "expenseSearchStopWords =
   [ru ''skolXko'', ru ''potratil'', ru ''potratili'', ru ''potraCeno'', ru ''rashod'', ru ''rashody'',
    ru ''rashodov'', ru ''pokaZi'', ru ''pokazatX'', ru ''najdi'', ru ''najti'', ru ''posCitaj'', ru ''podsCitaj'',
    ru ''rassCitaj'', ru ''oplatil'', ru ''oplatili'', ru ''summarno'', ru ''obwaQ'', ru ''obwij'', ru ''obwuU'',
    ru ''obwie'', ru ''itogo'', ru ''summa'', ru ''summu'', ru ''vsego'', ru ''vse'', ru ''vesX'', ru ''period'',
    ru ''deneg'', ru ''denXgi'', ru ''na'', ru ''po'', ru ''za'', ru ''i'', ru ''v'', ru ''rublej'', ru ''rublX'',
    ru ''som'', ru ''soma'', ru ''somov'', ru ''kgs'', ''kgs'']"

definition expenseSearchSuffixes :: "string list" where
  "expenseSearchSuffixes =
   [ru ''iQmi'', ru ''ami'', ru ''Qmi'', ru ''ogo'', ru ''emu'', ru ''omu'', ru ''ov'', ru ''ev'', ru ''am'',
    ru ''Qm'', ru ''ah'', ru ''Qh'', ru ''om'', ru ''em'', ru ''oj'', ru ''ij'', ru ''yj'', ru ''aQ'', ru ''oe'',
    ru ''ye'', ru ''y'', ru ''i'', ru ''a'', ru ''Q'', ru ''e'', ru ''u'', ru ''U'']"

definition normalizeExpenseSearchText :: "ai_ports \<Rightarrow> string \<Rightarrow> string" where
  "normalizeExpenseSearchText P v =
     (let s = ai_lower P (replace_yo v); s' = map (\<lambda>c. if c \<in> set '',.!?:;-_/'' then CHR '' '' else c) s
      in join_with '' '' (words_of s'))"

definition expenseSearchTerms :: "ai_ports \<Rightarrow> string \<Rightarrow> string list" where
  "expenseSearchTerms P qry =
     filter (\<lambda>w. \<not> rune_count w < 3 \<and> w \<notin> set expenseSearchStopWords) (words_of (normalizeExpenseSearchText P qry))"

definition isExpenseAggregateQuery :: "ai_ports \<Rightarrow> string \<Rightarrow> bool" where
  "isExpenseAggregateQuery P qry \<longleftrightarrow> length (expenseSearchTerms P qry) = 0"

definition expenseSearchTermMatches :: "string \<Rightarrow> string \<Rightarrow> bool" where
  "expenseSearchTermMatches txt trm \<longleftrightarrow> contains_sub trm txt
     \<or> list_ex (\<lambda>x. rune_count x + 3 < rune_count trm \<and> has_suffix x trm
          \<and> contains_sub (take (length trm - length x) trm) txt) expenseSearchSuffixes"

definition localExpenseMatches :: "ai_ports \<Rightarrow> cost_dto list \<Rightarrow> string \<Rightarrow> cost_dto list" where
  "localExpenseMatches P items qry =
     (let trms = expenseSearchTerms P qry in
      if trms = [] then items
      else filter (\<lambda>k. let txt = normalizeExpenseSearchText P
          (join_with '' '' [kd_title k, kd_description k, kd_category k, kd_vendor k])
        in list_ex (expenseSearchTermMatches txt) trms) items)"

definition validExpenseSelection :: "cost_dto list \<Rightarrow> string list \<Rightarrow> cost_dto list" where
  "validExpenseSelection items ids =
     (let wanted = filter (\<lambda>i. i \<noteq> []) (map trim_space ids) in filter (\<lambda>k. kd_id k \<in> set wanted) items)"

definition mergeExpenseSelections :: "cost_dto list \<Rightarrow> cost_dto list list \<Rightarrow> cost_dto list" where
  "mergeExpenseSelections items selections =
     (let wanted = filter (\<lambda>i. i \<noteq> []) (map kd_id (concat selections)) in filter (\<lambda>k. kd_id k \<in> set wanted) items)"

section \<open>Providers\<close>

definition ai_provider_of :: "app_state \<Rightarrow> string \<Rightarrow> ai_provider option" where
  "ai_provider_of A raw =
     (let nm = to_lower (trim_space raw);
          p = (\<lambda>key model fallback endpoint kind. Some \<lparr>pv_name = nm, pv_key = trim_space key,
            pv_model = (if trim_space model = [] then fallback else trim_space model), pv_endpoint = endpoint, pv_kind = kind\<rparr>)
      in if nm = ''gemini'' then p (st_gemini_key A) (st_gemini_model A) ''gemini-3.5-flash-lite''
             ''https://generativelanguage.googleapis.com/v1beta/models/'' ''gemini''
         else if nm = ''deepseek'' then p (st_deepseek_key A) (st_deepseek_model A) ''deepseek-chat''
             ''https://api.deepseek.com/chat/completions'' ''openai-compatible''
         else if nm = ''groq'' then p (st_groq_key A) (st_groq_model A) ''openai/gpt-oss-20b''
             ''https://api.groq.com/openai/v1/chat/completions'' ''openai-compatible''
         else if nm = ''openrouter'' then p (st_openrouter_key A) (st_openrouter_model A) ''openrouter/free''
             ''https://openrouter.ai/api/v1/chat/completions'' ''openai-compatible''
         else if nm = ''openrouter-fallback'' then p (st_openrouter_key A) (st_openrouter_fallback A) ''nex-agi/nex-n2.5-pro:free''
             ''https://openrouter.ai/api/v1/chat/completions'' ''openai-compatible''
         else None)"

definition configuredExpenseAIProviders :: "app_state \<Rightarrow> ai_provider list" where
  "configuredExpenseAIProviders A =
     (let order = (if st_ai_order A = [] then [''deepseek'', ''gemini'', ''groq'', ''openrouter'', ''openrouter-fallback'']
          else st_ai_order A)
      in filter (\<lambda>p. pv_key p \<noteq> []) (List.map_filter (ai_provider_of A) order))"

definition trimExpenseAIText :: "string \<Rightarrow> nat \<Rightarrow> string" where
  "trimExpenseAIText v0 n =
     (let v = trim_space v0 in if rune_count v \<le> n then v else trim_space (take_runes n v))"

definition ai_item_of :: "cost_dto \<Rightarrow> ai_item" where
  "ai_item_of k = \<lparr>ai_id = kd_id k, ai_title = trimExpenseAIText (kd_title k) 160,
     ai_description = trimExpenseAIText (kd_description k) 240, ai_category = trimExpenseAIText (kd_category k) 100,
     ai_amount = kd_amount k, ai_currency = kd_currency k, ai_vendor = trimExpenseAIText (kd_vendor k) 120,
     ai_spent = kd_spent k\<rparr>"

text \<open>The loop: the items taken so far and the bytes of their encoding. Amounts of stored items always encode.\<close>

fun compact_from :: "ai_ports \<Rightarrow> ai_item list \<Rightarrow> nat \<Rightarrow> cost_dto list \<Rightarrow> ai_item list" where
  "compact_from P taken bytes [] = taken"
| "compact_from P taken bytes (k # ks) =
     (let c = ai_item_of k; n = ai_size P c in
      if taken \<noteq> [] \<and> maxExpenseAIPromptBytes < bytes + n + 1 then taken
      else compact_from P (taken @ [c]) (bytes + n + 1) ks)"

definition compactExpenseAIModelItems :: "ai_ports \<Rightarrow> cost_dto list \<Rightarrow> ai_item list" where
  "compactExpenseAIModelItems P items = compact_from P [] 2 items"

fun split_from :: "ai_ports \<Rightarrow> cost_dto list \<Rightarrow> cost_dto list \<Rightarrow> cost_dto list list" where
  "split_from P current [] = (if current \<noteq> [] then [current] else [])"
| "split_from P current (k # ks) =
     (let full = expenseAIChunkSize \<le> length current; cur = (if full then [] else current); candidate = cur @ [k] in
      (if full then [current] else []) @
      (if cur \<noteq> [] \<and> length (compactExpenseAIModelItems P candidate) < length candidate
       then cur # split_from P [k] ks else split_from P candidate ks))"

definition splitExpenseAIItems :: "ai_ports \<Rightarrow> cost_dto list \<Rightarrow> cost_dto list list" where
  "splitExpenseAIItems P items = split_from P [] items"

section \<open>The answer of a model\<close>

text \<open>The part of the text that should be the JSON object.\<close>

definition selection_text :: "string \<Rightarrow> string" where
  "selection_text raw =
     (let fence = replicate 3 (CHR 0x60);
          a = trim_prefix fence (trim_prefix (fence @ ''json'') (trim_space raw));
          b = trim_space (if has_suffix fence a then take (length a - 3) a else a)
      in case index_of CHR ''{'' b of
           None \<Rightarrow> b
         | Some i \<Rightarrow> (case last_index_of CHR ''}'' b of
               None \<Rightarrow> b
             | Some j \<Rightarrow> if i \<le> j then take (j + 1 - i) (drop i b) else b))"

text \<open>A \<open>[]string\<close> field: \<open>null\<close> in the list is an empty string.\<close>

definition str_elem :: "json \<Rightarrow> string option" where
  "str_elem v = (case v of JStr s \<Rightarrow> Some s | JNull \<Rightarrow> Some [] | _ \<Rightarrow> None)"

definition strs_value :: "json \<Rightarrow> string list option" where
  "strs_value v = (case v of
     JArr vs \<Rightarrow> (if list_ex (\<lambda>x. str_elem x = None) vs then None else Some (List.map_filter str_elem vs)) | _ \<Rightarrow> None)"

definition strs_field :: "(string \<times> json) list \<Rightarrow> string \<Rightarrow> string list option" where
  "strs_field fs n = (let vs = map strs_value (field_values fs n) in
     if list_ex Option.is_none vs then None else Some (last_or [] (List.map_filter id vs)))"

definition parseExpenseAISelection :: "ai_ports \<Rightarrow> string \<Rightarrow> ai_selection option" where
  "parseExpenseAISelection P raw = do {
     j \<leftarrow> ai_json P (selection_text raw);
     fs \<leftarrow> json_pairs j;
     ids \<leftarrow> strs_field fs ''selected_ids'';
     s \<leftarrow> str_field fs ''summary'';
     Some \<lparr>as_ids = ids, as_summary = s\<rparr>
   }"

definition callExpenseAIProvider :: "ai_ports \<Rightarrow> ai_provider \<Rightarrow> string \<Rightarrow> cost_dto list \<Rightarrow> ai_selection option" where
  "callExpenseAIProvider P p qry items = Option.bind (ai_call P p qry items) (parseExpenseAISelection P)"

text \<open>The providers are asked in their order until one gives a selection.\<close>

fun runExpenseAIProviders ::
  "ai_ports \<Rightarrow> string \<Rightarrow> cost_dto list \<Rightarrow> ai_provider list \<Rightarrow> (world, (ai_selection \<times> ai_provider) option) state" where
  "runExpenseAIProviders P qry items [] = ret None"
| "runExpenseAIProviders P qry items (p # ps) = do {
     stop \<leftarrow> ctx_cancelled;
     if stop then ret None
     else (case callExpenseAIProvider P p qry items of
        Some s \<Rightarrow> ret (Some (s, p))
      | None \<Rightarrow> runExpenseAIProviders P qry items ps)
   }"

type_synonym chunk_result = "cost_dto list \<times> (ai_selection \<times> ai_provider) option"

fun run_chunks ::
  "ai_ports \<Rightarrow> string \<Rightarrow> ai_provider list \<Rightarrow> cost_dto list list \<Rightarrow> (world, chunk_result list) state" where
  "run_chunks P qry ps [] = ret []"
| "run_chunks P qry ps (c # cs) = do {
     stop \<leftarrow> ctx_cancelled;
     x \<leftarrow> (if stop then ret None else runExpenseAIProviders P qry c ps);
     rest \<leftarrow> run_chunks P qry ps cs;
     ret ((c, x) # rest)
   }"

definition first_occurrences :: "'a list \<Rightarrow> 'a list" where
  "first_occurrences xs = rev (remdups (rev xs))"

record chunks_result =
  cr_selection :: ai_selection
  cr_provider :: string
  cr_model :: string
  cr_count :: nat
  cr_failed :: bool

definition merge_chunks :: "chunk_result list \<Rightarrow> chunks_result" where
  "merge_chunks rs =
     (let good = List.map_filter (\<lambda>(c, x). map_option (\<lambda>sp. (length c, sp)) x) rs;
          names = (\<lambda>f. join_with ''+'' (first_occurrences (filter (\<lambda>n. n \<noteq> []) (map (\<lambda>(n, s, p). f p) good))));
          ids = first_occurrences (filter (\<lambda>i. i \<noteq> []) (map trim_space (concat (map (\<lambda>(n, s, p). as_ids s) good))));
          summaries = filter (\<lambda>t. t \<noteq> []) (map (\<lambda>(n, s, p). trimExpenseAIText (as_summary s) 300) good)
      in \<lparr>cr_selection = \<lparr>as_ids = ids, as_summary = join_with '' '' summaries\<rparr>, cr_provider = names pv_name,
           cr_model = names pv_model, cr_count = sum_list (map fst good), cr_failed = list_ex (\<lambda>(c, x). x = None) rs\<rparr>)"

definition no_chunks :: "bool \<Rightarrow> chunks_result" where
  "no_chunks failed = \<lparr>cr_selection = \<lparr>as_ids = [], as_summary = []\<rparr>, cr_provider = [], cr_model = [], cr_count = 0,
     cr_failed = failed\<rparr>"

definition runExpenseAIChunks ::
  "ai_ports \<Rightarrow> string \<Rightarrow> cost_dto list \<Rightarrow> ai_provider list \<Rightarrow> (world, chunks_result) state" where
  "runExpenseAIChunks P qry items ps =
     (if items = [] then ret (no_chunks False)
      else if ps = [] then ret (no_chunks True)
      else do { rs \<leftarrow> run_chunks P qry ps (splitExpenseAIItems P items); ret (merge_chunks rs) })"

section \<open>The handler\<close>

datatype search_note = NoProviders | TotalOf nat | Incomplete nat nat | Complete nat

datatype search_summary = NothingFound | SomethingFound | ModelSays string

record search_dto =
  sr_query :: string
  sr_mode :: string
  sr_summary :: search_summary
  sr_note :: search_note
  sr_count :: nat
  sr_totals :: "string \<rightharpoonup> f64"
  sr_items :: "cost_dto list"
  sr_model :: string
  sr_total_count :: nat
  sr_analyzed :: nat
  sr_complete :: bool

datatype search_payload = SearchResult search_dto

definition decode_search :: "request \<Rightarrow> (string \<times> string) option" where
  "decode_search r = do {
     fs \<leftarrow> decode_body r;
     p \<leftarrow> str_field fs ''project_id'';
     q \<leftarrow> str_field fs ''query'';
     Some (trim_space p, trim_space q)
   }"

text \<open>Addition of \<open>float64\<close>; the amounts of stored items are finite.\<close>

definition f_add :: "f64 \<Rightarrow> f64 \<Rightarrow> f64" where
  "f_add x y = (case (x, y) of
     (Fin a, Fin b) \<Rightarrow> f_of (a + b)
   | (NaN, _) \<Rightarrow> NaN | (_, NaN) \<Rightarrow> NaN
   | (PosInf, NegInf) \<Rightarrow> NaN | (NegInf, PosInf) \<Rightarrow> NaN
   | (PosInf, _) \<Rightarrow> PosInf | (NegInf, _) \<Rightarrow> NegInf | (_, PosInf) \<Rightarrow> PosInf | (_, NegInf) \<Rightarrow> NegInf)"

definition item_currency :: "cost_dto \<Rightarrow> string" where
  "item_currency k = (let c = to_upper (trim_space (kd_currency k)) in if c = [] then ''KGS'' else c)"

definition add_total :: "cost_dto \<Rightarrow> (string \<rightharpoonup> f64) \<Rightarrow> (string \<rightharpoonup> f64)" where
  "add_total k m = m(item_currency k \<mapsto> f_add (case m (item_currency k) of None \<Rightarrow> Fin 0 | Some v \<Rightarrow> v) (kd_amount k))"

definition totals :: "cost_dto list \<Rightarrow> (string \<rightharpoonup> f64)" where
  "totals ks = fold add_total ks Map.empty"

text \<open>The selected items with mode, note, summary and model of the answer, and what the models analysed.\<close>

definition select_items ::
  "app_state \<Rightarrow> ai_ports \<Rightarrow> string \<Rightarrow> cost_dto list \<Rightarrow>
   (world, cost_dto list \<times> string \<times> search_note \<times> string \<times> string \<times> nat \<times> bool) state" where
  "select_items A P qry items =
     (let found = localExpenseMatches P items qry; ps = configuredExpenseAIProviders A in
      if isExpenseAggregateQuery P qry then ret (found, ''local'', TotalOf (length items), [], [], 0, False)
      else if ps = [] then ret (found, ''local'', NoProviders, [], [], 0, False)
      else do {
        c \<leftarrow> runExpenseAIChunks P qry items ps;
        let valid = validExpenseSelection items (as_ids (cr_selection c));
        let says = trim_space (as_summary (cr_selection c));
        ret (if cr_failed c
             then (mergeExpenseSelections items [valid, found], ''local'', Incomplete (cr_count c) (length items), says,
               cr_model c, cr_count c, False)
             else (valid, cr_provider c, Complete (length items), says, cr_model c, cr_count c, True))
      })"

definition ExpenseAISearch :: "app_state \<Rightarrow> ai_ports \<Rightarrow> search_payload handler" where
  "ExpenseAISearch A P r =
     (if \<not> st_db A then dbNotAvailable
      else (case decode_search r of
         None \<Rightarrow> fail 400 ''invalid JSON body''
       | Some (pid, qry) \<Rightarrow>
           if pid = [] \<or> qry = [] then fail 400 ''project_id and query are required''
           else if maxExpenseAIQueryLength < rune_count qry then fail 400 ''query is too long''
           else do {
             ok \<leftarrow> canAccessProject (userIDFromContext r) pid;
             if \<not> ok then fail 403 ''project access denied''
             else do {
               rows \<leftarrow> query Pool (\<lambda>t d. sel_costs pid d);
               (case rows of
                  QueryErr \<Rightarrow> fail 500 ''failed to load cost items''
                | ScanErr \<Rightarrow> fail 500 ''failed to load cost items''
                | RowsErr \<Rightarrow> fail 500 ''failed to load cost items''
                | Rows items \<Rightarrow> do {
                    (selected, mode, note, says, model, analyzed, complete) \<leftarrow> select_items A P qry items;
                    reply 200 (SearchResult \<lparr>sr_query = qry, sr_mode = mode,
                      sr_summary = (if says = [] then (if selected = [] then NothingFound else SomethingFound) else ModelSays says),
                      sr_note = note, sr_count = length selected, sr_totals = totals selected, sr_items = selected,
                      sr_model = model, sr_total_count = length items, sr_analyzed = analyzed, sr_complete = complete\<rparr>)
                  })
             }
           }))"

end
