(* ===== verification/Expense_Facts.thy ===== *)
theory Expense_Facts
  imports Expense_Search Files_Facts Samples Project_Facts
begin

text \<open>The search shows only stored cost items of a readable project, whatever the language models answer.\<close>

section \<open>Chunks\<close>

text \<open>A chunk fits when the prompt made for it holds every item of it.\<close>

definition fits :: "ai_ports \<Rightarrow> cost_dto list \<Rightarrow> bool" where
  "fits P ks \<longleftrightarrow> length (compactExpenseAIModelItems P ks) = length ks"

lemma compact_le: "length (compact_from P taken n ks) \<le> length taken + length ks"
  by (induction P taken n ks rule: compact_from.induct) (auto simp: Let_def)

lemma fits_short: "fits P []" "fits P [k]"
  by (simp_all add: fits_def compactExpenseAIModelItems_def Let_def)

lemma fits_iff: "fits P ks \<longleftrightarrow> \<not> length (compactExpenseAIModelItems P ks) < length ks"
  using compact_le [of P "[]" 2 ks] by (simp add: fits_def compactExpenseAIModelItems_def)

lemma split_concat: "concat (split_from P cur ks) = cur @ ks"
  by (induction P cur ks rule: split_from.induct) (auto simp: Let_def)

lemma split_fits:
  "fits P cur \<Longrightarrow> length cur \<le> expenseAIChunkSize \<Longrightarrow> c \<in> set (split_from P cur ks) \<Longrightarrow>
     c \<noteq> [] \<and> length c \<le> expenseAIChunkSize \<and> fits P c"
proof (induction P cur ks rule: split_from.induct)
  case (2 P current k ks)
  let ?full = "expenseAIChunkSize \<le> length current"
  let ?cur = "if ?full then [] else current"
  have one: "1 \<le> expenseAIChunkSize" by (simp add: expenseAIChunkSize_def)
  have cur: "current \<noteq> []" if ?full using that one by auto
  have r: "fits P (?cur @ [k])" if "\<not> (?cur \<noteq> [] \<and> length (compactExpenseAIModelItems P (?cur @ [k])) < length (?cur @ [k]))"
    using that fits_short fits_iff by fastforce
  have l: "length (?cur @ [k]) \<le> expenseAIChunkSize" using one by auto
  show ?case
    using 2 r l one cur fits_short by (auto simp: Let_def split: if_splits)
qed (auto split: if_splits)

section \<open>Results of the models\<close>

definition chunk_ok :: "ai_ports \<Rightarrow> string \<Rightarrow> ai_provider list \<Rightarrow> chunk_result \<Rightarrow> bool" where
  "chunk_ok P q ps cx \<longleftrightarrow> (case snd cx of None \<Rightarrow> True
     | Some (s, p) \<Rightarrow> p \<in> set ps \<and> callExpenseAIProvider P p q (fst cx) = Some s)"

lemma wp_ctx_cancelled: "(\<And>b ex. Q b (w\<lparr>extern := ex\<rparr>)) \<Longrightarrow> wp ctx_cancelled Q w"
  unfolding ctx_cancelled_def by (intro wps) (auto simp: wp_return_eq)

lemma wp_providers:
  assumes "\<And>x ex. chunk_ok P q ps (c, x) \<Longrightarrow> Q x (w\<lparr>extern := ex\<rparr>)"
  shows "wp (runExpenseAIProviders P q c ps) Q w"
  using assms
proof (induction ps arbitrary: w)
  case Nil
  from Nil.prems [of None "extern w"] show ?case by (simp add: wp_return_eq chunk_ok_def)
next
  case (Cons p ps)
  show ?case
    unfolding runExpenseAIProviders.simps
  proof (intro wps wp_ctx_cancelled)
    fix ex
    show "Q None (w\<lparr>extern := ex\<rparr>)" using Cons.prems by (simp add: chunk_ok_def)
    show "Q (Some (s, p)) (w\<lparr>extern := ex\<rparr>)" if "callExpenseAIProvider P p q c = Some s" for s
      using Cons.prems that by (simp add: chunk_ok_def)
    show "wp (runExpenseAIProviders P q c ps) Q (w\<lparr>extern := ex\<rparr>)"
      by (rule Cons.IH) (use Cons.prems in \<open>auto simp: chunk_ok_def split: option.splits\<close>)
  qed
qed

lemma wp_run_chunks:
  assumes "\<And>rs ex. map fst rs = cs \<Longrightarrow> list_all (chunk_ok P q ps) rs \<Longrightarrow> Q rs (w\<lparr>extern := ex\<rparr>)"
  shows "wp (run_chunks P q ps cs) Q w"
  using assms
proof (induction cs arbitrary: w Q)
  case Nil
  from Nil.prems [of "[]" "extern w"] show ?case by (simp add: wp_return_eq)
next
  case (Cons c cs)
  let ?tail = "\<lambda>x. run_chunks P q ps cs \<bind> (\<lambda>rest. ret ((c, x) # rest))"
  have tail: "wp (?tail x) Q (w\<lparr>extern := ex\<rparr>)" if "chunk_ok P q ps (c, x)" for x ex
    by (rule wp_bind, rule Cons.IH) (use Cons.prems that in \<open>auto simp: wp_return_eq\<close>)
  have step: "wp (if stop then ret None else runExpenseAIProviders P q c ps) (\<lambda>x. wp (?tail x) Q) (w\<lparr>extern := ex\<rparr>)" for stop ex
    using tail [of None ex] by (cases stop) (auto simp: wp_return_eq chunk_ok_def intro!: wp_providers tail)
  show ?case
    unfolding run_chunks.simps by (rule wp_bind, rule wp_ctx_cancelled, rule wp_bind, rule step)
qed

section \<open>The answer\<close>

text \<open>The total of a currency: its amounts in the order of the answer, or no entry.\<close>

definition total_in :: "cost_dto list \<Rightarrow> string \<Rightarrow> f64 option" where
  "total_in ks c = (let xs = map kd_amount (filter (\<lambda>k. item_currency k = c) ks) in
     if xs = [] then None else Some (fold (\<lambda>x t. f_add t x) xs (Fin 0)))"

lemma fold_totals:
  "fold add_total ks m c = (let xs = map kd_amount (filter (\<lambda>k. item_currency k = c) ks) in
     if xs = [] then m c else Some (fold (\<lambda>x t. f_add t x) xs (case m c of None \<Rightarrow> Fin 0 | Some v \<Rightarrow> v)))"
  by (induction ks arbitrary: m) (auto simp: add_total_def Let_def)

lemma totals_eq: "totals ks = total_in ks"
  by (rule ext) (simp add: totals_def total_in_def fold_totals)

lemma first_occurrences_set [simp]: "set (first_occurrences xs) = set xs"
  by (simp add: first_occurrences_def)

text \<open>A selection of the models: an item some provider named when it was asked about a chunk.\<close>

definition named :: "ai_ports \<Rightarrow> string \<Rightarrow> ai_provider list \<Rightarrow> cost_dto list \<Rightarrow> string \<Rightarrow> bool" where
  "named P q ps items i \<longleftrightarrow> (\<exists>c\<in>set (splitExpenseAIItems P items). \<exists>p\<in>set ps. \<exists>s.
     callExpenseAIProvider P p q c = Some s \<and> i \<in> trim_space ` set (as_ids s))"

lemma named_trimmed: "named P q ps items i \<Longrightarrow> trim_space i = i"
  by (auto simp: named_def trim_space_idem)

lemma merged_ids:
  assumes "list_all (chunk_ok P q ps) rs" "map fst rs = splitExpenseAIItems P items" "i \<in> set (as_ids (cr_selection (merge_chunks rs)))"
  shows "named P q ps items i"
proof -
  obtain c s p where m: "(c, Some (s, p)) \<in> set rs" "i \<in> trim_space ` set (as_ids s)"
    using assms(3) by (auto simp: merge_chunks_def Let_def map_filter_def split: option.splits prod.splits if_splits)
  then have "p \<in> set ps" "callExpenseAIProvider P p q c = Some s"
    using assms(1) by (auto simp: list_all_iff chunk_ok_def)
  moreover have "c \<in> set (splitExpenseAIItems P items)"
    using m(1) arg_cong [OF assms(2), of set] by force
  ultimately show ?thesis using m(2) by (auto simp: named_def)
qed

lemma merged_count:
  "cr_count (merge_chunks rs) \<le> sum_list (map (length \<circ> fst) rs)"
  "\<not> cr_failed (merge_chunks rs) \<Longrightarrow> cr_count (merge_chunks rs) = sum_list (map (length \<circ> fst) rs)"
  by (induction rs) (auto simp: merge_chunks_def Let_def map_filter_def split: option.splits prod.splits)

lemma split_count: "map fst rs = splitExpenseAIItems P items \<Longrightarrow> sum_list (map (length \<circ> fst) rs) = length items"
proof -
  assume "map fst rs = splitExpenseAIItems P items"
  then have "sum_list (map (length \<circ> fst) rs) = sum_list (map length (splitExpenseAIItems P items))"
    by (metis map_map)
  also have "\<dots> = length (concat (splitExpenseAIItems P items))" by (simp add: length_concat)
  finally show ?thesis by (simp add: splitExpenseAIItems_def split_concat)
qed

definition select_ok ::
  "app_state \<Rightarrow> ai_ports \<Rightarrow> string \<Rightarrow> cost_dto list \<Rightarrow> cost_dto list \<Rightarrow> nat \<Rightarrow> bool \<Rightarrow> bool" where
  "select_ok A P q items selected analyzed cmp \<longleftrightarrow>
     (\<exists>f. selected = filter f items) \<and> analyzed \<le> length items
     \<and> (if cmp then analyzed = length items
            \<and> (\<forall>k\<in>set selected. named P q (configuredExpenseAIProviders A) items (kd_id k))
        else {k \<in> set (localExpenseMatches P items q). kd_id k \<noteq> []} \<subseteq> set selected)"

lemma local_filter: "\<exists>f. localExpenseMatches P items q = filter f items"
  by (auto simp: localExpenseMatches_def Let_def intro: exI [of _ "\<lambda>_. True"])

lemma selected_filter: "\<exists>f. validExpenseSelection items ids = filter f items" "\<exists>f. mergeExpenseSelections items ss = filter f items"
  by (auto simp: validExpenseSelection_def mergeExpenseSelections_def Let_def)

lemma merged_local: "{k \<in> set (localExpenseMatches P items q). kd_id k \<noteq> []} \<subseteq> set (mergeExpenseSelections items [v, localExpenseMatches P items q])"
  using local_filter [of P items q] by (auto simp: mergeExpenseSelections_def Let_def)

lemma wp_runChunks:
  assumes "\<And>c ex. cr_count c \<le> length items \<Longrightarrow> (cr_failed c \<or> cr_count c = length items \<and>
     (\<forall>i\<in>set (as_ids (cr_selection c)). named P q ps items i)) \<Longrightarrow> Q c (w\<lparr>extern := ex\<rparr>)"
  shows "wp (runExpenseAIChunks P q items ps) Q w"
proof -
  have "Q (no_chunks b) w" if "items = [] \<or> b" for b
    using assms [where c = "no_chunks b" and ex = "extern w"] that by (auto simp: no_chunks_def)
  moreover have "Q (merge_chunks rs) (w\<lparr>extern := ex\<rparr>)"
    if "map fst rs = splitExpenseAIItems P items" "list_all (chunk_ok P q ps) rs" for rs ex
    using assms [of "merge_chunks rs" ex] merged_count [of rs] split_count [OF that(1)] merged_ids [OF that(2,1)] by auto
  ultimately show ?thesis
    unfolding runExpenseAIChunks_def by (auto simp: wp_return_eq intro!: wp_bind wp_run_chunks)
qed

lemma wp_select_items:
  assumes "\<And>selected mode nt says model analyzed cmp ex. select_ok A P q items selected analyzed cmp \<Longrightarrow>
     Q (selected, mode, nt, says, model, analyzed, cmp) (w\<lparr>extern := ex\<rparr>)"
  shows "wp (select_items A P q items) Q w"
proof -
  have l: "select_ok A P q items (localExpenseMatches P items q) 0 False"
    using local_filter by (auto simp: select_ok_def)
  have Q0: "Q (localExpenseMatches P items q, mode, nt, says, model, 0, False) w" for mode nt says model
    using assms [OF l, where ex = "extern w"] by simp
  have valid: "named P q ps items (kd_id k)" if "\<forall>i\<in>set ids. named P q ps items i" "k \<in> set (validExpenseSelection items ids)"
    for ids k ps
    using that by (auto simp: validExpenseSelection_def Let_def named_trimmed)
  show ?thesis
    unfolding select_items_def Let_def
    by (auto simp: wp_return_eq Q0 intro!: wp_bind wp_runChunks assms)
      (auto simp: select_ok_def merged_local selected_filter valid)
qed

section \<open>Soundness of the search\<close>

text \<open>
  C25. The search in natural language changes nothing, whatever the language models answer. It shows data
  only to a reader of the asked project: stored cost items of it that are not deleted, each at most once and
  in the order of the list, with their true number and totals by currency; the models cannot make it show
  anything else. An answer called complete rests on an analysis of all items and holds only items a configured model
  named; any other answer holds at least every item found without a model. A model is asked about at
  most a hundred items at a time, all of them in its prompt, and every item is in exactly one question.
\<close>

theorem ExpenseAISearch_sound:
  "case run_state (ExpenseAISearch A P r) w of (resp, w') \<Rightarrow>
     (\<exists>fs ex. w' = w\<lparr>faults := fs, extern := ex\<rparr>)
     \<and> (\<forall>s d. resp = Reply s (SearchResult d) \<longrightarrow> (\<exists>pid q. decode_search r = Some (pid, q) \<and> s = 200
          \<and> allowed (db w) (userIDFromContext r) pid PermissionRead
          \<and> select_ok A P q (sel_costs pid (db w)) (sr_items d) (sr_analyzed d) (sr_complete d)
          \<and> sr_count d = length (sr_items d) \<and> sr_total_count d = length (sel_costs pid (db w))
          \<and> sr_totals d = total_in (sr_items d)
          \<and> concat (splitExpenseAIItems P (sel_costs pid (db w))) = sel_costs pid (db w)
          \<and> list_all (\<lambda>c. c \<noteq> [] \<and> length c \<le> 100 \<and> fits P c) (splitExpenseAIItems P (sel_costs pid (db w)))))"
proof -
  have e: "\<exists>fs ex. w\<lparr>faults := fs1\<rparr> = w\<lparr>faults := fs, extern := ex\<rparr>" for fs1
    by (rule exI [of _ fs1], rule exI [of _ "extern w"]) simp
  have e': "\<exists>fs ex. w = w\<lparr>faults := fs, extern := ex\<rparr>"
    by (rule exI [of _ "faults w"], rule exI [of _ "extern w"]) simp
  have split: "concat (splitExpenseAIItems P ks) = ks"
    "list_all (\<lambda>c. c \<noteq> [] \<and> length c \<le> 100 \<and> fits P c) (splitExpenseAIItems P ks)" for ks
    using split_fits [of P "[]" _ ks] fits_short
    by (auto simp: splitExpenseAIItems_def split_concat list_all_iff expenseAIChunkSize_def)
  have "wp (ExpenseAISearch A P r) (\<lambda>resp w'. (\<exists>fs ex. w' = w\<lparr>faults := fs, extern := ex\<rparr>)
     \<and> (\<forall>s d. resp = Reply s (SearchResult d) \<longrightarrow> (\<exists>pid q. decode_search r = Some (pid, q) \<and> s = 200
          \<and> allowed (db w) (userIDFromContext r) pid PermissionRead
          \<and> select_ok A P q (sel_costs pid (db w)) (sr_items d) (sr_analyzed d) (sr_complete d)
          \<and> sr_count d = length (sr_items d) \<and> sr_total_count d = length (sel_costs pid (db w))
          \<and> sr_totals d = total_in (sr_items d)))) w"
    unfolding ExpenseAISearch_def
    by (intro wps wp_select_items) (auto simp: e e' totals_eq)
  then show ?thesis using split by (auto simp: wp_def split: prod.splits)
qed

definition s_ports :: ai_ports where
  "s_ports = \<lparr>ai_lower = to_lower, ai_size = (\<lambda>_. 10),
     ai_json = (\<lambda>_. Some (JObj [(''selected_ids'', JArr [JStr '' k1 '', JStr ''zz'', JNull])])),
     ai_call = (\<lambda>p q ks. if pv_name p = ''groq'' then Some ''{}'' else None)\<rparr>"

definition s_search :: request where
  "s_search = s_req ''POST'' ''/api/v1/expense-ai/search''
     (JObj [(''project_id'', JStr ''p1''), (''query'', JStr ''wet sand'')])"

definition s_search_app :: app_state where
  "s_search_app = s_app\<lparr>st_deepseek_key := ''a'', st_groq_key := ''b''\<rparr>"

lemma letter_index: "index_of c ru_letters = Some i \<Longrightarrow> i < 32"
  by (simp add: ru_letters_def split: if_splits)

lemma ru_start: "c \<in> set (take 1 (ru w)) \<Longrightarrow> 208 \<le> byte c"
proof (induction w)
  case (Cons a w)
  show ?case
  proof (cases "index_of a ru_letters")
    case None
    then show ?thesis using Cons by (simp add: ru_def)
  next
    case (Some i)
    then have "208 + (48 + i) div 64 \<in> {208, 209}" using letter_index [OF Some] by auto
    moreover have "c = char_of (208 + (48 + i) div 64)" using Cons.prems Some by (simp add: ru_def cyr_def)
    moreover have "byte (char_of (208::nat)) = 208" "byte (char_of (209::nat)) = 209" by code_simp+
    ultimately show ?thesis by auto
  qed
qed (simp add: ru_def)

lemma s_terms: "expenseSearchTerms s_ports ''wet sand'' = [''wet'', ''sand'']"
proof -
  have "words_of (normalizeExpenseSearchText s_ports ''wet sand'') = [''wet'', ''sand'']" by code_simp
  moreover have "rune_count ''wet'' = 3" "rune_count ''sand'' = 4" by code_simp+
  moreover have "byte CHR ''w'' = 119" "byte CHR ''s'' = 115" by code_simp+
  then have "''wet'' \<noteq> ru v" "''sand'' \<noteq> ru v" for v
    using ru_start [of "CHR ''w''" v] ru_start [of "CHR ''s''" v] by (cases "ru v"; auto)+
  ultimately show ?thesis by (simp add: expenseSearchTerms_def expenseSearchStopWords_def)
qed

theorem ExpenseAISearch_sound_witness:
  "\<exists>d. fst (run_state (ExpenseAISearch s_search_app s_ports s_search) s_team) = Reply 200 (SearchResult d)
     \<and> allowed s_team_db ''u1'' ''p1'' PermissionRead \<and> map kd_id (sr_items d) = [''k1''] \<and> sr_complete d"
proof -
  let ?ks = "sel_costs ''p1'' s_team_db" and ?ps = "configuredExpenseAIProviders s_search_app"
  have d: "decode_search s_search = Some (''p1'', ''wet sand'')" "userIDFromContext s_search = ''u1''"
    "db s_team = s_team_db" "rune_count ''wet sand'' = 8" by code_simp+
  have a: "allowed s_team_db ''u1'' ''p1'' PermissionRead" "st_db s_search_app" "faults s_team = []" "?ps \<noteq> []"
    by code_simp+
  have v: "map kd_id (validExpenseSelection ?ks [''k1'', ''zz'']) = [''k1'']" by code_simp
  have "fst (run_state (runExpenseAIChunks s_ports ''wet sand'' ?ks ?ps) s_team) =
      \<lparr>cr_selection = \<lparr>as_ids = [''k1'', ''zz''], as_summary = []\<rparr>, cr_provider = ''groq'',
       cr_model = ''openai/gpt-oss-20b'', cr_count = 1, cr_failed = False\<rparr>" by code_simp
  then obtain w1 where c: "run_state (runExpenseAIChunks s_ports ''wet sand'' ?ks ?ps) s_team =
      (\<lparr>cr_selection = \<lparr>as_ids = [''k1'', ''zz''], as_summary = []\<rparr>, cr_provider = ''groq'',
       cr_model = ''openai/gpt-oss-20b'', cr_count = 1, cr_failed = False\<rparr>, w1)"
    by (metis prod.collapse)
  define found where "found = validExpenseSelection ?ks [''k1'', ''zz'']"
  have t: "trim_space [] = []" by code_simp
  have sel: "run_state (select_items s_search_app s_ports ''wet sand'' ?ks) s_team =
      ((found, ''groq'', Complete (length ?ks), [], ''openai/gpt-oss-20b'', 1, True), w1)"
    using a(4) unfolding select_items_def Let_def isExpenseAggregateQuery_def s_terms
    by (simp add: c found_def t)
  have "\<exists>x. run_state (ExpenseAISearch s_search_app s_ports s_search) s_team = (Reply 200 (SearchResult x), w1)
      \<and> sr_items x = found \<and> sr_complete x"
    by (simp add: ExpenseAISearch_def d maxExpenseAIQueryLength_def a(1,2) run_bind_eq [OF run_permission_free(4) [OF a(3)]]
        run_bind_eq [OF query_Pool_free [OF a(3)]] run_bind_eq [OF sel] del: run_state_bind)
  then obtain x where x: "fst (run_state (ExpenseAISearch s_search_app s_ports s_search) s_team) = Reply 200 (SearchResult x)"
    "map kd_id (sr_items x) = [''k1'']" "sr_complete x"
    using v found_def by auto
  have "\<exists>pid q. decode_search s_search = Some (pid, q) \<and> allowed (db s_team) (userIDFromContext s_search) pid PermissionRead"
  proof -
    obtain resp w' where r: "run_state (ExpenseAISearch s_search_app s_ports s_search) s_team = (resp, w')" by fastforce
    then show ?thesis
      using x(1) ExpenseAISearch_sound [where A = s_search_app and P = s_ports and r = s_search and w = s_team] by auto
  qed
  then have "allowed s_team_db ''u1'' ''p1'' PermissionRead" by (auto simp: d)
  with x show ?thesis by (intro exI [of _ x] conjI)
qed

section \<open>A capital letter the normalisation misses\<close>

text \<open>The letter U+0451 is replaced before the text is put in lower case, so its capital U+0401 is not.\<close>

lemma capital_yo_kept:
  assumes "ai_lower P (cyr 1) = cyr 81" "ai_lower P (cyr 53) = cyr 53"
  shows "normalizeExpenseSearchText P (cyr 1) = cyr 81" "normalizeExpenseSearchText P (cyr 81) = cyr 53"
proof -
  have r: "replace_yo (cyr 1) = cyr 1" "replace_yo (cyr 81) = cyr 53" by code_simp+
  have "words_of (map (\<lambda>c. if c \<in> set '',.!?:;-_/'' then CHR '' '' else c) (cyr 81)) = [cyr 81]"
     "words_of (map (\<lambda>c. if c \<in> set '',.!?:;-_/'' then CHR '' '' else c) (cyr 53)) = [cyr 53]"
    by code_simp+
  then show "normalizeExpenseSearchText P (cyr 1) = cyr 81" "normalizeExpenseSearchText P (cyr 81) = cyr 53"
    by (simp_all only: normalizeExpenseSearchText_def Let_def r assms join_with.simps)
qed

end
