(* ===== verification/Middleware.thy ===== *)
theory Middleware
  imports Calendar Netip Checkout Config
begin

text \<open>
  The middleware around every route (\<open>internal/httpapi/middleware.go\<close>): request ids, security headers and
  CORS. The logger and \<open>recoverer\<close> do not change an answer of the model, and the limit of a body is the
  missing body of a request.
\<close>

section \<open>Request ids\<close>

definition safe_id_char :: "char \<Rightarrow> bool" where
  "safe_id_char c \<longleftrightarrow> is_lower c \<or> is_upper c \<or> is_digit c \<or> c \<in> set ''._:-''"

definition isSafeRequestID :: "string \<Rightarrow> bool" where
  "isSafeRequestID v \<longleftrightarrow> v \<noteq> [] \<and> length v \<le> 128 \<and> list_all safe_id_char v"

text \<open>\<open>Format(time.RFC3339Nano)\<close> in UTC: trailing zeros of the fraction are left out.\<close>

definition rfc3339_nano :: "time \<Rightarrow> string" where
  "rfc3339_nano t =
     (let s = map (\<lambda>c. if c = CHR '' '' then CHR ''T'' else c) (format_datetime t);
          micros = pad_nat 6 (nat (t mod second));
          fraction = rev (dropWhile (\<lambda>c. c = CHR ''0'') (rev micros))
      in s @ (if fraction = [] then [] else CHR ''.'' # fraction) @ ''Z'')"

definition newRequestID :: "(world, string) state" where
  "newRequestID = do {
     bs \<leftarrow> rand_read 16;
     t \<leftarrow> read_now;
     ret (concat (map hex_byte (case bs of Some b \<Rightarrow> b | None \<Rightarrow> map (of_char :: char \<Rightarrow> nat) (rfc3339_nano t))))
   }"

definition requestID :: "'p handler \<Rightarrow> 'p handler" where
  "requestID nxt r = do {
     let i = trim_space (get_first (rq_headers r) ''X-Request-ID'');
     i' \<leftarrow> (if isSafeRequestID i then ret i else newRequestID);
     set_header ''X-Request-ID'' i';
     nxt r
   }"

section \<open>Headers\<close>

definition securityHeaders :: "app_state \<Rightarrow> 'p handler \<Rightarrow> 'p handler" where
  "securityHeaders A nxt r = do {
     set_header ''X-Content-Type-Options'' ''nosniff'';
     set_header ''X-Frame-Options'' ''DENY'';
     set_header ''Referrer-Policy'' ''no-referrer'';
     set_header ''Permissions-Policy'' ''camera=(), microphone=(), geolocation=()'';
     set_header ''Cache-Control'' ''no-store'';
     (if st_production_like A then set_header ''Strict-Transport-Security'' ''max-age=31536000'' else ret ());
     nxt r
   }"

text \<open>\<open>None\<close> is the empty answer to a preflight request.\<close>

definition cors :: "string list \<Rightarrow> 'p \<Rightarrow> 'p handler \<Rightarrow> 'p handler" where
  "cors origins no_content nxt r = do {
     let origin = get_first (rq_headers r) ''Origin'';
     (if isAllowedOrigin origins origin then do {
        set_header ''Access-Control-Allow-Origin'' origin;
        set_header ''Vary'' ''Origin'';
        set_header ''Access-Control-Allow-Methods'' ''GET,POST,PUT,PATCH,DELETE,OPTIONS'';
        set_header ''Access-Control-Allow-Headers'' ''Authorization,Content-Type,X-Request-ID,Idempotency-Key'';
        set_header ''Access-Control-Expose-Headers'' ''X-Request-ID''
      } else ret ());
     if rq_method r = ''OPTIONS'' then reply 204 no_content else nxt r
   }"

definition withMiddleware :: "app_state \<Rightarrow> string list \<Rightarrow> 'p \<Rightarrow> 'p handler \<Rightarrow> 'p handler" where
  "withMiddleware A origins no_content nxt = requestID (securityHeaders A (cors origins no_content nxt))"

end
