(* ===== verification/Daily_Reports.thy ===== *)
theory Daily_Reports
  imports Cost_Items
begin

text \<open>
  Daily reports of a project (\<open>internal/httpapi/daily_reports.go\<close>) and their routes, without the
  subscription check in front.
\<close>

definition maxWorkersCount :: int where "maxWorkersCount = 2147483647"

record report_dto =
  dd_id :: uuid
  dd_project :: uuid
  dd_date :: string
  dd_summary :: string
  dd_workers :: int
  dd_issues :: string
  dd_created :: time

datatype report_payload = ReportItem report_dto | ReportList "report_dto list" | ReportDeleted

record report_req =
  dq_project :: string
  dq_date :: string
  dq_summary :: string
  dq_workers :: int
  dq_issues :: string

definition decode_report :: "request \<Rightarrow> report_req option" where
  "decode_report r = do {
     fs \<leftarrow> decode_body r;
     p \<leftarrow> str_field fs ''project_id'';
     da \<leftarrow> str_field fs ''report_date'';
     su \<leftarrow> str_field fs ''summary'';
     wo \<leftarrow> int_field fs ''workers_count'';
     is \<leftarrow> str_field fs ''issues'';
     Some \<lparr>dq_project = p, dq_date = da, dq_summary = su, dq_workers = wo, dq_issues = is\<rparr>
   }"

definition isValidWorkersCount :: "int \<Rightarrow> bool" where
  "isValidWorkersCount n \<longleftrightarrow> 0 \<le> n \<and> n \<le> maxWorkersCount"

definition normalizeDailyReportRequestWithDateFallback ::
  "time \<Rightarrow> bool \<Rightarrow> report_req \<Rightarrow> string + report_req" where
  "normalizeDailyReportRequestWithDateFallback t fallback_today q =
     (case normalizeISODate t (trim_space (dq_date q)) fallback_today ''report_date'' of
        Inl e \<Rightarrow> Inl e
      | Inr date \<Rightarrow> Inr \<lparr>dq_project = trim_space (dq_project q), dq_date = date,
          dq_summary = trim_space (dq_summary q), dq_workers = dq_workers q,
          dq_issues = trim_space (dq_issues q)\<rparr>)"

definition normalizeDailyReportRequest :: "time \<Rightarrow> report_req \<Rightarrow> string + report_req" where
  "normalizeDailyReportRequest t = normalizeDailyReportRequestWithDateFallback t True"

definition normalizeDailyReportUpdateRequest :: "time \<Rightarrow> report_req \<Rightarrow> string + report_req" where
  "normalizeDailyReportUpdateRequest t = normalizeDailyReportRequestWithDateFallback t False"

section \<open>Statements\<close>

definition report_dto_of :: "report_row \<Rightarrow> report_dto" where
  "report_dto_of k = \<lparr>dd_id = d_id k, dd_project = d_project k, dd_date = d_date k,
     dd_summary = d_summary k, dd_workers = d_workers k, dd_issues = or_empty (d_issues k),
     dd_created = d_created k\<rparr>"

definition live_report :: "db \<Rightarrow> uuid \<Rightarrow> report_row option" where
  "live_report d i = live_row d_id d_deleted i (reports d)"

definition sel_reports :: "uuid \<Rightarrow> db \<Rightarrow> report_dto list" where
  "sel_reports pid d = map report_dto_of (sort_key (\<lambda>k. - date_key (d_date k)) (sort_key (\<lambda>k. - d_created k)
     (filter (\<lambda>k. d_project k = pid \<and> d_deleted k = None) (reports d))))"

definition new_report :: "report_req \<Rightarrow> uuid \<Rightarrow> string \<Rightarrow> uuid \<Rightarrow> time \<Rightarrow> report_row" where
  "new_report q u date i t = \<lparr>d_id = i, d_project = dq_project q, d_by = Some u, d_date = date,
     d_summary = dq_summary q, d_workers = dq_workers q, d_issues = null_if_empty (dq_issues q),
     d_created = t, d_updated = t, d_deleted = None\<rparr>"

definition ins_report :: "report_req \<Rightarrow> uuid \<Rightarrow> uuid \<Rightarrow> report_row sql" where
  "ins_report q u i t d =
     (case pg_date (dq_date q) of
        None \<Rightarrow> (SqlErr, d)
      | Some date \<Rightarrow>
          if dq_project q \<notin> p_id ` set (projects d) \<or> user_by_id d u = None
             \<or> i \<in> d_id ` set (reports d) \<or> \<not> isValidWorkersCount (dq_workers q) then (SqlErr, d)
          else (Row (new_report q u date i t), d\<lparr>reports := reports d @ [new_report q u date i t]\<rparr>))"

definition edit_report :: "report_req \<Rightarrow> string option \<Rightarrow> time \<Rightarrow> report_row \<Rightarrow> report_row" where
  "edit_report q date t k = k\<lparr>d_date := (case date of None \<Rightarrow> d_date k | Some s \<Rightarrow> s),
     d_summary := dq_summary q, d_workers := dq_workers q, d_issues := null_if_empty (dq_issues q),
     d_updated := t\<rparr>"

definition upd_report :: "report_req \<Rightarrow> uuid \<Rightarrow> report_row sql" where
  "upd_report q i t d =
     (case pg_date_or_null (dq_date q) of
        None \<Rightarrow> (SqlErr, d)
      | Some date \<Rightarrow>
          if \<not> isValidWorkersCount (dq_workers q) then (SqlErr, d)
          else (case live_report d i of
              None \<Rightarrow> (NoRows, d)
            | Some k \<Rightarrow> (Row (edit_report q date t k),
                d\<lparr>reports := upd_live d_id d_deleted i (edit_report q date t) (reports d)\<rparr>)))"

definition mark_report :: "time \<Rightarrow> report_row \<Rightarrow> report_row" where
  "mark_report t k = k\<lparr>d_deleted := Some t, d_updated := t\<rparr>"

definition del_report :: "uuid \<Rightarrow> nat sql" where
  "del_report i t d = (Row (count_where (\<lambda>k. d_id k = i \<and> d_deleted k = None) (reports d)),
     d\<lparr>reports := upd_live d_id d_deleted i (mark_report t) (reports d)\<rparr>)"

definition dailyReportProjectID :: "string \<Rightarrow> (world, string \<times> bool) state" where
  "dailyReportProjectID i = resolve_with (\<lambda>d. map_option d_project (live_report d i))"

section \<open>Handlers\<close>

definition listDailyReports :: "report_payload handler" where
  "listDailyReports r = do {
     let u = userIDFromContext r;
     let pid = trim_space (get_first (rq_query r) ''project_id'');
     if pid = [] then fail 400 ''project_id is required''
     else do {
       ok \<leftarrow> canAccessProject u pid;
       if \<not> ok then fail 403 ''project access denied''
       else do {
         rows \<leftarrow> query Pool (\<lambda>t d. sel_reports pid d);
         (case rows of
            Rows ks \<Rightarrow> reply 200 (ReportList ks)
          | QueryErr \<Rightarrow> fail 500 ''failed to load daily reports''
          | ScanErr \<Rightarrow> fail 500 ''failed to scan daily report''
          | RowsErr \<Rightarrow> fail 500 ''failed to read daily reports'')
       }
     }
   }"

definition getDailyReport :: "uuid \<Rightarrow> report_payload handler" where
  "getDailyReport i r = do {
     let u = userIDFromContext r;
     p \<leftarrow> dailyReportProjectID i;
     ok \<leftarrow> (if \<not> snd p then ret False else canAccessProject u (fst p));
     if \<not> ok then fail 403 ''project access denied''
     else do {
       row \<leftarrow> sel Pool (\<lambda>t d. row_of (map_option report_dto_of (live_report d i)));
       (case row of
          Row k \<Rightarrow> reply 200 (ReportItem k)
        | NoRows \<Rightarrow> fail 404 ''daily report not found''
        | SqlErr \<Rightarrow> fail 404 ''daily report not found'')
     }
   }"

definition createDailyReport :: "app_state \<Rightarrow> report_payload handler" where
  "createDailyReport A r = do {
     t \<leftarrow> read_now;
     let u = userIDFromContext r;
     (case decode_report r of
        None \<Rightarrow> fail 400 ''invalid JSON body''
      | Some q0 \<Rightarrow> (case normalizeDailyReportRequest t q0 of
          Inl e \<Rightarrow> fail 400 e
        | Inr q \<Rightarrow>
            if dq_project q = [] \<or> dq_summary q = [] \<or> \<not> isValidWorkersCount (dq_workers q)
            then fail 400 ''project_id, summary and non-negative workers_count are required''
            else do {
              ok \<leftarrow> canContributeToProject u (dq_project q);
              if \<not> ok then fail 403 ''project contribution permission required''
              else do {
                row \<leftarrow> insert_stmt Pool (ins_report q u);
                (case row of
                   NoRows \<Rightarrow> fail 500 ''failed to create daily report''
                 | SqlErr \<Rightarrow> fail 500 ''failed to create daily report''
                 | Row k \<Rightarrow> do {
                     _ \<leftarrow> audit Pool u (Some (dq_project q)) ''create'' ''daily_report'' (Some (d_id k)) [];
                     publishProjectEvent A (dq_project q) ''daily_report'' (d_id k) ''created'' [];
                     reply 201 (ReportItem (report_dto_of k))
                   })
              }
            }))
   }"

definition updateDailyReport :: "app_state \<Rightarrow> uuid \<Rightarrow> report_payload handler" where
  "updateDailyReport A i r = do {
     t \<leftarrow> read_now;
     let u = userIDFromContext r;
     (case decode_report r of
        None \<Rightarrow> fail 400 ''invalid JSON body''
      | Some q0 \<Rightarrow> (case normalizeDailyReportUpdateRequest t q0 of
          Inl e \<Rightarrow> fail 400 e
        | Inr q \<Rightarrow>
            if dq_summary q = [] \<or> \<not> isValidWorkersCount (dq_workers q)
            then fail 400 ''summary and non-negative workers_count are required''
            else do {
              p \<leftarrow> dailyReportProjectID i;
              ok \<leftarrow> (if \<not> snd p then ret False else canContributeToProject u (fst p));
              if \<not> ok then fail 403 ''project contribution permission required''
              else do {
                row \<leftarrow> stmt Pool (upd_report q i);
                (case row of
                   NoRows \<Rightarrow> fail 404 ''daily report not found''
                 | SqlErr \<Rightarrow> fail 404 ''daily report not found''
                 | Row k \<Rightarrow> do {
                     _ \<leftarrow> audit Pool u (Some (fst p)) ''update'' ''daily_report'' (Some i) [];
                     publishProjectEvent A (fst p) ''daily_report'' i ''updated'' [];
                     reply 200 (ReportItem (report_dto_of k))
                   })
              }
            }))
   }"

definition deleteDailyReport :: "app_state \<Rightarrow> uuid \<Rightarrow> report_payload handler" where
  "deleteDailyReport A i r = do {
     let u = userIDFromContext r;
     p \<leftarrow> dailyReportProjectID i;
     ok \<leftarrow> (if \<not> snd p then ret False else canManageProject u (fst p));
     if \<not> ok then fail 403 ''project management permission required''
     else do {
       n \<leftarrow> stmt Pool (del_report i);
       (case n of
          NoRows \<Rightarrow> fail 500 ''failed to delete daily report''
        | SqlErr \<Rightarrow> fail 500 ''failed to delete daily report''
        | Row m \<Rightarrow>
            if m = 0 then fail 404 ''daily report not found''
            else do {
              _ \<leftarrow> audit Pool u (Some (fst p)) ''delete'' ''daily_report'' (Some i) [];
              publishProjectEvent A (fst p) ''daily_report'' i ''deleted'' [];
              reply 200 ReportDeleted
            })
     }
   }"

definition DailyReports :: "app_state \<Rightarrow> report_payload handler" where
  "DailyReports A r =
     (if \<not> st_db A then dbNotAvailable
      else let i = resourceIDFromPath (rq_path r) ''/api/v1/daily-reports/'' in
        if i \<noteq> [] then
          (if rq_method r = ''GET'' then getDailyReport i r
           else if rq_method r = ''PATCH'' then updateDailyReport A i r
           else if rq_method r = ''DELETE'' then deleteDailyReport A i r
           else methodNotAllowed)
        else if rq_method r = ''GET'' then listDailyReports r
        else if rq_method r = ''POST'' then createDailyReport A r
        else methodNotAllowed)"

definition dailyReportsRoute :: "app_state \<Rightarrow> report_payload handler" where
  "dailyReportsRoute A = withProjectMutationRBAC (DailyReports A) [] None"

definition dailyReportRoute :: "app_state \<Rightarrow> report_payload handler" where
  "dailyReportRoute A =
     withProjectMutationRBAC (DailyReports A) ''/api/v1/daily-reports/'' (Some dailyReportProjectID)"

section \<open>Interpretations\<close>

interpretation report: entity_rows d_id d_project d_deleted mark_report
  by unfold_locales (simp_all add: mark_report_def)

interpretation report_resolver: entity_resolver dailyReportProjectID
  "\<lambda>d i. map_option d_project (live_report d i)"
  by unfold_locales (auto simp: dailyReportProjectID_def intro: wp_resolve_with)

lemmas wp_dailyReportProjectID [wps] = report_resolver.resolve

lemma edit_report_keeps [simp]:
  "d_id (edit_report q da t k) = d_id k" "d_project (edit_report q da t k) = d_project k"
  "d_deleted (edit_report q da t k) = d_deleted k"
  by (simp_all add: edit_report_def)

section \<open>What the handlers do to the rows\<close>

text \<open>The number of workers of every new or changed row fits the column.\<close>

definition report_post :: "world \<Rightarrow> uuid \<Rightarrow> report_payload resp \<Rightarrow> world \<Rightarrow> bool" where
  "report_post w u resp w' \<longleftrightarrow> txn w' = txn w \<and> (case resp of
     Error s m \<Rightarrow> db w' = db w
   | Reply s x \<Rightarrow> \<exists>ks as. db w' = (db w)\<lparr>reports := ks, audits := as\<rparr>
       \<and> guarded_change d_id d_project d_deleted (db w) u (reports (db w)) ks
       \<and> distinct (map d_id ks)
       \<and> ((\<forall>k\<in>set (reports (db w)). isValidWorkersCount (d_workers k)) \<longrightarrow>
          (\<forall>k\<in>set ks. isValidWorkersCount (d_workers k))))"

lemma report_post_reply:
  assumes "guarded_change d_id d_project d_deleted (db w) u (reports (db w)) ks" "distinct (map d_id ks)"
    "(\<forall>k\<in>set (reports (db w)). isValidWorkersCount (d_workers k)) \<Longrightarrow>
     (\<forall>k\<in>set ks. isValidWorkersCount (d_workers k))"
    "db w' = (db w)\<lparr>reports := ks, audits := as\<rparr>" "txn w' = txn w"
  shows "report_post w u (Reply s x) w'"
  using assms by (auto simp: report_post_def)

lemma report_post_error: "db w' = db w \<Longrightarrow> txn w' = txn w \<Longrightarrow> report_post w u (Error s m) w'"
  by (simp add: report_post_def)

lemma ins_report_Row:
  assumes "ins_report q u i t d = (r, d')" "r \<noteq> SqlErr"
  obtains date where "r = Row (new_report q u date i t)" "i \<notin> d_id ` set (reports d)"
    "d' = d\<lparr>reports := reports d @ [new_report q u date i t]\<rparr>" "isValidWorkersCount (dq_workers q)"
proof (cases "pg_date (dq_date q)")
  case (Some date)
  with assms show ?thesis by (intro that [of date]) (simp_all add: ins_report_def split: if_splits)
qed (use assms in \<open>simp add: ins_report_def\<close>)

lemma upd_report_Row:
  assumes "upd_report q i t d = (r, d')" "r \<noteq> SqlErr"
  obtains "r = NoRows" "d' = d"
  | date k where "live_report d i = Some k" "r = Row (edit_report q date t k)"
      "d' = d\<lparr>reports := upd_live d_id d_deleted i (edit_report q date t) (reports d)\<rparr>"
      "isValidWorkersCount (dq_workers q)"
  using assms by (auto simp: upd_report_def split: option.splits if_splits)

lemma workers_upd:
  assumes "\<And>k. isValidWorkersCount (d_workers k) \<Longrightarrow> isValidWorkersCount (d_workers (f k))"
    "\<forall>k\<in>set ks. isValidWorkersCount (d_workers k)"
  shows "\<forall>k\<in>set (upd_live d_id d_deleted i f ks). isValidWorkersCount (d_workers k)"
  using assms by (auto simp: upd_live_def upd_where_def)

lemma wp_readReports:
  assumes "distinct (map d_id (reports (db w)))"
  shows "wp (listDailyReports r) (report_post w (userIDFromContext r)) w"
    and "wp (getDailyReport i r) (report_post w (userIDFromContext r)) w"
proof -
  have "report_post w (userIDFromContext r) (Reply s x) (w\<lparr>faults := fs\<rparr>)" for s x fs
    by (rule report_post_reply [OF report.guarded_refl assms, where as = "audits (db w)"]) simp_all
  then show "wp (listDailyReports r) (report_post w (userIDFromContext r)) w"
    "wp (getDailyReport i r) (report_post w (userIDFromContext r)) w"
    unfolding listDailyReports_def getDailyReport_def
    by (intro wps; auto intro!: report_post_error)+
qed

lemma wp_createDailyReport:
  assumes "distinct (map d_id (reports (db w)))"
  shows "wp (createDailyReport A r) (report_post w (userIDFromContext r)) w"
proof -
  have ok: "report_post w (userIDFromContext r) (Reply 201 x) w'"
    if h: "ins_report q u i t (db w) = (Row k, d)"
      "allowed (db w) (userIDFromContext r) (dq_project q) PermissionContribute"
      "db w' = d\<lparr>audits := as\<rparr>" "txn w' = txn w" for q u i t k d as x w'
    using h(1)
  proof (rule ins_report_Row)
    fix date assume k': "d = (db w)\<lparr>reports := reports (db w) @ [new_report q u date i t]\<rparr>"
      "i \<notin> d_id ` set (reports (db w))" "isValidWorkersCount (dq_workers q)"
    show ?thesis
      by (rule report_post_reply [OF report.guarded_insert [of "db w" _ "new_report q u date i t"]])
        (use h k' assms in \<open>auto simp: new_report_def\<close>)
  qed simp
  show ?thesis
    unfolding createDailyReport_def
    by (intro wps) (auto intro!: report_post_error intro: ok elim: ins_report_Row)
qed

lemma wp_updateDailyReport:
  assumes "distinct (map d_id (reports (db w)))"
  shows "wp (updateDailyReport A i r) (report_post w (userIDFromContext r)) w"
proof -
  have ok: "report_post w (userIDFromContext r) (Reply 200 x) w'"
    if h: "upd_report q i t (db w) = (Row k, d)" "map_option d_project (live_report (db w) i) = Some p"
      "allowed (db w) (userIDFromContext r) p PermissionContribute"
      "db w' = d\<lparr>audits := as\<rparr>" "txn w' = txn w" for q t k d as x w' p
    using h(1)
  proof (rule upd_report_Row)
    fix date k' assume k': "live_report (db w) i = Some k'"
      "d = (db w)\<lparr>reports := upd_live d_id d_deleted i (edit_report q date t) (reports (db w))\<rparr>"
      "isValidWorkersCount (dq_workers q)"
    then have l: "live_row d_id d_deleted i (reports (db w)) = Some k'" by (simp add: live_report_def)
    then have "d_deleted k' = None" using report.live_row_Some by blast
    moreover have "\<forall>k\<in>set (reports (db w)). isValidWorkersCount (d_workers k) \<Longrightarrow>
        \<forall>k\<in>set (upd_live d_id d_deleted i (edit_report q date t) (reports (db w))). isValidWorkersCount (d_workers k)"
      using k'(3) by (intro workers_upd) (simp_all add: edit_report_def)
    ultimately show ?thesis
      using report.guarded_upd [OF assms l, of "edit_report q date t" "db w" "userIDFromContext r"] h k'
      by (intro report_post_reply) auto
  qed simp_all
  have none: "upd_report q i t d = (NoRows, d') \<Longrightarrow> d' = d" for q t d d'
    by (erule upd_report_Row) auto
  show ?thesis
    unfolding updateDailyReport_def
    by (intro wps) (auto intro!: report_post_error intro: ok dest: none)
qed

lemma wp_deleteDailyReport:
  assumes "distinct (map d_id (reports (db w)))"
  shows "wp (deleteDailyReport A i r) (report_post w (userIDFromContext r)) w"
proof -
  have ok: "report_post w (userIDFromContext r) (Reply 200 x) w'"
    if h: "del_report i t (db w) = (Row n, d)" "map_option d_project (live_report (db w) i) = Some p"
      "allowed (db w) (userIDFromContext r) p PermissionManage"
      "db w' = d\<lparr>audits := as\<rparr>" "txn w' = txn w" for t n d as x w' p
  proof -
    obtain k where "live_row d_id d_deleted i (reports (db w)) = Some k" "d_project k = p"
      using h(2) by (auto simp: live_report_def)
    moreover have "\<forall>k\<in>set (reports (db w)). isValidWorkersCount (d_workers k) \<Longrightarrow>
        \<forall>k\<in>set (upd_live d_id d_deleted i (mark_report t) (reports (db w))). isValidWorkersCount (d_workers k)"
      by (intro workers_upd) (simp_all add: mark_report_def)
    ultimately show ?thesis
      using report.guarded_upd [OF assms, of i k "mark_report t" "db w" "userIDFromContext r"] h
      by (intro report_post_reply) (auto simp: del_report_def report.mark)
  qed
  have none: "del_report i t d = (Row 0, d') \<Longrightarrow> d' = d" for t d d'
    by (auto simp: del_report_def upd_live_def upd_where_none)
  have row: "del_report i t d = (x, d') \<Longrightarrow> \<exists>n. x = Row n" for t d x d'
    by (auto simp: del_report_def)
  show ?thesis
    unfolding deleteDailyReport_def
    by (intro wps) (auto intro!: report_post_error intro: ok dest: none row)
qed

lemma wp_DailyReports:
  assumes "distinct (map d_id (reports (db w)))"
  shows "wp (DailyReports A r) (report_post w (userIDFromContext r)) w"
  unfolding DailyReports_def
  by (intro wps wp_readReports wp_createDailyReport wp_updateDailyReport wp_deleteDailyReport)
    (use assms in \<open>auto intro: report_post_error\<close>)

lemma report_post_faults [simp]: "report_post (w\<lparr>faults := fs\<rparr>) = report_post w"
  by (simp add: report_post_def fun_eq_iff split: resp.split)

lemma wp_reportRoutes:
  assumes "distinct (map d_id (reports (db w)))"
  shows "wp (dailyReportRoute A r) (report_post w (userIDFromContext r)) w"
    and "wp (dailyReportsRoute A r) (report_post w (userIDFromContext r)) w"
  unfolding dailyReportRoute_def dailyReportsRoute_def
  by (rule wp_rbac; use assms wp_DailyReports [of "w\<lparr>faults := fs\<rparr>" A r for fs] in
      \<open>auto intro: report_post_error simp: dailyReportProjectID_def\<close>)+

section \<open>Properties\<close>

text \<open>
  C12. The daily report routes, role check included: a failed request changes nothing. A successful
  one changes only reports and the audit log; none disappears or moves to another project, a new
  or changed one belongs to a project the caller may contribute to, a deleted one to a project the
  caller may manage, and numbers of workers that fit the column still fit it.
\<close>

theorem report_routes_guarded:
  assumes "distinct (map d_id (reports (db w)))" "h \<in> {dailyReportsRoute A, dailyReportRoute A}"
  shows "case run_state (h r) w of (resp, w') \<Rightarrow> (case resp of
     Error s m \<Rightarrow> db w' = db w
   | Reply s x \<Rightarrow> (db w')\<lparr>reports := reports (db w), audits := audits (db w)\<rparr> = db w
       \<and> guarded_change d_id d_project d_deleted (db w) (userIDFromContext r) (reports (db w)) (reports (db w'))
       \<and> distinct (map d_id (reports (db w')))
       \<and> (if list_all (\<lambda>k. isValidWorkersCount (d_workers k)) (reports (db w))
          then list_all (\<lambda>k. isValidWorkersCount (d_workers k)) (reports (db w')) else True))"
  using wp_reportRoutes [OF assms(1), of A r] assms(2)
  by (auto simp: wp_def report_post_def list_all_iff split: prod.splits resp.splits)

definition s_drop_report :: request where
  "s_drop_report = s_req ''DELETE'' ''/api/v1/daily-reports/d1'' JNull"

theorem report_routes_guarded_witness:
  "case run_state (dailyReportRoute s_app s_drop_report) s_team of (resp, w') \<Rightarrow>
     resp = Reply 200 ReportDeleted \<and>
     guarded_change d_id d_project d_deleted (db s_team) ''u1'' (reports (db s_team)) (reports (db w'))"
proof -
  have "fst (run_state (dailyReportRoute s_app s_drop_report) s_team) = Reply 200 ReportDeleted"
    by code_simp
  moreover have "userIDFromContext s_drop_report = ''u1''" by code_simp
  moreover have "distinct (map d_id (reports (db s_team)))" by code_simp
  ultimately show ?thesis
    using report_routes_guarded [where w = s_team and r = s_drop_report and A = s_app
        and h = "dailyReportRoute s_app"]
    by (auto split: prod.splits resp.splits)
qed

end
