(* ===== verification/Router.thy ===== *)
theory Router
  imports Services Middleware Account_Facts Project_Cover Daily_Reports Cost_Items Team Checkout Auth_Attempts Tasks_API Files
    Expense_Search
begin

text \<open>
  The routes of the API (\<open>internal/httpapi/router.go\<close>, \<open>api_routes.go\<close>) and \<open>net/http.ServeMux\<close>, which chooses
  the handler: a pattern that ends in a slash stands for every path below it, any other for itself, and the
  longest matching pattern wins; a path that is not clean is redirected. The paths of the model have no
  percent-encoding.
\<close>

section \<open>Answers of all handlers\<close>

datatype answer = NoContent | ProjectAnswer project_payload | TeamAnswer team_payload | CostAnswer cost_payload
  | ReportAnswer report_payload | FileAnswer files_payload | TaskAnswer task_payload | AuditAnswer audit_payload
  | SupportAnswer support_payload | PushAnswer push_payload | LoginAnswer login_payload | AccountAnswer account_payload
  | SessionAnswer session_payload | PlansAnswer plans_payload | StatusAnswer status_dto | CheckoutAnswer checkout_payload
  | CallbackAnswer callback_payload | StreamAnswer stream_payload | ProbeAnswer probe_payload
  | SearchAnswer search_payload

definition via :: "('p \<Rightarrow> answer) \<Rightarrow> 'p handler \<Rightarrow> answer handler" where
  "via f h r = do { x \<leftarrow> h r; ret (map_resp f x) }"

text \<open>
  What the routes need besides the state: the bank, the support providers, the parsed multipart form and
  callback of the request, and the language models.
\<close>

record ports =
  pt_bank :: bank
  pt_provider :: provider
  pt_form :: "upload_form option"
  pt_callback :: "raw option option"
  pt_ai :: ai_ports

section \<open>The routes\<close>

definition auth_routes :: "app_state \<Rightarrow> externals \<Rightarrow> ports \<Rightarrow> (string \<times> answer handler) list" where
  "auth_routes A X P =
     [(''/api/v1/push-tokens'', via PushAnswer (requireAuth A X (PushTokens A))),
      (''/api/v1/auth/session'', via SessionAnswer (requireAuth A X (CreateSession A X))),
      (''/api/v1/account'', via AccountAnswer (requireAccountDeletionAuth A X (DeleteAccount A))),
      (''/api/v1/subscriptions/status'', via StatusAnswer (requireAuth A X (SubscriptionStatus A))),
      (''/api/v1/subscriptions/checkout'', via CheckoutAnswer (requireAuth A X (SubscriptionCheckout A (pt_bank P))))]"

definition public_routes :: "app_state \<Rightarrow> externals \<Rightarrow> ports \<Rightarrow> (string \<times> answer handler) list" where
  "public_routes A X P =
     [(''/health'', via ProbeAnswer Health),
      (''/ready'', via ProbeAnswer (Ready A)),
      (''/api/v1/auth/sms/request'', via LoginAnswer (withSMSRequestRateLimit A (RequestSMSCode A X))),
      (''/api/v1/auth/sms/verify'', via LoginAnswer (withSMSVerifyRateLimit A (VerifySMSCode A X))),
      (''/api/v1/account/deletion/verify'', via AccountAnswer (withSMSVerifyRateLimit A (VerifyAccountDeletionSMSCode A X))),
      (''/api/v1/auth/session/refresh'', via SessionAnswer (RefreshSession A X)),
      (''/api/v1/auth/session/logout'', via SessionAnswer (LogoutSession A X)),
      (''/api/v1/subscriptions/plans'', via PlansAnswer (optionalAuth A X (ListPlans A))),
      (''/api/v1/payments/obank/result'', via CallbackAnswer (OBankResult A (pt_bank P) (pt_callback P)))]"

definition subscribed_routes :: "app_state \<Rightarrow> externals \<Rightarrow> ports \<Rightarrow> (string \<times> answer handler) list" where
  "subscribed_routes A X P =
     [(''/api/v1/projects'', via ProjectAnswer (requireSubscribed A X (Projects A X))),
      (''/api/v1/realtime'', via StreamAnswer (requireSubscribed A X RealtimeEvents)),
      (''/api/v1/projects/create-with-cover'', via ProjectAnswer (requireSubscribed A X (CreateProjectWithCover A X (pt_form P)))),
      (''/api/v1/projects/'', via ProjectAnswer (requireSubscribed A X (Projects A X))),
      (''/api/v1/project-members'', via TeamAnswer (requireSubscribed A X (ProjectMembers A))),
      (''/api/v1/project-members/'', via TeamAnswer (requireSubscribed A X (ProjectMember A))),
      (''/api/v1/project-invites'', via TeamAnswer (requireSubscribed A X (CreateProjectInvite A X))),
      (''/api/v1/project-invites/accept'', via TeamAnswer (requireSubscribed A X (AcceptProjectInvite A X))),
      (''/api/v1/cost-items'', via CostAnswer (requireSubscribed A X (costItemsRoute A X))),
      (''/api/v1/cost-items/'', via CostAnswer (requireSubscribed A X (costItemRoute A X))),
      (''/api/v1/expense-ai/search'', via SearchAnswer (requireSubscribed A X (ExpenseAISearch A (pt_ai P)))),
      (''/api/v1/daily-reports'', via ReportAnswer (requireSubscribed A X (dailyReportsRoute A))),
      (''/api/v1/daily-reports/'', via ReportAnswer (requireSubscribed A X (dailyReportRoute A))),
      (''/api/v1/files'', via FileAnswer (requireSubscribed A X (filesRoute A))),
      (''/api/v1/files/upload'', via FileAnswer (requireSubscribed A X (UploadFile A (pt_form P)))),
      (''/api/v1/files/download'', via FileAnswer (requireSubscribed A X (DownloadFile A))),
      (''/api/v1/files/'', via FileAnswer (requireSubscribed A X (fileRoute A))),
      (''/api/v1/tasks'', via TaskAnswer (requireSubscribed A X (tasksRoute A))),
      (''/api/v1/tasks/'', via TaskAnswer (requireSubscribed A X (taskRoute A))),
      (''/api/v1/audit-logs'', via AuditAnswer (requireSubscribed A X (AuditLogs A))),
      (''/api/v1/support/channels'', via SupportAnswer (requireSubscribed A X (SupportChannels A))),
      (''/api/v1/support/tickets'', via SupportAnswer (requireSubscribed A X (SupportTickets A (pt_provider P))))]"

definition registerRoutes :: "app_state \<Rightarrow> externals \<Rightarrow> ports \<Rightarrow> (string \<times> answer handler) list" where
  "registerRoutes A X P = public_routes A X P @ auth_routes A X P @ subscribed_routes A X P"

section \<open>The multiplexer\<close>

definition pattern_matches :: "string \<Rightarrow> string \<Rightarrow> bool" where
  "pattern_matches pat path = (if has_suffix ''/'' pat then has_prefix pat path else pat = path)"

fun best_match :: "string \<Rightarrow> (string \<times> 'h) list \<Rightarrow> (string \<times> 'h) option" where
  "best_match path [] = None"
| "best_match path ((pat, h) # rs) =
     (let rest = best_match path rs in
      if pattern_matches pat path \<and> (case rest of None \<Rightarrow> True | Some (q, _) \<Rightarrow> length q < length pat)
      then Some (pat, h) else rest)"

text \<open>\<open>cleanPath\<close> of \<open>net/http\<close>\<close>

definition clean_url_path :: "string \<Rightarrow> string" where
  "clean_url_path p0 =
     (let p = (if has_prefix ''/'' p0 then p0 else CHR ''/'' # p0); np = path_clean p in
      if has_suffix ''/'' p \<and> np \<noteq> ''/'' then np @ ''/'' else np)"

definition mux :: "(string \<times> answer handler) list \<Rightarrow> answer handler" where
  "mux routes r =
     (if clean_url_path (rq_path r) \<noteq> rq_path r then fail 301 ''moved permanently''
      else (case best_match (rq_path r) routes of
         None \<Rightarrow> fail 404 ''404 page not found''
       | Some (pat, h) \<Rightarrow> h r))"

text \<open>\<open>NewRouter\<close>: a request comes without an account and answers start without headers.\<close>

definition serve :: "app_state \<Rightarrow> externals \<Rightarrow> ports \<Rightarrow> string list \<Rightarrow> answer handler" where
  "serve A X P origins r = do {
     modify (\<lambda>w. w\<lparr>headers := []\<rparr>);
     withMiddleware A origins NoContent (mux (registerRoutes A X P)) (r\<lparr>rq_user := []\<rparr>)
   }"

end
