(* ===== verification/Router_Facts.thy ===== *)
theory Router_Facts
  imports Router Login_Facts
begin

text \<open>Who gets through to the handlers: the composition of the router, the middleware and the token checks.\<close>

section \<open>Middleware\<close>

text \<open>A response header never carries what a client made up: ids are made of safe characters.\<close>

lemma hex_char_safe: "0 \<le> d \<Longrightarrow> d < 16 \<Longrightarrow> safe_id_char (hex_char d)"
proof -
  assume "0 \<le> d" "d < 16"
  then have "d \<in> set [0..15]" by simp
  moreover have "list_all (\<lambda>d. safe_id_char (hex_char d)) [0..15]" by code_simp
  ultimately show ?thesis by (auto simp: list_all_iff simp del: set_upto)
qed

lemma hex_safe: "\<forall>b\<in>set bs. b < 256 \<Longrightarrow> list_all safe_id_char (concat (map hex_byte bs))"
  by (induction bs) (auto simp: hex_byte_def intro!: hex_char_safe)

definition base_headers :: "app_state \<Rightarrow> string list \<Rightarrow> request \<Rightarrow> (string \<times> string) list \<Rightarrow> bool" where
  "base_headers A origins r hs \<longleftrightarrow>
     map_of hs ''X-Content-Type-Options'' = Some ''nosniff'' \<and> map_of hs ''X-Frame-Options'' = Some ''DENY''
     \<and> map_of hs ''Cache-Control'' = Some ''no-store''
     \<and> (case map_of hs ''X-Request-ID'' of None \<Rightarrow> False | Some i \<Rightarrow> list_all safe_id_char i)
     \<and> (st_production_like A \<longrightarrow> map_of hs ''Strict-Transport-Security'' = Some ''max-age=31536000'')
     \<and> (case map_of hs ''Access-Control-Allow-Origin'' of None \<Rightarrow> True
        | Some x \<Rightarrow> x = get_first (rq_headers r) ''Origin'' \<and> isAllowedOrigin origins x)"

definition put_header :: "string \<Rightarrow> string \<Rightarrow> (string \<times> string) list \<Rightarrow> (string \<times> string) list" where
  "put_header k v hs = (k, v) # filter (\<lambda>(k', _). k' \<noteq> k) hs"

lemma map_of_put_header [simp]: "map_of (put_header k v hs) x = (if x = k then Some v else map_of hs x)"
  by (induction hs) (auto simp: put_header_def)

lemma wp_put_header:
  "(\<And>hs. hs = put_header k v (headers w) \<Longrightarrow> Q () (w\<lparr>headers := hs\<rparr>)) \<Longrightarrow> wp (set_header k v) Q w"
  by (simp add: wp_def set_header_def put_header_def)

text \<open>The part of the world a handler behind the middleware finds as it was.\<close>

definition same_tables :: "world \<Rightarrow> world \<Rightarrow> bool" where
  "same_tables w w' \<longleftrightarrow> db w' = db w \<and> now w' = now w"

lemma wp_newRequestID:
  assumes "\<And>i ent. list_all safe_id_char i \<Longrightarrow> Q i (w\<lparr>entropy := ent\<rparr>)"
  shows "wp newRequestID Q w"
proof -
  have d: "\<forall>b\<in>set (map (of_char :: char \<Rightarrow> nat) s). b < 256" for s by auto
  have Q: "Q (concat (map hex_byte bs)) w" if "\<forall>b\<in>set bs. b < 256" for bs
    using assms [OF hex_safe [OF that], of "entropy w"] by simp
  show ?thesis
    using Q [OF d] assms [OF hex_safe]
    by (auto simp: wp_def newRequestID_def rand_read_def read_now_def split: list.splits)
qed

lemma wp_withMiddleware:
  assumes "headers w = []"
    and "\<And>w'. same_tables w w' \<Longrightarrow> base_headers A origins r (headers w') \<Longrightarrow> rq_method r = ''OPTIONS'' \<Longrightarrow> Q (Reply 204 nc) w'"
    and "\<And>w'. same_tables w w' \<Longrightarrow> base_headers A origins r (headers w') \<Longrightarrow> rq_method r \<noteq> ''OPTIONS'' \<Longrightarrow> wp (nxt r) Q w'"
  shows "wp (withMiddleware A origins nc nxt r) Q w"
  supply wp_set_header [wps del]
  unfolding withMiddleware_def requestID_def securityHeaders_def cors_def Let_def
  by (intro wps wp_put_header wp_newRequestID)
    (rule assms(2,3); simp add: same_tables_def base_headers_def isSafeRequestID_def assms(1); fail)+

section \<open>The checks in front of the handlers\<close>

definition bearer :: "app_state \<Rightarrow> externals \<Rightarrow> request \<Rightarrow> world \<Rightarrow> uuid \<Rightarrow> bool" where
  "bearer A X r w u \<longleftrightarrow>
     (let header = get_first (rq_headers r) ''Authorization''; raw = trim_prefix ''Bearer '' header in
      has_prefix ''Bearer '' header \<and> user_by_id (db w) u \<noteq> None
      \<and> (parseAccessToken A X (now w) raw = Some u
         \<or> rq_path r = ''/api/v1/account'' \<and> parseAccountDeletionToken A X (now w) raw = Some u))"

definition subscribed :: "world \<Rightarrow> uuid \<Rightarrow> bool" where
  "subscribed w u \<longleftrightarrow> (case sub_ensure (now w) u (db w) of None \<Rightarrow> False
     | Some (st, d) \<Rightarrow> ss_status st = ''trialing'' \<or> ss_status st = ''active'')"

text \<open>Answers without any effect, and answers to an account whose plan has ended.\<close>

definition refused :: "request \<Rightarrow> answer resp \<Rightarrow> world \<Rightarrow> world \<Rightarrow> bool" where
  "refused r resp w w' \<longleftrightarrow> db w' = db w \<and> (rq_method r = ''OPTIONS'' \<and> resp = Reply 204 NoContent \<or> (\<exists>s m. resp = Error s m \<and> s \<in> {301, 401, 404, 503}))"

definition unpaid :: "answer resp \<Rightarrow> world \<Rightarrow> world \<Rightarrow> bool" where
  "unpaid resp w w' \<longleftrightarrow> (\<exists>s m. resp = Error s m) \<and> (\<exists>ss. db w' = (db w)\<lparr>subscriptions := ss\<rparr>)"

definition account_paths :: "string list" where
  "account_paths = [''/api/v1/push-tokens'', ''/api/v1/auth/session'', ''/api/v1/account'', ''/api/v1/subscriptions/status'',
     ''/api/v1/subscriptions/checkout'']"

definition public_paths :: "string list" where
  "public_paths = [''/health'', ''/ready'', ''/api/v1/auth/sms/request'', ''/api/v1/auth/sms/verify'',
     ''/api/v1/account/deletion/verify'', ''/api/v1/auth/session/refresh'', ''/api/v1/auth/session/logout'',
     ''/api/v1/subscriptions/plans'', ''/api/v1/payments/obank/result'']"

definition guarded_answer :: "app_state \<Rightarrow> externals \<Rightarrow> request \<Rightarrow> world \<Rightarrow> answer resp \<Rightarrow> world \<Rightarrow> bool" where
  "guarded_answer A X r w resp w' \<longleftrightarrow> refused r resp w w'
     \<or> (\<exists>u. bearer A X r w u \<and> (rq_path r \<in> set account_paths \<or> subscribed w u \<or> unpaid resp w w'))"

lemma wp_via: "wp (h r) (\<lambda>x. Q (map_resp f x)) w \<Longrightarrow> wp (via f h r) Q w"
  unfolding via_def by (intro wps) (auto simp: wp_return_eq elim: wp_mono)

lemma wp_any: "(\<And>x w'. Q x w') \<Longrightarrow> wp m Q w"
  by (simp add: wp_def split: prod.splits)

lemma wp_requireAuth:
  assumes "\<And>s m fs. s \<in> {401, 503} \<Longrightarrow> Q (Error s m) (w\<lparr>faults := fs\<rparr>)"
    and "\<And>u fs. bearer A X r w u \<Longrightarrow> wp (nxt (withUserID r u)) Q (w\<lparr>faults := fs\<rparr>)"
  shows "wp (requireAuth A X nxt r) Q w"
proof -
  have "Q (Error s m) w" if "s \<in> {401, 503}" for s m using assms(1) [OF that, of m "faults w"] by simp
  then show ?thesis
    unfolding requireAuth_def
    by (intro wps wp_requireActiveAccount) (auto intro!: assms simp: bearer_def)
qed

lemma wp_requireDeletionAuth:
  assumes "rq_path r = ''/api/v1/account''" "\<And>s m fs. s \<in> {401, 503} \<Longrightarrow> Q (Error s m) (w\<lparr>faults := fs\<rparr>)"
    and "\<And>u fs. bearer A X r w u \<Longrightarrow> wp (nxt (withUserID r u)) Q (w\<lparr>faults := fs\<rparr>)"
  shows "wp (requireAccountDeletionAuth A X nxt r) Q w"
proof -
  have "Q (Error s m) w" if "s \<in> {401, 503}" for s m using assms(2) [OF that, of m "faults w"] by simp
  then show ?thesis
    unfolding requireAccountDeletionAuth_def
    by (intro wps wp_requireActiveAccount) (auto intro!: assms simp: bearer_def Let_def split: option.splits)
qed

lemma user_of_withUserID: "rq_user (withUserID r u) = u"
  by (simp add: withUserID_def)

lemma wp_requireSubscribed:
  assumes "\<And>s m fs. s \<in> {401, 503} \<Longrightarrow> Q (Error s m) (w\<lparr>faults := fs\<rparr>)"
    and "\<And>u s m fs ss. bearer A X r w u \<Longrightarrow> Q (Error s m) (w\<lparr>faults := fs, db := (db w)\<lparr>subscriptions := ss\<rparr>\<rparr>)"
    and "\<And>u w'. bearer A X r w u \<Longrightarrow> subscribed w u \<Longrightarrow> wp (nxt (withUserID r u)) Q w'"
  shows "wp (requireSubscribed A X nxt r) Q w"
proof -
  have same: "Q (Error s m) (w\<lparr>faults := fs\<rparr>)" if "bearer A X r w u" for u s m fs
    using assms(2) [OF that, where s = s and m = m and fs = fs and ss = "subscriptions (db w)"] by simp
  have ended: "Q (Error s m) (w\<lparr>faults := fs, db := d\<rparr>)" if b: "bearer A X r w u" and e: "sub_ensure (now w) u (db w) = Some (st, d)" for u st d s m fs
  proof -
    obtain ss where "d = (db w)\<lparr>subscriptions := ss\<rparr>" using sub_ensure_frame [OF e] by blast
    then show ?thesis using assms(2) [OF b] by simp
  qed
  show ?thesis
    unfolding requireSubscribed_def requireCurrentSubscription_def userIDFromContext_def
    by (intro wps wp_requireAuth)
      (auto intro: assms same ended simp: subscribed_def subscriptionHTTPError_def user_of_withUserID)
qed

section \<open>The routes\<close>

text \<open>Every entry of the table behind a check gives guarded answers for the paths it stands for.\<close>

definition route_guards :: "app_state \<Rightarrow> externals \<Rightarrow> string \<times> answer handler \<Rightarrow> bool" where
  "route_guards A X e \<longleftrightarrow> (\<forall>r w. pattern_matches (fst e) (rq_path r) \<longrightarrow> wp (snd e r) (guarded_answer A X r w) w)"

lemma refused_answer: "s \<in> {301, 401, 404, 503} \<Longrightarrow> db w' = db w \<Longrightarrow> guarded_answer A X r w (Error s m) w'"
  by (auto simp: guarded_answer_def refused_def)

lemma passed_answer:
  "bearer A X r w u \<Longrightarrow> rq_path r \<in> set account_paths \<or> subscribed w u \<Longrightarrow> guarded_answer A X r w resp w'"
  by (auto simp: guarded_answer_def)

lemma ended_answer:
  "bearer A X r w u \<Longrightarrow> guarded_answer A X r w (Error s m) (w\<lparr>faults := fs, db := (db w)\<lparr>subscriptions := ss\<rparr>\<rparr>)"
  by (auto simp: guarded_answer_def unpaid_def)

lemma wp_subscribed:
  assumes "\<And>resp w'. guarded_answer A X r w (g resp) w' \<Longrightarrow> Q resp w'" "\<And>s m. g (Error s m) = Error s m"
  shows "wp (requireSubscribed A X h r) Q w"
proof (rule wp_requireSubscribed)
  show "Q (Error s m) (w\<lparr>faults := fs\<rparr>)" if "s \<in> {401, 503}" for s m fs
    using that by (auto intro!: assms(1) refused_answer simp: assms(2))
  show "Q (Error s m) (w\<lparr>faults := fs, db := (db w)\<lparr>subscriptions := ss\<rparr>\<rparr>)" if "bearer A X r w u" for u s m fs ss
    using ended_answer [OF that] assms by simp
  show "wp (h (withUserID r u)) Q w'" if "bearer A X r w u" "subscribed w u" for u w'
    using that by (intro wp_any assms(1) passed_answer) auto
qed

lemma guards_subscribed: "route_guards A X (pat, via f (requireSubscribed A X h))"
  unfolding route_guards_def by (auto intro!: wp_via wp_subscribed [where g = "map_resp f"])

lemma guards_auth: "pat \<in> set account_paths \<Longrightarrow> \<not> has_suffix ''/'' pat \<Longrightarrow> route_guards A X (pat, via f (requireAuth A X h))"
proof -
  assume p: "pat \<in> set account_paths" "\<not> has_suffix ''/'' pat"
  have "wp (via f (requireAuth A X h) r) (guarded_answer A X r w) w" if "rq_path r = pat" for r w
    by (rule wp_via, rule wp_requireAuth) (use p that in \<open>auto intro!: wp_any refused_answer intro: passed_answer\<close>)
  then show ?thesis using p by (simp add: route_guards_def pattern_matches_def)
qed

lemma guards_deletion: "route_guards A X (''/api/v1/account'', via f (requireAccountDeletionAuth A X h))"
proof -
  have s: "\<not> has_suffix ''/'' ''/api/v1/account''" and p: "''/api/v1/account'' \<in> set account_paths" by code_simp+
  have "wp (via f (requireAccountDeletionAuth A X h) r) (guarded_answer A X r w) w" if "rq_path r = ''/api/v1/account''" for r w
    by (rule wp_via, rule wp_requireDeletionAuth [OF that])
      (use p that in \<open>auto intro!: wp_any refused_answer intro: passed_answer\<close>)
  then show ?thesis using s by (simp add: route_guards_def pattern_matches_def)
qed

lemma subscribed_guard: "e \<in> set (subscribed_routes A X P) \<Longrightarrow> route_guards A X e"
  by (auto simp: subscribed_routes_def guards_subscribed)

lemma auth_guard: "e \<in> set (auth_routes A X P) \<Longrightarrow> route_guards A X e"
proof -
  have "list_all (\<lambda>p. \<not> has_suffix ''/'' p) account_paths" by code_simp
  then show "e \<in> set (auth_routes A X P) \<Longrightarrow> route_guards A X e"
    by (auto simp: auth_routes_def guards_deletion account_paths_def intro!: guards_auth)
qed

lemma public_only: "e \<in> set (public_routes A X P) \<Longrightarrow> pattern_matches (fst e) path \<Longrightarrow> path \<in> set public_paths"
proof -
  have "list_all (\<lambda>p. \<not> has_suffix ''/'' p) public_paths" by code_simp
  then show "e \<in> set (public_routes A X P) \<Longrightarrow> pattern_matches (fst e) path \<Longrightarrow> path \<in> set public_paths"
    by (auto simp: public_routes_def public_paths_def pattern_matches_def)
qed

lemma best_match_in: "best_match path rs = Some e \<Longrightarrow> e \<in> set rs \<and> pattern_matches (fst e) path"
  by (induction path rs rule: best_match.induct) (auto simp: Let_def split: if_splits option.splits)

lemma wp_mux:
  assumes "rq_path r \<notin> set public_paths"
  shows "wp (mux (registerRoutes A X P) r) (guarded_answer A X r w) w"
proof (cases "best_match (rq_path r) (registerRoutes A X P)")
  case None
  then show ?thesis unfolding mux_def by (auto simp: wp_return_eq intro!: refused_answer)
next
  case (Some e)
  then have m: "pattern_matches (fst e) (rq_path r)" "e \<in> set (registerRoutes A X P)" using best_match_in by blast+
  then have "route_guards A X e"
    using public_only [OF _ m(1), of A X P] assms subscribed_guard [of e A X P] auth_guard [of e A X P]
    by (auto simp: registerRoutes_def simp del: split_paired_All)
  then have "wp (snd e r) (guarded_answer A X r w) w" using m(1) by (simp add: route_guards_def)
  then show ?thesis
    unfolding mux_def using Some by (cases e) (auto simp: wp_return_eq intro!: refused_answer)
qed

lemma guarded_same: "same_tables w w' \<Longrightarrow> guarded_answer A X r w' = guarded_answer A X r w"
  by (auto simp: fun_eq_iff guarded_answer_def same_tables_def refused_def bearer_def subscribed_def unpaid_def)

section \<open>Properties\<close>

text \<open>
  C13. The whole router. Outside the nine public paths a request has an effect, or is answered with
  data, only when it carries the valid token of an account that exists (on the account path a
  deletion token will do); every other answer is an error or the empty answer to a preflight request and
  leaves the tables alone. Except on the five account paths the plan of this account must be current,
  or the answer is an error and nothing but the subscription rows may have changed.
\<close>

theorem serve_guarded:
  assumes "rq_path r \<notin> set public_paths"
  shows "case run_state (serve A X P origins r) w of (resp, w') \<Rightarrow>
    refused r resp w w' \<or> (\<exists>u. bearer A X r w u \<and> (rq_path r \<in> set account_paths \<or> subscribed w u \<or> unpaid resp w w'))"
proof -
  let ?r = "r\<lparr>rq_user := []\<rparr>" and ?w = "w\<lparr>headers := []\<rparr>"
  have p: "rq_path ?r \<notin> set public_paths" using assms by simp
  have "wp (withMiddleware A origins NoContent (mux (registerRoutes A X P)) ?r) (guarded_answer A X ?r ?w) ?w"
  proof (rule wp_withMiddleware)
    fix w' assume s: "same_tables ?w w'"
    show "guarded_answer A X ?r ?w (Reply 204 NoContent) w'" if "rq_method ?r = ''OPTIONS''"
      using s that by (simp add: guarded_answer_def refused_def same_tables_def)
    show "wp (mux (registerRoutes A X P) ?r) (guarded_answer A X ?r ?w) w'"
      using wp_mux [OF p, of A X P w'] guarded_same [OF s] by simp
  qed simp
  then have "wp (serve A X P origins r) (guarded_answer A X ?r ?w) w"
    unfolding serve_def by (intro wps) simp
  moreover have "guarded_answer A X ?r ?w = guarded_answer A X r w"
    by (auto simp: fun_eq_iff guarded_answer_def refused_def bearer_def subscribed_def unpaid_def)
  ultimately show ?thesis by (simp add: wp_def guarded_answer_def)
qed

theorem serve_guarded_witness:
  "\<forall>P. \<exists>s m w'. run_state (serve s_app s_ext P [] (s_req ''POST'' ''/api/v1/tasks'' JNull)) s_world = (Error s m, w')
     \<and> db w' = db s_world"
proof
  fix P
  let ?r = "s_req ''POST'' ''/api/v1/tasks'' JNull"
  obtain resp w' where run: "run_state (serve s_app s_ext P [] ?r) s_world = (resp, w')" by fastforce
  have "rq_path ?r \<notin> set public_paths" by code_simp
  note guard = serve_guarded [where A = s_app and X = s_ext and P = P and origins = "[]" and w = s_world, OF this]
  have "\<not> has_prefix ''Bearer '' []" by code_simp
  then have "\<not> bearer s_app s_ext ?r s_world u" for u by (simp add: bearer_def s_req_def get_first_def)
  moreover have "rq_method ?r \<noteq> ''OPTIONS''" by code_simp
  ultimately show "\<exists>s m w'. run_state (serve s_app s_ext P [] ?r) s_world = (Error s m, w') \<and> db w' = db s_world"
    using guard by (auto simp: refused_def run)
qed

end
