(* ===== verification/Spec2Isabelle.thy ===== *)
theory Spec2Isabelle
  imports Session_Overlap Team_Facts Attempt_Facts Payment_Facts Download_Facts Config_Facts Services_Facts
    Expense_Facts Router_Facts
begin

text \<open>
  The Go backend of OnlineProrab (\<open>src/backend\<close>), an HTTP service with which building contractors keep projects,
  teams, tasks, costs, daily reports and files, log in by SMS, and pay for a plan. This development translates its
  handlers, SQL statements, object stores, background worker, configuration and router into executable functions and proves what
  makes them correct. Every definition has the name of the function it models, or, for a SQL statement, the name
  of the verb and of the table (\<open>sel_\<close>, \<open>ins_\<close>, \<open>upd_\<close>, \<open>del_\<close>); \<open>PROJECT.json\<close> maps each to its lines.

  \<^bold>\<open>The world.\<close> \<open>World\<close> has the tables as lists of records in the record \<open>db\<close> (columns as the migrations declare
  them), the \<open>app_state\<close> that \<open>state.go\<close> installs, and the state \<open>world\<close> of a handler: committed tables, the open transaction, the
  clock, the stored objects, the realtime hub, headers of the answer, what was sent, and the decisions of the environment still to come
  (random bytes, keys, and failures of database and other calls). A handler is a value of the library's state
  monad that returns \<open>Error status message\<close> or \<open>Reply status payload\<close>. A statement is a function on \<open>db\<close> that a
  runner executes on the pool or on the transaction; a failing one leaves the tables as they were and, inside a transaction,
  aborts it, as PostgreSQL does, so that a commit afterwards fails. Unique keys, foreign keys, checks and column bounds that can refuse a
  statement are part of the statement. \<open>Monad_Logic\<close> is the calculus of these handlers: preservation (collection \<open>pres\<close>) and
  weakest preconditions (\<open>wps\<close>), with one rule per runner, so that a proof about a handler follows its branches.

  \<^bold>\<open>Groundwork.\<close> \<open>Prelude\<close>: Go's string functions on byte strings, lists as tables. \<open>Money\<close>: \<open>float64\<close> amounts.
  \<open>Phones\<close>, \<open>Netip\<close>, \<open>Url\<close>, \<open>Calendar\<close>: phone numbers, addresses and prefixes, \<open>url.Parse\<close>, the civil
  calendar (C30). \<open>Http\<close>: requests, JSON bodies, answers. \<open>Samples\<close>: the concrete
  world and the instances of the external functions on which theorems with hypotheses are instantiated.

  \<^bold>\<open>Projects and their contents.\<close> \<open>Realtime\<close> (hub and events), \<open>Permissions\<close> (roles and the role check of the
  routes), \<open>Subscriptions\<close> (plans and limits), \<open>Projects\<close>, \<open>Project_Cover\<close>, \<open>Team\<close>, \<open>Tasks_API\<close>, \<open>Cost_Items\<close>,
  \<open>Daily_Reports\<close>, \<open>Expense_Search\<close>. \<open>Integrity\<close> states the invariant of the identity tables; its locale \<open>core_invariant\<close>
  gives what follows for any invariant of these tables. \<open>Entities\<close> has the locales that the three row types of a project
  share (rows found by key and soft-deleted; the resolver behind the role check), each interpreted on the model.
  \<open>Project_Facts\<close> and \<open>Team_Facts\<close> (C1 to C7), the entity theories (C8 to C12) and
  \<open>Expense_Facts\<close> (C25) show who may do what, that a failed request changes nothing, and what a successful one stores or shows.

  \<^bold>\<open>Accounts.\<close> \<open>Tokens\<close> (C14), \<open>Sessions\<close> (C15 to C17), \<open>Session_Overlap\<close> (C18), \<open>Login\<close> and \<open>Login_Facts\<close> (C19 to C22),
  \<open>Account\<close> and \<open>Account_Facts\<close> (C23, C24), \<open>Auth_Attempts\<close> and \<open>Attempt_Facts\<close> (rate limits and pruning, C26 to C29). The
  locale \<open>limited_route\<close> is the contract of a handler behind a limit; the three SMS routes interpret it. The locale
  \<open>expiry\<close> is the loop of the pruner, interpreted on both tables it prunes.

  \<^bold>\<open>Payments.\<close> \<open>Obank\<close> is what the client accepts from the bank (C31), \<open>Checkout\<close> the handlers and statements,
  \<open>Checkout_Facts\<close> an abstract ledger (what was ordered, the phase of each order, the plan it granted) with its step relation, and
  \<open>Payment_Facts\<close> the refinement of handlers and callbacks to it and what they answer (C32 to C35).

  \<^bold>\<open>Files.\<close> \<open>Storage_Keys\<close> (C36), \<open>Object_Store\<close> (the local and the S3 store; the locale \<open>object_store_laws\<close> is the contract
  of both), \<open>Files\<close>, \<open>Deletion_Worker\<close>; \<open>Worker_Facts\<close> shows that a round of the worker ends and what it does (C37), \<open>Files_Facts\<close> and
  \<open>Storage_Facts\<close> that rows, outbox and objects stay in agreement under any interleaving of requests and single
  worker steps (C38), \<open>Download_Facts\<close> that the stored bytes are served (C39).

  \<^bold>\<open>Process and routes.\<close> \<open>Config\<close> and \<open>Config_Facts\<close>: environment, validation and start (C40). \<open>Services\<close> and
  \<open>Services_Facts\<close>: audit log, device tokens, support tickets, opening of event streams, probes. \<open>Middleware\<close>, \<open>Router\<close> and \<open>Router_Facts\<close>:
  request ids, headers, CORS, the table of all routes and their choice, and who gets through to them (C13).

  \<^bold>\<open>Loops.\<close> Loops over lists are structural recursion. \<open>pruneAuthHistory\<close> repeats a batch until one is not full; its fuel is one
  more than the rows of the table, and each full batch removes at least one row (C28). The worker repeats a batch until one is
  empty or the context ends; every batch of a round takes rows that were due and puts them beyond the clock, so fuel above the number of due rows is
  enough, and more fuel changes nothing (C37). \<open>upload_parts\<close> ends because each part takes bytes of the rest.

  \<^bold>\<open>Concurrency.\<close> A handler runs without another request in between, except where the code lets one matter: the creations of
  sessions, which take no lock, overlap freely in \<open>Session_Overlap\<close>, and \<open>storage_step\<close> mixes requests with the single steps of any
  number of workers. Every other theorem speaks of requests that
  follow each other; the code takes row locks (\<open>FOR UPDATE\<close>) on the codes, sessions, orders, invitations, projects, subscriptions and accounts
  its transactions decide on, and advisory locks around the rate limits, so that the model's step is one of a serial order there. Timeouts are failures of the call. A call that reports a failure has
  taken no effect, with two exceptions: calls of the S3 store may land without an answer, and in \<open>storage_step\<close> the row of an upload may take
  effect although its insertion or commit was reported as failed (\<open>late_row\<close>).

  \<^bold>\<open>Parameters.\<close> Code outside the repository is a parameter of the definitions that use it, with named hypotheses where a theorem needs
  one: the JWT library (\<open>jwt_ok\<close>), SHA-256, the transport and the HMAC of the bank, the support providers, the language
  models with lower-casing beyond ASCII, the length of a JSON encoding and the JSON tokenizer of their answers, \<open>pgxpool.ParseConfig\<close>, and the contents of \<open>.env\<close>.
  SMS providers, SDK calls and the database connection are external decisions that succeed or fail. The parsed multipart form and the
  decoded JSON body are part of the request. Keys and upload names drawn at random are inputs; those of uploads
  are assumed fresh.

  \<^bold>\<open>Not modelled.\<close> Bodies over the size limits and panics (\<open>limitBody\<close>, \<open>recoverer\<close>), logging, the loop that writes an
  event stream and the texts of push messages (output only); the HTTP requests to SMS, push, support and AI services with their prompts;
  the tickers that repeat a round of the worker and of the pruner, and the shutdown of the server; ranges and conditional requests of
  \<open>http.ServeContent\<close>; the return URLs in an invoice request; percent-encoded paths and queries longer than a URL may be; texts of storage errors; the
  migrations as such (their constraints, foreign-key policy and trigger are in the statements); the command
  \<open>storage-migrate\<close>; the table \<open>idempotency_keys\<close>, which no handler uses. Times are UTC, as the process runs. Keys of rows are canonical UUID strings, so checks of their form always
  succeed. The entropy estimate of signing keys is decided on exact numbers.
\<close>

end
